(* ===== verification/Prelude.thy ===== *)
theory Prelude
  imports Complex_Main "HOL-Library.AList" "HOL-Library.Sublist"
begin

text \<open>
  Shared vocabulary of the development: Python values as HOL values.

  \<^item> A Python \<open>dict\<close> whose iteration order the code observes is an association list in
    insertion order (\<open>dict_set\<close> keeps the position of an existing key, as CPython does).
  \<^item> A Python \<open>str\<close> is a \<open>string\<close>; a \<open>char\<close> stands for the Unicode code point of the same
    number, so the model covers the code points 0..255 (Latin-1).  \<open>str.lower\<close>,
    \<open>str.strip\<close> and the truth of \<open>p in s\<close> are written out for them.
  \<^item> \<open>float\<close> values (time stamps, token counts, weights) are exact rationals: rounding is
    not modelled.
  \<^item> A value of type \<open>Any\<close> that came from JSON is a \<open>json\<close>.
  \<^item> A Python \<open>set\<close> that the code iterates over is a list together with an iteration order
    that the interpreter chooses: the parameter \<open>iter\<close> with the hypothesis \<open>set_iteration iter\<close>.
\<close>

named_theorems dict_simps "lookup after update and deletion in a dict"

type_synonym ('k, 'v) dict = "('k \<times> 'v) list"

datatype json =
    JNull
  | JBool bool
  | JInt int
  | JFloat rat
  | JStr string
  | JArr "json list"
  | JObj "(string \<times> json) list"

section \<open>Dictionaries\<close>

abbreviation dict_get :: "('k, 'v) dict \<Rightarrow> 'k \<Rightarrow> 'v option" where
  "dict_get m k \<equiv> map_of m k"

abbreviation dict_set :: "'k \<Rightarrow> 'v \<Rightarrow> ('k, 'v) dict \<Rightarrow> ('k, 'v) dict" where
  "dict_set \<equiv> AList.update"

abbreviation dict_pop :: "'k \<Rightarrow> ('k, 'v) dict \<Rightarrow> ('k, 'v) dict" where
  "dict_pop \<equiv> AList.delete"

definition dict_keys :: "('k, 'v) dict \<Rightarrow> 'k list" where
  "dict_keys m = map fst m"

definition dict_setdefault :: "'k \<Rightarrow> 'v \<Rightarrow> ('k, 'v) dict \<Rightarrow> ('k, 'v) dict" where
  "dict_setdefault k v m = (if k \<in> set (dict_keys m) then m else m @ [(k, v)])"

lemma dict_get_set [simp, dict_simps]:
  "dict_get (dict_set k v m) k' = (if k = k' then Some v else dict_get m k')"
  by (simp add: update_conv')

lemma dict_get_pop [simp, dict_simps]:
  "dict_get (dict_pop k m) k' = (if k = k' then None else dict_get m k')"
  by (simp add: delete_conv')

lemma distinct_dict_set [simp, intro]:
  "distinct (map fst m) \<Longrightarrow> distinct (map fst (dict_set k v m))"
  by (rule distinct_update)

lemma distinct_dict_pop [simp, intro]:
  "distinct (map fst m) \<Longrightarrow> distinct (map fst (dict_pop k m))"
  by (rule distinct_delete)

lemma set_keys_dict_set [simp]:
  "fst ` set (dict_set k v m) = insert k (fst ` set m)"
  by (induction m) auto

lemma set_keys_dict_pop [simp]:
  "fst ` set (dict_pop k m) = fst ` set m - {k}"
  by (auto simp: AList.delete_eq)

lemma dict_set_new: "k \<notin> fst ` set m \<Longrightarrow> dict_set k v m = m @ [(k, v)]"
  by (induction m) auto

lemma dict_set_same_keys:
  "k \<in> fst ` set m \<Longrightarrow> map fst (dict_set k v m) = map fst m"
  by (induction m) auto

lemma length_dict_set:
  "length (dict_set k v m) = (if k \<in> fst ` set m then length m else Suc (length m))"
  by (induction m) auto

lemma dict_get_setdefault [simp, dict_simps]:
  "dict_get (dict_setdefault k v m) k' =
     (if k = k' \<and> dict_get m k = None then Some v else dict_get m k')"
proof (cases "k \<in> fst ` set m")
  case True
  then have "dict_get m k \<noteq> None" by (simp only: map_of_eq_None_iff not_not)
  with True show ?thesis by (auto simp: dict_setdefault_def dict_keys_def)
next
  case False
  then have "dict_get m k = None" by (simp add: map_of_eq_None_iff)
  with False show ?thesis
    by (auto simp: dict_setdefault_def dict_keys_def map_add_def split: option.split)
qed

lemma distinct_dict_setdefault [simp, intro]:
  "distinct (map fst m) \<Longrightarrow> distinct (map fst (dict_setdefault k v m))"
  by (auto simp: dict_setdefault_def dict_keys_def)

lemma dict_get_in_keys: "dict_get m k = Some v \<Longrightarrow> k \<in> fst ` set m"
  by (force dest: map_of_SomeD)

section \<open>Iterating over a set\<close>

text \<open>
  \<open>for x in s\<close> over a Python set visits every element once, in an order that depends on
  hashes.  \<open>iter\<close> is that order as a function of the set's elements.
\<close>

definition set_iteration :: "('a list \<Rightarrow> 'a list) \<Rightarrow> bool" where
  "set_iteration iter \<longleftrightarrow> (\<forall>xs. distinct (iter xs) \<and> set (iter xs) = set xs)"

lemma set_iterationD:
  "set_iteration iter \<Longrightarrow> set (iter xs) = set xs"
  "set_iteration iter \<Longrightarrow> distinct (iter xs)"
  by (simp_all add: set_iteration_def)

lemma set_iteration_remdups: "set_iteration remdups"
  by (simp add: set_iteration_def)

section \<open>Strings\<close>

definition py_lower_char :: "char \<Rightarrow> char" where
  "py_lower_char c =
     (let n = of_char c :: nat
      in if 65 \<le> n \<and> n \<le> 90 \<or> 192 \<le> n \<and> n \<le> 214 \<or> 216 \<le> n \<and> n \<le> 222
         then char_of (n + 32) else c)"

definition py_lower :: "string \<Rightarrow> string" where
  "py_lower s = map py_lower_char s"

definition py_isspace :: "char \<Rightarrow> bool" where
  "py_isspace c = (let n = of_char c :: nat
     in 9 \<le> n \<and> n \<le> 13 \<or> 28 \<le> n \<and> n \<le> 32 \<or> n = 133 \<or> n = 160)"

definition py_lstrip :: "string \<Rightarrow> string" where
  "py_lstrip s = dropWhile py_isspace s"

definition py_strip :: "string \<Rightarrow> string" where
  "py_strip s = rev (dropWhile py_isspace (rev (py_lstrip s)))"

definition py_contains :: "string \<Rightarrow> string \<Rightarrow> bool" where
  "py_contains p s = sublist p s"

definition py_startswith :: "string \<Rightarrow> string \<Rightarrow> bool" where
  "py_startswith s p = prefix p s"

fun show_nat :: "nat \<Rightarrow> string" where
  "show_nat n = (if n < 10 then [char_of (48 + n)] else show_nat (n div 10) @ [char_of (48 + n mod 10)])"

declare show_nat.simps [simp del]

definition show_int :: "int \<Rightarrow> string" where
  "show_int i = (if i < 0 then ''-'' @ show_nat (nat (- i)) else show_nat (nat i))"

fun join_with :: "string \<Rightarrow> string list \<Rightarrow> string" where
  "join_with sep [] = []"
| "join_with sep [x] = x"
| "join_with sep (x # y # xs) = x @ sep @ join_with sep (y # xs)"

text \<open>\<open>repr\<close> of a string: the quotes, and the escapes of the characters that are not printable.\<close>

definition hex_digit :: "nat \<Rightarrow> char" where
  "hex_digit n = char_of (if n < 10 then 48 + n else 87 + n)"

definition py_repr_char :: "char \<Rightarrow> char \<Rightarrow> string" where
  "py_repr_char q c =
     (let n = of_char c :: nat; bs = CHR 0x5C
      in if c = q \<or> c = bs then [bs, c]
         else if n = 9 then [bs, CHR ''t''] else if n = 10 then [bs, CHR ''n'']
         else if n = 13 then [bs, CHR ''r'']
         else if n < 32 \<or> 127 \<le> n \<and> n \<le> 160 \<or> n = 173
              then [bs, CHR ''x'', hex_digit (n div 16), hex_digit (n mod 16)]
         else [c])"

definition py_repr :: "string \<Rightarrow> string" where
  "py_repr s =
     (let q = (if CHR 0x27 \<in> set s \<and> CHR 0x22 \<notin> set s then CHR 0x22 else CHR 0x27)
      in q # concat (map (py_repr_char q) s) @ [q])"

text \<open>A text as \<open>json.dumps\<close> writes it, with its ASCII escapes.\<close>

definition json_char :: "char \<Rightarrow> string" where
  "json_char c =
     (let n = of_char c :: nat; bs = CHR 0x5C
      in if c = CHR 0x22 \<or> c = bs then [bs, c]
         else if n = 8 then [bs, CHR ''b''] else if n = 9 then [bs, CHR ''t''] else if n = 10 then [bs, CHR ''n'']
         else if n = 12 then [bs, CHR ''f''] else if n = 13 then [bs, CHR ''r'']
         else if n < 32 \<or> 128 \<le> n then bs # ''u00'' @ [hex_digit (n div 16), hex_digit (n mod 16)]
         else [c])"

definition json_text :: "string \<Rightarrow> string" where
  "json_text s = CHR 0x22 # concat (map json_char s) @ [CHR 0x22]"

lemma py_strip_subset: "set (py_strip s) \<subseteq> set s"
  by (auto simp: py_strip_def py_lstrip_def dest!: set_dropWhileD)

lemma py_strip_id:
  assumes "s \<noteq> []" "\<not> py_isspace (hd s)" "\<not> py_isspace (last s)"
  shows "py_strip s = s"
proof -
  have "dropWhile py_isspace s = s"
    using assms(1,2) by (cases s) auto
  moreover have "dropWhile py_isspace (rev s) = rev s"
    using assms(1,3) by (cases s rule: rev_cases) auto
  ultimately show ?thesis by (simp add: py_strip_def py_lstrip_def)
qed

lemma dropWhile_hd: "dropWhile P s \<noteq> [] \<Longrightarrow> \<not> P (hd (dropWhile P s))"
  by (rule hd_dropWhile)

lemma py_strip_ends:
  assumes "py_strip s \<noteq> []"
  shows "\<not> py_isspace (hd (py_strip s))" "\<not> py_isspace (last (py_strip s))"
proof -
  let ?l = "dropWhile py_isspace s"
  let ?r = "dropWhile py_isspace (rev ?l)"
  have eq: "py_strip s = rev ?r" by (simp add: py_strip_def py_lstrip_def)
  with assms have ne: "?r \<noteq> []" by simp
  show "\<not> py_isspace (last (py_strip s))"
    using dropWhile_hd [OF ne] by (simp add: eq last_rev)
  obtain ys where ys: "rev ?l = ys @ ?r" by (metis takeWhile_dropWhile_id)
  then have l: "?l = rev ?r @ rev ys" by (metis rev_append rev_rev_ident)
  have nr: "rev ?r \<noteq> []" unfolding rev_is_Nil_conv by (rule ne)
  from l have "hd ?l = hd (rev ?r @ rev ys)" by (rule arg_cong)
  also have "\<dots> = hd (rev ?r)" by (rule hd_append2 [OF nr])
  finally have "hd (rev ?r) = hd ?l" by (rule sym)
  moreover have "?l \<noteq> []" using l nr by (metis append_is_Nil_conv)
  ultimately show "\<not> py_isspace (hd (py_strip s))"
    using dropWhile_hd [of py_isspace s] by (simp add: eq)
qed

lemma py_strip_idem [simp]: "py_strip (py_strip s) = py_strip s"
proof (cases "py_strip s = []")
  case True
  have "py_strip [] = []" by (simp add: py_strip_def py_lstrip_def)
  with True show ?thesis by simp
next
  case False
  then show ?thesis using py_strip_ends [OF False] by (rule py_strip_id)
qed

text \<open>Decimal notation is injective, so identifiers made from counters do not collide.\<close>

lemma show_nat_nonempty: "show_nat n \<noteq> []"
  by (subst show_nat.simps) simp

lemma digit_char_inj: "a < 10 \<Longrightarrow> b < 10 \<Longrightarrow> (char_of (48 + a :: nat) :: char) = char_of (48 + b) \<longleftrightarrow> a = b"
  by (auto simp: char_of_eq_iff of_char_of take_bit_eq_mod dest!: arg_cong [where f = "of_char :: char \<Rightarrow> nat"])

lemma show_nat_small: "n < 10 \<Longrightarrow> show_nat n = [char_of (48 + n)]"
  by (subst show_nat.simps) simp

lemma show_nat_large: "10 \<le> n \<Longrightarrow> show_nat n = show_nat (n div 10) @ [char_of (48 + n mod 10)]"
  by (subst show_nat.simps) simp

lemma show_nat_single: "show_nat n = [c] \<Longrightarrow> n < 10"
  using show_nat_nonempty [of "n div 10"] by (cases "n < 10") (simp_all add: show_nat_large [of n])

lemma show_nat_inj: "show_nat a = show_nat b \<Longrightarrow> a = b"
proof (induction a arbitrary: b rule: show_nat.induct)
  case (1 a)
  show ?case
  proof (cases "a < 10 \<or> b < 10")
    case True
    have "a < 10 \<and> b < 10"
    proof (cases "a < 10")
      case True
      with "1.prems" have "show_nat b = [char_of (48 + a)]" by (simp add: show_nat_small)
      with True show ?thesis by (blast dest: show_nat_single)
    next
      case False
      with True "1.prems" have "show_nat a = [char_of (48 + b)]" by (simp add: show_nat_small)
      with False show ?thesis by (blast dest: show_nat_single)
    qed
    with "1.prems" show ?thesis by (simp add: show_nat_small digit_char_inj)
  next
    case False
    with "1.prems" have "show_nat (a div 10) = show_nat (b div 10)"
      and "char_of (48 + a mod 10) = (char_of (48 + b mod 10) :: char)"
      by (simp_all add: show_nat_large [of a] show_nat_large [of b])
    with False "1.IH" have "a div 10 = b div 10" "a mod 10 = b mod 10"
      by (simp_all add: digit_char_inj)
    then show ?thesis by (metis div_mult_mod_eq)
  qed
qed

section \<open>Integers in decimal\<close>

text \<open>Python's \<open>int(s)\<close>: surrounding white space, a sign, digits with single underscores between.\<close>

definition is_digit :: "char \<Rightarrow> bool" where
  "is_digit c = (let n = of_char c :: nat in 48 \<le> n \<and> n \<le> 57)"

definition digit_val :: "char \<Rightarrow> int" where
  "digit_val c = int (of_char c) - 48"

fun digits_val :: "int \<Rightarrow> string \<Rightarrow> int option" where
  "digits_val acc [] = Some acc"
| "digits_val acc (c # cs) =
     (if is_digit c then digits_val (10 * acc + digit_val c) cs
      else if c = CHR ''_'' \<and> cs \<noteq> [] \<and> is_digit (hd cs) then digits_val acc cs
      else None)"

definition unsigned_int :: "string \<Rightarrow> int option" where
  "unsigned_int s = (if s \<noteq> [] \<and> is_digit (hd s) then digits_val 0 s else None)"

definition signed_int :: "string \<Rightarrow> int option" where
  "signed_int s =
     (case s of
        [] \<Rightarrow> None
      | c # cs \<Rightarrow> if c = CHR ''-'' then map_option uminus (unsigned_int cs)
                else if c = CHR ''+'' then unsigned_int cs
                else unsigned_int (c # cs))"

definition py_int :: "string \<Rightarrow> int option" where
  "py_int raw = signed_int (py_strip raw)"

text \<open>\<open>int\<close> of a \<open>bytes\<close> object skips ASCII white space only.\<close>

definition is_byte_space :: "char \<Rightarrow> bool" where
  "is_byte_space c = (let n = of_char c :: nat in 9 \<le> n \<and> n \<le> 13 \<or> n = 32)"

definition bytes_int :: "string \<Rightarrow> int option" where
  "bytes_int raw = signed_int (rev (dropWhile is_byte_space (rev (dropWhile is_byte_space raw))))"

lemma digit_of_nat:
  assumes "d < 10"
  shows "is_digit (char_of (48 + d :: nat))" "digit_val (char_of (48 + d :: nat)) = int d"
    "\<not> is_byte_space (char_of (48 + d :: nat))"
    "char_of (48 + d :: nat) \<noteq> CHR ''-''" "char_of (48 + d :: nat) \<noteq> CHR ''+''"
proof -
  have oc: "of_char (char_of (48 + d :: nat) :: char) = (48 + d :: nat)"
    using assms by (simp add: of_char_of take_bit_eq_mod)
  then show "is_digit (char_of (48 + d :: nat))" "digit_val (char_of (48 + d :: nat)) = int d"
    "\<not> is_byte_space (char_of (48 + d :: nat))"
    using assms by (simp_all add: is_digit_def digit_val_def is_byte_space_def oc)
  have "of_char (CHR ''-'') = (45 :: nat)" "of_char (CHR ''+'') = (43 :: nat)" by simp_all
  with oc show "char_of (48 + d :: nat) \<noteq> CHR ''-''" "char_of (48 + d :: nat) \<noteq> CHR ''+''"
    by (metis add_diff_cancel_left' nat_le_linear not_add_less1 numeral_less_iff semiring_norm
        less_imp_le linorder_not_le order.trans)+
qed

lemma digits_val_append:
  "list_all is_digit xs \<Longrightarrow> is_digit d \<Longrightarrow>
     digits_val acc (xs @ [d]) = map_option (\<lambda>v. 10 * v + digit_val d) (digits_val acc xs)"
  by (induction xs arbitrary: acc) auto

lemma show_nat_digits:
  "list_all is_digit (show_nat n) \<and> digits_val 0 (show_nat n) = Some (int n) \<and>
   list_all (\<lambda>c. \<not> is_byte_space c) (show_nat n)"
proof (induction n rule: less_induct)
  case (less n)
  show ?case
  proof (cases "n < 10")
    case True
    then show ?thesis by (simp add: show_nat_small digit_of_nat)
  next
    case False
    then have IH: "list_all is_digit (show_nat (n div 10))"
      "digits_val 0 (show_nat (n div 10)) = Some (int (n div 10))"
      "list_all (\<lambda>c. \<not> is_byte_space c) (show_nat (n div 10))"
      using less.IH [of "n div 10"] by auto
    have d: "n mod 10 < 10" by simp
    have "10 * int (n div 10) + int (n mod 10) = int n" by presburger
    with False IH show ?thesis
      by (simp add: show_nat_large digits_val_append digit_of_nat [OF d])
  qed
qed

lemma dropWhile_none: "list_all (\<lambda>c. \<not> P c) xs \<Longrightarrow> dropWhile P xs = xs"
  by (cases xs) auto

lemma bytes_int_no_space:
  assumes "list_all (\<lambda>c. \<not> is_byte_space c) s"
  shows "bytes_int s = signed_int s"
proof -
  have "dropWhile is_byte_space s = s" "dropWhile is_byte_space (rev s) = rev s"
    using assms by (intro dropWhile_none; simp)+
  then show ?thesis by (simp add: bytes_int_def)
qed

lemma signed_int_nat: "signed_int (show_nat n) = Some (int n)"
proof (cases "show_nat n")
  case Nil
  then show ?thesis by (simp add: show_nat_nonempty)
next
  case (Cons c cs)
  then have "is_digit c" "digits_val 0 (c # cs) = Some (int n)"
    using show_nat_digits [of n] by auto
  moreover from this(1) have "c \<noteq> CHR ''-''" "c \<noteq> CHR ''+''" by (auto simp: is_digit_def)
  ultimately show ?thesis by (simp add: signed_int_def Cons unsigned_int_def)
qed

lemma bytes_int_show: "bytes_int (show_int n) = Some n"
proof (cases "n < 0")
  case True
  let ?s = "show_nat (nat (- n))"
  have "list_all (\<lambda>c. \<not> is_byte_space c) (CHR ''-'' # ?s)"
    using show_nat_digits [of "nat (- n)"] by (simp add: is_byte_space_def)
  moreover have "unsigned_int ?s = Some (int (nat (- n)))"
    using show_nat_digits [of "nat (- n)"] show_nat_nonempty [of "nat (- n)"]
    by (cases ?s) (auto simp: unsigned_int_def)
  ultimately show ?thesis
    using True by (simp add: bytes_int_no_space show_int_def signed_int_def)
next
  case False
  then show ?thesis
    using show_nat_digits [of "nat n"] by (simp add: bytes_int_no_space show_int_def signed_int_nat)
qed

section \<open>Text files\<close>

text \<open>
  What reading a file in text mode makes of its line ends (\<open>newline=None\<close>, the default of \<open>open\<close> and of
  \<open>Path.read_text\<close>): a carriage return, with the line feed after it if there is one, becomes a line feed.  Writing
  changes nothing on POSIX.
\<close>

fun universal_newlines :: "string \<Rightarrow> string" where
  "universal_newlines [] = []"
| "universal_newlines [c] = [if c = CHR 0x0D then CHR 0x0A else c]"
| "universal_newlines (c # d # cs) =
     (if c = CHR 0x0D \<and> d = CHR 0x0A then CHR 0x0A # universal_newlines cs
      else (if c = CHR 0x0D then CHR 0x0A else c) # universal_newlines (d # cs))"

lemma universal_newlines_id [simp]: "CHR 0x0D \<notin> set s \<Longrightarrow> universal_newlines s = s"
  by (induction s rule: universal_newlines.induct) auto

lemma universal_newlines_no_return: "CHR 0x0D \<notin> set (universal_newlines s)"
  by (induction s rule: universal_newlines.induct) auto

lemma universal_newlines_append: "CHR 0x0D \<notin> set s \<Longrightarrow> universal_newlines (s @ t) = s @ universal_newlines t"
proof (induction s)
  case (Cons c s)
  then show ?case by (cases "s @ t") auto
qed simp

lemma universal_newlines_Nil [simp]:
  "universal_newlines s = [] \<longleftrightarrow> s = []" "[] = universal_newlines s \<longleftrightarrow> s = []"
  by (cases s rule: universal_newlines.cases; auto)+

text \<open>Adding a final line feed to a text without one, before and after the translation.\<close>

lemma universal_newlines_final:
  "suffix [CHR 0x0A] (universal_newlines s) \<longleftrightarrow> s \<noteq> [] \<and> (last s = CHR 0x0A \<or> last s = CHR 0x0D)"
  "universal_newlines (s @ [CHR 0x0A]) =
     (if s \<noteq> [] \<and> last s = CHR 0x0D then universal_newlines s else universal_newlines s @ [CHR 0x0A])"
  by (induction s rule: universal_newlines.induct) (auto simp: suffix_Cons split: if_splits)

end
