(* ===== verification/RunQueue.thy ===== *)
theory RunQueue
  imports Prelude
begin

text \<open>
  The SQLite run queue of the service (\<open>intelliqx_service/state.py\<close>).

  The table \<open>runs\<close> is the list of its rows in rowid order; each SQL statement of the source
  is written out on that list (\<open>update_where\<close> is \<open>UPDATE .. SET .. WHERE ..\<close>).  The JSON text
  columns hold the JSON value they encode.  \<open>ORDER BY created_at ASC LIMIT 1\<close> leaves the choice
  among rows with equal \<open>created_at\<close> to the engine: that choice is the parameter \<open>pick\<close>.
  Every method takes the process lock and runs one \<open>BEGIN IMMEDIATE\<close> transaction, so a method
  is one atomic step; an exception rolls the transaction back and is the value \<open>Inl\<close>, with the
  state unchanged.  \<open>now\<close> is what \<open>time.time()\<close> returned.

  The lemmas: what each method does to each row (\<open>row_of\<close>), the table's well-formedness
  \<open>wf_db\<close> (rowid and primary key unique) kept by every method, and the contract of the queue,
  the locale \<open>run_queue\<close>, interpreted on these definitions.
\<close>

datatype RunStatus = PENDING | RUNNING | SUCCEEDED | FAILED | CANCELLED

fun status_value :: "RunStatus \<Rightarrow> string" where
  "status_value PENDING = ''PENDING''"
| "status_value RUNNING = ''RUNNING''"
| "status_value SUCCEEDED = ''SUCCEEDED''"
| "status_value FAILED = ''FAILED''"
| "status_value CANCELLED = ''CANCELLED''"

record run_row =
  rowid :: nat
  run_id :: string
  agent_name :: string
  tenant_id :: string
  status :: RunStatus
  input_json :: json
  output_json :: "json option"
  error :: "string option"
  attempts :: int
  max_retries :: int
  created_at :: rat
  updated_at :: rat
  duration_ms :: int

record RunRecord =
  rec_run_id :: string
  rec_agent_name :: string
  rec_tenant_id :: string
  rec_status :: RunStatus
  rec_input_payload :: json
  rec_output :: "json option"
  rec_error :: "string option"
  rec_attempts :: int
  rec_max_retries :: int
  rec_created_at :: rat
  rec_updated_at :: rat
  rec_duration_ms :: int

datatype db_error = ProgrammingError | IntegrityError | WalUnsupported

record queue_db =
  rows :: "run_row list"
  run_ttl_seconds :: int
  closed :: bool

section \<open>The methods of \<open>StateStore\<close>\<close>

text \<open>
  \<open>journal_mode p\<close> is the row that \<open>PRAGMA journal_mode\<close> answers for the database \<open>p\<close> after
  \<open>PRAGMA journal_mode=WAL\<close>.
\<close>

definition ensure_pragmas :: "string option \<Rightarrow> bool" where
  "ensure_pragmas mode_row =
     (case mode_row of None \<Rightarrow> False | Some m \<Rightarrow> py_lower m = ''wal'')"

definition init_store ::
    "(string \<Rightarrow> string option) \<Rightarrow> string \<Rightarrow> int \<Rightarrow> run_row list \<Rightarrow> db_error + queue_db" where
  "init_store journal_mode path ttl on_disk =
     (if ensure_pragmas (journal_mode path)
      then Inr \<lparr>rows = on_disk, run_ttl_seconds = ttl, closed = False\<rparr>
      else Inl WalUnsupported)"

definition close :: "queue_db \<Rightarrow> queue_db" where
  "close s = s\<lparr>closed := True\<rparr>"

definition ping :: "queue_db \<Rightarrow> db_error + unit" where
  "ping s = (if closed s then Inl ProgrammingError else Inr ())"

definition update_where ::
    "(run_row \<Rightarrow> bool) \<Rightarrow> (run_row \<Rightarrow> run_row) \<Rightarrow> queue_db \<Rightarrow> queue_db" where
  "update_where P f s = s\<lparr>rows := map (\<lambda>r. if P r then f r else r) (rows s)\<rparr>"

definition next_rowid :: "run_row list \<Rightarrow> nat" where
  "next_rowid rs = Suc (foldr max (map rowid rs) 0)"

definition enqueue ::
    "string \<Rightarrow> string \<Rightarrow> string \<Rightarrow> json \<Rightarrow> int \<Rightarrow> rat \<Rightarrow> queue_db \<Rightarrow> db_error + queue_db" where
  "enqueue rid agent tenant payload retries now s =
     (if closed s then Inl ProgrammingError
      else if rid \<in> set (map run_id (rows s)) then Inl IntegrityError
      else Inr (s\<lparr>rows := rows s @
             [\<lparr>rowid = next_rowid (rows s), run_id = rid, agent_name = agent, tenant_id = tenant,
               status = PENDING, input_json = payload, output_json = None, error = None,
               attempts = 0, max_retries = retries, created_at = now, updated_at = now,
               duration_ms = 0\<rparr>]\<rparr>))"

definition oldest_pending :: "run_row list \<Rightarrow> run_row list" where
  "oldest_pending rs =
     (let ps = filter (\<lambda>r. status r = PENDING) rs
      in filter (\<lambda>r. list_all (\<lambda>r'. created_at r \<le> created_at r') ps) ps)"

type_synonym claim = "string \<times> string \<times> json \<times> string \<times> int"

definition claim_next ::
    "(run_row list \<Rightarrow> run_row) \<Rightarrow> rat \<Rightarrow> queue_db \<Rightarrow> db_error + (claim option \<times> queue_db)" where
  "claim_next pick now s =
     (if closed s then Inl ProgrammingError
      else case oldest_pending (rows s) of
        [] \<Rightarrow> Inr (None, s)
      | c # cs \<Rightarrow>
          (let row = pick (c # cs); n = attempts row + 1
           in if n > max_retries row
              then Inr (None, update_where (\<lambda>r. rowid r = rowid row)
                     (\<lambda>r. r\<lparr>status := FAILED, updated_at := now\<rparr>) s)
              else Inr (Some (run_id row, agent_name row, input_json row, tenant_id row, n),
                     update_where (\<lambda>r. rowid r = rowid row)
                       (\<lambda>r. r\<lparr>status := RUNNING, attempts := n, updated_at := now\<rparr>) s)))"

definition complete ::
    "string \<Rightarrow> RunStatus \<Rightarrow> json option \<Rightarrow> string option \<Rightarrow> int \<Rightarrow> rat \<Rightarrow> queue_db \<Rightarrow> db_error + queue_db"
  where
  "complete rid st out err dur now s =
     (if closed s then Inl ProgrammingError
      else Inr (update_where (\<lambda>r. run_id r = rid)
        (\<lambda>r. r\<lparr>status := st, output_json := out, error := err, duration_ms := dur,
               updated_at := now\<rparr>) s))"

definition requeue :: "string \<Rightarrow> int \<Rightarrow> rat \<Rightarrow> queue_db \<Rightarrow> db_error + queue_db" where
  "requeue rid next_attempt now s =
     (if closed s then Inl ProgrammingError
      else Inr (update_where (\<lambda>r. run_id r = rid)
        (\<lambda>r. r\<lparr>status := PENDING, attempts := next_attempt, updated_at := now\<rparr>) s))"

definition select_run :: "string \<Rightarrow> queue_db \<Rightarrow> run_row option" where
  "select_run rid s = find (\<lambda>r. run_id r = rid) (rows s)"

definition cancel :: "string \<Rightarrow> rat \<Rightarrow> queue_db \<Rightarrow> db_error + (bool \<times> queue_db)" where
  "cancel rid now s =
     (if closed s then Inl ProgrammingError
      else case select_run rid s of
        None \<Rightarrow> Inr (False, s)
      | Some row \<Rightarrow>
          if status row \<notin> {PENDING, RUNNING} then Inr (False, s)
          else Inr (True, update_where (\<lambda>r. run_id r = rid)
                 (\<lambda>r. r\<lparr>status := CANCELLED, updated_at := now\<rparr>) s))"

definition row_to_record :: "run_row \<Rightarrow> RunRecord" where
  "row_to_record r =
     \<lparr>rec_run_id = run_id r, rec_agent_name = agent_name r, rec_tenant_id = tenant_id r,
      rec_status = status r, rec_input_payload = input_json r, rec_output = output_json r,
      rec_error = error r, rec_attempts = attempts r, rec_max_retries = max_retries r,
      rec_created_at = created_at r, rec_updated_at = updated_at r,
      rec_duration_ms = duration_ms r\<rparr>"

definition get :: "string \<Rightarrow> queue_db \<Rightarrow> db_error + RunRecord option" where
  "get rid s =
     (if closed s then Inl ProgrammingError
      else Inr (map_option row_to_record (select_run rid s)))"

definition close_expired :: "rat \<Rightarrow> queue_db \<Rightarrow> db_error + (nat \<times> queue_db)" where
  "close_expired now s =
     (if closed s then Inl ProgrammingError
      else (let cutoff = now - of_int (run_ttl_seconds s);
                expired = (\<lambda>r. status r = RUNNING \<and> updated_at r < cutoff)
            in Inr (length (filter expired (rows s)),
                    s\<lparr>rows := filter (\<lambda>r. \<not> expired r) (rows s)\<rparr>)))"

text \<open>\<open>RunRecord.as_dict\<close>; \<open>isoformat\<close> is \<open>datetime.fromtimestamp(t, tz=UTC).isoformat()\<close>.\<close>

definition opt_json :: "json option \<Rightarrow> json" where
  "opt_json j = (case j of None \<Rightarrow> JNull | Some v \<Rightarrow> v)"

definition as_dict :: "(rat \<Rightarrow> string) \<Rightarrow> RunRecord \<Rightarrow> json" where
  "as_dict isoformat r = JObj
     [(''run_id'', JStr (rec_run_id r)), (''agent_name'', JStr (rec_agent_name r)),
      (''tenant_id'', JStr (rec_tenant_id r)), (''status'', JStr (status_value (rec_status r))),
      (''input'', rec_input_payload r), (''output'', opt_json (rec_output r)),
      (''error'', opt_json (map_option JStr (rec_error r))),
      (''attempts'', JInt (rec_attempts r)), (''max_retries'', JInt (rec_max_retries r)),
      (''created_at'', JStr (isoformat (rec_created_at r))),
      (''updated_at'', JStr (isoformat (rec_updated_at r))),
      (''duration_ms'', JInt (rec_duration_ms r))]"

section \<open>The table's invariant\<close>

definition wf_db :: "queue_db \<Rightarrow> bool" where
  "wf_db s \<longleftrightarrow> distinct (map run_id (rows s)) \<and> distinct (map rowid (rows s))"

text \<open>\<open>pick_ok\<close>: the engine answers \<open>LIMIT 1\<close> with one of the candidates.\<close>

definition pick_ok :: "(run_row list \<Rightarrow> run_row) \<Rightarrow> bool" where
  "pick_ok pick \<longleftrightarrow> (\<forall>cs. cs \<noteq> [] \<longrightarrow> pick cs \<in> set cs)"

definition row_of :: "queue_db \<Rightarrow> string \<Rightarrow> run_row option" where
  "row_of s = map_of (map (\<lambda>r. (run_id r, r)) (rows s))"

lemma pick_ok_hd: "pick_ok hd"
  by (simp add: pick_ok_def)

lemma select_run_row_of: "select_run rid s = row_of s rid"
proof -
  have "find (\<lambda>r. run_id r = rid) rs = map_of (map (\<lambda>r. (run_id r, r)) rs) rid" for rs
    by (induction rs) auto
  then show ?thesis by (simp add: select_run_def row_of_def)
qed

lemma row_of_Some:
  "row_of s rid = Some r \<Longrightarrow> r \<in> set (rows s) \<and> run_id r = rid"
  by (auto simp: row_of_def dest!: map_of_SomeD)

lemma row_of_in: "wf_db s \<Longrightarrow> r \<in> set (rows s) \<Longrightarrow> row_of s (run_id r) = Some r"
  unfolding row_of_def
  by (rule map_of_is_SomeI) (auto simp: wf_db_def o_def)

lemma row_of_None: "row_of s rid = None \<longleftrightarrow> rid \<notin> run_id ` set (rows s)"
  by (auto simp: row_of_def map_of_eq_None_iff image_iff)

text \<open>An UPDATE that keeps the key columns acts row by row.\<close>

definition keeps_keys :: "(run_row \<Rightarrow> run_row) \<Rightarrow> bool" where
  "keeps_keys f \<longleftrightarrow> (\<forall>r. run_id (f r) = run_id r \<and> rowid (f r) = rowid r)"

lemma wf_update_where:
  assumes "keeps_keys f"
  shows "wf_db (update_where P f s) = wf_db s"
proof -
  have "map run_id (rows (update_where P f s)) = map run_id (rows s)"
    and "map rowid (rows (update_where P f s)) = map rowid (rows s)"
    using assms by (simp_all add: update_where_def keeps_keys_def)
  then show ?thesis by (simp add: wf_db_def)
qed

lemma row_of_update_where:
  assumes "keeps_keys f"
  shows "row_of (update_where P f s) rid =
    map_option (\<lambda>r. if P r then f r else r) (row_of s rid)"
proof -
  have "map_of (map (\<lambda>r. (run_id r, r)) (map (\<lambda>r. if P r then f r else r) rs)) rid
      = map_option (\<lambda>r. if P r then f r else r) (map_of (map (\<lambda>r. (run_id r, r)) rs) rid)" for rs
    using assms by (induction rs) (auto simp: keeps_keys_def)
  then show ?thesis by (simp add: row_of_def update_where_def)
qed

lemma closed_update_where [simp]: "closed (update_where P f s) = closed s"
  by (simp add: update_where_def)

lemma keeps_keys_status [simp]:
  "keeps_keys (\<lambda>r. r\<lparr>status := st, updated_at := now\<rparr>)"
  "keeps_keys (\<lambda>r. r\<lparr>status := st, attempts := n, updated_at := now\<rparr>)"
  "keeps_keys (\<lambda>r. r\<lparr>status := st, output_json := out, error := err, duration_ms := d,
                     updated_at := now\<rparr>)"
  by (simp_all add: keeps_keys_def)

lemma rowid_less_next: "r \<in> set rs \<Longrightarrow> rowid r < next_rowid rs"
  by (induction rs) (auto simp: next_rowid_def less_Suc_eq_le max_def)

lemma rowid_eq_iff:
  "wf_db s \<Longrightarrow> r \<in> set (rows s) \<Longrightarrow> r' \<in> set (rows s) \<Longrightarrow> rowid r = rowid r' \<longleftrightarrow> r = r'"
  by (auto simp: wf_db_def distinct_map dest: inj_onD)

lemma oldest_pending_iff:
  "r \<in> set (oldest_pending rs) \<longleftrightarrow>
     r \<in> set rs \<and> status r = PENDING \<and>
     (\<forall>r'\<in>set rs. status r' = PENDING \<longrightarrow> created_at r \<le> created_at r')"
  by (auto simp: oldest_pending_def Let_def list_all_iff)

lemma oldest_pending_Nil:
  "oldest_pending rs = [] \<longleftrightarrow> (\<forall>r\<in>set rs. status r \<noteq> PENDING)"
proof
  assume none: "oldest_pending rs = []"
  show "\<forall>r\<in>set rs. status r \<noteq> PENDING"
  proof (rule ccontr)
    assume "\<not> ?thesis"
    then have ne: "created_at ` {r \<in> set rs. status r = PENDING} \<noteq> {}" by auto
    let ?m = "Min (created_at ` {r \<in> set rs. status r = PENDING})"
    have "?m \<in> created_at ` {r \<in> set rs. status r = PENDING}"
      using ne by (intro Min_in) auto
    then obtain r where r: "r \<in> set rs" "status r = PENDING" "created_at r = ?m" by auto
    then have "r \<in> set (oldest_pending rs)" by (auto simp: oldest_pending_iff)
    with none show False by simp
  qed
next
  assume "\<forall>r\<in>set rs. status r \<noteq> PENDING"
  then show "oldest_pending rs = []"
    by (metis list.set_intros(1) neq_Nil_conv oldest_pending_iff)
qed

section \<open>The contract of the queue\<close>

text \<open>
  What the queue promises is said on its \<open>view\<close>: per run id the status, the attempt count and
  the retry budget.
\<close>

type_synonym qview = "string \<Rightarrow> (RunStatus \<times> int \<times> int) option"

definition view :: "queue_db \<Rightarrow> qview" where
  "view s rid = map_option (\<lambda>r. (status r, attempts r, max_retries r)) (row_of s rid)"

text \<open>The work left: how many more claims the rows of a view can give rise to.\<close>

fun weight :: "RunStatus \<times> int \<times> int \<Rightarrow> nat" where
  "weight (st, a, m) = (if st = PENDING \<or> st = RUNNING then Suc (nat (m - a)) else 0)"

definition work :: "qview \<Rightarrow> nat" where
  "work v = (\<Sum>rid\<in>dom v. weight (the (v rid)))"

lemma work_upd:
  assumes "finite (dom v)" "v rid = Some x"
  shows "work (v(rid \<mapsto> y)) + weight x = work v + weight y"
proof -
  have dom: "dom (v(rid \<mapsto> y)) = dom v" using assms(2) by auto
  have "work (v(rid \<mapsto> y)) = weight y + (\<Sum>k\<in>dom v - {rid}. weight (the (v k)))"
    unfolding work_def dom using assms
    by (subst sum.remove [of _ rid]) (auto intro: sum.cong)
  moreover have "work v = weight x + (\<Sum>k\<in>dom v - {rid}. weight (the (v k)))"
    unfolding work_def using assms by (subst sum.remove [of _ rid]) auto
  ultimately show ?thesis by simp
qed

locale run_queue =
  fixes enq :: "string \<Rightarrow> string \<Rightarrow> string \<Rightarrow> json \<Rightarrow> int \<Rightarrow> rat \<Rightarrow> 's \<Rightarrow> 'e + 's"
    and claim :: "rat \<Rightarrow> 's \<Rightarrow> 'e + (claim option \<times> 's)"
    and compl :: "string \<Rightarrow> RunStatus \<Rightarrow> json option \<Rightarrow> string option \<Rightarrow> int \<Rightarrow> rat \<Rightarrow> 's \<Rightarrow> 'e + 's"
    and requ :: "string \<Rightarrow> int \<Rightarrow> rat \<Rightarrow> 's \<Rightarrow> 'e + 's"
    and canc :: "string \<Rightarrow> rat \<Rightarrow> 's \<Rightarrow> 'e + (bool \<times> 's)"
    and vw :: "'s \<Rightarrow> qview"
    and inv :: "'s \<Rightarrow> bool"
  assumes finite_view: "finite (dom (vw s))"
    and enq_law: "inv s \<Longrightarrow> enq rid a t p m now s = Inr s' \<Longrightarrow>
      inv s' \<and> vw s rid = None \<and> vw s' = (vw s)(rid \<mapsto> (PENDING, 0, m))"
    and claim_some: "inv s \<Longrightarrow> claim now s = Inr (Some (rid, a, p, t, n), s') \<Longrightarrow>
      inv s' \<and> (\<exists>m. n \<le> m \<and> vw s rid = Some (PENDING, n - 1, m) \<and> vw s' = (vw s)(rid \<mapsto> (RUNNING, n, m)))"
    and claim_none: "inv s \<Longrightarrow> claim now s = Inr (None, s') \<Longrightarrow>
      inv s' \<and> (s' = s \<and> (\<forall>rid a m. vw s rid \<noteq> Some (PENDING, a, m)) \<or>
        (\<exists>rid a m. m \<le> a \<and> vw s rid = Some (PENDING, a, m) \<and> vw s' = (vw s)(rid \<mapsto> (FAILED, a, m))))"
    and compl_law: "inv s \<Longrightarrow> compl rid st out err dur now s = Inr s' \<Longrightarrow>
      inv s' \<and> vw s' = (case vw s rid of None \<Rightarrow> vw s | Some (st0, a, m) \<Rightarrow> (vw s)(rid \<mapsto> (st, a, m)))"
    and requ_law: "inv s \<Longrightarrow> requ rid n now s = Inr s' \<Longrightarrow>
      inv s' \<and> vw s' = (case vw s rid of None \<Rightarrow> vw s | Some (st0, a, m) \<Rightarrow> (vw s)(rid \<mapsto> (PENDING, n, m)))"
    and canc_law: "inv s \<Longrightarrow> canc rid now s = Inr (b, s') \<Longrightarrow>
      inv s' \<and> (if b then \<exists>st a m. st \<in> {PENDING, RUNNING} \<and> vw s rid = Some (st, a, m) \<and>
                            vw s' = (vw s)(rid \<mapsto> (CANCELLED, a, m))
                 else s' = s \<and> (\<forall>st a m. vw s rid = Some (st, a, m) \<longrightarrow> st \<notin> {PENDING, RUNNING}))"
begin

text \<open>Two claims that follow each other never hand out the same run.\<close>

lemma claim_exclusive:
  assumes "inv s" "claim now s = Inr (Some (r1, a1, p1, t1, n1), s1)"
    and "claim now' s1 = Inr (Some (r2, a2, p2, t2, n2), s2)"
  shows "r1 \<noteq> r2"
  using claim_some [OF assms(1,2)] claim_some [OF _ assms(3)] by auto

text \<open>Every claim that finds a pending run uses up work; settling a run never adds any.\<close>

lemma claim_some_work:
  assumes "inv s" "claim now s = Inr (Some (rid, a, p, t, n), s')"
  shows "work (vw s') < work (vw s)"
proof -
  obtain m where m: "n \<le> m" "vw s rid = Some (PENDING, n - 1, m)"
      "vw s' = (vw s)(rid \<mapsto> (RUNNING, n, m))"
    using claim_some [OF assms] by auto
  have "nat (m - (n - 1)) = Suc (nat (m - n))" using m(1) by linarith
  with work_upd [OF finite_view m(2), of "(RUNNING, n, m)"] m(3) show ?thesis by simp
qed

lemma claim_none_work:
  assumes "inv s" "claim now s = Inr (None, s')"
  shows "s' = s \<and> (\<forall>rid a m. vw s rid \<noteq> Some (PENDING, a, m)) \<or> work (vw s') < work (vw s)"
proof -
  have "work (vw s') < work (vw s)"
    if v: "vw s rid = Some (PENDING, a, m)" "vw s' = (vw s)(rid \<mapsto> (FAILED, a, m))" for rid a m
    using work_upd [OF finite_view v(1), of "(FAILED, a, m)"] v(2) by simp
  with claim_none [OF assms] show ?thesis by blast
qed

lemma complete_work:
  assumes "inv s" "compl rid st out err dur now s = Inr s'" "st \<notin> {PENDING, RUNNING}"
  shows "work (vw s') \<le> work (vw s)"
proof (cases "vw s rid")
  case None
  with compl_law [OF assms(1,2)] show ?thesis by simp
next
  case (Some x)
  obtain st0 a m where x: "x = (st0, a, m)" by (cases x)
  have "vw s' = (vw s)(rid \<mapsto> (st, a, m))"
    using compl_law [OF assms(1,2)] Some x by simp
  with work_upd [OF finite_view Some, of "(st, a, m)"] assms(3) show ?thesis by simp
qed

lemma requeue_work:
  assumes "inv s" "requ rid (n + 1) now s = Inr s'" "vw s rid = Some (RUNNING, n, m)"
  shows "work (vw s') \<le> work (vw s)"
proof -
  have "vw s' = (vw s)(rid \<mapsto> (PENDING, n + 1, m))"
    using requ_law [OF assms(1,2)] assms(3) by simp
  with work_upd [OF finite_view assms(3), of "(PENDING, n + 1, m)"] show ?thesis by simp
qed

end

text \<open>The SQLite store provides the contract.\<close>

lemma dom_view: "dom (view s) = run_id ` set (rows s)"
proof -
  have "dom (view s) = {rid. row_of s rid \<noteq> None}" by (auto simp: view_def dom_def)
  then show ?thesis by (auto simp: row_of_None)
qed

lemma view_update_where:
  assumes wf: "wf_db s" and "keeps_keys f" and r: "row_of s rid = Some r"
    and P: "\<And>r'. r' \<in> set (rows s) \<Longrightarrow> P r' \<longleftrightarrow> run_id r' = rid"
  shows "view (update_where P f s) =
    (view s)(rid \<mapsto> (status (f r), attempts (f r), max_retries (f r)))"
proof
  fix k
  have "P r' \<longleftrightarrow> k = rid" if "row_of s k = Some r'" for r'
    using row_of_Some [OF that] P by auto
  then show "view (update_where P f s) k =
      ((view s)(rid \<mapsto> (status (f r), attempts (f r), max_retries (f r)))) k"
    using r by (cases "row_of s k") (auto simp: view_def row_of_update_where [OF assms(2)])
qed

lemma update_where_none:
  assumes "\<And>r. r \<in> set (rows s) \<Longrightarrow> \<not> P r"
  shows "update_where P f s = s"
  using assms by (simp add: update_where_def map_idI)

lemma view_update_run:
  assumes "wf_db s" "keeps_keys f"
  shows "view (update_where (\<lambda>r. run_id r = rid) f s) =
    (case row_of s rid of None \<Rightarrow> view s
     | Some r \<Rightarrow> (view s)(rid \<mapsto> (status (f r), attempts (f r), max_retries (f r))))"
proof (cases "row_of s rid")
  case None
  then have "update_where (\<lambda>r. run_id r = rid) f s = s"
    by (intro update_where_none) (auto simp: row_of_None)
  with None show ?thesis by simp
next
  case (Some r)
  then show ?thesis using view_update_where [OF assms Some] by simp
qed

lemma claim_next_picked:
  assumes "pick_ok pick" "wf_db s" "oldest_pending (rows s) = c # cs"
  defines "row \<equiv> pick (c # cs)"
  shows "row \<in> set (oldest_pending (rows s))" "row_of s (run_id row) = Some row"
    "\<And>r'. r' \<in> set (rows s) \<Longrightarrow> rowid r' = rowid row \<longleftrightarrow> run_id r' = run_id row"
proof -
  show in_old: "row \<in> set (oldest_pending (rows s))"
    using assms(1,3) unfolding row_def pick_ok_def by (metis list.distinct(1))
  then have mem: "row \<in> set (rows s)" by (simp add: oldest_pending_iff)
  then show "row_of s (run_id row) = Some row" by (rule row_of_in [OF assms(2)])
  fix r' assume "r' \<in> set (rows s)"
  with mem assms(2) show "rowid r' = rowid row \<longleftrightarrow> run_id r' = run_id row"
    by (auto simp: rowid_eq_iff) (metis option.inject row_of_in)
qed

lemma claim_next_some:
  assumes "pick_ok pick" "wf_db s" "claim_next pick now s = Inr (Some (rid, a, p, t, n), s')"
  shows "\<exists>r. r \<in> set (oldest_pending (rows s)) \<and> row_of s rid = Some r \<and>
    a = agent_name r \<and> p = input_json r \<and> t = tenant_id r \<and>
    n = attempts r + 1 \<and> n \<le> max_retries r \<and>
    view s' = (view s)(rid \<mapsto> (RUNNING, n, max_retries r)) \<and> wf_db s' \<and> \<not> closed s'"
proof -
  obtain c cs where cs: "oldest_pending (rows s) = c # cs" and open_s: "\<not> closed s"
    using assms(3) by (auto simp: claim_next_def split: if_splits list.splits)
  note picked = claim_next_picked [OF assms(1,2) cs]
  show ?thesis
    using assms(3) cs open_s picked view_update_where [OF assms(2) keeps_keys_status(2) picked(2,3)]
    by (auto simp: claim_next_def Let_def wf_update_where assms(2) split: if_splits)
qed

lemma claim_next_none:
  assumes "pick_ok pick" "wf_db s" "claim_next pick now s = Inr (None, s')"
  shows "s' = s \<and> (\<forall>r\<in>set (rows s). status r \<noteq> PENDING) \<or>
    (\<exists>r. r \<in> set (oldest_pending (rows s)) \<and> row_of s (run_id r) = Some r \<and>
      max_retries r \<le> attempts r \<and>
      s' = update_where (\<lambda>r'. rowid r' = rowid r) (\<lambda>r. r\<lparr>status := FAILED, updated_at := now\<rparr>) s \<and>
      view s' = (view s)(run_id r \<mapsto> (FAILED, attempts r, max_retries r)) \<and> wf_db s')"
proof (cases "oldest_pending (rows s)")
  case Nil
  then have "\<forall>r\<in>set (rows s). status r \<noteq> PENDING" by (simp only: oldest_pending_Nil)
  moreover have "s' = s" using assms(3) Nil by (simp add: claim_next_def split: if_splits)
  ultimately show ?thesis by blast
next
  case (Cons c cs)
  note picked = claim_next_picked [OF assms(1,2) Cons]
  show ?thesis
    using assms(3) Cons picked view_update_where [OF assms(2) keeps_keys_status(1) picked(2,3)]
    by (auto simp: claim_next_def Let_def wf_update_where assms(2) split: if_splits
        intro!: exI [of _ "pick (c # cs)"])
qed

lemma enqueue_ok:
  assumes "wf_db s" "enqueue rid a t p m now s = Inr s'"
  shows "wf_db s'" "row_of s rid = None" "view s' = (view s)(rid \<mapsto> (PENDING, 0, m))" "\<not> closed s'"
proof -
  have new: "rid \<notin> run_id ` set (rows s)" and s': "\<not> closed s"
    using assms(2) by (auto simp: enqueue_def split: if_splits)
  have eq: "s' = s\<lparr>rows := rows s @ [\<lparr>rowid = next_rowid (rows s), run_id = rid, agent_name = a,
      tenant_id = t, status = PENDING, input_json = p, output_json = None, error = None,
      attempts = 0, max_retries = m, created_at = now, updated_at = now, duration_ms = 0\<rparr>]\<rparr>"
    using assms(2) by (auto simp: enqueue_def split: if_splits)
  show "wf_db s'" "\<not> closed s'"
    using assms(1) new s' unfolding eq
    by (auto simp: wf_db_def dest: rowid_less_next)
  show none: "row_of s rid = None" using new by (simp add: row_of_None)
  have "row_of s' k = (if k = rid then Some (last (rows s')) else row_of s k)" for k
    using none unfolding eq row_of_def by (auto simp: map_add_def split: option.split)
  then show "view s' = (view s)(rid \<mapsto> (PENDING, 0, m))"
    by (auto simp: view_def eq)
qed

interpretation sqlite: run_queue enqueue "claim_next pick" complete requeue cancel view
  "\<lambda>s. pick_ok pick \<and> wf_db s" for pick
proof (unfold_locales, goal_cases)
  case (1 s)
  show ?case by (simp add: dom_view)
next
  case (2 s rid a t p m now s')
  then show ?case using enqueue_ok [of s rid a t p m now s'] by (simp add: view_def)
next
  case (3 s now rid a p t n s')
  then obtain r where "row_of s rid = Some r" "n = attempts r + 1" "n \<le> max_retries r"
      "r \<in> set (oldest_pending (rows s))"
      "view s' = (view s)(rid \<mapsto> (RUNNING, n, max_retries r))" "wf_db s'"
    using claim_next_some by blast
  with 3 show ?case by (auto simp: view_def oldest_pending_iff)
next
  case (4 s now s')
  then have "wf_db s" and pk: "pick_ok pick" by auto
  from claim_next_none [OF pk this(1) 4(2)] pk \<open>wf_db s\<close> show ?case
    by (fastforce simp: view_def oldest_pending_iff dest: row_of_Some)
next
  case (5 s rid st out err dur now s')
  then show ?case
    by (auto simp: complete_def view_update_run wf_update_where view_def split: if_splits option.splits)
next
  case (6 s rid n now s')
  then show ?case
    by (auto simp: requeue_def view_update_run wf_update_where view_def split: if_splits option.splits)
next
  case (7 s rid now b s')
  then show ?case
    by (auto simp: cancel_def select_run_row_of view_update_run wf_update_where view_def
        split: if_splits option.splits)
qed

section \<open>Properties\<close>

text \<open>
  A claim hands out a PENDING row that no other PENDING row is older than, counts the
  attempt within the row's budget, marks it RUNNING, and changes nothing else in the table's view.
\<close>

theorem claim_takes_oldest:
  assumes "pick_ok pick" "wf_db s" "claim_next pick now s = Inr (Some (rid, a, p, t, n), s')"
  shows "\<exists>r. row_of s rid = Some r \<and> status r = PENDING \<and>
    (\<forall>r'\<in>set (rows s). status r' = PENDING \<longrightarrow> created_at r \<le> created_at r') \<and>
    a = agent_name r \<and> p = input_json r \<and> t = tenant_id r \<and>
    n = attempts r + 1 \<and> n \<le> max_retries r \<and>
    view s' = (view s)(rid \<mapsto> (RUNNING, n, max_retries r))"
  using claim_next_some [OF assms] by (auto simp: oldest_pending_iff)

definition sample_row :: "nat \<Rightarrow> string \<Rightarrow> rat \<Rightarrow> run_row" where
  "sample_row i rid since = \<lparr>rowid = i, run_id = rid, agent_name = ''smoke'', tenant_id = ''t1'',
     status = PENDING, input_json = JObj [], output_json = None, error = None, attempts = 0,
     max_retries = 1, created_at = since, updated_at = since, duration_ms = 0\<rparr>"

definition sample_db :: queue_db where
  "sample_db = \<lparr>rows = [sample_row 1 ''late'' 7, sample_row 2 ''early'' 4],
     run_ttl_seconds = 3600, closed = False\<rparr>"

lemma claim_takes_oldest_witness:
  "\<exists>s'. \<exists>r. row_of sample_db ''early'' = Some r \<and> status r = PENDING \<and>
    (\<forall>r'\<in>set (rows sample_db). status r' = PENDING \<longrightarrow> created_at r \<le> created_at r') \<and>
    ''smoke'' = agent_name r \<and> JObj [] = input_json r \<and> ''t1'' = tenant_id r \<and>
    1 = attempts r + 1 \<and> 1 \<le> max_retries r \<and>
    view s' = (view sample_db)(''early'' \<mapsto> (RUNNING, 1, max_retries r))"
proof -
  have "wf_db sample_db" by (simp add: wf_db_def sample_db_def sample_row_def)
  moreover obtain s' where
    "claim_next hd 9 sample_db = Inr (Some (''early'', ''smoke'', JObj [], ''t1'', 1), s')"
    by (simp add: sample_db_def sample_row_def claim_next_def oldest_pending_def Let_def)
  ultimately show ?thesis using claim_takes_oldest [OF pick_ok_hd] by blast
qed

end
