(* ===== verification/Compute.thy ===== *)
theory Compute
  imports Prelude
begin

text \<open>
  The in-process compute runtime (\<open>intelliqx_compute/runtime.py\<close>) and the run context it binds
  (\<open>intelliqx_agents/base.py\<close>).

  A handler is an async callable.  Awaiting it is the value \<open>outcome\<close>: how long it would run
  (\<open>None\<close>: it never finishes) and what it ends with, a JSON value or an exception.
  \<open>asyncio.wait_for\<close> is written out on it.  The context variable \<open>_RUN\<close> is explicit state,
  passed to the handler and returned.  \<open>elapsed\<close> is the difference of the two
  \<open>time.monotonic()\<close> readings.  Log records and span attributes have no effect on the result
  and are not modelled.

  The contract \<open>compute_runtime\<close> is the one the service's worker relies on: no exception escapes
  from handlers that return objects, and the response's status is one of four.
\<close>

record InvocationRequest =
  req_agent_name :: string
  req_input :: json
  req_tenant_id :: string
  req_timeout_seconds :: int
  req_metadata :: "(string, json) dict"

record InvocationResponse =
  resp_agent_name :: string
  resp_output :: json
  resp_duration_ms :: int
  resp_status :: string
  resp_error :: "string option"

record RunContext =
  ctx_run_id :: json
  ctx_plan_id :: json
  ctx_tenant_id :: string
  ctx_agent_name :: "string option"
  ctx_node_id :: "json option"
  ctx_messages :: "string list"
  ctx_recent_hits :: "json list"

text \<open>
  \<open>CancelledError\<close> is a \<open>BaseException\<close>: \<open>except Exception\<close> does not catch it.  The other
  exceptions are \<open>type(e).__name__\<close> and \<open>str(e)\<close>.
\<close>

datatype exn = TimeoutError string | CancelledError | OtherException string string

fun exn_type :: "exn \<Rightarrow> string" where
  "exn_type (TimeoutError m) = ''TimeoutError''"
| "exn_type CancelledError = ''CancelledError''"
| "exn_type (OtherException t m) = t"

fun exn_str :: "exn \<Rightarrow> string" where
  "exn_str (TimeoutError m) = m"
| "exn_str CancelledError = []"
| "exn_str (OtherException t m) = m"

record outcome =
  run_time :: "rat option"
  ends_with :: "exn + json"

type_synonym agent_callable =
  "InvocationRequest \<Rightarrow> RunContext option \<Rightarrow> outcome \<times> RunContext option"

type_synonym runtime = "(string, agent_callable) dict"

section \<open>Operations\<close>

definition push_message :: "string \<Rightarrow> RunContext \<Rightarrow> RunContext" where
  "push_message m c = c\<lparr>ctx_messages := ctx_messages c @ [m]\<rparr>"

text \<open>
  \<open>with bind_run(run): body\<close>: the body runs with the variable set; the old value is restored
  whatever the body did to it and however it ended.
\<close>

definition bind_run ::
    "RunContext \<Rightarrow> (RunContext option \<Rightarrow> 'a \<times> RunContext option) \<Rightarrow> RunContext option
      \<Rightarrow> 'a \<times> RunContext option" where
  "bind_run run body cur = (let (r, inner) = body (Some run) in (r, cur))"

definition wait_for :: "outcome \<Rightarrow> int \<Rightarrow> exn + json" where
  "wait_for oc timeout =
     (case run_time oc of
        None \<Rightarrow> Inl (TimeoutError [])
      | Some t \<Rightarrow> if t < of_int timeout then ends_with oc else Inl (TimeoutError []))"

definition register :: "string \<Rightarrow> agent_callable \<Rightarrow> runtime \<Rightarrow> runtime" where
  "register name h rt = dict_set name h rt"

definition metadata_get :: "string \<Rightarrow> InvocationRequest \<Rightarrow> json option" where
  "metadata_get k req = dict_get (req_metadata req) k"

definition run_context_of :: "InvocationRequest \<Rightarrow> RunContext" where
  "run_context_of req =
     \<lparr>ctx_run_id = (case metadata_get ''run_id'' req of None \<Rightarrow> JStr ''ad-hoc'' | Some v \<Rightarrow> v),
      ctx_plan_id = (case metadata_get ''plan_id'' req of None \<Rightarrow> JStr '''' | Some v \<Rightarrow> v),
      ctx_tenant_id = req_tenant_id req,
      ctx_agent_name = Some (req_agent_name req),
      ctx_node_id = metadata_get ''node_id'' req,
      ctx_messages = [], ctx_recent_hits = []\<rparr>"

text \<open>The \<open>output: dict\<close> field of the response model: building it from anything else raises.\<close>

definition make_response ::
    "string \<Rightarrow> json \<Rightarrow> int \<Rightarrow> string \<Rightarrow> string option \<Rightarrow> exn + InvocationResponse" where
  "make_response agent out dur st err =
     (case out of
        JObj fs \<Rightarrow> Inr \<lparr>resp_agent_name = agent, resp_output = out, resp_duration_ms = dur,
                           resp_status = st, resp_error = err\<rparr>
      | _ \<Rightarrow> Inl (OtherException ''ValidationError'' ''output''))"

definition duration_of :: "rat \<Rightarrow> int" where
  "duration_of elapsed = (if elapsed < 0 then \<lceil>elapsed * 1000\<rceil> else \<lfloor>elapsed * 1000\<rfloor>)"

definition invoke_body ::
    "runtime \<Rightarrow> rat \<Rightarrow> InvocationRequest \<Rightarrow> RunContext option
      \<Rightarrow> (exn + InvocationResponse) \<times> RunContext option" where
  "invoke_body rt elapsed req cur =
     (case dict_get rt (req_agent_name req) of
        None \<Rightarrow>
          (make_response (req_agent_name req) (JObj []) 0 ''not_found''
             (Some (''No handler registered for agent '' @ py_repr (req_agent_name req))), cur)
      | Some handler \<Rightarrow>
          (let (oc, cur') = handler req cur
           in (case wait_for oc (req_timeout_seconds req) of
                 Inl (TimeoutError m) \<Rightarrow>
                   make_response (req_agent_name req) (JObj []) (duration_of elapsed) ''timeout''
                     (Some ''Invocation timed out'')
               | Inl CancelledError \<Rightarrow> Inl CancelledError
               | Inl e \<Rightarrow>
                   make_response (req_agent_name req) (JObj []) (duration_of elapsed) ''error''
                     (Some (exn_type e @ '': '' @ exn_str e))
               | Inr out \<Rightarrow>
                   make_response (req_agent_name req) out (duration_of elapsed) ''ok'' None,
               cur')))"

definition invoke ::
    "runtime \<Rightarrow> rat \<Rightarrow> InvocationRequest \<Rightarrow> RunContext option
      \<Rightarrow> (exn + InvocationResponse) \<times> RunContext option" where
  "invoke rt elapsed req cur = bind_run (run_context_of req) (invoke_body rt elapsed req) cur"

section \<open>Behaviour\<close>

text \<open>What the handler of \<open>req\<close> ends with, seen through \<open>wait_for\<close> and the bound context.\<close>

definition handler_result :: "runtime \<Rightarrow> InvocationRequest \<Rightarrow> (exn + json) option" where
  "handler_result rt req =
     map_option (\<lambda>h. wait_for (fst (h req (Some (run_context_of req)))) (req_timeout_seconds req))
       (dict_get rt (req_agent_name req))"

definition is_object :: "json \<Rightarrow> bool" where
  "is_object j \<longleftrightarrow> (\<exists>fs. j = JObj fs)"

lemma make_response_obj:
  "is_object out \<Longrightarrow> make_response a out d st err =
     Inr \<lparr>resp_agent_name = a, resp_output = out, resp_duration_ms = d, resp_status = st,
          resp_error = err\<rparr>"
  by (auto simp: make_response_def is_object_def)

lemma is_object_JObj [simp]: "is_object (JObj fs)"
  by (simp add: is_object_def)

lemma make_response_not_obj:
  "\<not> is_object out \<Longrightarrow>
     make_response a out d st err = Inl (OtherException ''ValidationError'' ''output'')"
  by (cases out) (auto simp: make_response_def is_object_def)

lemma invoke_context: "snd (invoke rt elapsed req cur) = cur"
  by (simp add: invoke_def bind_run_def split: prod.split)

lemma invoke_result:
  "fst (invoke rt elapsed req cur) =
     (let a = req_agent_name req; d = duration_of elapsed
      in case handler_result rt req of
        None \<Rightarrow> make_response a (JObj []) 0 ''not_found''
                (Some (''No handler registered for agent '' @ py_repr a))
      | Some (Inl (TimeoutError m)) \<Rightarrow>
          make_response a (JObj []) d ''timeout'' (Some ''Invocation timed out'')
      | Some (Inl CancelledError) \<Rightarrow> Inl CancelledError
      | Some (Inl e) \<Rightarrow>
          make_response a (JObj []) d ''error'' (Some (exn_type e @ '': '' @ exn_str e))
      | Some (Inr out) \<Rightarrow> make_response a out d ''ok'' None)"
  by (simp add: invoke_def bind_run_def invoke_body_def handler_result_def Let_def
      split: prod.split option.split sum.split exn.split)

text \<open>The handlers of \<open>rt\<close> return objects and are not cancelled from outside.\<close>

definition returns_objects :: "runtime \<Rightarrow> InvocationRequest \<Rightarrow> bool" where
  "returns_objects rt req \<longleftrightarrow>
     (case handler_result rt req of
        Some (Inr out) \<Rightarrow> is_object out
      | Some (Inl e) \<Rightarrow> e \<noteq> CancelledError
      | None \<Rightarrow> True)"

definition status_values :: "string set" where
  "status_values = {''ok'', ''timeout'', ''error'', ''not_found''}"

lemma invoke_no_raise:
  assumes "returns_objects rt req"
  shows "\<exists>r. fst (invoke rt elapsed req cur) = Inr r"
  using assms
  by (auto simp: invoke_result returns_objects_def Let_def make_response_obj
      split: option.split sum.split exn.split)

lemma make_response_Inr:
  "make_response a out d st err = Inr r \<Longrightarrow>
     is_object out \<and> r = \<lparr>resp_agent_name = a, resp_output = out, resp_duration_ms = d,
                          resp_status = st, resp_error = err\<rparr>"
  by (cases out) (auto simp: make_response_def is_object_def)

lemma invoke_response:
  assumes "fst (invoke rt elapsed req cur) = Inr r"
  shows "resp_agent_name r = req_agent_name req"
    and "resp_status r \<in> status_values"
    and "resp_status r = ''ok'' \<longleftrightarrow> (\<exists>out. handler_result rt req = Some (Inr out))"
    and "resp_status r = ''not_found'' \<longleftrightarrow> dict_get rt (req_agent_name req) = None"
    and "resp_status r = ''ok'' \<Longrightarrow> handler_result rt req = Some (Inr (resp_output r))"
    and "resp_status r \<noteq> ''ok'' \<longleftrightarrow> resp_error r \<noteq> None"
  using assms
  by (auto simp: invoke_result Let_def status_values_def handler_result_def
      split: option.splits sum.splits exn.splits dest!: make_response_Inr)

section \<open>The contract of a compute runtime\<close>

text \<open>
  \<open>call req\<close> is what awaiting \<open>invoke(req)\<close> gives.  \<open>sound req\<close> is the provider's side
  condition (for the in-process runtime: the handler returns a JSON object).
\<close>

locale compute_runtime =
  fixes call :: "InvocationRequest \<Rightarrow> exn + InvocationResponse"
    and sound :: "InvocationRequest \<Rightarrow> bool"
  assumes no_raise: "sound req \<Longrightarrow> \<exists>r. call req = Inr r"
    and echoes_agent: "sound req \<Longrightarrow> call req = Inr r \<Longrightarrow> resp_agent_name r = req_agent_name req"
    and status_closed: "sound req \<Longrightarrow> call req = Inr r \<Longrightarrow> resp_status r \<in> status_values"
    and error_iff: "sound req \<Longrightarrow> call req = Inr r \<Longrightarrow> resp_status r \<noteq> ''ok'' \<longleftrightarrow> resp_error r \<noteq> None"
begin

lemma failure_has_reason:
  assumes "sound req" "call req = Inr r" "resp_status r \<noteq> ''ok''"
  obtains msg where "resp_error r = Some msg"
  using error_iff [OF assms(1,2)] assms(3) by auto

lemma branches:
  assumes "sound req"
  shows "(\<exists>r. call req = Inr r \<and> resp_status r = ''ok'' \<and> resp_error r = None) \<or>
         (\<exists>r msg. call req = Inr r \<and> resp_status r \<in> status_values - {''ok''} \<and> resp_error r = Some msg)"
  using no_raise [OF assms] error_iff [OF assms] status_closed [OF assms] by fastforce

end

interpretation in_process: compute_runtime
  "\<lambda>req. fst (invoke rt elapsed req cur)" "returns_objects rt" for rt elapsed cur
proof unfold_locales
  fix req r
  assume "returns_objects rt req"
  then show "\<exists>r. fst (invoke rt elapsed req cur) = Inr r" by (rule invoke_no_raise)
next
  fix req r
  assume "fst (invoke rt elapsed req cur) = Inr r"
  note r = invoke_response [OF this]
  show "resp_agent_name r = req_agent_name req" by (rule r)
  show "resp_status r \<in> status_values" by (rule r)
  show "resp_status r \<noteq> ''ok'' \<longleftrightarrow> resp_error r \<noteq> None" by (rule r)
qed

section \<open>Properties\<close>

text \<open>
  For a handler that returns an object (or fails, hangs or does not exist), \<open>invoke\<close> never
  raises, restores the caller's run context, names the agent, answers one of the four statuses,
  \<open>ok\<close> exactly if the handler returned, and gives an error text exactly if not \<open>ok\<close>.
\<close>

theorem invoke_answers:
  assumes "returns_objects rt req"
  shows "\<exists>r. invoke rt elapsed req cur = (Inr r, cur) \<and> resp_agent_name r = req_agent_name req \<and>
    resp_status r \<in> {''ok'', ''timeout'', ''error'', ''not_found''} \<and>
    (resp_status r = ''ok'' \<longleftrightarrow> (\<exists>out. handler_result rt req = Some (Inr out))) \<and>
    (resp_status r = ''not_found'' \<longleftrightarrow> dict_get rt (req_agent_name req) = None) \<and>
    (resp_status r = ''ok'' \<longleftrightarrow> resp_error r = None)"
proof -
  obtain r where r: "fst (invoke rt elapsed req cur) = Inr r"
    using in_process.no_raise [OF assms] by blast
  then have "invoke rt elapsed req cur = (Inr r, cur)"
    using invoke_context [of rt elapsed req cur] by (cases "invoke rt elapsed req cur") simp
  with invoke_response [OF r] show ?thesis
    by (intro exI [of _ r]) (auto simp: status_values_def)
qed

definition slow_handler :: agent_callable where
  "slow_handler req cur = (\<lparr>run_time = None, ends_with = Inr JNull\<rparr>, cur)"

definition plain_handler :: "json \<Rightarrow> agent_callable" where
  "plain_handler out req cur = (\<lparr>run_time = Some 1, ends_with = Inr out\<rparr>, cur)"

definition demo_invocation :: InvocationRequest where
  "demo_invocation = \<lparr>req_agent_name = ''smoke'', req_input = JObj [], req_tenant_id = ''t1'',
     req_timeout_seconds = 300, req_metadata = []\<rparr>"

lemma invoke_answers_witness:
  "\<exists>r. invoke [(''smoke'', slow_handler)] 301 demo_invocation None = (Inr r, None) \<and>
    resp_agent_name r = req_agent_name demo_invocation \<and>
    resp_status r \<in> {''ok'', ''timeout'', ''error'', ''not_found''} \<and>
    (resp_status r = ''ok'' \<longleftrightarrow>
      (\<exists>out. handler_result [(''smoke'', slow_handler)] demo_invocation = Some (Inr out))) \<and>
    (resp_status r = ''not_found'' \<longleftrightarrow>
      dict_get [(''smoke'', slow_handler)] (req_agent_name demo_invocation) = None) \<and>
    (resp_status r = ''ok'' \<longleftrightarrow> resp_error r = None)"
  by (rule invoke_answers)
    (simp add: returns_objects_def handler_result_def demo_invocation_def slow_handler_def wait_for_def)

text \<open>
  \<open>invoke\<close> does raise, although it says it never does: when a handler returns something that
  is not a dict, building the \<open>ok\<close> response fails outside the \<open>try\<close> block.
\<close>

theorem invoke_raises_on_other_output:
  assumes "handler_result rt req = Some (Inr out)" "\<not> is_object out"
  shows "fst (invoke rt elapsed req cur) = Inl (OtherException ''ValidationError'' ''output'')"
  using assms by (simp add: invoke_result Let_def make_response_not_obj)

lemma invoke_raises_on_other_output_witness:
  "fst (invoke [(''smoke'', plain_handler (JInt 1))] 1 demo_invocation None) =
    Inl (OtherException ''ValidationError'' ''output'')"
  by (rule invoke_raises_on_other_output [where out = "JInt 1"])
    (simp_all add: handler_result_def demo_invocation_def plain_handler_def wait_for_def is_object_def)

end
