(* ===== verification/Metrics.thy ===== *)
theory Metrics
  imports Prelude "HOL-Library.Char_ord" "HOL-Library.List_Lexorder" "HOL-Library.Product_Lexorder" "HOL-Library.Multiset"
begin

text \<open>
  In-process metrics (\<open>intelliqx_observability/metrics.py\<close>).

  A metric is its name, description and a dict from label keys; a label key is the sorted list of the
  labels' names and values (texts).  Floats are rationals, and printing one is the parameter
  \<open>show_float\<close>.  Every method holds the metric's lock for its whole update, so it is one step.
\<close>

type_synonym labels = "(string \<times> string) list"

record 'v metric =
  m_name :: string
  m_description :: string
  m_values :: "(labels, 'v) dict"

definition new_metric :: "string \<Rightarrow> string \<Rightarrow> 'v metric" where
  "new_metric n d = \<lparr>m_name = n, m_description = d, m_values = []\<rparr>"

definition label_key :: "labels \<Rightarrow> labels" where
  "label_key ls = sort ls"

section \<open>Counters and gauges\<close>

definition inc :: "rat \<Rightarrow> labels \<Rightarrow> rat metric \<Rightarrow> rat metric" where
  "inc amount ls c =
     (let k = label_key ls; old = (case dict_get (m_values c) k of None \<Rightarrow> 0 | Some v \<Rightarrow> v)
      in c\<lparr>m_values := dict_set k (old + amount) (m_values c)\<rparr>)"

definition metric_value :: "labels \<Rightarrow> rat metric \<Rightarrow> rat" where
  "metric_value ls c = (case dict_get (m_values c) (label_key ls) of None \<Rightarrow> 0 | Some v \<Rightarrow> v)"

definition gauge_set :: "rat \<Rightarrow> labels \<Rightarrow> rat metric \<Rightarrow> rat metric" where
  "gauge_set v ls g = g\<lparr>m_values := dict_set (label_key ls) v (m_values g)\<rparr>"

definition gauge_value :: "labels \<Rightarrow> rat metric \<Rightarrow> rat" where
  "gauge_value ls g = (case dict_get (m_values g) (label_key ls) of None \<Rightarrow> 0 | Some v \<Rightarrow> v)"

definition label_line :: "string \<Rightarrow> labels \<Rightarrow> string" where
  "label_line n k = n @ ''{'' @ join_with '','' (map (\<lambda>(a, v). a @ ''='' @ v) k) @ ''}''"

definition value_snapshot :: "rat metric \<Rightarrow> (string, rat) dict" where
  "value_snapshot m = fold (\<lambda>(k, v). dict_set (label_line (m_name m) k) v) (m_values m) []"

definition gauge_snapshot :: "rat metric \<Rightarrow> (string, rat) dict" where
  "gauge_snapshot g = fold (\<lambda>(k, v). dict_set (label_line (m_name g) k) v) (m_values g) []"

text \<open>A gauge holds what was set last for the label set, and other label sets are not touched.\<close>

lemma gauge_value_set:
  "gauge_value ls (gauge_set v ls' g) = (if label_key ls' = label_key ls then v else gauge_value ls g)"
  by (simp add: gauge_value_def gauge_set_def)

section \<open>Histograms\<close>

definition observe :: "rat \<Rightarrow> labels \<Rightarrow> rat list metric \<Rightarrow> rat list metric" where
  "observe v ls h =
     (let k = label_key ls; old = (case dict_get (m_values h) k of None \<Rightarrow> [] | Some s \<Rightarrow> s)
      in h\<lparr>m_values := dict_set k (old @ [v]) (m_values h)\<rparr>)"

text \<open>\<open>time\<close>: the duration is observed only when the block ends without raising.\<close>

definition observe_block :: "rat \<Rightarrow> rat \<Rightarrow> labels \<Rightarrow> 'e + 'r \<Rightarrow> rat list metric \<Rightarrow> rat list metric" where
  "observe_block start stop ls outcome h =
     (case outcome of Inl e \<Rightarrow> h | Inr r \<Rightarrow> observe ((stop - start) * 1000) ls h)"

definition pct :: "rat \<Rightarrow> rat list \<Rightarrow> rat" where
  "pct p sorted_s = (let n = length sorted_s in sorted_s ! min (n - 1) (nat \<lfloor>p * of_nat n\<rfloor>))"

record stats =
  st_count :: nat
  st_sum :: rat
  st_min :: rat
  st_max :: rat
  st_p50 :: rat
  st_p95 :: rat
  st_p99 :: rat

definition stats_of :: "rat list \<Rightarrow> stats" where
  "stats_of samples =
     (let s = sort samples
      in \<lparr>st_count = length s, st_sum = sum_list samples, st_min = Min (set samples), st_max = Max (set samples),
          st_p50 = pct (50 / 100) s, st_p95 = pct (95 / 100) s, st_p99 = pct (99 / 100) s\<rparr>)"

definition histogram_snapshot :: "rat list metric \<Rightarrow> (string, stats) dict" where
  "histogram_snapshot h =
     fold (\<lambda>(k, s). if s = [] then (\<lambda>d. d) else dict_set (label_line (m_name h) k) (stats_of s)) (m_values h) []"

section \<open>The registry\<close>

record MetricsRegistry =
  counters :: "(string, rat metric) dict"
  gauges :: "(string, rat metric) dict"
  histograms :: "(string, rat list metric) dict"

definition registry_init :: MetricsRegistry where
  "registry_init = \<lparr>counters = [], gauges = [], histograms = []\<rparr>"

definition get_or_create :: "string \<Rightarrow> string \<Rightarrow> (string, 'v metric) dict \<Rightarrow> (string, 'v metric) dict" where
  "get_or_create n d ms = dict_setdefault n (new_metric n d) ms"

definition reg_counter :: "string \<Rightarrow> string \<Rightarrow> MetricsRegistry \<Rightarrow> MetricsRegistry" where
  "reg_counter n d r = r\<lparr>counters := get_or_create n d (counters r)\<rparr>"

definition reg_gauge :: "string \<Rightarrow> string \<Rightarrow> MetricsRegistry \<Rightarrow> MetricsRegistry" where
  "reg_gauge n d r = r\<lparr>gauges := get_or_create n d (gauges r)\<rparr>"

definition reg_histogram :: "string \<Rightarrow> string \<Rightarrow> MetricsRegistry \<Rightarrow> MetricsRegistry" where
  "reg_histogram n d r = r\<lparr>histograms := get_or_create n d (histograms r)\<rparr>"

definition registry_snapshot ::
    "MetricsRegistry \<Rightarrow> (string, (string, rat) dict) dict \<times> (string, (string, rat) dict) dict
      \<times> (string, (string, stats) dict) dict" where
  "registry_snapshot r =
     (map (\<lambda>(n, c). (n, value_snapshot c)) (counters r),
      map (\<lambda>(n, g). (n, gauge_snapshot g)) (gauges r),
      map (\<lambda>(n, h). (n, histogram_snapshot h)) (histograms r))"

definition registry_reset :: "MetricsRegistry \<Rightarrow> MetricsRegistry" where
  "registry_reset r = r\<lparr>counters := [], gauges := [], histograms := []\<rparr>"

definition value_lines :: "(rat \<Rightarrow> string) \<Rightarrow> string \<Rightarrow> (string, rat metric) dict \<Rightarrow> string list" where
  "value_lines show_float kind ms =
     concat (map (\<lambda>(n, m). (''# TYPE '' @ n @ '' '' @ kind)
       # map (\<lambda>(k, v). k @ '' '' @ show_float v) (value_snapshot m)) ms)"

definition summary_lines :: "(rat \<Rightarrow> string) \<Rightarrow> string \<Rightarrow> stats \<Rightarrow> string list" where
  "summary_lines show_float k s =
     (let base = takeWhile (\<lambda>c. c \<noteq> CHR ''{'') k; ls = dropWhile (\<lambda>c. c \<noteq> CHR ''{'') k
      in map (\<lambda>(stat, v). base @ ''_'' @ stat @ ls @ '' '' @ show_float v)
           [(''count'', of_nat (st_count s)), (''sum'', st_sum s), (''min'', st_min s), (''max'', st_max s),
            (''p50'', st_p50 s), (''p95'', st_p95 s), (''p99'', st_p99 s)])"

definition histogram_lines :: "(rat \<Rightarrow> string) \<Rightarrow> (string, rat list metric) dict \<Rightarrow> string list" where
  "histogram_lines show_float ms =
     concat (map (\<lambda>(n, h). (''# TYPE '' @ n @ '' summary'')
       # concat (map (\<lambda>(k, s). summary_lines show_float k s) (histogram_snapshot h))) ms)"

definition render_prometheus :: "(rat \<Rightarrow> string) \<Rightarrow> MetricsRegistry \<Rightarrow> string" where
  "render_prometheus show_float r =
     join_with [CHR 0x0A] (value_lines show_float ''counter'' (counters r)
       @ value_lines show_float ''gauge'' (gauges r) @ histogram_lines show_float (histograms r)) @ [CHR 0x0A]"

section \<open>Counters add up\<close>

lemma label_key_perm: "mset ls = mset ls' \<Longrightarrow> label_key ls = label_key ls'"
  by (simp add: label_key_def properties_for_sort)

lemma metric_value_inc:
  "metric_value ls (inc a ls' c) = metric_value ls c + (if label_key ls' = label_key ls then a else 0)"
  by (simp add: metric_value_def inc_def Let_def)

text \<open>
  A counter's value under some labels is the sum of all amounts added under the same labels, in
  whatever order the labels were written.
\<close>

theorem counter_total:
  shows "metric_value ls (fold (\<lambda>(a, ls'). inc a ls') incs (new_metric n d)) =
    sum_list (map fst (filter (\<lambda>(a, ls'). mset ls' = mset ls) incs))"
proof -
  have key: "label_key ls' = label_key ls \<longleftrightarrow> mset ls' = mset ls" for ls'
    by (metis label_key_def label_key_perm mset_sort)
  have "metric_value ls (fold (\<lambda>(a, ls'). inc a ls') incs c) =
      metric_value ls c + sum_list (map fst (filter (\<lambda>(a, ls'). mset ls' = mset ls) incs))" for c
    by (induction incs arbitrary: c) (auto simp: metric_value_inc key)
  then show ?thesis by (simp add: metric_value_def new_metric_def)
qed

section \<open>Percentiles\<close>

lemma pct_index:
  assumes "s \<noteq> []" "0 \<le> p"
  shows "min (length s - 1) (nat \<lfloor>p * of_nat (length s)\<rfloor>) < length s"
  using assms by (cases s) auto

lemma pct_in: "s \<noteq> [] \<Longrightarrow> 0 \<le> p \<Longrightarrow> pct p s \<in> set s"
  using pct_index [of s p] by (simp add: pct_def Let_def)

lemma pct_mono:
  assumes "sorted s" "s \<noteq> []" "0 \<le> p" "p \<le> q"
  shows "pct p s \<le> pct q s"
proof -
  have "p * of_nat (length s) \<le> q * of_nat (length s)" using assms(4) by (intro mult_right_mono) auto
  then have "nat \<lfloor>p * of_nat (length s)\<rfloor> \<le> nat \<lfloor>q * of_nat (length s)\<rfloor>"
    by (intro nat_mono floor_mono)
  then show ?thesis
    using assms pct_index [of s q] by (auto simp: pct_def Let_def intro!: sorted_nth_mono)
qed

lemma count_le_nth:
  assumes "sorted s" "i < length s"
  shows "i < length (filter (\<lambda>x. x \<le> s ! i) s)" and "length (filter (\<lambda>x. x < s ! i) s) \<le> i"
proof -
  have "set (take (Suc i) s) \<subseteq> {x. x \<le> s ! i}"
    using assms by (force simp: set_conv_nth intro: sorted_nth_mono)
  then have "filter (\<lambda>x. x \<le> s ! i) (take (Suc i) s) = take (Suc i) s" by (intro filter_True) auto
  moreover have "length (filter (\<lambda>x. x \<le> s ! i) s) =
      length (filter (\<lambda>x. x \<le> s ! i) (take (Suc i) s)) + length (filter (\<lambda>x. x \<le> s ! i) (drop (Suc i) s))"
    by (metis append_take_drop_id filter_append length_append)
  ultimately show "i < length (filter (\<lambda>x. x \<le> s ! i) s)" using assms(2) by simp
  have "set (drop i s) \<subseteq> {x. s ! i \<le> x}"
    using assms by (force simp: set_conv_nth intro: sorted_nth_mono)
  then have "filter (\<lambda>x. x < s ! i) (drop i s) = []" by (auto simp: filter_empty_conv)
  moreover have "length (filter (\<lambda>x. x < s ! i) s) =
      length (filter (\<lambda>x. x < s ! i) (take i s)) + length (filter (\<lambda>x. x < s ! i) (drop i s))"
    by (metis append_take_drop_id filter_append length_append)
  ultimately show "length (filter (\<lambda>x. x < s ! i) s) \<le> i"
    by (metis (no_types) add.right_neutral length_filter_le length_take list.size(3) min.bounded_iff)
qed

text \<open>
  The statistics of a non-empty sample list are in order, \<open>min \<le> p50 \<le> p95 \<le> p99 \<le> max\<close>, each
  percentile is a sample, and a \<open>p\<close> percentile has at most \<open>p * n\<close> samples below it and more than
  \<open>p * n\<close> samples up to it, for any \<open>p\<close> below one.
\<close>

theorem histogram_stats_bounds:
  assumes "samples \<noteq> []" "0 \<le> p" "p < 1"
  shows "st_min (stats_of samples) \<le> st_p50 (stats_of samples) \<and>
    st_p50 (stats_of samples) \<le> st_p95 (stats_of samples) \<and>
    st_p95 (stats_of samples) \<le> st_p99 (stats_of samples) \<and>
    st_p99 (stats_of samples) \<le> st_max (stats_of samples) \<and>
    pct p (sort samples) \<in> set samples \<and>
    of_nat (length (filter (\<lambda>x. x < pct p (sort samples)) samples)) \<le> p * of_nat (length samples) \<and>
    p * of_nat (length samples) < of_nat (length (filter (\<lambda>x. x \<le> pct p (sort samples)) samples))"
proof -
  let ?s = "sort samples" and ?n = "length samples"
  have s: "sorted ?s" "?s \<noteq> []" using assms(1) by (simp_all flip: set_empty)
  let ?i = "nat \<lfloor>p * of_nat ?n\<rfloor>"
  have "p * of_nat ?n < of_nat ?n" using assms by simp
  then have "\<lfloor>p * of_nat ?n\<rfloor> < int ?n" by (simp add: floor_less_iff)
  moreover have fl: "0 \<le> \<lfloor>p * of_nat ?n\<rfloor>" using assms(2) by simp
  ultimately have i: "?i < ?n" by linarith
  then have pct: "pct p ?s = ?s ! ?i" by (simp add: pct_def Let_def min_absorb2)
  have len: "length (filter P samples) = length (filter P ?s)" for P
    by (metis filter_sort length_sort)
  have "of_nat (length (filter (\<lambda>x. x < pct p ?s) samples)) \<le> (of_nat ?i :: rat)"
    using count_le_nth(2) [OF s(1), of ?i] i by (simp add: pct len)
  also have "\<dots> \<le> p * of_nat ?n" using fl by simp
  finally have below: "of_nat (length (filter (\<lambda>x. x < pct p ?s) samples)) \<le> p * of_nat ?n" .
  have "p * of_nat ?n < of_nat (Suc ?i)" using fl by (simp add: of_nat_nat) linarith
  also have "\<dots> \<le> of_nat (length (filter (\<lambda>x. x \<le> pct p ?s) samples))"
    using count_le_nth(1) [OF s(1), of ?i] i by (simp only: pct len of_nat_le_iff) simp
  finally have upto: "p * of_nat ?n < of_nat (length (filter (\<lambda>x. x \<le> pct p ?s) samples))" .
  have mem: "pct q ?s \<in> set samples" if "0 \<le> q" for q using pct_in [OF s(2) that] by simp
  have "st_min (stats_of samples) \<le> pct (50 / 100) ?s" "pct (99 / 100) ?s \<le> st_max (stats_of samples)"
    using mem by (simp_all add: stats_of_def Let_def)
  moreover have "pct (50 / 100) ?s \<le> pct (95 / 100) ?s" "pct (95 / 100) ?s \<le> pct (99 / 100) ?s"
    by (rule pct_mono [OF s]; simp)+
  ultimately show ?thesis using below upto mem [OF assms(2)] by (simp add: stats_of_def Let_def)
qed

lemma histogram_stats_bounds_witness:
  "of_nat (length (filter (\<lambda>x. x < pct (1 / 2) (sort [3, 1])) [3, 1])) \<le> (1 / 2 :: rat) * of_nat (length [3, 1 :: rat]) \<and>
   st_p50 (stats_of [3, 1]) = 3"
  using histogram_stats_bounds [of "[3, 1]" "1 / 2"] by (simp add: stats_of_def pct_def)

text \<open>
  The docstring claims the nearest-rank method, which takes the sample of rank \<open>\<lceil>p * n\<rceil>\<close>.  At whole
  \<open>p * n\<close> the code takes the next one: the median of two samples is the larger.
\<close>

definition nearest_rank :: "rat \<Rightarrow> rat list \<Rightarrow> rat" where
  "nearest_rank p s = sort s ! (nat \<lceil>p * of_nat (length s)\<rceil> - 1)"

lemma median_is_not_nearest_rank:
  "nearest_rank (50 / 100) [1, 2] = 1 \<and> st_p50 (stats_of [1, 2]) = 2"
  by (simp add: nearest_rank_def stats_of_def pct_def)

text \<open>Label values are not escaped: two label sets can print alike, and a snapshot keeps one of them.\<close>

lemma snapshot_merges_labels:
  "value_snapshot (inc 2 [(''a'', ''1''), (''b'', ''2'')] (inc 1 [(''a'', ''1,b=2'')] (new_metric ''n'' []))) =
     [(''n{a=1,b=2}'', 2)]"
  by (simp add: inc_def new_metric_def label_key_def value_snapshot_def label_line_def)

end
