(* ===== verification/Service.thy ===== *)
theory Service
  imports RunQueue Compute Metrics
begin

text \<open>
  The HTTP service and its embedded workers (\<open>intelliqx_service/app.py\<close>, \<open>auth.py\<close>).

  Settings come from an environment (a dict of strings).  A request is its \<open>Authorization\<close>
  header and body; a route's answer is a status code with JSON, a text, an \<open>HTTPException\<close>, or an
  exception that the handler lets escape (\<open>Unhandled\<close>; the framework answers 500).
  \<open>json_loads\<close> is \<open>json.loads\<close> on the bytes of the body, \<open>uuid\<close> the fresh run id, and \<open>reg\<close> the
  registry of metrics.

  A worker's turn is split where it awaits: \<open>claim_next\<close> on one side, \<open>finish_claim\<close> on the
  other, with the invocation's result in between.  \<open>svc_step\<close> interleaves the turns of any
  number of workers with submissions, cancellations and the cancellation of worker tasks at
  shutdown; \<open>worker_iter\<close> is one whole turn of a single worker.  Ghost component: \<open>history\<close>, the
  runs handed to an agent so far.

  \<open>spec_step\<close> is the abstract machine on the queue's view; \<open>svc_step_refines\<close> is the simulation,
  and the safety properties are proved on the abstract machine.
\<close>

section \<open>Authentication\<close>

text \<open>\<open>header.split(" ", 1)\<close> has two parts exactly if a blank occurs.\<close>

definition bearer_token_from_header :: "string option \<Rightarrow> string option" where
  "bearer_token_from_header header =
     (case header of
        None \<Rightarrow> None
      | Some h \<Rightarrow>
          if h = [] then None
          else if CHR '' '' \<notin> set h then None
          else (let scheme = takeWhile (\<lambda>c. c \<noteq> CHR '' '') h;
                    token = drop (Suc (length scheme)) h
                in if py_lower scheme \<noteq> ''bearer'' then None
                   else (let t = py_strip token in if t = [] then None else Some t)))"

section \<open>Settings\<close>

datatype startup_error = WeakToken | BadInteger string

definition parse_int :: "string option \<Rightarrow> int \<Rightarrow> startup_error + int" where
  "parse_int raw dflt =
     (case raw of
        None \<Rightarrow> Inr dflt
      | Some r \<Rightarrow>
          if py_strip r = [] then Inr dflt
          else (case py_int r of None \<Rightarrow> Inl (BadInteger r) | Some n \<Rightarrow> Inr n))"

record Settings =
  token :: string
  state_path :: string
  worker_count :: int
  set_max_retries :: int
  set_run_ttl_seconds :: int

definition MIN_TOKEN_LENGTH :: nat where "MIN_TOKEN_LENGTH = 32"

definition from_env :: "(string, string) dict \<Rightarrow> startup_error + Settings" where
  "from_env src =
     (let tok = py_strip (case dict_get src ''INTELLIQX_API_TOKEN'' of None \<Rightarrow> [] | Some t \<Rightarrow> t);
          path = (case dict_get src ''INTELLIQX_STATE_DB'' of
                    None \<Rightarrow> '':memory:'' | Some p \<Rightarrow> if p = [] then '':memory:'' else p)
      in if length tok < MIN_TOKEN_LENGTH then Inl WeakToken
         else (case parse_int (dict_get src ''INTELLIQX_WORKERS'') 1 of
                 Inl e \<Rightarrow> Inl e
               | Inr w \<Rightarrow>
           (case parse_int (dict_get src ''INTELLIQX_MAX_RETRIES'') 1 of
                 Inl e \<Rightarrow> Inl e
               | Inr r \<Rightarrow>
           (case parse_int (dict_get src ''INTELLIQX_RUN_TTL'') 3600 of
                 Inl e \<Rightarrow> Inl e
               | Inr t \<Rightarrow> Inr \<lparr>token = tok, state_path = path, worker_count = w,
                              set_max_retries = r, set_run_ttl_seconds = t\<rparr>))))"

text \<open>
  \<open>lifespan\<close> up to the point where the application starts to serve: the settings, the store, and
  the number of worker tasks.
\<close>

definition startup ::
    "(string \<Rightarrow> string option) \<Rightarrow> run_row list \<Rightarrow> (string, string) dict
      \<Rightarrow> (startup_error + db_error) + (Settings \<times> queue_db \<times> nat)" where
  "startup journal_mode on_disk env =
     (case from_env env of
        Inl e \<Rightarrow> Inl (Inl e)
      | Inr cfg \<Rightarrow>
          (case init_store journal_mode (state_path cfg) (set_run_ttl_seconds cfg) on_disk of
             Inl e \<Rightarrow> Inl (Inr e)
           | Inr db \<Rightarrow> Inr (cfg, db, nat (max (worker_count cfg) 1))))"

section \<open>The routes\<close>

record http_request =
  authorization :: "string option"
  body :: string

text \<open>
  How \<open>json.loads\<close> fails: with a \<open>JSONDecodeError\<close> and its text, or with another exception, of the type
  given, such as the \<open>UnicodeDecodeError\<close> of bytes in no Unicode encoding.
\<close>

datatype json_failure = JSONDecodeError string | OtherLoadError string

datatype http_result =
    Response int json
  | PlainText string
  | HTTPException int string
  | Unhandled string

definition require_token :: "Settings \<Rightarrow> http_request \<Rightarrow> http_result + unit" where
  "require_token cfg req =
     (case bearer_token_from_header (authorization req) of
        None \<Rightarrow> Inl (HTTPException 401 ''invalid or missing token'')
      | Some presented \<Rightarrow>
          if presented = token cfg then Inr ()
          else Inl (HTTPException 401 ''invalid or missing token''))"

definition read_json_object ::
    "(string \<Rightarrow> json_failure + json) \<Rightarrow> http_request \<Rightarrow> http_result + (string, json) dict" where
  "read_json_object json_loads req =
     (if body req = [] then Inr []
      else (case json_loads (body req) of
              Inl (JSONDecodeError msg) \<Rightarrow> Inl (HTTPException 400 (''invalid json: '' @ msg))
            | Inl (OtherLoadError name) \<Rightarrow> Inl (Unhandled name)
            | Inr (JObj kvs) \<Rightarrow> Inr kvs
            | Inr _ \<Rightarrow> Inl (HTTPException 400 ''expected object body'')))"

record RunSubmission =
  agent :: string
  sub_tenant_id :: string
  sub_input :: json

text \<open>\<open>RunSubmission.model_validate\<close>: the fields, their constraints, no other key.\<close>

definition field_tenant :: "(string, json) dict \<Rightarrow> string option" where
  "field_tenant kvs =
     (case dict_get kvs ''tenant_id'' of None \<Rightarrow> Some ''t1'' | Some (JStr t) \<Rightarrow> Some t | Some _ \<Rightarrow> None)"

definition field_input :: "(string, json) dict \<Rightarrow> json option" where
  "field_input kvs =
     (case dict_get kvs ''input'' of
        None \<Rightarrow> Some (JObj []) | Some (JObj i) \<Rightarrow> Some (JObj i) | Some _ \<Rightarrow> None)"

definition field_agent :: "(string, json) dict \<Rightarrow> string option" where
  "field_agent kvs =
     (case dict_get kvs ''agent'' of
        Some (JStr a) \<Rightarrow> if a = [] then None else Some a | _ \<Rightarrow> None)"

definition validate_submission :: "(string, json) dict \<Rightarrow> RunSubmission option" where
  "validate_submission kvs =
     (if \<not> set (map fst kvs) \<subseteq> {''agent'', ''tenant_id'', ''input''} then None
      else (case (field_agent kvs, field_tenant kvs, field_input kvs) of
              (Some a, Some t, Some i) \<Rightarrow> Some \<lparr>agent = a, sub_tenant_id = t, sub_input = i\<rparr>
            | _ \<Rightarrow> None))"

definition protected ::
    "Settings \<Rightarrow> http_request \<Rightarrow> (queue_db \<Rightarrow> http_result \<times> queue_db) \<Rightarrow> queue_db
      \<Rightarrow> http_result \<times> queue_db" where
  "protected cfg req handler s =
     (case require_token cfg req of Inl e \<Rightarrow> (e, s) | Inr _ \<Rightarrow> handler s)"

text \<open>The type and the text of what SQLite raises.\<close>

fun db_error_name :: "db_error \<Rightarrow> string" where
  "db_error_name IntegrityError = ''IntegrityError''"
| "db_error_name ProgrammingError = ''ProgrammingError''"
| "db_error_name WalUnsupported = ''RuntimeError''"

fun db_error_text :: "db_error \<Rightarrow> string" where
  "db_error_text ProgrammingError = ''Cannot operate on a closed database.''"
| "db_error_text IntegrityError = ''UNIQUE constraint failed: runs.run_id''"
| "db_error_text WalUnsupported =
     ''SQLite must run in WAL journal mode; the platform refuses to fall back to a non-concurrent setup.''"

definition submit_run ::
    "(string \<Rightarrow> json_failure + json) \<Rightarrow> string \<Rightarrow> rat \<Rightarrow> http_request \<Rightarrow> queue_db
      \<Rightarrow> http_result \<times> queue_db" where
  "submit_run json_loads uuid now req s =
     (case read_json_object json_loads req of
        Inl e \<Rightarrow> (e, s)
      | Inr kvs \<Rightarrow>
          (case validate_submission kvs of
             None \<Rightarrow> (Unhandled ''ValidationError'', s)
           | Some sub \<Rightarrow>
               (case enqueue uuid (agent sub) (sub_tenant_id sub) (sub_input sub) 1 now s of
                  Inl e \<Rightarrow> (Unhandled (db_error_name e), s)
                | Inr s' \<Rightarrow>
                    (Response 202 (JObj [(''run_id'', JStr uuid),
                                         (''status'', JStr (status_value PENDING))]), s'))))"

definition get_run ::
    "(rat \<Rightarrow> string) \<Rightarrow> string \<Rightarrow> queue_db \<Rightarrow> http_result \<times> queue_db" where
  "get_run isoformat rid s =
     (case get rid s of
        Inl e \<Rightarrow> (Unhandled (db_error_name e), s)
      | Inr None \<Rightarrow> (HTTPException 404 ''run not found'', s)
      | Inr (Some r) \<Rightarrow> (Response 200 (as_dict isoformat r), s))"

definition cancel_run :: "string \<Rightarrow> rat \<Rightarrow> queue_db \<Rightarrow> http_result \<times> queue_db" where
  "cancel_run rid now s =
     (case cancel rid now s of
        Inl e \<Rightarrow> (Unhandled (db_error_name e), s)
      | Inr (False, s') \<Rightarrow> (HTTPException 409 ''run not in a cancellable state'', s')
      | Inr (True, s') \<Rightarrow>
          (Response 200 (JObj [(''run_id'', JStr rid), (''status'', JStr (status_value CANCELLED))]),
           s'))"

definition healthz :: http_result where
  "healthz = Response 200 (JObj [(''status'', JStr ''ok'')])"

definition readyz :: "queue_db \<Rightarrow> http_result" where
  "readyz s =
     (case ping s of
        Inl e \<Rightarrow> Response 503 (JObj [(''status'', JStr ''error''), (''error'', JStr (db_error_text e))])
      | Inr _ \<Rightarrow> Response 200 (JObj [(''status'', JStr ''ok'')]))"

datatype route = Healthz | Readyz | MetricsRoute | SubmitRun | GetRun string | CancelRun string

definition handle ::
    "(string \<Rightarrow> json_failure + json) \<Rightarrow> (rat \<Rightarrow> string) \<Rightarrow> (rat \<Rightarrow> string) \<Rightarrow> MetricsRegistry \<Rightarrow> Settings \<Rightarrow> string \<Rightarrow> rat
      \<Rightarrow> route \<Rightarrow> http_request \<Rightarrow> queue_db \<Rightarrow> http_result \<times> queue_db" where
  "handle json_loads isoformat show_float reg cfg uuid now rt req s =
     (case rt of
        Healthz \<Rightarrow> (healthz, s)
      | Readyz \<Rightarrow> (readyz s, s)
      | MetricsRoute \<Rightarrow> (PlainText (render_prometheus show_float reg), s)
      | SubmitRun \<Rightarrow> protected cfg req (submit_run json_loads uuid now req) s
      | GetRun rid \<Rightarrow> protected cfg req (get_run isoformat rid) s
      | CancelRun rid \<Rightarrow> protected cfg req (cancel_run rid now) s)"

section \<open>The worker\<close>

definition build_invocation_request :: "claim \<Rightarrow> InvocationRequest" where
  "build_invocation_request c =
     (case c of (rid, ag, payload, tenant, attempt) \<Rightarrow>
        \<lparr>req_agent_name = ag, req_input = payload, req_tenant_id = tenant,
         req_timeout_seconds = 300,
         req_metadata = [(''run_id'', JStr rid), (''attempt'', JInt attempt)]\<rparr>)"

definition record_outcome ::
    "Settings \<Rightarrow> string \<Rightarrow> InvocationResponse \<Rightarrow> int \<Rightarrow> rat \<Rightarrow> queue_db \<Rightarrow> db_error + queue_db" where
  "record_outcome cfg rid resp attempt now s =
     (if resp_status resp = ''ok''
      then complete rid SUCCEEDED (Some (resp_output resp)) None (resp_duration_ms resp) now s
      else if attempt \<ge> set_max_retries cfg
      then complete rid FAILED None
             (Some (case resp_error resp of
                      Some (c # cs) \<Rightarrow> c # cs
                    | _ \<Rightarrow> ''transport status '' @ resp_status resp))
             (resp_duration_ms resp) now s
      else requeue rid (attempt + 1) now s)"

text \<open>
  The part of \<open>_process_claim\<close> after the invocation ended with \<open>result\<close>.  \<open>CancelledError\<close> is not
  an \<open>Exception\<close>: it ends the worker task and nothing is recorded.
\<close>

definition finish_claim ::
    "Settings \<Rightarrow> claim \<Rightarrow> exn + InvocationResponse \<Rightarrow> rat \<Rightarrow> queue_db \<Rightarrow> db_error + queue_db" where
  "finish_claim cfg c result now s =
     (case c of (rid, ag, payload, tenant, attempt) \<Rightarrow>
        (case result of
           Inl CancelledError \<Rightarrow> Inr s
         | Inl e \<Rightarrow> complete rid FAILED None (Some (exn_type e @ '': '' @ exn_str e)) 0 now s
         | Inr resp \<Rightarrow> record_outcome cfg rid resp attempt now s))"

text \<open>One turn of \<open>_worker_loop\<close>; \<open>t\<close> and \<open>t'\<close> are the times of the claim and of the outcome.\<close>

definition worker_iter ::
    "(run_row list \<Rightarrow> run_row) \<Rightarrow> (InvocationRequest \<Rightarrow> exn + InvocationResponse) \<Rightarrow> Settings
      \<Rightarrow> rat \<Rightarrow> rat \<Rightarrow> queue_db \<Rightarrow> db_error + queue_db" where
  "worker_iter pick call cfg t t' s =
     (case claim_next pick t s of
        Inl e \<Rightarrow> Inl e
      | Inr (None, s') \<Rightarrow> Inr s'
      | Inr (Some c, s') \<Rightarrow> finish_claim cfg c (call (build_invocation_request c)) t' s')"

fun worker_loop ::
    "nat \<Rightarrow> (run_row list \<Rightarrow> run_row) \<Rightarrow> (InvocationRequest \<Rightarrow> exn + InvocationResponse) \<Rightarrow> Settings
      \<Rightarrow> (nat \<Rightarrow> rat) \<Rightarrow> queue_db \<Rightarrow> db_error + queue_db" where
  "worker_loop 0 pick call cfg clock s = Inr s"
| "worker_loop (Suc n) pick call cfg clock s =
     (case worker_iter pick call cfg (clock 0) (clock 1) s of
        Inl e \<Rightarrow> Inl e
      | Inr s' \<Rightarrow> worker_loop n pick call cfg (\<lambda>i. clock (i + 2)) s')"

section \<open>The interleaved system\<close>

record svc =
  db :: queue_db
  in_flight :: "claim list"
  history :: "string list"

inductive svc_step :: "(run_row list \<Rightarrow> run_row) \<Rightarrow> Settings \<Rightarrow> svc \<Rightarrow> svc \<Rightarrow> bool"
  for pick cfg where
  Submit: "enqueue uuid a t p 1 now (db s) = Inr d \<Longrightarrow> svc_step pick cfg s (s\<lparr>db := d\<rparr>)"
| Poll_claim: "claim_next pick now (db s) = Inr (Some c, d) \<Longrightarrow>
    svc_step pick cfg s (s\<lparr>db := d, in_flight := c # in_flight s, history := fst c # history s\<rparr>)"
| Poll_idle: "claim_next pick now (db s) = Inr (None, d) \<Longrightarrow> svc_step pick cfg s (s\<lparr>db := d\<rparr>)"
| Finish: "c \<in> set (in_flight s) \<Longrightarrow> finish_claim cfg c result now (db s) = Inr d \<Longrightarrow>
    svc_step pick cfg s (s\<lparr>db := d, in_flight := remove1 c (in_flight s)\<rparr>)"
| Cancel: "cancel rid now (db s) = Inr (b, d) \<Longrightarrow> svc_step pick cfg s (s\<lparr>db := d\<rparr>)"

inductive svc_reachable :: "(run_row list \<Rightarrow> run_row) \<Rightarrow> Settings \<Rightarrow> svc \<Rightarrow> bool"
  for pick cfg where
  start: "svc_reachable pick cfg
    \<lparr>db = \<lparr>rows = [], run_ttl_seconds = ttl, closed = False\<rparr>, in_flight = [], history = []\<rparr>"
| step: "svc_reachable pick cfg s \<Longrightarrow> svc_step pick cfg s s' \<Longrightarrow> svc_reachable pick cfg s'"

section \<open>The abstract machine\<close>

type_synonym spec_state = "qview \<times> (string \<times> int) list \<times> string list"

inductive spec_step :: "spec_state \<Rightarrow> spec_state \<Rightarrow> bool" where
  Stay: "spec_step s s"
| Add: "v rid = None \<Longrightarrow> spec_step (v, fl, h) (v(rid \<mapsto> (PENDING, 0, 1)), fl, h)"
| Begin: "v rid = Some (PENDING, n - 1, m) \<Longrightarrow> n \<le> m \<Longrightarrow>
    spec_step (v, fl, h) (v(rid \<mapsto> (RUNNING, n, m)), (rid, n) # fl, rid # h)"
| Exhaust: "v rid = Some (PENDING, a, m) \<Longrightarrow> m \<le> a \<Longrightarrow>
    spec_step (v, fl, h) (v(rid \<mapsto> (FAILED, a, m)), fl, h)"
| Settle: "(rid, n) \<in> set fl \<Longrightarrow> v rid = Some (st0, a, m) \<Longrightarrow> st \<in> {SUCCEEDED, FAILED} \<Longrightarrow>
    spec_step (v, fl, h) (v(rid \<mapsto> (st, a, m)), remove1 (rid, n) fl, h)"
| Retry: "(rid, n) \<in> set fl \<Longrightarrow> v rid = Some (st0, a, m) \<Longrightarrow>
    spec_step (v, fl, h) (v(rid \<mapsto> (PENDING, n + 1, m)), remove1 (rid, n) fl, h)"
| Abandon: "(rid, n) \<in> set fl \<Longrightarrow> spec_step (v, fl, h) (v, remove1 (rid, n) fl, h)"
| Stop: "v rid = Some (st, a, m) \<Longrightarrow> st \<in> {PENDING, RUNNING} \<Longrightarrow>
    spec_step (v, fl, h) (v(rid \<mapsto> (CANCELLED, a, m)), fl, h)"

definition claim_key :: "claim \<Rightarrow> string \<times> int" where
  "claim_key c = (fst c, snd (snd (snd (snd c))))"

definition abs_svc :: "svc \<Rightarrow> spec_state" where
  "abs_svc s = (view (db s), map claim_key (in_flight s), history s)"

text \<open>
  The abstract invariant: a run is worked on by at most one worker, never while it is PENDING;
  every run handed out is known, has used an attempt of its budget of one, and is handed out once.
\<close>

fun spec_inv :: "spec_state \<Rightarrow> bool" where
  "spec_inv (v, fl, h) \<longleftrightarrow>
     distinct (map fst fl) \<and> distinct h \<and> (\<forall>(rid, n) \<in> set fl. n = 1 \<and> rid \<in> set h) \<and>
     (\<forall>(rid, n) \<in> set fl. \<forall>a m. v rid \<noteq> Some (PENDING, a, m)) \<and>
     (\<forall>rid \<in> set h. \<exists>st a. v rid = Some (st, a, 1) \<and> 1 \<le> a) \<and>
     (\<forall>rid st a m. v rid = Some (st, a, m) \<longrightarrow> m = 1 \<and> 0 \<le> a)"


lemma remove1_key:
  assumes "distinct (map fst fl)" "(rid, n) \<in> set fl"
  shows "distinct (map fst (remove1 (rid, n) fl))"
    and "set (remove1 (rid, n) fl) = set fl - {(rid, n)}"
    and "(rid, k) \<in> set (remove1 (rid, n) fl) \<Longrightarrow> False"
proof -
  have d: "distinct fl" using assms(1) by (simp add: distinct_map)
  then show eq: "set (remove1 (rid, n) fl) = set fl - {(rid, n)}" by simp
  show "distinct (map fst (remove1 (rid, n) fl))"
    using assms(1) d eq by (simp add: distinct_map inj_on_diff)
  show "(rid, k) \<in> set (remove1 (rid, n) fl) \<Longrightarrow> False"
    using assms eq by (auto dest: eq_key_imp_eq_value)
qed

lemma spec_inv_step: "spec_step x y \<Longrightarrow> spec_inv x \<Longrightarrow> spec_inv y"
proof (induction rule: spec_step.induct)
  case (Add v rid fl h)
  then have "rid \<notin> set h" by force
  moreover from this Add have "rid \<notin> fst ` set fl" by force
  ultimately show ?case using Add by (auto split: prod.splits) (force+)?
next
  case (Begin v rid n m fl h)
  then have "m = 1" and "0 \<le> n - 1" and "rid \<notin> set h"
    by (force simp: Ball_def)+
  with Begin show ?case by (auto split: prod.splits)
next
  case (Settle rid n fl v st0 a m st h)
  note k = remove1_key [of fl rid n]
  from Settle have "rid \<in> set h" "1 \<le> a" "m = 1" by force+
  with Settle k show ?case by (auto split: prod.splits)
next
  case (Retry rid n fl v st0 a m h)
  note k = remove1_key [of fl rid n]
  from Retry have "n = 1" "rid \<in> set h" "distinct (map fst fl)" by auto
  with Retry k show ?case by (auto split: prod.splits)
next
  case (Abandon rid n fl v h)
  note k = remove1_key [of fl rid n]
  from Abandon k show ?case by (auto split: prod.splits)
qed (auto split: prod.splits)

section \<open>The simulation\<close>

definition svc_inv :: "svc \<Rightarrow> bool" where
  "svc_inv s \<longleftrightarrow> wf_db (db s) \<and> spec_inv (abs_svc s)"

lemma finish_claim_cases:
  assumes "finish_claim cfg (rid, ag, p, t, n) result now d = Inr d'"
  obtains (settled) st out err dur where "st \<in> {SUCCEEDED, FAILED}"
      "complete rid st out err dur now d = Inr d'"
  | (requeued) resp where "result = Inr resp" "resp_status resp \<noteq> ''ok''" "n < set_max_retries cfg"
      "requeue rid (n + 1) now d = Inr d'"
  | (dropped) "result = Inl CancelledError" "d' = d"
proof (cases result)
  case (Inl e)
  with assms show thesis
    by (cases e) (auto simp: finish_claim_def intro: settled dropped)
next
  case (Inr resp)
  with assms show thesis
    by (auto simp: finish_claim_def record_outcome_def not_le split: if_splits
        intro: settled requeued)
qed

lemma map_remove1_inj:
  "inj_on f (insert c (set xs)) \<Longrightarrow> map f (remove1 c xs) = remove1 (f c) (map f xs)"
  by (induction xs) (auto simp: inj_on_def)

lemma in_flight_keys:
  assumes "distinct (map fst (map claim_key fl))" "c \<in> set fl"
  shows "map claim_key (remove1 c fl) = remove1 (claim_key c) (map claim_key fl)"
proof -
  have "inj_on claim_key (set fl)"
    using assms(1) by (auto simp: distinct_map intro: comp_inj_on inj_on_imageI2)
  then show ?thesis using assms(2) by (intro map_remove1_inj) (simp add: insert_absorb)
qed

theorem svc_step_refines:
  assumes "svc_step pick cfg s s'" and "pick_ok pick" and inv: "svc_inv s"
  shows "spec_step (abs_svc s) (abs_svc s') \<and> wf_db (db s')"
  using assms(1)
proof cases
  case (Submit uuid a t p now d)
  then show ?thesis
    using enqueue_ok [of "db s" uuid a t p 1 now d] inv
    by (auto simp: abs_svc_def svc_inv_def view_def intro: spec_step.Add)
next
  case (Poll_claim now c d)
  obtain rid a p t n where c: "c = (rid, a, p, t, n)" by (cases c)
  show ?thesis
    using sqlite.claim_some [of pick "db s" now rid a p t n d] Poll_claim inv assms(2)
    by (auto simp: abs_svc_def svc_inv_def claim_key_def c intro: spec_step.Begin)
next
  case (Poll_idle now d)
  then show ?thesis
    using sqlite.claim_none [of pick "db s" now d] inv assms(2)
    by (auto simp: abs_svc_def svc_inv_def intro: spec_step.Stay spec_step.Exhaust)
next
  case (Finish c result now d)
  obtain rid a p t n where c: "c = (rid, a, p, t, n)" by (cases c)
  have key: "(rid, n) \<in> set (map claim_key (in_flight s))"
    using Finish(2) by (force simp: c claim_key_def)
  have rm: "map claim_key (remove1 c (in_flight s)) = remove1 (rid, n) (map claim_key (in_flight s))"
    using in_flight_keys [OF _ Finish(2)] inv
    by (simp add: svc_inv_def abs_svc_def claim_key_def c)
  obtain st0 k where v: "view (db s) rid = Some (st0, k, 1)"
    using inv key by (fastforce simp: svc_inv_def abs_svc_def)
  have pk: "pick_ok pick \<and> wf_db (db s)" using inv assms(2) by (simp add: svc_inv_def)
  from Finish(3) [unfolded c] show ?thesis
  proof (cases rule: finish_claim_cases)
    case (settled st out err dur)
    then show ?thesis
      using sqlite.compl_law [OF pk settled(2)] Finish(1) rm v
        spec_step.Settle [where v = "view (db s)" and rid = rid and st = st and h = "history s", OF key v]
      by (auto simp: abs_svc_def c)
  next
    case (requeued resp)
    then show ?thesis
      using sqlite.requ_law [OF pk requeued(4)] Finish(1) rm v
        spec_step.Retry [where v = "view (db s)" and rid = rid and h = "history s", OF key v]
      by (auto simp: abs_svc_def c)
  next
    case dropped
    then show ?thesis
      using Finish(1) rm pk spec_step.Abandon [OF key]
      by (auto simp: abs_svc_def c)
  qed
next
  case (Cancel rid now b d)
  have pk: "pick_ok pick \<and> wf_db (db s)" using inv assms(2) by (simp add: svc_inv_def)
  show ?thesis
    using sqlite.canc_law [OF pk Cancel(2)] Cancel(1)
    by (auto simp: abs_svc_def split: if_splits intro: spec_step.Stay spec_step.Stop)
qed

lemma svc_reachable_inv:
  assumes "svc_reachable pick cfg s" "pick_ok pick"
  shows "svc_inv s"
  using assms
proof (induction rule: svc_reachable.induct)
  case (start ttl)
  show ?case by (simp add: svc_inv_def abs_svc_def wf_db_def view_def row_of_def)
next
  case (step s s')
  note sim = svc_step_refines [OF step.hyps(2) step.prems step.IH [OF step.prems]]
  moreover have "spec_inv (abs_svc s)"
    using step.IH [OF step.prems] unfolding svc_inv_def by (rule conjunct2)
  ultimately show ?case
    unfolding svc_inv_def using spec_inv_step by blast
qed

section \<open>One worker turn, seen on the view\<close>

lemma closed_ops:
  "complete rid st out err dur now s = Inr s' \<Longrightarrow> \<not> closed s'"
  "requeue rid n now s = Inr s' \<Longrightarrow> \<not> closed s'"
  "claim_next pick now s = Inr (x, s') \<Longrightarrow> \<not> closed s'"
  by (auto simp: complete_def requeue_def claim_next_def Let_def split: if_splits list.splits)

lemma ops_total:
  "\<not> closed s \<Longrightarrow> \<exists>s'. complete rid st out err dur now s = Inr s'"
  "\<not> closed s \<Longrightarrow> \<exists>s'. requeue rid n now s = Inr s'"
  "\<not> closed s \<Longrightarrow> \<exists>x s'. claim_next pick now s = Inr (x, s')"
  by (auto simp: complete_def requeue_def claim_next_def Let_def split: list.splits)

lemma finish_claim_total:
  assumes "\<not> closed s"
  shows "\<exists>s'. finish_claim cfg c result now s = Inr s' \<and> \<not> closed s'"
proof -
  obtain rid ag p t n where c: "c = (rid, ag, p, t, n)" by (cases c)
  have "\<exists>s'. finish_claim cfg c result now s = Inr s'"
  proof (cases result)
    case (Inl e)
    then show ?thesis
      using ops_total(1) [OF assms] by (cases e) (auto simp: finish_claim_def c)
  next
    case (Inr resp)
    then show ?thesis
      using ops_total(1,2) [OF assms] by (auto simp: finish_claim_def record_outcome_def c)
  qed
  then obtain s' where s': "finish_claim cfg c result now s = Inr s'" by blast
  moreover have "\<not> closed s'"
    using s' [unfolded c] by (cases rule: finish_claim_cases) (use assms closed_ops in auto)
  ultimately show ?thesis by blast
qed

text \<open>
  A turn either finds nothing pending and changes nothing, or moves one pending run on and uses
  up work.
\<close>

definition moves_on :: "qview \<Rightarrow> qview \<Rightarrow> bool" where
  "moves_on v v' \<longleftrightarrow> work v' < work v \<and>
     (\<exists>rid a m st a'. v rid = Some (PENDING, a, m) \<and> v' = v(rid \<mapsto> (st, a', m)) \<and>
        st \<in> {PENDING, SUCCEEDED, FAILED})"

definition nothing_pending :: "qview \<Rightarrow> bool" where
  "nothing_pending v \<longleftrightarrow> (\<forall>rid a m. v rid \<noteq> Some (PENDING, a, m))"

lemma moves_onI:
  "work v' < work v \<Longrightarrow> v rid = Some (PENDING, a, m) \<Longrightarrow> v' = v(rid \<mapsto> (st, a', m)) \<Longrightarrow>
     st \<in> {PENDING, SUCCEEDED, FAILED} \<Longrightarrow> moves_on v v'"
  unfolding moves_on_def by blast

lemma worker_iter_view:
  assumes ok: "pick_ok pick \<and> wf_db s" and open_s: "\<not> closed s"
    and runtime: "\<And>req. call req \<noteq> Inl CancelledError"
  obtains s' where "worker_iter pick call cfg t t' s = Inr s'" "pick_ok pick \<and> wf_db s'" "\<not> closed s'"
    "s' = s \<and> nothing_pending (view s) \<or> moves_on (view s) (view s')"
proof -
  obtain x s1 where cl: "claim_next pick t s = Inr (x, s1)" using ops_total(3) [OF open_s] by blast
  show thesis
  proof (cases x)
    case None
    note law = sqlite.claim_none [OF ok cl [unfolded None]]
      and wk = sqlite.claim_none_work [OF ok cl [unfolded None]]
    have it: "worker_iter pick call cfg t t' s = Inr s1" by (simp add: worker_iter_def cl None)
    have ok1: "pick_ok pick \<and> wf_db s1" using law by blast
    show thesis
    proof (rule that [OF it ok1 closed_ops(3) [OF cl]])
      show "s1 = s \<and> nothing_pending (view s) \<or> moves_on (view s) (view s1)"
        using law wk unfolding nothing_pending_def
        by (auto intro: moves_onI)
    qed
  next
    case (Some c)
    obtain rid ag p tn n where c: "c = (rid, ag, p, tn, n)" by (cases c)
    note cl' = cl [unfolded Some c]
    have o1: "\<not> closed s1" by (rule closed_ops(3) [OF cl])
    obtain m where m: "view s rid = Some (PENDING, n - 1, m)"
        "view s1 = (view s)(rid \<mapsto> (RUNNING, n, m))" and ok1: "pick_ok pick \<and> wf_db s1"
      using sqlite.claim_some [OF ok cl'] by blast
    have wk: "work (view s1) < work (view s)" by (rule sqlite.claim_some_work [OF ok cl'])
    obtain s2 where fin: "finish_claim cfg c (call (build_invocation_request c)) t' s1 = Inr s2"
        and o2: "\<not> closed s2"
      using finish_claim_total [OF o1] by blast
    have it: "worker_iter pick call cfg t t' s = Inr s2"
      by (simp add: worker_iter_def cl Some fin)
    have v1: "view s1 rid = Some (RUNNING, n, m)" using m by simp
    from fin [unfolded c] show thesis
    proof (cases rule: finish_claim_cases)
      case (settled st out err dur)
      have "work (view s2) \<le> work (view s1)"
        using settled(1) by (intro sqlite.complete_work [OF ok1 settled(2)]) auto
      moreover have "view s2 = (view s)(rid \<mapsto> (st, n, m))" "pick_ok pick \<and> wf_db s2"
        using sqlite.compl_law [OF ok1 settled(2)] v1 m by simp_all
      moreover from this settled(1) calculation(1) wk
      have "moves_on (view s) (view s2)" by (intro moves_onI [where v = "view s" and rid = rid and a = "n - 1" and m = m, OF _ m(1)]) auto
      ultimately show thesis by (intro that [OF it _ o2]) auto
    next
      case (requeued resp)
      have "work (view s2) \<le> work (view s1)"
        by (rule sqlite.requeue_work [OF ok1 requeued(4) v1])
      moreover have "view s2 = (view s)(rid \<mapsto> (PENDING, n + 1, m))" "pick_ok pick \<and> wf_db s2"
        using sqlite.requ_law [OF ok1 requeued(4)] v1 m by simp_all
      moreover from this calculation(1) wk
      have "moves_on (view s) (view s2)" by (intro moves_onI [where v = "view s" and rid = rid and a = "n - 1" and m = m, OF _ m(1)]) auto
      ultimately show thesis by (intro that [OF it _ o2]) auto
    next
      case dropped
      with runtime show thesis by simp
    qed
  qed
qed

text \<open>\<open>drained v v'\<close>: every run pending in \<open>v\<close> has ended in \<open>v'\<close>; the others are as they were.\<close>

definition drained :: "qview \<Rightarrow> qview \<Rightarrow> bool" where
  "drained v v' \<longleftrightarrow>
     (\<forall>rid. case v rid of
        None \<Rightarrow> v' rid = None
      | Some (st, a, m) \<Rightarrow>
          if st = PENDING
          then \<exists>st' a'. v' rid = Some (st', a', m) \<and> (st' = SUCCEEDED \<or> st' = FAILED)
          else v' rid = v rid)"

lemma drained_idle: "nothing_pending v \<Longrightarrow> drained v v"
  unfolding drained_def nothing_pending_def by (auto split: option.split)

lemma drained_step:
  assumes "moves_on v v1" "drained v1 v'"
  shows "drained v v'"
  unfolding drained_def
proof
  obtain rid0 a0 m0 st0 a1 where v: "v rid0 = Some (PENDING, a0, m0)"
      "v1 = v(rid0 \<mapsto> (st0, a1, m0))" and st0: "st0 \<in> {PENDING, SUCCEEDED, FAILED}"
    using assms(1) unfolding moves_on_def by blast
  note d = assms(2) [unfolded v(2)]
  fix rid
  show "case v rid of None \<Rightarrow> v' rid = None
      | Some (st, a, m) \<Rightarrow> if st = PENDING
          then \<exists>st' a'. v' rid = Some (st', a', m) \<and> (st' = SUCCEEDED \<or> st' = FAILED)
          else v' rid = v rid"
    using spec [OF d [unfolded drained_def], of rid] v(1) st0
    by (cases "rid = rid0") (auto split: if_splits option.splits)
qed

lemma worker_loop_idle:
  assumes "nothing_pending (view s)" "wf_db s" "\<not> closed s"
  shows "worker_loop k pick call cfg clock s = Inr s"
proof -
  have "status r \<noteq> PENDING" if "r \<in> set (rows s)" for r
    using assms(1) row_of_in [OF assms(2) that] by (auto simp: nothing_pending_def view_def)
  then have "oldest_pending (rows s) = []" by (simp add: oldest_pending_Nil)
  then have "worker_iter pick call cfg t t' s = Inr s" for t t'
    using assms(3) by (simp add: worker_iter_def claim_next_def)
  then show ?thesis by (induction k arbitrary: clock) auto
qed

lemma worker_loop_drains:
  assumes "pick_ok pick \<and> wf_db s" "\<not> closed s" "\<And>req. call req \<noteq> Inl CancelledError"
    and "work (view s) \<le> k"
  shows "\<exists>s'. worker_loop k pick call cfg clock s = Inr s' \<and> drained (view s) (view s')"
  using assms
proof (induction k arbitrary: s clock)
  case 0
  have "view s rid \<noteq> Some (PENDING, a, m)" for rid a m
    using work_upd [OF sqlite.finite_view, of s rid "(PENDING, a, m)" "(FAILED, a, m)"] "0.prems"(4)
    by auto
  then show ?case by (auto intro: drained_idle simp: nothing_pending_def)
next
  case (Suc k)
  obtain s1 where it: "worker_iter pick call cfg (clock 0) (clock 1) s = Inr s1"
    and ok1: "pick_ok pick \<and> wf_db s1" and o1: "\<not> closed s1"
    and turn: "s1 = s \<and> nothing_pending (view s) \<or> moves_on (view s) (view s1)"
    by (rule worker_iter_view [where call = call and cfg = cfg and t = "clock 0" and t' = "clock 1",
        OF Suc.prems(1,2,3)])
  from turn show ?case
  proof
    assume idle: "s1 = s \<and> nothing_pending (view s)"
    then show ?thesis
      using worker_loop_idle [of s "Suc k" pick call cfg clock] Suc.prems(1,2)
      by (auto intro: drained_idle)
  next
    assume busy: "moves_on (view s) (view s1)"
    then have "work (view s1) \<le> k" using Suc.prems(4) unfolding moves_on_def by linarith
    from Suc.IH [OF ok1 o1 Suc.prems(3) this, of "\<lambda>i. clock (i + 2)"] drained_step [OF busy] it
    show ?thesis by auto
  qed
qed

section \<open>Rows that a step leaves alone\<close>

lemma enqueue_frame:
  assumes "enqueue uuid a t p m now s = Inr s'" "row_of s k = Some r"
  shows "row_of s' k = Some r"
  using assms by (auto simp: enqueue_def row_of_def map_add_def split: if_splits option.splits)

lemma update_run_frame:
  assumes "keeps_keys f" "k \<noteq> rid"
  shows "row_of (update_where (\<lambda>r. run_id r = rid) f s) k = row_of s k"
proof (cases "row_of s k")
  case None
  then show ?thesis by (simp add: row_of_update_where [OF assms(1)])
next
  case (Some r)
  then have "run_id r \<noteq> rid" using assms(2) row_of_Some [of s k r] by blast
  with Some show ?thesis by (simp add: row_of_update_where [OF assms(1)])
qed

lemma claim_frame:
  assumes "pick_ok pick" "wf_db s" "claim_next pick now s = Inr (x, s')"
    and r: "row_of s k = Some r" "status r \<noteq> PENDING"
  shows "row_of s' k = Some r"
proof (cases "oldest_pending (rows s)")
  case Nil
  with assms(3) r show ?thesis by (auto simp: claim_next_def split: if_splits)
next
  case (Cons c cs)
  note picked = claim_next_picked [OF assms(1,2) Cons]
  have rk: "r \<in> set (rows s)" "run_id r = k" using row_of_Some [OF r(1)] by blast+
  have pend: "status (pick (c # cs)) = PENDING" using picked(1) by (simp add: oldest_pending_iff)
  have "run_id (pick (c # cs)) \<noteq> run_id r"
  proof
    assume "run_id (pick (c # cs)) = run_id r"
    then have "Some (pick (c # cs)) = Some r" by (metis picked(2) r(1) rk(2))
    with pend r(2) show False by (metis option.inject)
  qed
  then have ne: "rowid r \<noteq> rowid (pick (c # cs))" using picked(3) [OF rk(1)] by simp
  have upd: "row_of (update_where (\<lambda>r'. rowid r' = rowid (pick (c # cs))) f s) k = Some r"
    if "keeps_keys f" for f
    using ne by (simp add: row_of_update_where [OF that] r(1))
  have "s' = update_where (\<lambda>r'. rowid r' = rowid (pick (c # cs)))
          (\<lambda>r. r\<lparr>status := FAILED, updated_at := now\<rparr>) s \<or>
        s' = update_where (\<lambda>r'. rowid r' = rowid (pick (c # cs)))
          (\<lambda>r. r\<lparr>status := RUNNING, attempts := attempts (pick (c # cs)) + 1, updated_at := now\<rparr>) s"
    using assms(3) Cons by (simp add: claim_next_def Let_def split: if_splits)
  then show ?thesis using upd by auto
qed

lemma cancel_frame:
  assumes "cancel rid now s = Inr (b, s')" "row_of s k = Some r" "status r \<notin> {PENDING, RUNNING}"
  shows "row_of s' k = Some r"
  using assms
  by (cases "k = rid")
    (auto simp: cancel_def select_run_row_of update_run_frame split: if_splits option.splits)

lemma finish_frame:
  assumes "finish_claim cfg (rid, ag, p, t, n) result now s = Inr s'" "k \<noteq> rid"
  shows "row_of s' k = row_of s k"
  using assms(1)
  by (cases rule: finish_claim_cases)
    (use assms(2) in \<open>auto simp: complete_def requeue_def update_run_frame split: if_splits\<close>)

lemma svc_reachable_open: "svc_reachable pick cfg s \<Longrightarrow> \<not> closed (db s)"
proof (induction rule: svc_reachable.induct)
  case (step s s')
  from step.hyps(2) show ?case
  proof cases
    case (Submit uuid a t p now d)
    then show ?thesis by (auto simp: enqueue_def split: if_splits)
  next
    case (Finish c result now d)
    obtain rid ag p t n where c: "c = (rid, ag, p, t, n)" by (cases c)
    show ?thesis
      using Finish(3) [unfolded c] Finish(1) step.IH
      by (cases rule: finish_claim_cases) (auto dest: closed_ops)
  next
    case (Cancel rid now b d)
    then show ?thesis by (auto simp: cancel_def split: if_splits option.splits)
  qed (auto dest: closed_ops)
qed simp

section \<open>A reachable example\<close>

definition demo_cfg :: Settings where
  "demo_cfg = \<lparr>token = ''0123456789abcdef0123456789abcdef'', state_path = ''runs.db'',
     worker_count = 2, set_max_retries = 3, set_run_ttl_seconds = 3600\<rparr>"

definition demo_row :: run_row where
  "demo_row = \<lparr>rowid = 1, run_id = ''r1'', agent_name = ''smoke'', tenant_id = ''t1'',
     status = PENDING, input_json = JObj [], output_json = None, error = None, attempts = 0,
     max_retries = 1, created_at = 5, updated_at = 5, duration_ms = 0\<rparr>"

definition demo_db :: "run_row list \<Rightarrow> queue_db" where
  "demo_db rs = \<lparr>rows = rs, run_ttl_seconds = 3600, closed = False\<rparr>"

definition demo_claim :: claim where
  "demo_claim = (''r1'', ''smoke'', JObj [], ''t1'', 1)"

definition demo_response :: InvocationResponse where
  "demo_response = \<lparr>resp_agent_name = ''smoke'', resp_output = JObj [], resp_duration_ms = 3,
     resp_status = ''ok'', resp_error = None\<rparr>"

definition demo_running :: svc where
  "demo_running = \<lparr>db = demo_db [demo_row\<lparr>status := RUNNING, attempts := 1, updated_at := 6\<rparr>],
     in_flight = [demo_claim], history = [''r1'']\<rparr>"

definition demo_cancelled :: svc where
  "demo_cancelled = \<lparr>db = demo_db [demo_row\<lparr>status := CANCELLED, attempts := 1, updated_at := 7\<rparr>],
     in_flight = [demo_claim], history = [''r1'']\<rparr>"

lemmas demo_defs = demo_cfg_def demo_row_def demo_db_def demo_claim_def demo_running_def demo_cancelled_def

lemma demo_running_reachable: "svc_reachable hd demo_cfg demo_running"
proof -
  let ?s0 = "\<lparr>db = demo_db [], in_flight = [], history = []\<rparr>"
  let ?s1 = "\<lparr>db = demo_db [demo_row], in_flight = [], history = []\<rparr>"
  have "svc_reachable hd demo_cfg ?s0"
    using svc_reachable.start [of hd demo_cfg 3600] by (simp add: demo_defs)
  moreover have "svc_step hd demo_cfg ?s0 ?s1"
    using svc_step.Submit [where s = ?s0 and uuid = "''r1''" and a = "''smoke''" and t = "''t1''"
        and p = "JObj []" and now = 5 and d = "demo_db [demo_row]" and pick = hd and cfg = demo_cfg]
    by (simp add: demo_defs enqueue_def next_rowid_def)
  ultimately have "svc_reachable hd demo_cfg ?s1" by (rule svc_reachable.step)
  moreover have "svc_step hd demo_cfg ?s1 demo_running"
    using svc_step.Poll_claim [where s = ?s1 and now = 6 and c = demo_claim
        and d = "db demo_running" and pick = hd and cfg = demo_cfg]
    by (simp add: demo_defs claim_next_def oldest_pending_def update_where_def)
  ultimately show ?thesis by (rule svc_reachable.step)
qed

lemma demo_cancelled_reachable: "svc_reachable hd demo_cfg demo_cancelled"
proof -
  have "svc_step hd demo_cfg demo_running demo_cancelled"
    using svc_step.Cancel [where s = demo_running and rid = "''r1''" and now = 7 and b = True
        and d = "db demo_cancelled" and pick = hd and cfg = demo_cfg]
    by (simp add: demo_defs cancel_def select_run_def update_where_def)
  with demo_running_reachable show ?thesis by (rule svc_reachable.step)
qed

section \<open>Properties\<close>

text \<open>C1: at any time a run is worked on by at most one worker, and never while its row says PENDING.\<close>

theorem one_worker_per_run:
  assumes "pick_ok pick" "svc_reachable pick cfg s"
  shows "distinct (map fst (in_flight s)) \<and>
    (\<forall>c\<in>set (in_flight s). \<exists>r. row_of (db s) (fst c) = Some r \<and> status r \<noteq> PENDING)"
proof -
  from svc_reachable_inv [OF assms(2,1)]
  have d: "distinct (map fst (in_flight s))"
    and k: "\<And>c. c \<in> set (in_flight s) \<Longrightarrow>
      fst c \<in> set (history s) \<and> (\<forall>a m. view (db s) (fst c) \<noteq> Some (PENDING, a, m))"
    and h: "\<And>rid. rid \<in> set (history s) \<Longrightarrow> \<exists>st a. view (db s) rid = Some (st, a, 1)"
    by (auto simp: svc_inv_def abs_svc_def claim_key_def o_def)
  have "\<exists>r. row_of (db s) (fst c) = Some r \<and> status r \<noteq> PENDING" if "c \<in> set (in_flight s)" for c
    using k [OF that] h [of "fst c"] by (auto simp: view_def)
  with d show ?thesis by blast
qed

lemma one_worker_per_run_witness:
  "\<exists>r. row_of (db demo_running) ''r1'' = Some r \<and> status r \<noteq> PENDING"
  using one_worker_per_run [OF pick_ok_hd demo_running_reachable]
  by (simp add: demo_running_def demo_claim_def)

text \<open>
  Since every submission enqueues its run with a budget of one, the service itself hands no run out
  twice: the configured retry never comes to pass (see \<open>failed_run_never_retried\<close>).
\<close>

lemma service_never_hands_out_again:
  assumes "pick_ok pick" "svc_reachable pick cfg s"
  shows "distinct (history s)"
  using svc_reachable_inv [OF assms(2,1)] by (auto simp: svc_inv_def abs_svc_def)

text \<open>
  The retry budget in general.  \<open>budget_reachable\<close> are the states of the service whose store other
  callers may enqueue into as well, with any \<open>max_retries\<close> (a parameter of \<open>StateStore.enqueue\<close>).
  What is kept: a run in flight is not PENDING and its claim holds the row's attempt count, and
  a run was handed out at most as often as its row counts attempts, and as its budget says.
\<close>

inductive budget_reachable :: "(run_row list \<Rightarrow> run_row) \<Rightarrow> Settings \<Rightarrow> svc \<Rightarrow> bool"
  for pick cfg where
  begin_empty: "budget_reachable pick cfg
    \<lparr>db = \<lparr>rows = [], run_ttl_seconds = ttl, closed = False\<rparr>, in_flight = [], history = []\<rparr>"
| queued: "budget_reachable pick cfg s \<Longrightarrow> enqueue uuid a t p m now (db s) = Inr d \<Longrightarrow>
    budget_reachable pick cfg (s\<lparr>db := d\<rparr>)"
| served: "budget_reachable pick cfg s \<Longrightarrow> svc_step pick cfg s s' \<Longrightarrow> budget_reachable pick cfg s'"

lemma svc_budget_reachable: "svc_reachable pick cfg s \<Longrightarrow> budget_reachable pick cfg s"
  by (induction rule: svc_reachable.induct) (auto intro: budget_reachable.intros)

definition within_budget :: "qview \<Rightarrow> string list \<Rightarrow> bool" where
  "within_budget v h \<longleftrightarrow>
     (\<forall>rid. case v rid of
        None \<Rightarrow> rid \<notin> set h
      | Some (st, a, m) \<Rightarrow> int (count_list h rid) \<le> a \<and> count_list h rid \<le> nat m)"

definition held_claims :: "qview \<Rightarrow> (string \<times> int) list \<Rightarrow> bool" where
  "held_claims v fl \<longleftrightarrow> distinct (map fst fl) \<and>
     (\<forall>(rid, n) \<in> set fl. \<exists>st m. v rid = Some (st, n, m) \<and> st \<noteq> PENDING)"

lemma within_budgetD:
  "within_budget v h \<Longrightarrow> v rid = Some (st, a, m) \<Longrightarrow> int (count_list h rid) \<le> a \<and> count_list h rid \<le> nat m"
  "within_budget v h \<Longrightarrow> v rid = None \<Longrightarrow> rid \<notin> set h"
  unfolding within_budget_def by (drule spec [of _ rid], simp)+

lemma within_budget_upd:
  "within_budget v h \<Longrightarrow> int (count_list h rid) \<le> a \<Longrightarrow> count_list h rid \<le> nat m \<Longrightarrow>
     within_budget (v(rid \<mapsto> (st, a, m))) h"
  by (simp add: within_budget_def)

lemma within_budget_claim:
  assumes "within_budget v h" "v rid = Some (st0, n - 1, m)" "n \<le> m"
  shows "within_budget (v(rid \<mapsto> (st, n, m))) (rid # h)"
proof -
  have "case (v(rid \<mapsto> (st, n, m))) k of None \<Rightarrow> k \<notin> set (rid # h)
      | Some (st, a, m) \<Rightarrow> int (count_list (rid # h) k) \<le> a \<and> count_list (rid # h) k \<le> nat m" for k
    using within_budgetD(1) [OF assms(1,2)] assms(3) assms(1) [unfolded within_budget_def, rule_format, of k]
    by (cases "k = rid"; cases "v k") auto
  then show ?thesis by (simp add: within_budget_def)
qed

lemma held_claims_keep:
  assumes "held_claims v fl" "\<And>k n. (k, n) \<in> set fl \<Longrightarrow> k = rid \<Longrightarrow> a = n \<and> st \<noteq> PENDING"
  shows "held_claims (v(rid \<mapsto> (st, a, m))) fl"
  using assms by (fastforce simp: held_claims_def)

lemma held_claims_drop:
  assumes "held_claims v fl" "(rid, n) \<in> set fl"
  shows "held_claims v (remove1 (rid, n) fl)" "held_claims (v(rid \<mapsto> x)) (remove1 (rid, n) fl)"
proof -
  have d: "distinct (map fst fl)" using assms(1) by (simp add: held_claims_def)
  note k = remove1_key [OF d assms(2)]
  show "held_claims v (remove1 (rid, n) fl)"
    using assms(1) k(1,2) by (simp add: held_claims_def)
  have "q \<noteq> rid" if "(q, j) \<in> set (remove1 (rid, n) fl)" for q j using k(3) that by blast
  then show "held_claims (v(rid \<mapsto> x)) (remove1 (rid, n) fl)"
    using assms(1) k(1,2) by (fastforce simp: held_claims_def)
qed

definition budget_inv :: "svc \<Rightarrow> bool" where
  "budget_inv s \<longleftrightarrow> wf_db (db s) \<and> within_budget (view (db s)) (history s) \<and>
     held_claims (view (db s)) (map claim_key (in_flight s))"

lemma budget_inv_upd:
  assumes inv: "budget_inv s" and d: "wf_db d" "view d = (view (db s))(rid \<mapsto> (st, a, m))"
    and cnt: "int (count_list (history s) rid) \<le> a" "count_list (history s) rid \<le> nat m"
    and held: "\<And>n. (rid, n) \<in> set (map claim_key (in_flight s)) \<Longrightarrow> a = n \<and> st \<noteq> PENDING"
  shows "budget_inv (s\<lparr>db := d\<rparr>)"
proof -
  have "within_budget (view d) (history s)"
    unfolding d(2) using inv cnt by (intro within_budget_upd) (simp_all add: budget_inv_def)
  moreover have "held_claims (view d) (map claim_key (in_flight s))"
    unfolding d(2) using inv held by (intro held_claims_keep) (auto simp: budget_inv_def)
  ultimately show ?thesis using d(1) by (simp add: budget_inv_def)
qed

lemma budget_inv_enqueue:
  assumes "budget_inv s" "enqueue rid a t p m now (db s) = Inr d"
  shows "budget_inv (s\<lparr>db := d\<rparr>)"
proof -
  have wf: "wf_db (db s)" using assms(1) by (simp add: budget_inv_def)
  note enq = enqueue_ok [OF wf assms(2)]
  have new: "view (db s) rid = None" using enq(2) by (simp add: view_def)
  then have "rid \<notin> set (history s)"
    using assms(1) within_budgetD(2) by (auto simp: budget_inv_def)
  then have "count_list (history s) rid = 0" by simp
  moreover have "(rid, n) \<notin> set (map claim_key (in_flight s))" for n
    using assms(1) new by (force simp: budget_inv_def held_claims_def)
  ultimately show ?thesis
    by (intro budget_inv_upd [OF assms(1) enq(1,3)]) auto
qed

lemma budget_inv_finish:
  assumes inv: "budget_inv s" and pick: "pick_ok pick" and c: "(rid, ag, p, t, n) \<in> set (in_flight s)"
    and fin: "finish_claim cfg (rid, ag, p, t, n) result now (db s) = Inr d"
  shows "budget_inv (s\<lparr>db := d, in_flight := remove1 (rid, ag, p, t, n) (in_flight s)\<rparr>)"
proof -
  have pk: "pick_ok pick \<and> wf_db (db s)" and wb: "within_budget (view (db s)) (history s)"
    and held: "held_claims (view (db s)) (map claim_key (in_flight s))"
    using inv pick by (auto simp: budget_inv_def)
  have key: "(rid, n) \<in> set (map claim_key (in_flight s))" using c by (force simp: claim_key_def)
  have rm: "map claim_key (remove1 (rid, ag, p, t, n) (in_flight s))
      = remove1 (rid, n) (map claim_key (in_flight s))"
    using in_flight_keys [OF _ c] held by (simp add: held_claims_def claim_key_def)
  obtain st0 m where v: "view (db s) rid = Some (st0, n, m)"
    using held key by (fastforce simp: held_claims_def)
  note cnt = within_budgetD(1) [OF wb v]
  from fin show ?thesis
  proof (cases rule: finish_claim_cases)
    case (settled st out err dur)
    with sqlite.compl_law [OF pk settled(2)] v cnt rm show ?thesis
      by (auto simp: budget_inv_def intro: within_budget_upd [OF wb] held_claims_drop [OF held key])
  next
    case (requeued resp)
    with sqlite.requ_law [OF pk requeued(4)] v cnt rm show ?thesis
      by (auto simp: budget_inv_def intro!: within_budget_upd [OF wb] held_claims_drop [OF held key])
  next
    case dropped
    with rm wb pk show ?thesis by (simp add: budget_inv_def held_claims_drop [OF held key])
  qed
qed

lemma budget_inv_step:
  assumes "svc_step pick cfg s s'" "pick_ok pick" and inv: "budget_inv s"
  shows "budget_inv s'"
proof -
  have wb: "within_budget (view (db s)) (history s)" using inv by (simp add: budget_inv_def)
  from assms(1) show ?thesis
  proof cases
    case (Submit uuid a t p now d)
    then show ?thesis using budget_inv_enqueue [OF inv] by blast
  next
    case (Poll_claim now c d)
    obtain rid a p t n where c: "c = (rid, a, p, t, n)" by (cases c)
    have pk: "pick_ok pick \<and> wf_db (db s)" using inv assms(2) by (simp add: budget_inv_def)
    obtain m where m: "n \<le> m" "view (db s) rid = Some (PENDING, n - 1, m)"
        "view d = (view (db s))(rid \<mapsto> (RUNNING, n, m))" and wf: "wf_db d"
      using sqlite.claim_some [OF pk Poll_claim(2) [unfolded c]] by blast
    have free: "k \<noteq> rid" if "(k, j) \<in> set (map claim_key (in_flight s))" for k j
      using inv m(2) that by (force simp: budget_inv_def held_claims_def)
    have "held_claims (view d) (map claim_key (in_flight s))"
      unfolding m(3) using inv free by (intro held_claims_keep) (auto simp: budget_inv_def)
    then have "held_claims (view d) ((rid, n) # map claim_key (in_flight s))"
      using m(3) free by (force simp: held_claims_def)
    moreover have "within_budget (view d) (rid # history s)"
      unfolding m(3) using inv m(1,2) by (intro within_budget_claim) (simp_all add: budget_inv_def)
    ultimately show ?thesis using Poll_claim(1) wf by (simp add: budget_inv_def c claim_key_def)
  next
    case (Poll_idle now d)
    have pk: "pick_ok pick \<and> wf_db (db s)" using inv assms(2) by (simp add: budget_inv_def)
    from sqlite.claim_none [OF pk Poll_idle(2)] show ?thesis
    proof (elim conjE disjE exE)
      assume "d = db s"
      then show ?thesis using Poll_idle(1) inv by simp
    next
      fix rid a m
      assume v: "view (db s) rid = Some (PENDING, a, m)" "view d = (view (db s))(rid \<mapsto> (FAILED, a, m))"
        and wf: "wf_db d"
      have "(rid, j) \<notin> set (map claim_key (in_flight s))" for j
        using inv v(1) by (force simp: budget_inv_def held_claims_def)
      then show ?thesis
        unfolding Poll_idle(1) using within_budgetD(1) [OF wb v(1)]
        by (intro budget_inv_upd [OF inv wf v(2)]) auto
    qed
  next
    case (Finish c result now d)
    obtain rid a p t n where "c = (rid, a, p, t, n)" by (cases c)
    with Finish budget_inv_finish [OF inv assms(2)] show ?thesis by blast
  next
    case (Cancel rid now b d)
    have pk: "pick_ok pick \<and> wf_db (db s)" using inv assms(2) by (simp add: budget_inv_def)
    note law = sqlite.canc_law [OF pk Cancel(2)]
    show ?thesis
    proof (cases b)
      case False
      with law Cancel(1) inv show ?thesis by simp
    next
      case True
      then obtain st a m where v: "view (db s) rid = Some (st, a, m)"
          "view d = (view (db s))(rid \<mapsto> (CANCELLED, a, m))" and wf: "wf_db d"
        using law by auto
      have "a = j" if "(rid, j) \<in> set (map claim_key (in_flight s))" for j
        using inv v(1) that by (force simp: budget_inv_def held_claims_def)
      then show ?thesis
        unfolding Cancel(1) using within_budgetD(1) [OF wb v(1)]
        by (intro budget_inv_upd [OF inv wf v(2)]) auto
    qed
  qed
qed

lemma budget_reachable_inv:
  assumes "budget_reachable pick cfg s" "pick_ok pick"
  shows "budget_inv s"
  using assms
proof (induction rule: budget_reachable.induct)
  case (begin_empty ttl)
  show ?case
    by (simp add: budget_inv_def wf_db_def view_def row_of_def within_budget_def held_claims_def)
qed (auto intro: budget_inv_enqueue budget_inv_step)

text \<open>
  C2: whatever budgets runs are queued with, whatever \<open>INTELLIQX_MAX_RETRIES\<close> says, and however
  workers, submissions, cancellations and failures interleave, no run is handed to an agent more
  often than its own retry budget allows, and only runs of the queue are handed out.
\<close>

theorem run_budget_kept:
  assumes "pick_ok pick" "budget_reachable pick cfg s"
  shows "(\<forall>rid r. row_of (db s) rid = Some r \<longrightarrow> count_list (history s) rid \<le> nat (max_retries r)) \<and>
    (\<forall>rid\<in>set (history s). row_of (db s) rid \<noteq> None)"
proof -
  have wb: "within_budget (view (db s)) (history s)"
    using budget_reachable_inv [OF assms(2,1)] by (simp add: budget_inv_def)
  have "count_list (history s) rid \<le> nat (max_retries r)" if "row_of (db s) rid = Some r" for rid r
    using within_budgetD(1) [OF wb] that by (simp add: view_def)
  moreover have "rid \<notin> set (history s)" if "row_of (db s) rid = None" for rid
    using within_budgetD(2) [OF wb] that by (simp add: view_def)
  ultimately show ?thesis by blast
qed

definition demo_again :: svc where
  "demo_again = \<lparr>db = demo_db [demo_row\<lparr>max_retries := 3, status := RUNNING, attempts := 3, updated_at := 8\<rparr>],
     in_flight = [(''r1'', ''smoke'', JObj [], ''t1'', 3)], history = [''r1'', ''r1'']\<rparr>"

lemma demo_again_reachable: "budget_reachable hd demo_cfg demo_again"
proof -
  let ?s0 = "\<lparr>db = demo_db [], in_flight = [], history = []\<rparr>"
  let ?q = "demo_row\<lparr>max_retries := 3\<rparr>"
  let ?s1 = "?s0\<lparr>db := demo_db [?q]\<rparr>"
  let ?s2 = "\<lparr>db = demo_db [?q\<lparr>status := RUNNING, attempts := 1, updated_at := 6\<rparr>],
    in_flight = [demo_claim], history = [''r1'']\<rparr>"
  let ?s3 = "?s2\<lparr>db := demo_db [?q\<lparr>attempts := 2, updated_at := 7\<rparr>], in_flight := []\<rparr>"
  have "budget_reachable hd demo_cfg ?s0"
    using budget_reachable.begin_empty [of hd demo_cfg 3600] by (simp add: demo_defs)
  then have "budget_reachable hd demo_cfg ?s1"
    by (rule budget_reachable.queued [where uuid = "''r1''" and a = "''smoke''" and t = "''t1''"
          and p = "JObj []" and m = 3 and now = 5])
      (simp add: demo_defs enqueue_def next_rowid_def)
  moreover have "svc_step hd demo_cfg ?s1 ?s2"
    using svc_step.Poll_claim [where s = ?s1 and now = 6 and c = demo_claim and d = "db ?s2"
        and pick = hd and cfg = demo_cfg]
    by (simp add: demo_defs claim_next_def oldest_pending_def update_where_def)
  moreover have "svc_step hd demo_cfg ?s2 ?s3"
    using svc_step.Finish [where s = ?s2 and c = demo_claim and now = 7 and d = "db ?s3"
        and result = "Inr (demo_response\<lparr>resp_status := ''timeout''\<rparr>)" and pick = hd and cfg = demo_cfg]
    by (simp add: demo_defs demo_response_def finish_claim_def record_outcome_def requeue_def update_where_def)
  moreover have "svc_step hd demo_cfg ?s3 demo_again"
    using svc_step.Poll_claim [where s = ?s3 and now = 8 and c = "(''r1'', ''smoke'', JObj [], ''t1'', 3)"
        and d = "db demo_again" and pick = hd and cfg = demo_cfg]
    by (simp add: demo_defs demo_again_def claim_next_def oldest_pending_def update_where_def)
  ultimately show ?thesis by (blast intro: budget_reachable.served)
qed

lemma run_budget_kept_witness:
  "count_list (history demo_again) ''r1'' = 2 \<and> row_of (db demo_again) ''r1'' \<noteq> None \<and>
   count_list (history demo_again) ''r1'' \<le> nat (max_retries (the (row_of (db demo_again) ''r1'')))"
proof -
  have h: "history demo_again = [''r1'', ''r1'']" by (simp add: demo_again_def)
  note kept = run_budget_kept [OF pick_ok_hd demo_again_reachable]
  have "''r1'' \<in> set (history demo_again)" "count_list (history demo_again) ''r1'' = 2"
    by (simp_all add: h)
  moreover from this(1) kept obtain r where "row_of (db demo_again) ''r1'' = Some r" by blast
  moreover from this kept have "count_list (history demo_again) ''r1'' \<le> nat (max_retries r)" by blast
  ultimately show ?thesis by simp
qed

text \<open>
  C5: every step of the service (submission, claim, idle poll, outcome, cancellation, by any
  worker) is a step of the abstract machine on the queue's view.
\<close>

theorem service_refines_spec:
  assumes "pick_ok pick" "svc_reachable pick cfg s" "svc_step pick cfg s s'"
  shows "spec_step (abs_svc s) (abs_svc s')"
  using svc_step_refines [OF assms(3,1) svc_reachable_inv [OF assms(2,1)]] by blast

lemma demo_cancel_step: "svc_step hd demo_cfg demo_running demo_cancelled"
  using svc_step.Cancel [where s = demo_running and rid = "''r1''" and now = 7 and b = True
      and d = "db demo_cancelled" and pick = hd and cfg = demo_cfg]
  by (simp add: demo_defs cancel_def select_run_def update_where_def)

lemma service_refines_spec_witness: "spec_step (abs_svc demo_running) (abs_svc demo_cancelled)"
  by (rule service_refines_spec [OF pick_ok_hd demo_running_reachable demo_cancel_step])

text \<open>
  C6: liveness. With an open store and a runtime that never raises \<open>CancelledError\<close>, a worker
  that gets as many turns as there is work left settles every pending run (SUCCEEDED or FAILED)
  and leaves every other run as it was.
\<close>

theorem workers_drain_queue:
  assumes "pick_ok pick" "wf_db s" "\<not> closed s" "\<And>req. call req \<noteq> Inl CancelledError"
    and "work (view s) \<le> k"
  shows "\<exists>s'. worker_loop k pick call cfg clock s = Inr s' \<and> drained (view s) (view s')"
  using worker_loop_drains [of pick s call k cfg clock] assms by blast

lemma workers_drain_queue_witness:
  "\<exists>s'. worker_loop 2 hd (\<lambda>_. Inr demo_response) demo_cfg (\<lambda>_. 9) (demo_db [demo_row]) = Inr s' \<and>
    drained (view (demo_db [demo_row])) (view s')"
proof (rule workers_drain_queue [OF pick_ok_hd])
  show "wf_db (demo_db [demo_row])" "\<not> closed (demo_db [demo_row])"
    by (simp_all add: demo_defs wf_db_def)
  have "view (demo_db [demo_row]) = [''r1'' \<mapsto> (PENDING, 0, 1)]"
    by (rule ext) (simp add: view_def row_of_def demo_defs)
  then show "work (view (demo_db [demo_row])) \<le> 2" by (simp add: work_def)
qed simp

text \<open>
  C10: once a run is SUCCEEDED, FAILED or CANCELLED and no worker holds it, no step of the
  service changes its row again.
\<close>

theorem terminal_runs_stable:
  assumes "pick_ok pick" "svc_reachable pick cfg s" and step: "svc_step pick cfg s s'"
    and r: "row_of (db s) k = Some r" "status r \<in> {SUCCEEDED, FAILED, CANCELLED}"
    and free: "k \<notin> fst ` set (in_flight s)"
  shows "row_of (db s') k = Some r"
  using step
proof cases
  case (Submit uuid a t p now d)
  then show ?thesis using enqueue_frame [OF Submit(2) r(1)] by simp
next
  case (Poll_claim now c d)
  have "status r \<noteq> PENDING" "wf_db (db s)"
    using r(2) svc_reachable_inv [OF assms(2,1)] by (auto simp: svc_inv_def)
  with claim_frame [OF assms(1) _ Poll_claim(2) r(1)] Poll_claim(1) show ?thesis by simp
next
  case (Poll_idle now d)
  have "status r \<noteq> PENDING" "wf_db (db s)"
    using r(2) svc_reachable_inv [OF assms(2,1)] by (auto simp: svc_inv_def)
  with claim_frame [OF assms(1) _ Poll_idle(2) r(1)] Poll_idle(1) show ?thesis by simp
next
  case (Finish c result now d)
  obtain rid ag p t n where c: "c = (rid, ag, p, t, n)" by (cases c)
  then have "k \<noteq> rid" using free Finish(2) by (metis fst_conv image_eqI)
  with finish_frame [OF Finish(3) [unfolded c]] Finish(1) r(1) show ?thesis by simp
next
  case (Cancel rid now b d)
  have "status r \<notin> {PENDING, RUNNING}" using r(2) by auto
  from cancel_frame [OF Cancel(2) r(1) this] Cancel(1) show ?thesis by simp
qed

definition demo_done :: svc where
  "demo_done = \<lparr>db = demo_db [demo_row\<lparr>status := SUCCEEDED, attempts := 1, updated_at := 8,
       output_json := Some (JObj []), duration_ms := 3\<rparr>], in_flight = [], history = [''r1'']\<rparr>"

lemma demo_done_reachable:
  "svc_reachable hd demo_cfg demo_done" "svc_step hd demo_cfg demo_done demo_done"
proof -
  have "svc_step hd demo_cfg demo_running demo_done"
    using svc_step.Finish [where s = demo_running and c = demo_claim and now = 8
        and result = "Inr demo_response" and d = "db demo_done" and pick = hd and cfg = demo_cfg]
    by (simp add: demo_defs demo_done_def demo_response_def finish_claim_def record_outcome_def
        complete_def update_where_def)
  with demo_running_reachable show "svc_reachable hd demo_cfg demo_done" by (rule svc_reachable.step)
  show "svc_step hd demo_cfg demo_done demo_done"
    using svc_step.Poll_idle [where s = demo_done and now = 9 and d = "db demo_done"
        and pick = hd and cfg = demo_cfg]
    by (simp add: demo_defs demo_done_def claim_next_def oldest_pending_def)
qed

lemma terminal_runs_stable_witness:
  "row_of (db demo_done) ''r1'' = Some (demo_row\<lparr>status := SUCCEEDED, attempts := 1,
     updated_at := 8, output_json := Some (JObj []), duration_ms := 3\<rparr>)"
  by (rule terminal_runs_stable [OF pick_ok_hd demo_done_reachable])
    (simp_all add: demo_done_def demo_defs row_of_def)

text \<open>
  Cancelling a run that a worker holds does not stick: \<open>complete\<close> tests no status, so the
  outcome that arrives after the cancellation overwrites CANCELLED.
\<close>

theorem cancelled_run_overwritten:
  fixes resp :: InvocationResponse
  assumes "pick_ok pick" "svc_reachable pick cfg s" "(rid, ag, p, t, n) \<in> set (in_flight s)"
    and r: "row_of (db s) rid = Some r" "status r = CANCELLED" and "resp_status resp = ''ok''"
  shows "\<exists>s' r'. svc_step pick cfg s s' \<and> row_of (db s') rid = Some r' \<and>
    status r' = SUCCEEDED \<and> output_json r' = Some (resp_output resp)"
proof -
  let ?f = "\<lambda>r. r\<lparr>status := SUCCEEDED, output_json := Some (resp_output resp), error := None,
      duration_ms := resp_duration_ms resp, updated_at := 0\<rparr>"
  let ?d = "update_where (\<lambda>r. run_id r = rid) ?f (db s)"
  have "finish_claim cfg (rid, ag, p, t, n) (Inr resp) 0 (db s) = Inr ?d"
    using svc_reachable_open [OF assms(2)] assms(6)
    by (simp add: finish_claim_def record_outcome_def complete_def)
  from svc_step.Finish [OF assms(3) this, of pick]
  have "svc_step pick cfg s (s\<lparr>db := ?d, in_flight := remove1 (rid, ag, p, t, n) (in_flight s)\<rparr>)" .
  moreover have "run_id r = rid" using row_of_Some [OF r(1)] by blast
  then have "row_of ?d rid = Some (?f r)" by (simp add: row_of_update_where r(1))
  ultimately show ?thesis by force
qed

lemma cancelled_run_overwritten_witness:
  "\<exists>s' r'. svc_step hd demo_cfg demo_cancelled s' \<and> row_of (db s') ''r1'' = Some r' \<and>
    status r' = SUCCEEDED \<and> output_json r' = Some (resp_output demo_response)"
  by (rule cancelled_run_overwritten [OF pick_ok_hd demo_cancelled_reachable, where ag = "''smoke''"
        and p = "JObj []" and t = "''t1''" and n = 1
        and r = "demo_row\<lparr>status := CANCELLED, attempts := 1, updated_at := 7\<rparr>"])
    (simp_all add: demo_defs demo_response_def row_of_def)

text \<open>
  C32: with more than one attempt configured a failed run goes back to PENDING, but \<open>submit_run\<close>
  enqueues every run with a budget of one attempt, so no later claim hands it out: it can only be
  marked FAILED, and with no error text.
\<close>

theorem failed_run_never_retried:
  fixes resp :: InvocationResponse
  assumes "pick_ok pick" "svc_reachable pick cfg s" "(rid, ag, p, t, n) \<in> set (in_flight s)"
    and "resp_status resp \<noteq> ''ok''" "n < set_max_retries cfg"
  shows "\<exists>d r. finish_claim cfg (rid, ag, p, t, n) (Inr resp) now (db s) = Inr d \<and>
    row_of d rid = Some r \<and> status r = PENDING \<and> max_retries r < attempts r \<and>
    (\<forall>now' c d'. claim_next pick now' d = Inr (Some c, d') \<longrightarrow> fst c \<noteq> rid)"
proof -
  let ?f = "\<lambda>r. r\<lparr>status := PENDING, attempts := n + 1, updated_at := now\<rparr>"
  let ?d = "update_where (\<lambda>r. run_id r = rid) ?f (db s)"
  have inv: "wf_db (db s)" "spec_inv (abs_svc s)"
    using svc_reachable_inv [OF assms(2,1)] by (auto simp: svc_inv_def)
  have key: "(rid, n) \<in> set (map claim_key (in_flight s))"
    using assms(3) by (force simp: claim_key_def)
  then obtain st a where "n = 1" "view (db s) rid = Some (st, a, 1)"
    using inv(2) by (fastforce simp: abs_svc_def)
  then obtain r where r: "row_of (db s) rid = Some r" "max_retries r = 1" "n = 1"
    by (auto simp: view_def)
  have "run_id r = rid" using row_of_Some [OF r(1)] by blast
  then have rd: "row_of ?d rid = Some (?f r)" by (simp add: row_of_update_where r(1))
  have wf: "wf_db ?d" using inv(1) by (simp add: wf_update_where)
  have "fst c \<noteq> rid" if cl: "claim_next pick now' ?d = Inr (Some c, d')" for now' c d'
  proof
    assume "fst c = rid"
    then obtain a p t k where "c = (rid, a, p, t, k)" by (cases c) auto
    from claim_next_some [OF assms(1) wf cl [unfolded this]] obtain r'
      where "row_of ?d rid = Some r'" "attempts r' + 1 \<le> max_retries r'" by blast
    moreover from this(1) rd have "r' = ?f r" by (metis option.inject)
    ultimately show False using r by simp
  qed
  moreover have "finish_claim cfg (rid, ag, p, t, n) (Inr resp) now (db s) = Inr ?d"
    using assms(4,5) svc_reachable_open [OF assms(2)]
    by (simp add: finish_claim_def record_outcome_def requeue_def)
  ultimately show ?thesis using rd r
    by (intro exI [of _ ?d] exI [of _ "?f r"]) auto
qed

lemma failed_run_never_retried_witness:
  "\<exists>d r. finish_claim demo_cfg demo_claim (Inr (demo_response\<lparr>resp_status := ''timeout''\<rparr>)) 8
      (db demo_running) = Inr d \<and>
    row_of d ''r1'' = Some r \<and> status r = PENDING \<and> max_retries r < attempts r \<and>
    (\<forall>now' c d'. claim_next hd now' d = Inr (Some c, d') \<longrightarrow> fst c \<noteq> ''r1'')"
  unfolding demo_claim_def
  by (rule failed_run_never_retried [OF pick_ok_hd demo_running_reachable])
    (simp_all add: demo_defs demo_response_def)

text \<open>
  C31: apart from \<open>/healthz\<close>, \<open>/readyz\<close> and \<open>/metrics\<close> every route answers 401 and leaves the queue alone
  unless the request carries the configured token.
\<close>

theorem protected_routes_need_token:
  assumes "rt \<noteq> Healthz" "rt \<noteq> Readyz" "rt \<noteq> MetricsRoute"
    and "bearer_token_from_header (authorization req) \<noteq> Some (token cfg)"
  shows "handle json_loads isoformat show_float reg cfg uuid now rt req s =
    (HTTPException 401 ''invalid or missing token'', s)"
  using assms
  by (cases rt) (auto simp: handle_def protected_def require_token_def split: option.splits)

lemma protected_routes_need_token_witness:
  "handle (\<lambda>_. Inr (JObj [])) (\<lambda>_. []) (\<lambda>_. []) registry_init demo_cfg ''r2'' 4 SubmitRun
      \<lparr>authorization = Some ''Bearer guess'', body = []\<rparr> (db demo_running) =
    (HTTPException 401 ''invalid or missing token'', db demo_running)"
  by (rule protected_routes_need_token)
    (simp_all add: bearer_token_from_header_def py_lower_def py_strip_def py_lstrip_def demo_defs
      split: option.splits if_splits)

lemma py_lower_blank: "CHR '' '' \<in> set s \<Longrightarrow> CHR '' '' \<in> set (py_lower s)"
proof -
  have blank: "py_lower_char (CHR '' '') = CHR '' ''" by code_simp
  assume "CHR '' '' \<in> set s"
  then have "py_lower_char (CHR '' '') \<in> set (py_lower s)" by (simp add: py_lower_def)
  then show ?thesis by (simp only: blank)
qed

text \<open>
  Whatever surrounds the token in the environment, a service that starts has a token of at
  least 32 characters without surrounding white space, and it accepts the environment's value
  behind \<open>Bearer\<close> in any capitalisation.
\<close>

theorem configured_token_accepted:
  assumes "from_env env = Inr cfg" "dict_get env ''INTELLIQX_API_TOKEN'' = Some t"
    and "py_lower scheme = ''bearer''" "authorization req = Some (scheme @ '' '' @ t)"
  shows "require_token cfg req = Inr () \<and> 32 \<le> length (token cfg) \<and> py_strip (token cfg) = token cfg"
proof -
  have tok: "token cfg = py_strip t" and len: "32 \<le> length (py_strip t)"
    using assms(1,2)
    by (auto simp: from_env_def Let_def MIN_TOKEN_LENGTH_def split: if_splits sum.splits)
  have "CHR '' '' \<notin> set scheme" using assms(3) py_lower_blank [of scheme] by auto
  then have split: "takeWhile (\<lambda>c. c \<noteq> CHR '' '') (scheme @ '' '' @ t) = scheme"
    by (subst takeWhile_append2) auto
  from len have "py_strip t \<noteq> []" by auto
  then have "bearer_token_from_header (authorization req) = Some (token cfg)"
    using assms(3,4) split by (simp add: bearer_token_from_header_def Let_def tok)
  then show ?thesis using len by (simp add: require_token_def tok)
qed

lemma configured_token_accepted_witness:
  "require_token demo_cfg
      \<lparr>authorization = Some (''BEARER'' @ '' '' @ ''  0123456789abcdef0123456789abcdef ''), body = []\<rparr> = Inr () \<and>
    32 \<le> length (token demo_cfg) \<and> py_strip (token demo_cfg) = token demo_cfg"
  by (rule configured_token_accepted [where scheme = "''BEARER''"
        and t = "''  0123456789abcdef0123456789abcdef ''"
        and env = "[(''INTELLIQX_API_TOKEN'', ''  0123456789abcdef0123456789abcdef ''),
          (''INTELLIQX_STATE_DB'', ''runs.db''), (''INTELLIQX_WORKERS'', ''2''),
          (''INTELLIQX_MAX_RETRIES'', ''3'')]"]) code_simp+

lemma row_of_enqueue:
  assumes "enqueue rid a t p m now s = Inr s'"
  shows "row_of s' rid = Some \<lparr>rowid = next_rowid (rows s), run_id = rid, agent_name = a,
    tenant_id = t, status = PENDING, input_json = p, output_json = None, error = None,
    attempts = 0, max_retries = m, created_at = now, updated_at = now, duration_ms = 0\<rparr>"
proof -
  have "rid \<notin> run_id ` set (rows s)" using assms by (auto simp: enqueue_def split: if_splits)
  then have none: "row_of s rid = None" by (simp add: row_of_None)
  then show ?thesis
    using assms by (auto simp: enqueue_def row_of_def map_add_def split: if_splits)
qed

text \<open>
  A valid submission under a fresh run id is answered 202, and asking for that id then
  answers 200 with the agent, tenant and input that were submitted, PENDING, no attempt used.
\<close>

theorem submit_then_get:
  assumes "\<not> closed s" "row_of s uuid = None"
    and auth: "require_token cfg req = Inr ()" "require_token cfg req' = Inr ()"
    and "read_json_object json_loads req = Inr kvs" "validate_submission kvs = Some sub"
  shows "\<exists>s'. handle json_loads isoformat show_float reg cfg uuid now SubmitRun req s =
      (Response 202 (JObj [(''run_id'', JStr uuid), (''status'', JStr ''PENDING'')]), s') \<and>
    (\<exists>r. handle json_loads isoformat show_float reg cfg u' now' (GetRun uuid) req' s' =
        (Response 200 (as_dict isoformat r), s') \<and>
      rec_run_id r = uuid \<and> rec_agent_name r = agent sub \<and> rec_tenant_id r = sub_tenant_id sub \<and>
      rec_input_payload r = sub_input sub \<and> rec_status r = PENDING \<and> rec_attempts r = 0 \<and>
      rec_output r = None \<and> rec_error r = None)"
proof -
  have "uuid \<notin> run_id ` set (rows s)" using assms(2) by (simp add: row_of_None)
  then obtain s' where s': "enqueue uuid (agent sub) (sub_tenant_id sub) (sub_input sub) 1 now s = Inr s'"
    and "\<not> closed s'"
    using assms(1) by (auto simp: enqueue_def)
  then show ?thesis
    using assms(5,6) auth row_of_enqueue [OF s']
    by (intro exI [of _ s'])
      (auto simp: handle_def protected_def submit_run_def get_run_def get_def select_run_row_of
        row_to_record_def)
qed

text \<open>
  A body that is no submission, or in no Unicode encoding, is not answered with a 4xx: the exception
  of the validation or of the decoding escapes the handler.
\<close>

lemma client_errors_unhandled:
  assumes "require_token cfg req = Inr ()" "body req \<noteq> []"
  shows "json_loads (body req) = Inr (JObj kvs) \<Longrightarrow> validate_submission kvs = None \<Longrightarrow>
      handle json_loads isoformat show_float reg cfg uuid now SubmitRun req s = (Unhandled ''ValidationError'', s)"
    and "json_loads (body req) = Inl (OtherLoadError ''UnicodeDecodeError'') \<Longrightarrow>
      handle json_loads isoformat show_float reg cfg uuid now SubmitRun req s = (Unhandled ''UnicodeDecodeError'', s)"
  using assms by (simp_all add: handle_def protected_def submit_run_def read_json_object_def)

section \<open>A run from its submission to its outcome\<close>

text \<open>
  What is on record of a run after the turn of the worker that claimed it: status, output, error and
  number of attempts, given what its invocation ended with.
\<close>

definition run_outcome ::
    "Settings \<Rightarrow> exn + InvocationResponse \<Rightarrow> RunStatus \<times> json option \<times> string option \<times> int" where
  "run_outcome cfg res =
     (case res of
        Inl CancelledError \<Rightarrow> (RUNNING, None, None, 1)
      | Inl e \<Rightarrow> (FAILED, None, Some (exn_type e @ '': '' @ exn_str e), 1)
      | Inr resp \<Rightarrow>
          if resp_status resp = ''ok'' then (SUCCEEDED, Some (resp_output resp), None, 1)
          else if set_max_retries cfg \<le> 1
          then (FAILED, None, Some (case resp_error resp of Some (c # cs) \<Rightarrow> c # cs
                                    | _ \<Rightarrow> ''transport status '' @ resp_status resp), 1)
          else (PENDING, None, None, 2))"

definition record_outcome_of :: "run_row \<Rightarrow> RunStatus \<times> json option \<times> string option \<times> int" where
  "record_outcome_of r = (status r, output_json r, error r, run_row.attempts r)"

lemma row_of_complete:
  assumes "complete rid st out err dur now d = Inr d'" "row_of d rid = Some r"
  shows "row_of d' rid = Some (r\<lparr>status := st, output_json := out, error := err, duration_ms := dur, updated_at := now\<rparr>)"
  using assms row_of_Some [OF assms(2)]
  by (auto simp: complete_def row_of_update_where split: if_splits)

lemma row_of_requeue:
  assumes "requeue rid n now d = Inr d'" "row_of d rid = Some r"
  shows "row_of d' rid = Some (r\<lparr>status := PENDING, attempts := n, updated_at := now\<rparr>)"
  using assms row_of_Some [OF assms(2)]
  by (auto simp: requeue_def row_of_update_where split: if_splits)

lemma finish_claim_outcome_row:
  assumes fin: "finish_claim cfg (rid, a, p, t, 1) res now d = Inr d'"
    and r: "row_of d rid = Some r" "record_outcome_of r = (RUNNING, None, None, 1)"
  shows "\<exists>r'. row_of d' rid = Some r' \<and> record_outcome_of r' = run_outcome cfg res \<and>
    agent_name r' = agent_name r \<and> tenant_id r' = tenant_id r \<and> input_json r' = input_json r"
proof (cases res)
  case (Inl e)
  show ?thesis
  proof (cases "e = CancelledError")
    case True
    then show ?thesis using fin r Inl by (simp add: finish_claim_def run_outcome_def)
  next
    case False
    then have "complete rid FAILED None (Some (exn_type e @ '': '' @ exn_str e)) 0 now d = Inr d'"
      and "run_outcome cfg res = (FAILED, None, Some (exn_type e @ '': '' @ exn_str e), 1)"
      using fin unfolding finish_claim_def run_outcome_def Inl by (cases e; simp)+
    then show ?thesis using row_of_complete [OF _ r(1)] r(2) by (simp add: record_outcome_of_def)
  qed
next
  case (Inr resp)
  consider (ok) "resp_status resp = ''ok''" | (failed) "resp_status resp \<noteq> ''ok''" "set_max_retries cfg \<le> 1"
    | (again) "resp_status resp \<noteq> ''ok''" "\<not> set_max_retries cfg \<le> 1" by blast
  then show ?thesis
  proof cases
    case ok
    then show ?thesis
      using fin row_of_complete [OF _ r(1)] r(2)
      by (simp add: finish_claim_def record_outcome_def run_outcome_def record_outcome_of_def Inr)
  next
    case failed
    then show ?thesis
      using fin row_of_complete [OF _ r(1)] r(2)
      by (simp add: finish_claim_def record_outcome_def run_outcome_def record_outcome_of_def Inr)
  next
    case again
    then show ?thesis
      using fin row_of_requeue [OF _ r(1)] r(2)
      by (simp add: finish_claim_def record_outcome_def run_outcome_def record_outcome_of_def Inr)
  qed
qed

lemma claim_of_submitted:
  assumes "wf_db s" "nothing_pending (view s)" "pick_ok pick" "enqueue rid a t p 1 now s = Inr s1"
  shows "\<exists>d r. claim_next pick now' s1 = Inr (Some (rid, a, p, t, 1), d) \<and> \<not> closed d \<and> row_of d rid = Some r \<and>
    record_outcome_of r = (RUNNING, None, None, 1) \<and> agent_name r = a \<and> tenant_id r = t \<and> input_json r = p"
proof -
  let ?r = "\<lparr>rowid = next_rowid (rows s), run_id = rid, agent_name = a, tenant_id = t, status = PENDING,
    input_json = p, output_json = None, error = None, attempts = 0, max_retries = 1, created_at = now,
    updated_at = now, duration_ms = 0\<rparr>"
  obtain r0 where r0: "r0 = ?r" by blast
  have fields: "rowid r0 = next_rowid (rows s)" "run_id r0 = rid" "agent_name r0 = a" "tenant_id r0 = t"
    "status r0 = PENDING" "input_json r0 = p" "output_json r0 = None" "error r0 = None" "run_row.attempts r0 = 0"
    "max_retries r0 = 1" by (simp_all add: r0)
  have row: "row_of s1 rid = Some r0" unfolding r0 by (rule row_of_enqueue [OF assms(4)])
  have s1: "rows s1 = rows s @ [r0]" "\<not> closed s1"
    using assms(4) unfolding r0 by (auto simp: enqueue_def split: if_splits)
  have none: "status r \<noteq> PENDING" if "r \<in> set (rows s)" for r
  proof
    assume "status r = PENDING"
    then have "view s (run_id r) = Some (PENDING, run_row.attempts r, max_retries r)"
      using row_of_in [OF assms(1) that] by (simp add: view_def)
    then show False using assms(2) unfolding nothing_pending_def by blast
  qed
  have "filter (\<lambda>r. status r = PENDING) (rows s) = []" using none by (intro filter_False) blast
  then have "filter (\<lambda>r. status r = PENDING) (rows s1) = [r0]" by (simp add: s1(1) fields)
  then have old: "oldest_pending (rows s1) = [r0]" by (simp add: oldest_pending_def)
  have "pick [r0] \<in> set [r0]" using assms(3) unfolding pick_ok_def by blast
  then have "pick [r0] = r0" by simp
  then have cl: "claim_next pick now' s1 = Inr (Some (rid, a, p, t, 1),
      update_where (\<lambda>r. rowid r = rowid r0) (\<lambda>r. r\<lparr>status := RUNNING, attempts := 1, updated_at := now'\<rparr>) s1)"
    using s1(2) old by (simp add: claim_next_def Let_def fields)
  show ?thesis
    using cl s1(2) row by (auto simp: row_of_update_where record_outcome_of_def fields)
qed

text \<open>The request that a submission is to lead to.\<close>

definition submitted_request :: "string \<Rightarrow> RunSubmission \<Rightarrow> InvocationRequest" where
  "submitted_request rid sub =
     \<lparr>req_agent_name = agent sub, req_input = sub_input sub, req_tenant_id = sub_tenant_id sub,
      req_timeout_seconds = 300, req_metadata = [(''run_id'', JStr rid), (''attempt'', JInt 1)]\<rparr>"

lemma run_served:
  assumes "\<not> closed s" "wf_db s" "nothing_pending (view s)" "row_of s uuid = None" "pick_ok pick"
    and auth: "require_token cfg req = Inr ()" "require_token cfg req' = Inr ()"
    and "read_json_object json_loads req = Inr kvs" "validate_submission kvs = Some sub"
  shows "\<exists>s1 s2 r.
    handle json_loads isoformat show_float reg cfg uuid now SubmitRun req s =
      (Response 202 (JObj [(''run_id'', JStr uuid), (''status'', JStr ''PENDING'')]), s1) \<and>
    worker_iter pick call cfg t1 t2 s1 = Inr s2 \<and>
    handle json_loads isoformat show_float reg' cfg u' now' (GetRun uuid) req' s2 = (Response 200 (as_dict isoformat r), s2) \<and>
    rec_agent_name r = agent sub \<and> rec_tenant_id r = sub_tenant_id sub \<and> rec_input_payload r = sub_input sub \<and>
    (rec_status r, rec_output r, rec_error r, rec_attempts r) = run_outcome cfg (call (submitted_request uuid sub))"
proof -
  let ?res = "call (submitted_request uuid sub)"
  have "uuid \<notin> run_id ` set (rows s)" using assms(4) by (simp add: row_of_None)
  then obtain s1 where s1: "enqueue uuid (agent sub) (sub_tenant_id sub) (sub_input sub) 1 now s = Inr s1"
    using assms(1) by (auto simp: enqueue_def)
  obtain d r where cl: "claim_next pick t1 s1 = Inr (Some (uuid, agent sub, sub_input sub, sub_tenant_id sub, 1), d)"
    and d: "\<not> closed d" "row_of d uuid = Some r" "record_outcome_of r = (RUNNING, None, None, 1)"
      "agent_name r = agent sub" "tenant_id r = sub_tenant_id sub" "input_json r = sub_input sub"
    using claim_of_submitted [OF assms(2,3,5) s1] by blast
  obtain s2 where s2: "finish_claim cfg (uuid, agent sub, sub_input sub, sub_tenant_id sub, 1) ?res t2 d = Inr s2"
    and open2: "\<not> closed s2"
    using finish_claim_total [OF d(1)] by blast
  obtain r' where r': "row_of s2 uuid = Some r'" "record_outcome_of r' = run_outcome cfg ?res"
    "agent_name r' = agent sub" "tenant_id r' = sub_tenant_id sub" "input_json r' = sub_input sub"
    using finish_claim_outcome_row [OF s2 d(2,3)] d(4-6) by auto
  have post: "handle json_loads isoformat show_float reg cfg uuid now SubmitRun req s =
      (Response 202 (JObj [(''run_id'', JStr uuid), (''status'', JStr ''PENDING'')]), s1)"
    using auth(1) assms(8,9) s1 by (simp add: handle_def protected_def submit_run_def)
  have turn: "worker_iter pick call cfg t1 t2 s1 = Inr s2"
    using cl s2 by (simp add: worker_iter_def submitted_request_def build_invocation_request_def)
  have "handle json_loads isoformat show_float reg' cfg u' now' (GetRun uuid) req' s2 =
      (Response 200 (as_dict isoformat (row_to_record r')), s2)"
    using auth(2) r'(1) open2 by (simp add: handle_def protected_def get_run_def get_def select_run_row_of)
  moreover have "(rec_status (row_to_record r'), rec_output (row_to_record r'), rec_error (row_to_record r'),
      rec_attempts (row_to_record r')) = run_outcome cfg ?res"
    using r'(2) by (simp add: record_outcome_of_def row_to_record_def)
  moreover have "rec_agent_name (row_to_record r') = agent sub" "rec_tenant_id (row_to_record r') = sub_tenant_id sub"
    "rec_input_payload (row_to_record r') = sub_input sub" using r'(3-5) by (simp_all add: row_to_record_def)
  ultimately show ?thesis using post turn by blast
qed

definition demo_request :: http_request where
  "demo_request = \<lparr>authorization = Some ''Bearer 0123456789abcdef0123456789abcdef'', body = ''{}''\<rparr>"

definition demo_submission :: "(string, json) dict" where
  "demo_submission = [(''agent'', JStr ''smoke''), (''input'', JObj [(''x'', JInt 1)])]"

lemma submit_then_get_witness:
  "\<exists>s'. handle (\<lambda>_. Inr (JObj demo_submission)) (\<lambda>_. []) (\<lambda>_. []) registry_init demo_cfg ''r2'' 9 SubmitRun demo_request
        (db demo_done) =
      (Response 202 (JObj [(''run_id'', JStr ''r2''), (''status'', JStr ''PENDING'')]), s') \<and>
    (\<exists>r. handle (\<lambda>_. Inr (JObj demo_submission)) (\<lambda>_. []) (\<lambda>_. []) registry_init demo_cfg ''r3'' 10 (GetRun ''r2'')
        demo_request s' = (Response 200 (as_dict (\<lambda>_. []) r), s') \<and>
      rec_run_id r = ''r2'' \<and>
      rec_agent_name r = agent \<lparr>agent = ''smoke'', sub_tenant_id = ''t1'', sub_input = JObj [(''x'', JInt 1)]\<rparr> \<and>
      rec_tenant_id r = sub_tenant_id \<lparr>agent = ''smoke'', sub_tenant_id = ''t1'', sub_input = JObj [(''x'', JInt 1)]\<rparr> \<and>
      rec_input_payload r = sub_input \<lparr>agent = ''smoke'', sub_tenant_id = ''t1'', sub_input = JObj [(''x'', JInt 1)]\<rparr> \<and>
      rec_status r = PENDING \<and> rec_attempts r = 0 \<and> rec_output r = None \<and> rec_error r = None)"
proof (rule submit_then_get)
  show "\<not> closed (db demo_done)" "row_of (db demo_done) ''r2'' = None"
    by (simp_all add: demo_done_def demo_defs row_of_def)
  have auth: "require_token demo_cfg demo_request = Inr ()" by code_simp
  show "require_token demo_cfg demo_request = Inr ()" by (rule auth)
  show "require_token demo_cfg demo_request = Inr ()" by (rule auth)
  show "read_json_object (\<lambda>_. Inr (JObj demo_submission)) demo_request = Inr demo_submission"
    by (simp add: read_json_object_def demo_request_def)
  show "validate_submission demo_submission =
      Some \<lparr>agent = ''smoke'', sub_tenant_id = ''t1'', sub_input = JObj [(''x'', JInt 1)]\<rparr>"
    by (simp add: validate_submission_def demo_submission_def field_agent_def field_tenant_def
        field_input_def)
qed

text \<open>
  C7: a valid submission to a store with nothing pending is answered 202; the next turn of a worker hands it to the
  runtime with the tenant and input that were submitted, and asking for the run then answers 200 with the outcome:
  the output of an \<open>ok\<close> response, the error text of any other when no retry is configured, the text of an exception.
\<close>

theorem submitted_run_outcome:
  assumes "\<not> closed s" "wf_db s" "nothing_pending (view s)" "row_of s uuid = None" "pick_ok pick"
    and auth: "require_token cfg req = Inr ()" "require_token cfg req' = Inr ()"
    and "read_json_object json_loads req = Inr kvs" "validate_submission kvs = Some sub"
  shows "\<exists>s1 s2 r.
    handle json_loads isoformat show_float reg cfg uuid now SubmitRun req s =
      (Response 202 (JObj [(''run_id'', JStr uuid), (''status'', JStr ''PENDING'')]), s1) \<and>
    worker_iter pick call cfg t1 t2 s1 = Inr s2 \<and>
    handle json_loads isoformat show_float reg' cfg u' now' (GetRun uuid) req' s2 = (Response 200 (as_dict isoformat r), s2) \<and>
    rec_agent_name r = agent sub \<and> rec_tenant_id r = sub_tenant_id sub \<and> rec_input_payload r = sub_input sub \<and>
    (rec_status r, rec_output r, rec_error r, rec_attempts r) = run_outcome cfg (call (submitted_request uuid sub))"
  by (rule run_served [OF assms])

lemma submitted_run_outcome_witness:
  "\<exists>s1 s2 r.
    handle (\<lambda>_. Inr (JObj demo_submission)) (\<lambda>_. []) (\<lambda>_. []) registry_init demo_cfg ''r2'' 9 SubmitRun demo_request (db demo_done) =
      (Response 202 (JObj [(''run_id'', JStr ''r2''), (''status'', JStr ''PENDING'')]), s1) \<and>
    worker_iter hd (\<lambda>_. Inr demo_response) demo_cfg 10 11 s1 = Inr s2 \<and>
    handle (\<lambda>_. Inr (JObj demo_submission)) (\<lambda>_. []) (\<lambda>_. []) registry_init demo_cfg ''r3'' 12 (GetRun ''r2'') demo_request s2 =
      (Response 200 (as_dict (\<lambda>_. []) r), s2) \<and>
    rec_agent_name r = ''smoke'' \<and> rec_tenant_id r = ''t1'' \<and> rec_input_payload r = JObj [(''x'', JInt 1)] \<and>
    (rec_status r, rec_output r, rec_error r, rec_attempts r) = (SUCCEEDED, Some (JObj []), None, 1)"
proof -
  have open_db: "\<not> closed (db demo_done)" and wf: "wf_db (db demo_done)" and new: "row_of (db demo_done) ''r2'' = None"
    and idle: "nothing_pending (view (db demo_done))"
    by (auto simp: demo_done_def demo_defs row_of_def wf_db_def nothing_pending_def view_def)
  have auth: "require_token demo_cfg demo_request = Inr ()" by code_simp
  have body: "read_json_object (\<lambda>_. Inr (JObj demo_submission)) demo_request = Inr demo_submission"
    by (simp add: read_json_object_def demo_request_def)
  have valid: "validate_submission demo_submission =
      Some \<lparr>agent = ''smoke'', sub_tenant_id = ''t1'', sub_input = JObj [(''x'', JInt 1)]\<rparr>"
    by (simp add: validate_submission_def demo_submission_def field_agent_def field_tenant_def field_input_def)
  have outcome: "run_outcome demo_cfg (Inr demo_response) = (SUCCEEDED, Some (JObj []), None, 1)"
    by (simp add: run_outcome_def demo_response_def)
  show ?thesis
    using submitted_run_outcome [OF open_db wf idle new pick_ok_hd auth auth body valid, where call = "\<lambda>_. Inr demo_response"]
    unfolding outcome RunSubmission.simps by blast
qed

text \<open>
  With no \<open>INTELLIQX_STATE_DB\<close> (the documented default) the service never starts: the
  default path \<open>:memory:\<close> cannot be put into WAL mode.  Hypothesis, SQLite's documented
  behaviour: the journal mode of an in-memory database stays \<open>memory\<close>.
\<close>

theorem default_settings_cannot_start:
  assumes "journal_mode '':memory:'' = Some ''memory''"
    and "dict_get env ''INTELLIQX_STATE_DB'' = None"
  shows "\<exists>e. startup journal_mode on_disk env = Inl e"
proof (cases "from_env env")
  case (Inl e)
  then show ?thesis by (simp add: startup_def)
next
  case (Inr cfg)
  then have "state_path cfg = '':memory:''"
    using assms(2) by (auto simp: from_env_def Let_def split: if_splits sum.splits)
  moreover have "py_lower ''memory'' \<noteq> ''wal''" by (simp add: py_lower_def)
  ultimately show ?thesis
    using Inr assms(1) by (simp add: startup_def init_store_def ensure_pragmas_def)
qed

lemma default_settings_cannot_start_witness:
  "\<exists>e. startup (\<lambda>p. if p = '':memory:'' then Some ''memory'' else Some ''wal'') []
      [(''INTELLIQX_API_TOKEN'', ''0123456789abcdef0123456789abcdef'')] = Inl e"
  by (rule default_settings_cannot_start) simp_all

end
