(* ===== verification/SgirModels.thy ===== *)
theory SgirModels
  imports Prelude
begin

text \<open>
  The data model of the software graph (\<open>intelliqx_graph/models.py\<close>).

  Enums are datatypes with their \<open>value\<close>; models are records (fields named as in the source,
  with a prefix where Isabelle needs one).  Time stamps (\<open>created_at\<close>, \<open>analyzed_at\<close>) are not
  modelled: no code reads them.  \<open>layers\<close> is a dict in insertion order; \<open>wf_sg\<close> says that it has
  each layer once, filed under its own name.

  The passes of the optimizer write \<open>working.layers[..]\<close> while iterating over
  \<open>working.layers.values()\<close>; \<open>layer_loop\<close> is that loop over the live dict, with CPython's
  \<open>RuntimeError\<close> when the dict grows under the iterator, and \<open>layer_loop_wf\<close> shows that for
  well-formed graphs it is a map over the layers.
\<close>

section \<open>Enumerations\<close>

datatype EdgeType = ECall | EData | EControl | EDependency | EEvent | ENetwork | EDatabase
  | EStateTransition | EImport | EInherit | EImplement | ECompose

fun edge_type_value :: "EdgeType \<Rightarrow> string" where
  "edge_type_value ECall = ''call''"
| "edge_type_value EData = ''data''"
| "edge_type_value EControl = ''control''"
| "edge_type_value EDependency = ''dependency''"
| "edge_type_value EEvent = ''event''"
| "edge_type_value ENetwork = ''network''"
| "edge_type_value EDatabase = ''database''"
| "edge_type_value EStateTransition = ''state_transition''"
| "edge_type_value EImport = ''import''"
| "edge_type_value EInherit = ''inherit''"
| "edge_type_value EImplement = ''implement''"
| "edge_type_value ECompose = ''compose''"

datatype GraphLayer = LCall | LDataFlow | LControlFlow | LDependency | LStateTransition
  | LResource | LSecurity | LDeployment

fun layer_value :: "GraphLayer \<Rightarrow> string" where
  "layer_value LCall = ''call''"
| "layer_value LDataFlow = ''data_flow''"
| "layer_value LControlFlow = ''control_flow''"
| "layer_value LDependency = ''dependency''"
| "layer_value LStateTransition = ''state_transition''"
| "layer_value LResource = ''resource''"
| "layer_value LSecurity = ''security''"
| "layer_value LDeployment = ''deployment''"

datatype NodeType = NFunction | NMethod | NClass | NModule | NPackage | NService | NEndpoint
  | NEventHandler | NMiddleware | NDatamodel | NConfig | NInfrastructure | NUnknown

fun node_type_value :: "NodeType \<Rightarrow> string" where
  "node_type_value NFunction = ''function''"
| "node_type_value NMethod = ''method''"
| "node_type_value NClass = ''class''"
| "node_type_value NModule = ''module''"
| "node_type_value NPackage = ''package''"
| "node_type_value NService = ''service''"
| "node_type_value NEndpoint = ''endpoint''"
| "node_type_value NEventHandler = ''event_handler''"
| "node_type_value NMiddleware = ''middleware''"
| "node_type_value NDatamodel = ''datamodel''"
| "node_type_value NConfig = ''config''"
| "node_type_value NInfrastructure = ''infrastructure''"
| "node_type_value NUnknown = ''unknown''"

datatype ComplexityEstimate = Constant | Logarithmic | Linear | Linearithmic | Quadratic | Cubic
  | Exponential | UnknownComplexity

fun complexity_value :: "ComplexityEstimate \<Rightarrow> string" where
  "complexity_value Constant = ''O(1)''"
| "complexity_value Logarithmic = ''O(log n)''"
| "complexity_value Linear = ''O(n)''"
| "complexity_value Linearithmic = ''O(n log n)''"
| "complexity_value Quadratic = ''O(n^2)''"
| "complexity_value Cubic = ''O(n^3)''"
| "complexity_value Exponential = ''O(2^n)''"
| "complexity_value UnknownComplexity = ''unknown''"

datatype SecurityBoundary = SbNone | SbAuthenticated | SbAuthorized | SbAdmin | SbInternal
  | SbExternal | SbSandboxed

section \<open>Nodes, edges, graphs\<close>

record SourceLocation =
  loc_file_path :: string
  line_start :: int
  line_end :: int
  column_start :: int
  column_end :: int

record SGIRNode =
  node_id :: string
  node_name :: string
  purpose :: string
  node_type :: NodeType
  language :: string
  source_location :: "SourceLocation option"
  inputs :: "string list"
  outputs :: "string list"
  preconditions :: "string list"
  postconditions :: "string list"
  side_effects :: "string list"
  external_dependencies :: "string list"
  resource_usage :: "(string, json) dict"
  complexity :: ComplexityEstimate
  failure_modes :: "string list"
  security_boundary :: SecurityBoundary
  ownership :: "string option"
  test_coverage :: rat
  documentation :: string
  performance_metrics :: "(string, json) dict"
  is_dead :: bool
  is_duplicate :: bool
  optimization_notes :: "string list"

text \<open>A node with the two required fields, everything else at its default.\<close>

definition new_node :: "string \<Rightarrow> string \<Rightarrow> SGIRNode" where
  "new_node i n = \<lparr>node_id = i, node_name = n, purpose = [], node_type = NUnknown,
     language = ''unknown'', source_location = None, inputs = [], outputs = [],
     preconditions = [], postconditions = [], side_effects = [], external_dependencies = [],
     resource_usage = [], complexity = UnknownComplexity, failure_modes = [],
     security_boundary = SbNone, ownership = None, test_coverage = 0, documentation = [],
     performance_metrics = [], is_dead = False, is_duplicate = False, optimization_notes = []\<rparr>"

record SGIREdge =
  source :: string
  target :: string
  edge_type :: EdgeType
  edge_weight :: rat
  edge_metadata :: "(string, json) dict"
  label :: string

definition new_edge :: "string \<Rightarrow> string \<Rightarrow> EdgeType \<Rightarrow> SGIREdge" where
  "new_edge s t ty = \<lparr>source = s, target = t, edge_type = ty, edge_weight = 1,
     edge_metadata = [], label = []\<rparr>"

record SGIRGraph =
  layer :: GraphLayer
  nodes :: "SGIRNode list"
  edges :: "SGIREdge list"
  graph_metadata :: "(string, json) dict"

definition node_ids :: "SGIRGraph \<Rightarrow> string set" where
  "node_ids g = set (map node_id (nodes g))"

definition node_count :: "SGIRGraph \<Rightarrow> nat" where
  "node_count g = length (nodes g)"

definition edge_count :: "SGIRGraph \<Rightarrow> nat" where
  "edge_count g = length (edges g)"

record RepositoryMetadata =
  repo_name :: string
  root_path :: string
  languages :: "string list"
  frameworks :: "string list"
  build_systems :: "string list"
  architecture_style :: string
  total_files :: int
  total_lines :: int
  extra :: "(string, json) dict"

section \<open>The multi-layer container\<close>

type_synonym layer_dict = "(GraphLayer, SGIRGraph) dict"

record SoftwareGraph =
  repository :: RepositoryMetadata
  layers :: layer_dict

definition get_layer :: "GraphLayer \<Rightarrow> SoftwareGraph \<Rightarrow> SGIRGraph option" where
  "get_layer l sg = dict_get (layers sg) l"

definition add_layer :: "SGIRGraph \<Rightarrow> SoftwareGraph \<Rightarrow> SoftwareGraph" where
  "add_layer g sg = sg\<lparr>layers := dict_set (layer g) g (layers sg)\<rparr>"

definition total_nodes :: "SoftwareGraph \<Rightarrow> nat" where
  "total_nodes sg = sum_list (map (node_count \<circ> snd) (layers sg))"

definition total_edges :: "SoftwareGraph \<Rightarrow> nat" where
  "total_edges sg = sum_list (map (edge_count \<circ> snd) (layers sg))"

definition layers_present :: "SoftwareGraph \<Rightarrow> GraphLayer list" where
  "layers_present sg = map fst (layers sg)"

definition all_nodes :: "SoftwareGraph \<Rightarrow> SGIRNode list" where
  "all_nodes sg = concat (map (nodes \<circ> snd) (layers sg))"

fun find_in_layers :: "string \<Rightarrow> layer_dict \<Rightarrow> SGIRNode option" where
  "find_in_layers i [] = None"
| "find_in_layers i ((l, g) # ls) =
     (case find (\<lambda>n. node_id n = i) (nodes g) of
        Some n \<Rightarrow> Some n
      | None \<Rightarrow> find_in_layers i ls)"

definition find_node :: "string \<Rightarrow> SoftwareGraph \<Rightarrow> SGIRNode option" where
  "find_node i sg = find_in_layers i (layers sg)"

text \<open>The node ids and edge pairs of all layers.\<close>

definition ids_of :: "SoftwareGraph \<Rightarrow> string set" where
  "ids_of sg = (\<Union>g\<in>snd ` set (layers sg). node_ids g)"

definition pairs_of :: "SoftwareGraph \<Rightarrow> (string \<times> string) set" where
  "pairs_of sg = (\<Union>g\<in>snd ` set (layers sg). (\<lambda>e. (source e, target e)) ` set (edges g))"

definition wf_sg :: "SoftwareGraph \<Rightarrow> bool" where
  "wf_sg sg \<longleftrightarrow> distinct (map fst (layers sg)) \<and> (\<forall>(l, g)\<in>set (layers sg). layer g = l)"

lemma node_ids_alt: "node_ids g = node_id ` set (nodes g)"
  by (simp add: node_ids_def)

lemma wf_add_layer: "wf_sg sg \<Longrightarrow> wf_sg (add_layer g sg)"
proof -
  assume wf: "wf_sg sg"
  have "layer v = k" if "(k, v) \<in> set (dict_set (layer g) g (layers sg))" for k v
  proof -
    have "distinct (map fst (dict_set (layer g) g (layers sg)))"
      using wf by (simp add: wf_sg_def)
    from map_of_is_SomeI [OF this that] have "dict_get (dict_set (layer g) g (layers sg)) k = Some v" .
    then show ?thesis using wf by (auto simp: wf_sg_def split: if_splits dest!: map_of_SomeD)
  qed
  with wf show ?thesis by (auto simp: wf_sg_def add_layer_def)
qed

lemma get_add_layer: "get_layer l (add_layer g sg) = (if l = layer g then Some g else get_layer l sg)"
  by (simp add: get_layer_def add_layer_def)

lemma find_in_layers_Some:
  "find_in_layers i ls = Some n \<Longrightarrow> node_id n = i \<and> (\<exists>g\<in>snd ` set ls. n \<in> set (nodes g))"
  by (induction ls rule: find_in_layers.induct)
    (auto split: option.splits simp: find_Some_iff)

lemma find_in_layers_None:
  "find_in_layers i ls = None \<longleftrightarrow> (\<forall>g\<in>snd ` set ls. i \<notin> node_ids g)"
  by (induction ls rule: find_in_layers.induct)
    (auto split: option.splits simp: find_None_iff node_ids_alt find_Some_iff)

section \<open>Loops over the live layer dict\<close>

text \<open>The exceptions that the graph code can raise, those of NetworkX included.\<close>

datatype nx_error = NetworkXNoPath | NodeNotFound | NetworkXUnfeasible | NetworkXError
  | OtherError string

datatype py_error = DictChangedSize | KeyErr string | FromNetworkX nx_error

text \<open>
  \<open>for lg in working.layers.values(): .. working.layers[lg.layer] = lg'\<close>: the body raises, or
  answers \<open>None\<close> for \<open>continue\<close> and \<open>Some lg'\<close> for the assignment.
\<close>

fun layer_loop ::
    "(SGIRGraph \<Rightarrow> py_error + SGIRGraph option) \<Rightarrow> GraphLayer list \<Rightarrow> layer_dict
      \<Rightarrow> py_error + layer_dict" where
  "layer_loop body [] ls = Inr ls"
| "layer_loop body (k # ks) ls =
     (case dict_get ls k of
        None \<Rightarrow> layer_loop body ks ls
      | Some lg \<Rightarrow>
          (case body lg of
             Inl e \<Rightarrow> Inl e
           | Inr None \<Rightarrow> layer_loop body ks ls
           | Inr (Some lg') \<Rightarrow>
               if layer lg \<in> set (dict_keys ls)
               then layer_loop body ks (dict_set (layer lg) lg' ls)
               else Inl DictChangedSize))"

definition for_layers ::
    "(SGIRGraph \<Rightarrow> py_error + SGIRGraph option) \<Rightarrow> SoftwareGraph \<Rightarrow> py_error + SoftwareGraph" where
  "for_layers body sg =
     (case layer_loop body (dict_keys (layers sg)) (layers sg) of
        Inl e \<Rightarrow> Inl e
      | Inr ls \<Rightarrow> Inr (sg\<lparr>layers := ls\<rparr>))"

definition keeps_layer :: "(SGIRGraph \<Rightarrow> py_error + SGIRGraph option) \<Rightarrow> bool" where
  "keeps_layer body \<longleftrightarrow> (\<forall>g g'. body g = Inr (Some g') \<longrightarrow> layer g' = layer g)"

definition apply_body :: "(SGIRGraph \<Rightarrow> py_error + SGIRGraph option) \<Rightarrow> SGIRGraph \<Rightarrow> SGIRGraph" where
  "apply_body body g = (case body g of Inr (Some g') \<Rightarrow> g' | _ \<Rightarrow> g)"

definition no_raise :: "(SGIRGraph \<Rightarrow> py_error + SGIRGraph option) \<Rightarrow> SoftwareGraph \<Rightarrow> bool" where
  "no_raise body sg \<longleftrightarrow> (\<forall>g\<in>snd ` set (layers sg). \<exists>r. body g = Inr r)"

definition map_layers :: "(SGIRGraph \<Rightarrow> SGIRGraph) \<Rightarrow> SoftwareGraph \<Rightarrow> SoftwareGraph" where
  "map_layers f sg = sg\<lparr>layers := map (\<lambda>(l, g). (l, f g)) (layers sg)\<rparr>"

lemma dict_set_middle:
  "k \<notin> fst ` set xs \<Longrightarrow> dict_set k v (xs @ (k, w) # ys) = xs @ (k, v) # ys"
  by (induction xs) auto

lemma dict_get_middle: "k \<notin> fst ` set xs \<Longrightarrow> dict_get (xs @ (k, w) # ys) k = Some w"
  by (simp add: map_add_def map_of_eq_None_iff [THEN iffD2])

lemma layer_loop_map:
  assumes "distinct (map fst (ds @ ls))" "\<And>l g. (l, g) \<in> set ls \<Longrightarrow> layer g = l"
    and "\<And>g. g \<in> snd ` set ls \<Longrightarrow> \<exists>r. body g = Inr r"
  shows "layer_loop body (map fst ls) (ds @ ls) =
    Inr (ds @ map (\<lambda>(l, g). (l, apply_body body g)) ls)"
  using assms
proof (induction ls arbitrary: ds)
  case (Cons x ls)
  obtain l g where x: "x = (l, g)" by (cases x)
  have lg: "layer g = l" by (rule Cons.prems(2)) (simp add: x)
  have new: "l \<notin> fst ` set ds" using Cons.prems(1) by (auto simp: x)
  have get: "dict_get (ds @ (l, g) # ls) l = Some g" by (rule dict_get_middle [OF new])
  have "\<exists>r. body g = Inr r" by (rule Cons.prems(3)) (simp add: x)
  then obtain r where r: "body g = Inr r" ..
  have IH: "layer_loop body (map fst ls) ((ds @ [(l, g')]) @ ls) =
      Inr ((ds @ [(l, g')]) @ map (\<lambda>(l, g). (l, apply_body body g)) ls)" for g'
  proof (rule Cons.IH)
    show "distinct (map fst ((ds @ [(l, g')]) @ ls))" using Cons.prems(1) by (simp add: x)
    show "layer h = k" if "(k, h) \<in> set ls" for k h
      using that by (intro Cons.prems(2)) simp
    show "\<exists>r. body h = Inr r" if "h \<in> snd ` set ls" for h
      using that by (intro Cons.prems(3)) auto
  qed
  show ?case
  proof (cases r)
    case None
    with IH [of g] show ?thesis by (simp add: x get r apply_body_def del: map_of_append)
  next
    case (Some g')
    with IH [of g'] show ?thesis
      by (simp add: x get lg r apply_body_def dict_keys_def dict_set_middle [OF new]
          del: map_of_append)
  qed
qed simp

lemma for_layers_wf:
  assumes "wf_sg sg" "no_raise body sg"
  shows "for_layers body sg = Inr (map_layers (apply_body body) sg)"
proof -
  have "layer_loop body (map fst (layers sg)) ([] @ layers sg) =
      Inr ([] @ map (\<lambda>(l, g). (l, apply_body body g)) (layers sg))"
    using assms by (intro layer_loop_map) (auto simp: wf_sg_def no_raise_def)
  then show ?thesis by (simp add: for_layers_def dict_keys_def map_layers_def)
qed

lemma wf_map_layers:
  "wf_sg sg \<Longrightarrow> (\<And>g. layer (f g) = layer g) \<Longrightarrow> wf_sg (map_layers f sg)"
  by (auto simp: wf_sg_def map_layers_def o_def case_prod_unfold)

lemma layer_apply_body: "keeps_layer body \<Longrightarrow> layer (apply_body body g) = layer g"
  by (auto simp: keeps_layer_def apply_body_def split: sum.split option.split)

lemma snd_map_layers: "snd ` set (layers (map_layers f sg)) = f ` snd ` set (layers sg)"
  by (force simp: map_layers_def)

lemma ids_map_layers:
  "ids_of (map_layers f sg) = (\<Union>g\<in>snd ` set (layers sg). node_ids (f g))"
  by (simp add: ids_of_def snd_map_layers)

lemma pairs_map_layers:
  "pairs_of (map_layers f sg) =
     (\<Union>g\<in>snd ` set (layers sg). (\<lambda>e. (source e, target e)) ` set (edges (f g)))"
  by (simp add: pairs_of_def snd_map_layers)

end
