(* ===== verification/GraphIndex.thy ===== *)
theory GraphIndex
  imports SgirModels "HOL-Library.Char_ord" "HOL-Library.List_Lexorder"
begin

text \<open>
  The graph index (\<open>intelliqx_graph/query.py\<close>) over NetworkX.

  NetworkX is not part of the repository: the functions of it that the code calls are the fields
  of the record \<open>networkx\<close>, a parameter of every definition here, over an abstract type of
  directed graphs.  \<open>nx_documented\<close> states what its documentation says of the graph functions
  that the properties depend on, in terms of a graph's node list and edge set.  \<open>list_nx\<close> is one
  concrete library that satisfies it, for examples.

  A method returns its result and the index, since \<open>merged\<close> and the fan-in/fan-out lists are
  memoised.  \<open>cache_ok\<close> is the invariant of the caches; under it a query answers what it would
  answer with empty caches (\<open>graph_for_value\<close>).  The methods that only read one layer's graph or
  the merged graph are given as functions of that graph.
\<close>

section \<open>The graph library\<close>

record 'g networkx =
  nx_empty :: 'g
  nx_add_node :: "string \<Rightarrow> (string, json) dict \<Rightarrow> 'g \<Rightarrow> 'g"
  nx_add_edge :: "string \<Rightarrow> string \<Rightarrow> (string, json) dict \<Rightarrow> 'g \<Rightarrow> 'g"
  nx_update :: "'g \<Rightarrow> 'g \<Rightarrow> 'g"
  nx_nodes :: "'g \<Rightarrow> string list"
  nx_edge_list :: "'g \<Rightarrow> (string \<times> string) list"
  nx_descendants :: "'g \<Rightarrow> string \<Rightarrow> string list"
  nx_map_edge_data :: "((string, json) dict \<Rightarrow> (string, json) dict) \<Rightarrow> 'g \<Rightarrow> 'g"
  nx_shortest_path :: "'g \<Rightarrow> string \<Rightarrow> string \<Rightarrow> string \<Rightarrow> nx_error + string list"
  nx_communities :: "'g \<Rightarrow> string list list"
  nx_simple_cycles :: "'g \<Rightarrow> nx_error + string list list"
  nx_isomorphisms :: "'g \<Rightarrow> 'g \<Rightarrow> (string, string) dict list"
  nx_out_degree :: "'g \<Rightarrow> string \<Rightarrow> nat"
  nx_in_degree :: "'g \<Rightarrow> string \<Rightarrow> nat"
  nx_successors :: "'g \<Rightarrow> string \<Rightarrow> string list"
  nx_predecessors :: "'g \<Rightarrow> string \<Rightarrow> string list"
  nx_topological_sort :: "'g \<Rightarrow> nx_error + string list"
  nx_density :: "'g \<Rightarrow> rat"
  nx_is_dag :: "'g \<Rightarrow> bool"
  nx_sccs :: "'g \<Rightarrow> string list list"
  nx_subgraph :: "'g \<Rightarrow> string list \<Rightarrow> 'g"

text \<open>
  What the documentation says: adding nodes and edges, the union made by \<open>update\<close>, that a node is
  listed once, that \<open>descendants\<close> are the other nodes reachable by a path, and that degrees of a
  simple digraph count neighbours.
\<close>

definition nx_pairs :: "'g networkx \<Rightarrow> 'g \<Rightarrow> (string \<times> string) set" where
  "nx_pairs nx g = set (nx_edge_list nx g)"

definition nx_documented :: "'g networkx \<Rightarrow> bool" where
  "nx_documented nx \<longleftrightarrow>
     nx_nodes nx (nx_empty nx) = [] \<and> nx_pairs nx (nx_empty nx) = {} \<and>
     (\<forall>g n a. set (nx_nodes nx (nx_add_node nx n a g)) = insert n (set (nx_nodes nx g)) \<and>
              nx_pairs nx (nx_add_node nx n a g) = nx_pairs nx g) \<and>
     (\<forall>g u v a. set (nx_nodes nx (nx_add_edge nx u v a g)) = {u, v} \<union> set (nx_nodes nx g) \<and>
                nx_pairs nx (nx_add_edge nx u v a g) = insert (u, v) (nx_pairs nx g)) \<and>
     (\<forall>g h. set (nx_nodes nx (nx_update nx g h)) = set (nx_nodes nx g) \<union> set (nx_nodes nx h) \<and>
            nx_pairs nx (nx_update nx g h) = nx_pairs nx g \<union> nx_pairs nx h) \<and>
     (\<forall>g. distinct (nx_nodes nx g) \<and> distinct (nx_edge_list nx g)) \<and>
     (\<forall>g n. n \<in> set (nx_nodes nx g) \<longrightarrow>
        distinct (nx_descendants nx g n) \<and>
        set (nx_descendants nx g n) = {m. (n, m) \<in> (nx_pairs nx g)\<^sup>* \<and> m \<noteq> n}) \<and>
     (\<forall>g n. nx_out_degree nx g n = card {m. (n, m) \<in> nx_pairs nx g}) \<and>
     (\<forall>g n. nx_in_degree nx g n = card {m. (m, n) \<in> nx_pairs nx g}) \<and>
     (\<forall>g n. set (nx_successors nx g n) = {m. (n, m) \<in> nx_pairs nx g}) \<and>
     (\<forall>g n. set (nx_predecessors nx g n) = {m. (m, n) \<in> nx_pairs nx g}) \<and>
     (\<forall>g. nx_pairs nx g \<subseteq> set (nx_nodes nx g) \<times> set (nx_nodes nx g))"

lemma nx_documentedD:
  assumes "nx_documented nx"
  shows "nx_nodes nx (nx_empty nx) = []" "nx_pairs nx (nx_empty nx) = {}"
    "set (nx_nodes nx (nx_add_node nx n a g)) = insert n (set (nx_nodes nx g))"
    "nx_pairs nx (nx_add_node nx n a g) = nx_pairs nx g"
    "set (nx_nodes nx (nx_add_edge nx u v a g)) = {u, v} \<union> set (nx_nodes nx g)"
    "nx_pairs nx (nx_add_edge nx u v a g) = insert (u, v) (nx_pairs nx g)"
    "set (nx_nodes nx (nx_update nx g h)) = set (nx_nodes nx g) \<union> set (nx_nodes nx h)"
    "nx_pairs nx (nx_update nx g h) = nx_pairs nx g \<union> nx_pairs nx h"
    "distinct (nx_nodes nx g)" "distinct (nx_edge_list nx g)"
    "n \<in> set (nx_nodes nx g) \<Longrightarrow> distinct (nx_descendants nx g n)"
    "n \<in> set (nx_nodes nx g) \<Longrightarrow>
       set (nx_descendants nx g n) = {m. (n, m) \<in> (nx_pairs nx g)\<^sup>* \<and> m \<noteq> n}"
    "nx_out_degree nx g n = card {m. (n, m) \<in> nx_pairs nx g}"
    "nx_in_degree nx g n = card {m. (m, n) \<in> nx_pairs nx g}"
    "set (nx_successors nx g n) = {m. (n, m) \<in> nx_pairs nx g}"
    "set (nx_predecessors nx g n) = {m. (m, n) \<in> nx_pairs nx g}"
    "nx_pairs nx g \<subseteq> set (nx_nodes nx g) \<times> set (nx_nodes nx g)"
  using assms unfolding nx_documented_def by simp_all

text \<open>
  The cycle functions: components are the classes of mutual reachability, \<open>subgraph\<close> is the
  induced subgraph, \<open>simple_cycles\<close> lists every elementary cycle (in some rotation) and raises
  nothing.  A cycle \<open>[n1, .., nk]\<close> has the edges \<open>cycle_pairs\<close>.
\<close>

definition cycle_pairs :: "string list \<Rightarrow> (string \<times> string) list" where
  "cycle_pairs cyc =
     map (\<lambda>i. (cyc ! i, cyc ! ((i + 1) mod length cyc))) [0..<length cyc]"

definition simple_cycle :: "(string \<times> string) set \<Rightarrow> string list \<Rightarrow> bool" where
  "simple_cycle E c \<longleftrightarrow> c \<noteq> [] \<and> distinct c \<and> set (cycle_pairs c) \<subseteq> E"

definition nx_cycles_documented :: "'g networkx \<Rightarrow> bool" where
  "nx_cycles_documented nx \<longleftrightarrow>
     (\<forall>g. \<forall>n\<in>set (nx_nodes nx g). \<exists>scc\<in>set (nx_sccs nx g). distinct scc \<and>
        set scc = {m. (n, m) \<in> (nx_pairs nx g)\<^sup>* \<and> (m, n) \<in> (nx_pairs nx g)\<^sup>*}) \<and>
     (\<forall>g ns. nx_pairs nx (nx_subgraph nx g ns) = nx_pairs nx g \<inter> set ns \<times> set ns) \<and>
     (\<forall>g. \<exists>cs. nx_simple_cycles nx g = Inr cs \<and>
        (\<forall>c\<in>set cs. simple_cycle (nx_pairs nx g) c) \<and>
        (\<forall>c. simple_cycle (nx_pairs nx g) c \<longrightarrow>
           (\<exists>c'\<in>set cs. set (cycle_pairs c') = set (cycle_pairs c))))"

lemma nx_cycles_documentedD:
  assumes "nx_cycles_documented nx"
  shows "n \<in> set (nx_nodes nx g) \<Longrightarrow> \<exists>scc\<in>set (nx_sccs nx g). distinct scc \<and>
      set scc = {m. (n, m) \<in> (nx_pairs nx g)\<^sup>* \<and> (m, n) \<in> (nx_pairs nx g)\<^sup>*}"
    and "nx_pairs nx (nx_subgraph nx g ns) = nx_pairs nx g \<inter> set ns \<times> set ns"
    and "\<exists>cs. nx_simple_cycles nx g = Inr cs \<and>
      (\<forall>c. simple_cycle (nx_pairs nx g) c \<longrightarrow>
         (\<exists>c'\<in>set cs. simple_cycle (nx_pairs nx g) c' \<and> set (cycle_pairs c') = set (cycle_pairs c)))"
proof -
  from assms show "n \<in> set (nx_nodes nx g) \<Longrightarrow> \<exists>scc\<in>set (nx_sccs nx g). distinct scc \<and>
      set scc = {m. (n, m) \<in> (nx_pairs nx g)\<^sup>* \<and> (m, n) \<in> (nx_pairs nx g)\<^sup>*}"
    and "nx_pairs nx (nx_subgraph nx g ns) = nx_pairs nx g \<inter> set ns \<times> set ns"
    unfolding nx_cycles_documented_def by blast+
  from assms obtain cs where "nx_simple_cycles nx g = Inr cs"
      "\<forall>c\<in>set cs. simple_cycle (nx_pairs nx g) c"
      "\<forall>c. simple_cycle (nx_pairs nx g) c \<longrightarrow> (\<exists>c'\<in>set cs. set (cycle_pairs c') = set (cycle_pairs c))"
    unfolding nx_cycles_documented_def by blast
  then show "\<exists>cs. nx_simple_cycles nx g = Inr cs \<and>
      (\<forall>c. simple_cycle (nx_pairs nx g) c \<longrightarrow>
         (\<exists>c'\<in>set cs. simple_cycle (nx_pairs nx g) c' \<and> set (cycle_pairs c') = set (cycle_pairs c)))"
    by blast
qed

section \<open>The index\<close>

record 'g GraphIndex =
  gi_sg :: SoftwareGraph
  graphs :: "(GraphLayer, 'g) dict"
  merged_cache :: "'g option"
  high_fanout_cache :: "(int \<times> GraphLayer option, string list) dict"
  high_fanin_cache :: "(int \<times> GraphLayer option, string list) dict"

definition node_attrs :: "SGIRNode \<Rightarrow> (string, json) dict" where
  "node_attrs n = [(''name'', JStr (node_name n)), (''purpose'', JStr (purpose n)),
     (''node_type'', JStr (node_type_value (node_type n))), (''language'', JStr (language n)),
     (''complexity'', JStr (complexity_value (complexity n))), (''is_dead'', JBool (is_dead n))]"

definition edge_attrs :: "SGIREdge \<Rightarrow> (string, json) dict" where
  "edge_attrs e = [(''edge_type'', JStr (edge_type_value (edge_type e))),
     (''weight'', JFloat (edge_weight e)), (''label'', JStr (label e))]"

definition layer_digraph :: "'g networkx \<Rightarrow> SGIRGraph \<Rightarrow> 'g" where
  "layer_digraph nx sg_graph =
     fold (\<lambda>e. nx_add_edge nx (source e) (target e) (edge_attrs e)) (edges sg_graph)
       (fold (\<lambda>n. nx_add_node nx (node_id n) (node_attrs n)) (nodes sg_graph) (nx_empty nx))"

definition build :: "'g networkx \<Rightarrow> 'g GraphIndex \<Rightarrow> 'g GraphIndex" where
  "build nx gi = gi\<lparr>graphs := fold (\<lambda>(l, g). dict_set l (layer_digraph nx g)) (layers (gi_sg gi)) (graphs gi),
     merged_cache := None, high_fanout_cache := [], high_fanin_cache := []\<rparr>"

definition mk_index :: "'g networkx \<Rightarrow> SoftwareGraph \<Rightarrow> 'g GraphIndex" where
  "mk_index nx s = build nx \<lparr>gi_sg = s, graphs = [], merged_cache = None,
     high_fanout_cache = [], high_fanin_cache = []\<rparr>"

definition get_graph :: "GraphLayer \<Rightarrow> 'g GraphIndex \<Rightarrow> 'g option" where
  "get_graph l gi = dict_get (graphs gi) l"

definition all_node_ids :: "'g networkx \<Rightarrow> 'g GraphIndex \<Rightarrow> string set" where
  "all_node_ids nx gi = (\<Union>g\<in>snd ` set (graphs gi). set (nx_nodes nx g))"

definition merge_graphs :: "'g networkx \<Rightarrow> (GraphLayer, 'g) dict \<Rightarrow> 'g" where
  "merge_graphs nx gs = fold (\<lambda>(l, g) m. nx_update nx m g) gs (nx_empty nx)"

definition merged_graph :: "'g networkx \<Rightarrow> 'g GraphIndex \<Rightarrow> 'g \<times> 'g GraphIndex" where
  "merged_graph nx gi =
     (case merged_cache gi of
        Some g \<Rightarrow> (g, gi)
      | None \<Rightarrow> (let m = merge_graphs nx (graphs gi) in (m, gi\<lparr>merged_cache := Some m\<rparr>)))"

text \<open>\<open>self.merged if layer is None else self.graphs.get(layer)\<close>\<close>

definition graph_for ::
    "'g networkx \<Rightarrow> GraphLayer option \<Rightarrow> 'g GraphIndex \<Rightarrow> 'g option \<times> 'g GraphIndex" where
  "graph_for nx l gi =
     (case l of
        None \<Rightarrow> (let (g, gi') = merged_graph nx gi in (Some g, gi'))
      | Some k \<Rightarrow> (dict_get (graphs gi) k, gi))"

text \<open>A query: what it computes from the graph, with its answer when there is none.\<close>

definition query ::
    "'g networkx \<Rightarrow> 'a \<Rightarrow> ('g \<Rightarrow> 'a) \<Rightarrow> GraphLayer option \<Rightarrow> 'g GraphIndex \<Rightarrow> 'a \<times> 'g GraphIndex"
  where
  "query nx none f l gi =
     (case graph_for nx l gi of (None, gi') \<Rightarrow> (none, gi') | (Some g, gi') \<Rightarrow> (f g, gi'))"

definition reachable_from ::
    "'g networkx \<Rightarrow> string \<Rightarrow> GraphLayer option \<Rightarrow> 'g GraphIndex \<Rightarrow> string list \<times> 'g GraphIndex" where
  "reachable_from nx n =
     query nx [] (\<lambda>g. if n \<in> set (nx_nodes nx g) then nx_descendants nx g n else [])"

definition can_reach ::
    "'g networkx \<Rightarrow> string \<Rightarrow> string \<Rightarrow> GraphLayer option \<Rightarrow> 'g GraphIndex \<Rightarrow> bool \<times> 'g GraphIndex" where
  "can_reach nx s t l gi = (let (r, gi') = reachable_from nx s l gi in (t \<in> set r, gi'))"

fun reachable_set :: "'g networkx \<Rightarrow> 'g \<Rightarrow> string list \<Rightarrow> string set \<Rightarrow> string set" where
  "reachable_set nx g [] acc = acc"
| "reachable_set nx g (ep # eps) acc =
     reachable_set nx g eps
       (if ep \<in> set (nx_nodes nx g) then insert ep (acc \<union> set (nx_descendants nx g ep)) else acc)"

definition find_dead_nodes ::
    "'g networkx \<Rightarrow> string list \<Rightarrow> GraphLayer option \<Rightarrow> 'g GraphIndex \<Rightarrow> string set \<times> 'g GraphIndex" where
  "find_dead_nodes nx entry_points =
     query nx {} (\<lambda>g. set (nx_nodes nx g) - reachable_set nx g entry_points {})"

text \<open>
  \<open>d["neg_weight"] = -d.get("weight", 1.0)\<close> on every edge of a copy, then \<open>shortest_path\<close> by that
  attribute.  Only \<open>NetworkXNoPath\<close> and \<open>NodeNotFound\<close> are caught.
\<close>

definition negate_weight :: "(string, json) dict \<Rightarrow> (string, json) dict" where
  "negate_weight d = dict_set ''neg_weight''
     (JFloat (- (case dict_get d ''weight'' of Some (JFloat w) \<Rightarrow> w | _ \<Rightarrow> 1))) d"

definition critical_path ::
    "'g networkx \<Rightarrow> string \<Rightarrow> string \<Rightarrow> GraphLayer option \<Rightarrow> 'g GraphIndex
      \<Rightarrow> (nx_error + string list option) \<times> 'g GraphIndex" where
  "critical_path nx s t =
     query nx (Inr None) (\<lambda>g.
       if s \<notin> set (nx_nodes nx g) \<or> t \<notin> set (nx_nodes nx g) then Inr None
       else (case nx_shortest_path nx (nx_map_edge_data nx negate_weight g) s t ''neg_weight'' of
               Inr p \<Rightarrow> Inr (Some p)
             | Inl NetworkXNoPath \<Rightarrow> Inr None
             | Inl NodeNotFound \<Rightarrow> Inr None
             | Inl e \<Rightarrow> Inl e))"

definition detect_communities ::
    "'g networkx \<Rightarrow> GraphLayer option \<Rightarrow> 'g GraphIndex \<Rightarrow> string list list \<times> 'g GraphIndex" where
  "detect_communities nx = query nx [] (nx_communities nx)"

definition find_cycles ::
    "'g networkx \<Rightarrow> GraphLayer option \<Rightarrow> 'g GraphIndex
      \<Rightarrow> (nx_error + string list list) \<times> 'g GraphIndex" where
  "find_cycles nx =
     query nx (Inr []) (\<lambda>g. case nx_simple_cycles nx g of
                             Inr cs \<Rightarrow> Inr cs
                           | Inl NetworkXError \<Rightarrow> Inr []
                           | Inl e \<Rightarrow> Inl e)"

definition find_subgraph_isomorphisms ::
    "'g networkx \<Rightarrow> 'g \<Rightarrow> GraphLayer option \<Rightarrow> 'g GraphIndex
      \<Rightarrow> (string, string) dict list \<times> 'g GraphIndex" where
  "find_subgraph_isomorphisms nx pattern = query nx [] (\<lambda>g. nx_isomorphisms nx g pattern)"

definition fan_out ::
    "'g networkx \<Rightarrow> string \<Rightarrow> GraphLayer option \<Rightarrow> 'g GraphIndex \<Rightarrow> nat \<times> 'g GraphIndex" where
  "fan_out nx n =
     query nx 0 (\<lambda>g. if n \<in> set (nx_nodes nx g) then nx_out_degree nx g n else 0)"

definition fan_in ::
    "'g networkx \<Rightarrow> string \<Rightarrow> GraphLayer option \<Rightarrow> 'g GraphIndex \<Rightarrow> nat \<times> 'g GraphIndex" where
  "fan_in nx n =
     query nx 0 (\<lambda>g. if n \<in> set (nx_nodes nx g) then nx_in_degree nx g n else 0)"

text \<open>\<open>sorted((n for n, d in degree if d >= threshold), key=lambda n: (-degree[n], n))\<close>\<close>

definition ranked :: "(string \<Rightarrow> nat) \<Rightarrow> int \<Rightarrow> string list \<Rightarrow> string list" where
  "ranked deg threshold ns =
     sort_key (\<lambda>n. - int (deg n)) (sort (filter (\<lambda>n. threshold \<le> int (deg n)) ns))"

definition high_fan_out_nodes ::
    "'g networkx \<Rightarrow> int \<Rightarrow> GraphLayer option \<Rightarrow> 'g GraphIndex \<Rightarrow> string list \<times> 'g GraphIndex" where
  "high_fan_out_nodes nx threshold l gi =
     (case dict_get (high_fanout_cache gi) (threshold, l) of
        Some r \<Rightarrow> (r, gi)
      | None \<Rightarrow>
          (case graph_for nx l gi of
             (None, gi') \<Rightarrow> ([], gi')
           | (Some g, gi') \<Rightarrow>
               (let r = ranked (nx_out_degree nx g) threshold (nx_nodes nx g)
                in (r, gi'\<lparr>high_fanout_cache := dict_set (threshold, l) r (high_fanout_cache gi')\<rparr>))))"

definition high_fan_in_nodes ::
    "'g networkx \<Rightarrow> int \<Rightarrow> GraphLayer option \<Rightarrow> 'g GraphIndex \<Rightarrow> string list \<times> 'g GraphIndex" where
  "high_fan_in_nodes nx threshold l gi =
     (case dict_get (high_fanin_cache gi) (threshold, l) of
        Some r \<Rightarrow> (r, gi)
      | None \<Rightarrow>
          (case graph_for nx l gi of
             (None, gi') \<Rightarrow> ([], gi')
           | (Some g, gi') \<Rightarrow>
               (let r = ranked (nx_in_degree nx g) threshold (nx_nodes nx g)
                in (r, gi'\<lparr>high_fanin_cache := dict_set (threshold, l) r (high_fanin_cache gi')\<rparr>))))"

definition topological_order ::
    "'g networkx \<Rightarrow> GraphLayer option \<Rightarrow> 'g GraphIndex
      \<Rightarrow> (nx_error + string list option) \<times> 'g GraphIndex" where
  "topological_order nx =
     query nx (Inr (Some [])) (\<lambda>g. case nx_topological_sort nx g of
                                    Inr ns \<Rightarrow> Inr (Some ns)
                                  | Inl NetworkXUnfeasible \<Rightarrow> Inr None
                                  | Inl e \<Rightarrow> Inl e)"

definition stats :: "'g networkx \<Rightarrow> 'g GraphIndex \<Rightarrow> json" where
  "stats nx gi = JObj
     [(''total_layers'', JInt (int (length (graphs gi)))),
      (''layers'', JObj (map (\<lambda>(l, g).
         (layer_value l, JObj
           [(''nodes'', JInt (int (length (nx_nodes nx g)))),
            (''edges'', JInt (int (length (nx_edge_list nx g)))),
            (''density'', JFloat (if 1 < length (nx_nodes nx g) then nx_density nx g else 0)),
            (''is_dag'', JBool (nx_is_dag nx g)),
            (''num_strongly_connected'', JInt (int (length (nx_sccs nx g))))])) (graphs gi)))]"

section \<open>What the graphs hold\<close>

lemma fold_add_node:
  assumes "nx_documented nx"
  shows "set (nx_nodes nx (fold (\<lambda>n. nx_add_node nx (f n) (a n)) ns g)) = f ` set ns \<union> set (nx_nodes nx g)"
    and "nx_pairs nx (fold (\<lambda>n. nx_add_node nx (f n) (a n)) ns g) = nx_pairs nx g"
  by (induction ns arbitrary: g) (auto simp: nx_documentedD [OF assms])

lemma fold_add_edge:
  assumes "nx_documented nx"
  shows "set (nx_nodes nx (fold (\<lambda>e. nx_add_edge nx (s e) (t e) (a e)) es g)) =
      s ` set es \<union> t ` set es \<union> set (nx_nodes nx g)"
    and "nx_pairs nx (fold (\<lambda>e. nx_add_edge nx (s e) (t e) (a e)) es g) =
      (\<lambda>e. (s e, t e)) ` set es \<union> nx_pairs nx g"
  by (induction es arbitrary: g) (auto simp: nx_documentedD [OF assms])

text \<open>The nodes and edges of a layer's digraph: \<open>add_edge\<close> also adds the end points.\<close>

definition layer_nodes :: "SGIRGraph \<Rightarrow> string set" where
  "layer_nodes g = node_ids g \<union> source ` set (edges g) \<union> target ` set (edges g)"

definition layer_pairs :: "SGIRGraph \<Rightarrow> (string \<times> string) set" where
  "layer_pairs g = (\<lambda>e. (source e, target e)) ` set (edges g)"

lemma layer_digraph_nodes:
  "nx_documented nx \<Longrightarrow> set (nx_nodes nx (layer_digraph nx g)) = layer_nodes g"
  by (auto simp: layer_digraph_def fold_add_edge fold_add_node nx_documentedD layer_nodes_def node_ids_alt)

lemma layer_digraph_pairs:
  "nx_documented nx \<Longrightarrow> nx_pairs nx (layer_digraph nx g) = layer_pairs g"
  by (auto simp: layer_digraph_def fold_add_edge fold_add_node nx_documentedD layer_pairs_def)

definition all_nodes_of :: "SoftwareGraph \<Rightarrow> string set" where
  "all_nodes_of s = (\<Union>g\<in>snd ` set (layers s). layer_nodes g)"

lemma pairs_of_alt: "pairs_of s = (\<Union>g\<in>snd ` set (layers s). layer_pairs g)"
  by (simp add: pairs_of_def layer_pairs_def)

lemma all_nodes_of_alt: "all_nodes_of s = ids_of s \<union> fst ` pairs_of s \<union> snd ` pairs_of s"
  by (fastforce simp: all_nodes_of_def ids_of_def pairs_of_def layer_nodes_def image_iff)

lemma merge_graphs_sets:
  assumes "nx_documented nx"
  shows "set (nx_nodes nx (fold (\<lambda>(l, g) m. nx_update nx m g) gs m0)) =
      set (nx_nodes nx m0) \<union> (\<Union>g\<in>snd ` set gs. set (nx_nodes nx g))"
    and "nx_pairs nx (fold (\<lambda>(l, g) m. nx_update nx m g) gs m0) =
      nx_pairs nx m0 \<union> (\<Union>g\<in>snd ` set gs. nx_pairs nx g)"
  by (induction gs arbitrary: m0) (auto simp: nx_documentedD [OF assms])

definition index_graphs :: "'g networkx \<Rightarrow> SoftwareGraph \<Rightarrow> (GraphLayer, 'g) dict" where
  "index_graphs nx s = map (\<lambda>(l, g). (l, layer_digraph nx g)) (layers s)"

lemma fold_dict_set_fresh:
  "distinct (map fst m @ map fst kvs) \<Longrightarrow>
     fold (\<lambda>(k, v). dict_set k (f v)) kvs m = m @ map (\<lambda>(k, v). (k, f v)) kvs"
proof (induction kvs arbitrary: m)
  case (Cons x kvs)
  obtain k v where x: "x = (k, v)" by (cases x)
  have "dict_set k (f v) m = m @ [(k, f v)]"
    using Cons.prems by (intro dict_set_new) (auto simp: x)
  moreover have "distinct (map fst (m @ [(k, f v)]) @ map fst kvs)" using Cons.prems by (simp add: x)
  ultimately show ?case using Cons.IH [of "m @ [(k, f v)]"] by (simp add: x)
qed simp

lemma graphs_mk_index: "wf_sg s \<Longrightarrow> graphs (mk_index nx s) = index_graphs nx s"
  using fold_dict_set_fresh [of "[]" "layers s" "layer_digraph nx"]
  by (simp add: mk_index_def build_def index_graphs_def wf_sg_def)

lemma merge_index_nodes:
  "nx_documented nx \<Longrightarrow> set (nx_nodes nx (merge_graphs nx (index_graphs nx s))) = all_nodes_of s"
  by (force simp: merge_graphs_def merge_graphs_sets nx_documentedD index_graphs_def
      all_nodes_of_def layer_digraph_nodes)

lemma merge_index_pairs:
  "nx_documented nx \<Longrightarrow> nx_pairs nx (merge_graphs nx (index_graphs nx s)) = pairs_of s"
  by (force simp: merge_graphs_def merge_graphs_sets nx_documentedD index_graphs_def
      pairs_of_alt layer_digraph_pairs)

section \<open>The caches\<close>

definition plain_graph :: "'g networkx \<Rightarrow> GraphLayer option \<Rightarrow> 'g GraphIndex \<Rightarrow> 'g option" where
  "plain_graph nx l gi =
     (case l of None \<Rightarrow> Some (merge_graphs nx (graphs gi)) | Some k \<Rightarrow> dict_get (graphs gi) k)"

definition cache_ok :: "'g networkx \<Rightarrow> 'g GraphIndex \<Rightarrow> bool" where
  "cache_ok nx gi \<longleftrightarrow>
     (\<forall>m. merged_cache gi = Some m \<longrightarrow> m = merge_graphs nx (graphs gi)) \<and>
     (\<forall>t l r. dict_get (high_fanout_cache gi) (t, l) = Some r \<longrightarrow>
        (\<exists>g. plain_graph nx l gi = Some g \<and> r = ranked (nx_out_degree nx g) t (nx_nodes nx g))) \<and>
     (\<forall>t l r. dict_get (high_fanin_cache gi) (t, l) = Some r \<longrightarrow>
        (\<exists>g. plain_graph nx l gi = Some g \<and> r = ranked (nx_in_degree nx g) t (nx_nodes nx g)))"

text \<open>\<open>same_index\<close>: two index states that differ at most in what is memoised.\<close>

definition same_index :: "'g networkx \<Rightarrow> 'g GraphIndex \<Rightarrow> 'g GraphIndex \<Rightarrow> bool" where
  "same_index nx gi gi' \<longleftrightarrow> gi_sg gi' = gi_sg gi \<and> graphs gi' = graphs gi \<and> cache_ok nx gi'"

lemma cache_ok_build: "cache_ok nx (build nx gi)"
  by (simp add: cache_ok_def build_def)

lemma cache_ok_mk_index [simp]: "cache_ok nx (mk_index nx s)"
  by (simp add: mk_index_def cache_ok_build)

lemma plain_graph_memo [simp]:
  "plain_graph nx l (gi\<lparr>merged_cache := m\<rparr>) = plain_graph nx l gi"
  "plain_graph nx l (gi\<lparr>high_fanout_cache := c\<rparr>) = plain_graph nx l gi"
  "plain_graph nx l (gi\<lparr>high_fanin_cache := c\<rparr>) = plain_graph nx l gi"
  by (simp_all add: plain_graph_def split: option.split)

lemma plain_graph_same: "graphs gi' = graphs gi \<Longrightarrow> plain_graph nx l gi' = plain_graph nx l gi"
  by (simp add: plain_graph_def split: option.split)

lemma cache_ok_memo:
  "cache_ok nx gi \<Longrightarrow> cache_ok nx (gi\<lparr>merged_cache := Some (merge_graphs nx (graphs gi))\<rparr>)"
  "cache_ok nx gi \<Longrightarrow> plain_graph nx l gi = Some g \<Longrightarrow>
     cache_ok nx (gi\<lparr>high_fanout_cache :=
       dict_set (t, l) (ranked (nx_out_degree nx g) t (nx_nodes nx g)) (high_fanout_cache gi)\<rparr>)"
  "cache_ok nx gi \<Longrightarrow> plain_graph nx l gi = Some g \<Longrightarrow>
     cache_ok nx (gi\<lparr>high_fanin_cache :=
       dict_set (t, l) (ranked (nx_in_degree nx g) t (nx_nodes nx g)) (high_fanin_cache gi)\<rparr>)"
  by (simp_all add: cache_ok_def)

lemma graph_for_value:
  assumes "cache_ok nx gi"
  shows "fst (graph_for nx l gi) = plain_graph nx l gi"
    and "same_index nx gi (snd (graph_for nx l gi))"
proof -
  have "fst (graph_for nx l gi) = plain_graph nx l gi \<and> same_index nx gi (snd (graph_for nx l gi))"
  proof (cases "l = None \<and> merged_cache gi = None")
    case True
    then show ?thesis
      using cache_ok_memo(1) [OF assms]
      by (simp add: graph_for_def merged_graph_def same_index_def plain_graph_def Let_def)
  next
    case False
    have "m = merge_graphs nx (graphs gi)" if "merged_cache gi = Some m" for m
      using assms that unfolding cache_ok_def by blast
    with False show ?thesis
      using assms
      by (auto simp: graph_for_def merged_graph_def same_index_def plain_graph_def
          split: option.splits)
  qed
  then show "fst (graph_for nx l gi) = plain_graph nx l gi"
    and "same_index nx gi (snd (graph_for nx l gi))" by blast+
qed

lemma query_value:
  assumes "cache_ok nx gi"
  shows "fst (query nx none f l gi) = (case plain_graph nx l gi of None \<Rightarrow> none | Some g \<Rightarrow> f g)"
    and "same_index nx gi (snd (query nx none f l gi))"
  using graph_for_value [OF assms, of l]
  by (auto simp: query_def split: prod.splits option.splits)

text \<open>The two memoised rankings.\<close>

lemma high_fan_out_value:
  assumes "cache_ok nx gi"
  shows "fst (high_fan_out_nodes nx t l gi) =
      (case plain_graph nx l gi of None \<Rightarrow> [] | Some g \<Rightarrow> ranked (nx_out_degree nx g) t (nx_nodes nx g)) \<and>
    same_index nx gi (snd (high_fan_out_nodes nx t l gi))"
proof (cases "dict_get (high_fanout_cache gi) (t, l)")
  case (Some r)
  with assms obtain g where "plain_graph nx l gi = Some g" "r = ranked (nx_out_degree nx g) t (nx_nodes nx g)"
    unfolding cache_ok_def by blast
  with Some assms show ?thesis by (simp add: high_fan_out_nodes_def same_index_def)
next
  case None
  obtain og gi' where g: "graph_for nx l gi = (og, gi')" by (cases "graph_for nx l gi")
  have same: "same_index nx gi gi'" and og: "plain_graph nx l gi = og"
    using graph_for_value [OF assms, of l] by (simp_all add: g)
  have pg: "plain_graph nx l gi' = og"
    using plain_graph_same [of gi' gi nx l] same og by (simp add: same_index_def)
  show ?thesis
  proof (cases og)
    case (Some gr)
    let ?r = "ranked (nx_out_degree nx gr) t (nx_nodes nx gr)"
    have "high_fan_out_nodes nx t l gi =
        (?r, gi'\<lparr>high_fanout_cache := dict_set (t, l) ?r (high_fanout_cache gi')\<rparr>)"
      by (simp add: high_fan_out_nodes_def Let_def None g Some)
    moreover have "cache_ok nx (gi'\<lparr>high_fanout_cache := dict_set (t, l) ?r (high_fanout_cache gi')\<rparr>)"
      using same pg Some by (intro cache_ok_memo(2)) (simp_all add: same_index_def)
    ultimately show ?thesis using same by (simp add: same_index_def og Some)
  next
    case None
    with \<open>dict_get _ _ = None\<close> have "high_fan_out_nodes nx t l gi = ([], gi')"
      by (simp add: high_fan_out_nodes_def g)
    then show ?thesis using same by (simp add: og None)
  qed
qed

lemma high_fan_in_value:
  assumes "cache_ok nx gi"
  shows "fst (high_fan_in_nodes nx t l gi) =
      (case plain_graph nx l gi of None \<Rightarrow> [] | Some g \<Rightarrow> ranked (nx_in_degree nx g) t (nx_nodes nx g)) \<and>
    same_index nx gi (snd (high_fan_in_nodes nx t l gi))"
proof (cases "dict_get (high_fanin_cache gi) (t, l)")
  case (Some r)
  with assms obtain g where "plain_graph nx l gi = Some g" "r = ranked (nx_in_degree nx g) t (nx_nodes nx g)"
    unfolding cache_ok_def by blast
  with Some assms show ?thesis by (simp add: high_fan_in_nodes_def same_index_def)
next
  case None
  obtain og gi' where g: "graph_for nx l gi = (og, gi')" by (cases "graph_for nx l gi")
  have same: "same_index nx gi gi'" and og: "plain_graph nx l gi = og"
    using graph_for_value [OF assms, of l] by (simp_all add: g)
  have pg: "plain_graph nx l gi' = og"
    using plain_graph_same [of gi' gi nx l] same og by (simp add: same_index_def)
  show ?thesis
  proof (cases og)
    case (Some gr)
    let ?r = "ranked (nx_in_degree nx gr) t (nx_nodes nx gr)"
    have "high_fan_in_nodes nx t l gi =
        (?r, gi'\<lparr>high_fanin_cache := dict_set (t, l) ?r (high_fanin_cache gi')\<rparr>)"
      by (simp add: high_fan_in_nodes_def Let_def None g Some)
    moreover have "cache_ok nx (gi'\<lparr>high_fanin_cache := dict_set (t, l) ?r (high_fanin_cache gi')\<rparr>)"
      using same pg Some by (intro cache_ok_memo(3)) (simp_all add: same_index_def)
    ultimately show ?thesis using same by (simp add: same_index_def og Some)
  next
    case None
    with \<open>dict_get _ _ = None\<close> have "high_fan_in_nodes nx t l gi = ([], gi')"
      by (simp add: high_fan_in_nodes_def g)
    then show ?thesis using same by (simp add: og None)
  qed
qed

text \<open>The answers on the index of a well-formed graph.\<close>

definition index_of :: "'g networkx \<Rightarrow> SoftwareGraph \<Rightarrow> 'g GraphIndex \<Rightarrow> bool" where
  "index_of nx s gi \<longleftrightarrow> gi_sg gi = s \<and> graphs gi = index_graphs nx s \<and> cache_ok nx gi"

lemma index_of_mk_index: "wf_sg s \<Longrightarrow> index_of nx s (mk_index nx s)"
  by (simp add: index_of_def graphs_mk_index) (simp add: mk_index_def build_def)

lemma index_of_same: "index_of nx s gi \<Longrightarrow> same_index nx gi gi' \<Longrightarrow> index_of nx s gi'"
  by (simp add: index_of_def same_index_def)

lemma reachable_set_eq:
  assumes "nx_documented nx"
  shows "reachable_set nx g eps acc =
    acc \<union> {m. \<exists>ep\<in>set eps. ep \<in> set (nx_nodes nx g) \<and> (ep, m) \<in> (nx_pairs nx g)\<^sup>*}"
  by (induction eps arbitrary: acc) (auto simp: nx_documentedD(12) [OF assms])

lemma plain_merged: "plain_graph nx None gi = Some (merge_graphs nx (graphs gi))"
  by (simp add: plain_graph_def)

text \<open>\<open>live eps s\<close>: the nodes that an entry point present in the graph reaches.\<close>

definition live :: "string list \<Rightarrow> SoftwareGraph \<Rightarrow> string set" where
  "live eps s = {m. \<exists>ep\<in>set eps. ep \<in> all_nodes_of s \<and> (ep, m) \<in> (pairs_of s)\<^sup>*}"

lemma find_dead_nodes_value:
  assumes "nx_documented nx" "index_of nx s gi"
  shows "fst (find_dead_nodes nx eps None gi) = all_nodes_of s - live eps s"
  using assms
  by (auto simp: find_dead_nodes_def query_value index_of_def plain_merged reachable_set_eq
      merge_index_nodes merge_index_pairs live_def)

lemma reachable_from_value:
  assumes "nx_documented nx" "index_of nx s gi"
  shows "set (fst (reachable_from nx n None gi)) =
    (if n \<in> all_nodes_of s then {m. (n, m) \<in> (pairs_of s)\<^sup>* \<and> m \<noteq> n} else {})"
  using assms
  by (auto simp: reachable_from_def query_value index_of_def plain_merged
      merge_index_nodes merge_index_pairs nx_documentedD(12))

lemma fan_out_value:
  assumes "nx_documented nx" "index_of nx s gi" "dict_get (layers s) l = Some g"
  shows "fst (fan_out nx n (Some l) gi) =
    (if n \<in> layer_nodes g then card {m. (n, m) \<in> layer_pairs g} else 0)"
proof -
  have "dict_get (graphs gi) l = Some (layer_digraph nx g)"
    using assms(2,3) by (simp add: index_of_def index_graphs_def map_of_map)
  then show ?thesis
    using assms(1,2)
    by (simp add: fan_out_def query_value index_of_def plain_graph_def layer_digraph_nodes
        layer_digraph_pairs nx_documentedD(13))
qed

end
