(* ===== verification/NxList.thy ===== *)
theory NxList
  imports GraphIndex
begin

text \<open>
  A small digraph library over node and edge lists that satisfies \<open>nx_documented\<close>: it shows that
  the hypothesis can hold and is what the concrete examples compute with.  Attributes are dropped;
  searches that no example uses answer with nothing.
\<close>

type_synonym list_graph = "string list \<times> (string \<times> string) list"

fun grow :: "(string \<times> string) list \<Rightarrow> nat \<Rightarrow> string list \<Rightarrow> string list" where
  "grow E 0 S = remdups S"
| "grow E (Suc k) S = grow E k (S @ map snd (filter (\<lambda>(a, b). a \<in> set S) E))"

definition reach_list :: "(string \<times> string) list \<Rightarrow> string \<Rightarrow> string list" where
  "reach_list E n = grow E (length E) [n]"

definition list_nodes :: "list_graph \<Rightarrow> string list" where
  "list_nodes g = remdups (fst g @ map fst (snd g) @ map snd (snd g))"

definition list_sccs :: "list_graph \<Rightarrow> string list list" where
  "list_sccs g = remdups (map (\<lambda>n. filter (\<lambda>m. m \<in> set (reach_list (snd g) n) \<and>
     n \<in> set (reach_list (snd g) m)) (list_nodes g)) (list_nodes g))"

definition list_cycles :: "(string \<times> string) list \<Rightarrow> string list list" where
  "list_cycles E =
     (let ns = remdups (map fst E)
      in filter (\<lambda>c. c \<noteq> [] \<and> distinct c \<and> list_all (\<lambda>p. p \<in> set E) (cycle_pairs c))
           (concat (map (\<lambda>k. List.n_lists k ns) [0..<Suc (length ns)])))"

definition list_nx :: "list_graph networkx" where
  "list_nx = \<lparr>
     nx_empty = ([], []),
     nx_add_node = \<lambda>n a g. (fst g @ [n], snd g),
     nx_add_edge = \<lambda>u v a g. (fst g @ [u, v], snd g @ [(u, v)]),
     nx_update = \<lambda>g h. (fst g @ fst h, snd g @ snd h),
     nx_nodes = list_nodes,
     nx_edge_list = \<lambda>g. remdups (snd g),
     nx_descendants = \<lambda>g n. filter (\<lambda>m. m \<noteq> n) (reach_list (snd g) n),
     nx_map_edge_data = \<lambda>f g. g,
     nx_shortest_path = \<lambda>g s t w. Inl NetworkXNoPath,
     nx_communities = \<lambda>g. [],
     nx_simple_cycles = \<lambda>g. Inr (list_cycles (snd g)),
     nx_isomorphisms = \<lambda>g p. [],
     nx_out_degree = \<lambda>g n. length (remdups (map snd (filter (\<lambda>(a, b). a = n) (snd g)))),
     nx_in_degree = \<lambda>g n. length (remdups (map fst (filter (\<lambda>(a, b). b = n) (snd g)))),
     nx_successors = \<lambda>g n. map snd (filter (\<lambda>(a, b). a = n) (snd g)),
     nx_predecessors = \<lambda>g n. map fst (filter (\<lambda>(a, b). b = n) (snd g)),
     nx_topological_sort = \<lambda>g. Inl NetworkXUnfeasible,
     nx_density = \<lambda>g. 0,
     nx_is_dag = \<lambda>g. list_all (\<lambda>(a, b). a \<notin> set (reach_list (snd g) b)) (snd g),
     nx_sccs = list_sccs,
     nx_subgraph = \<lambda>g ns. (filter (\<lambda>n. n \<in> set ns) (fst g),
                            filter (\<lambda>(a, b). a \<in> set ns \<and> b \<in> set ns) (snd g))\<rparr>"

lemma grow_steps: "set (grow E k S) = {m. \<exists>n\<in>set S. \<exists>i\<le>k. (n, m) \<in> set E ^^ i}"
proof (induction k arbitrary: S)
  case (Suc k)
  have "(\<exists>n\<in>set S. \<exists>i\<le>Suc k. (n, m) \<in> set E ^^ i) \<longleftrightarrow>
      (\<exists>n\<in>set (S @ map snd (filter (\<lambda>(a, b). a \<in> set S) E)). \<exists>i\<le>k. (n, m) \<in> set E ^^ i)" (is "?l \<longleftrightarrow> ?r") for m
  proof
    assume ?l
    then obtain n i where n: "n \<in> set S" "i \<le> Suc k" "(n, m) \<in> set E ^^ i" by blast
    show ?r
    proof (cases i)
      case 0
      with n show ?thesis by (intro bexI [of _ n] exI [of _ 0]) auto
    next
      case (Suc j)
      then obtain b where "(n, b) \<in> set E" "(b, m) \<in> set E ^^ j" using n(3) relpow_Suc_D2 by metis
      with n Suc show ?thesis by (intro bexI [of _ b] exI [of _ j]) force+
    qed
  next
    assume ?r
    then obtain n i where n: "n \<in> set S \<or> (\<exists>a\<in>set S. (a, n) \<in> set E)" "i \<le> k" "(n, m) \<in> set E ^^ i"
      by force
    then show ?l
    proof (elim disjE bexE)
      fix a assume "a \<in> set S" "(a, n) \<in> set E"
      with n(2,3) relpow_Suc_I2 [of a n "set E" m i] show ?l by (meson Suc_le_mono)
    qed (use n in \<open>meson le_SucI\<close>)
  qed
  with Suc.IH show ?case by simp
qed auto

lemma relpow_short:
  fixes R :: "('a \<times> 'a) set"
  assumes "(n, m) \<in> R ^^ i" "finite R" "card R \<le> k"
  shows "\<exists>j\<le>k. (n, m) \<in> R ^^ j"
proof (cases "n = m")
  case False
  have "(n, m) \<in> R\<^sup>*" using assms(1) by (rule relpow_imp_rtrancl)
  with False have "(n, m) \<in> R\<^sup>+" by (simp add: rtrancl_eq_or_trancl)
  then obtain j where "(n, m) \<in> R ^^ j" "j \<le> card R"
    unfolding trancl_finite_eq_relpow [OF assms(2)] by blast
  with assms(3) show ?thesis by (intro exI [of _ j]) simp
qed (use assms in \<open>auto intro: exI [of _ 0]\<close>)

lemma reach_list_eq: "set (reach_list E n) = {m. (n, m) \<in> (set E)\<^sup>*}"
proof -
  have "(\<exists>i\<le>length E. (n, m) \<in> set E ^^ i) \<longleftrightarrow> (n, m) \<in> (set E)\<^sup>*" for m
    using relpow_short [where R = "set E" and n = n and m = m and k = "length E"] card_length [of E]
    by (auto simp: rtrancl_power)
  then show ?thesis by (auto simp: reach_list_def grow_steps)
qed

lemma distinct_grow: "distinct (grow E k S)"
  by (induction E k S rule: grow.induct) auto

lemma out_neighbours: "set (map snd (filter (\<lambda>(a, b). a = n) E)) = {m. (n, m) \<in> set E}"
  by force

lemma in_neighbours: "set (map fst (filter (\<lambda>(a, b). b = n) E)) = {m. (m, n) \<in> set E}"
  by force

lemma list_nx_documented: "nx_documented list_nx"
proof -
  have "length (remdups (map snd (filter (\<lambda>(a, b). a = n) E))) = card {m. (n, m) \<in> set E}"
    and "length (remdups (map fst (filter (\<lambda>(a, b). b = n) E))) = card {m. (m, n) \<in> set E}"
    for n and E :: "(string \<times> string) list"
    by (simp_all only: length_remdups_card_conv out_neighbours in_neighbours)
  then show ?thesis
    by (auto simp: nx_documented_def list_nx_def list_nodes_def nx_pairs_def reach_list_eq reach_list_def [symmetric]
        distinct_grow) (auto simp: reach_list_def distinct_grow, force+)
qed

lemma list_cycles_eq: "set (list_cycles E) = {c. simple_cycle (set E) c}"
proof -
  have "set c \<subseteq> fst ` set E" "length c \<le> length (remdups (map fst E))" if "simple_cycle (set E) c" for c
  proof -
    have c: "distinct c" "set (cycle_pairs c) \<subseteq> set E" using that by (auto simp: simple_cycle_def)
    have "x \<in> fst ` set E" if x: "x \<in> set c" for x
    proof -
      obtain i where i: "i < length c" "x = c ! i" using x by (metis in_set_conv_nth)
      then have "(c ! i, c ! ((i + 1) mod length c)) \<in> set (cycle_pairs c)"
        by (auto simp: cycle_pairs_def)
      with c(2) i(2) show ?thesis by force
    qed
    then show sub: "set c \<subseteq> fst ` set E" by blast
    have "length c = card (set c)" using c(1) by (simp add: distinct_card)
    also have "\<dots> \<le> card (fst ` set E)" using sub by (intro card_mono) auto
    also have "\<dots> = length (remdups (map fst E))" by (simp add: length_remdups_card_conv)
    finally show "length c \<le> length (remdups (map fst E))" .
  qed
  then have "c \<in> set (concat (map (\<lambda>k. List.n_lists k (remdups (map fst E)))
      [0..<Suc (length (remdups (map fst E)))]))" if "simple_cycle (set E) c" for c
    using that by (auto simp: set_n_lists less_Suc_eq_le simp del: upt_Suc
        intro!: bexI [of _ "length c"])
  then show ?thesis
    unfolding list_cycles_def Let_def
    by (auto simp only: set_filter mem_Collect_eq simple_cycle_def list_all_iff)
qed

lemma list_nx_cycles_documented: "nx_cycles_documented list_nx"
proof -
  have scc: "\<exists>scc\<in>set (list_sccs g). distinct scc \<and>
      set scc = {m. (n, m) \<in> (set (snd g))\<^sup>* \<and> (m, n) \<in> (set (snd g))\<^sup>*}"
    if "n \<in> set (list_nodes g)" for n g
  proof (intro bexI conjI)
    let ?c = "filter (\<lambda>m. m \<in> set (reach_list (snd g) n) \<and> n \<in> set (reach_list (snd g) m)) (list_nodes g)"
    show "?c \<in> set (list_sccs g)" using that by (auto simp: list_sccs_def)
    show "distinct ?c" by (simp add: list_nodes_def)
    have "m \<in> set (list_nodes g)" if "(n, m) \<in> (set (snd g))\<^sup>*" for m
      using that
    proof (cases rule: rtranclE)
      case (step y)
      then have "m \<in> snd ` set (snd g)" by force
      then show ?thesis by (simp add: list_nodes_def)
    qed (use \<open>n \<in> _\<close> in simp)
    then show "set ?c = {m. (n, m) \<in> (set (snd g))\<^sup>* \<and> (m, n) \<in> (set (snd g))\<^sup>*}"
      by (auto simp: reach_list_eq)
  qed
  have "set (remdups (snd g)) = set (snd g)" for g :: list_graph by simp
  with scc show ?thesis
    by (auto simp: nx_cycles_documented_def list_nx_def nx_pairs_def list_cycles_eq)
qed

end
