(* ===== verification/OptPasses.thy ===== *)
theory OptPasses
  imports NxList "HOL-Library.Product_Lexorder"
begin

text \<open>
  The optimization passes (\<open>intelliqx_graph/optimization/passes.py\<close>).

  A pass gets the working graph and the pipeline's graph index, and answers a new graph or an
  exception.  \<open>copy.deepcopy\<close> is the identity on values.  The flags \<open>is_dead\<close> and
  \<open>optimization_notes\<close> are only ever set on node objects that the pass drops, so they do not
  show in the result and are left out.  \<open>iter\<close> is the iteration order of a set of strings.
  Levels, components and adjacency sets are duplicate-free lists of which only the elements
  matter.

  The lemmas: what each pass keeps, removes and adds, layer by layer; breadth-first search
  computes reachability.
\<close>

section \<open>Constants and helpers\<close>

fun complexity_rank :: "ComplexityEstimate \<Rightarrow> int" where
  "complexity_rank Constant = 0"
| "complexity_rank Logarithmic = 1"
| "complexity_rank Linear = 2"
| "complexity_rank Linearithmic = 3"
| "complexity_rank Quadratic = 4"
| "complexity_rank Cubic = 5"
| "complexity_rank Exponential = 6"
| "complexity_rank UnknownComplexity = 7"

definition DEFAULT_INLINE_THRESHOLD :: int where "DEFAULT_INLINE_THRESHOLD = 5"
definition MIN_PARALLEL_BRANCH_SIZE :: nat where "MIN_PARALLEL_BRANCH_SIZE = 2"
definition MIN_CYCLE_SCC_SIZE :: nat where "MIN_CYCLE_SCC_SIZE = 2"
definition MIN_DUPLICATE_COMPONENT_SIZE :: nat where "MIN_DUPLICATE_COMPONENT_SIZE = 2"
definition DEFAULT_SPLIT_PARTS :: nat where "DEFAULT_SPLIT_PARTS = 2"

definition rebuild_graph :: "SGIRGraph \<Rightarrow> SGIRNode list \<Rightarrow> SGIREdge list \<Rightarrow> SGIRGraph" where
  "rebuild_graph g ns es =
     \<lparr>layer = layer g, nodes = ns, edges = es, graph_metadata = graph_metadata g\<rparr>"

text \<open>A dict comprehension: the last node with an id wins.\<close>

definition node_map :: "SGIRGraph \<Rightarrow> (string, SGIRNode) dict" where
  "node_map g = fold (\<lambda>n. dict_set (node_id n) n) (nodes g) []"

section \<open>remove_dead_nodes\<close>

definition remove_dead_body :: "string set \<Rightarrow> SGIRGraph \<Rightarrow> py_error + SGIRGraph option" where
  "remove_dead_body dead_ids lg =
     (let dead_in_layer = dead_ids \<inter> node_ids lg
      in if dead_in_layer = {} then Inr None
         else Inr (Some (rebuild_graph lg
           (filter (\<lambda>n. node_id n \<notin> dead_in_layer) (nodes lg))
           (filter (\<lambda>e. source e \<notin> dead_in_layer \<and> target e \<notin> dead_in_layer) (edges lg)))))"

definition remove_dead_nodes ::
    "'g networkx \<Rightarrow> string list \<Rightarrow> SoftwareGraph \<Rightarrow> 'g GraphIndex
      \<Rightarrow> (py_error + SoftwareGraph) \<times> 'g GraphIndex" where
  "remove_dead_nodes nx entry_points graph gi =
     (let (dead_ids, gi') = find_dead_nodes nx entry_points None gi
      in (for_layers (remove_dead_body dead_ids) graph, gi'))"

section \<open>detect_duplicates\<close>

type_synonym adjacency = "(string, string list) dict"

definition neighbours :: "adjacency \<Rightarrow> string \<Rightarrow> string list" where
  "neighbours adj n = (case dict_get adj n of None \<Rightarrow> [] | Some ms \<Rightarrow> ms)"

definition adjacency_of :: "SGIREdge list \<Rightarrow> adjacency" where
  "adjacency_of es =
     fold (\<lambda>e adj. dict_set (source e)
       (let ms = neighbours adj (source e)
        in if target e \<in> set ms then ms else ms @ [target e]) adj) es []"

fun fresh_neighbours :: "string list \<Rightarrow> string list \<Rightarrow> string list" where
  "fresh_neighbours seen [] = []"
| "fresh_neighbours seen (n # ns) =
     (if n \<in> set seen then fresh_neighbours seen ns else n # fresh_neighbours (seen @ [n]) ns)"

lemma set_fresh_neighbours: "set (fresh_neighbours seen ns) = set ns - set seen"
  by (induction seen ns rule: fresh_neighbours.induct) auto

lemma finite_neighbours: "finite (\<Union>n. set (neighbours adj n))"
proof (rule finite_subset)
  show "(\<Union>n. set (neighbours adj n)) \<subseteq> (\<Union>ms\<in>snd ` set adj. set ms)"
  proof
    fix m assume "m \<in> (\<Union>n. set (neighbours adj n))"
    then obtain n where "m \<in> set (neighbours adj n)" by blast
    then show "m \<in> (\<Union>ms\<in>snd ` set adj. set ms)"
      by (cases "dict_get adj n") (force simp: neighbours_def dest: map_of_SomeD)+
  qed
qed simp

function bfs_loop :: "adjacency \<Rightarrow> string list \<Rightarrow> string list \<Rightarrow> string list \<Rightarrow> string list" where
  "bfs_loop adj [] seen component = component"
| "bfs_loop adj (current # queue) seen component =
     (let new = fresh_neighbours seen (neighbours adj current)
      in bfs_loop adj (queue @ new) (seen @ new) (component @ [current]))"
  by pat_completeness auto

termination
proof (relation "measures [\<lambda>(adj, q, seen, c). card ((\<Union>n. set (neighbours adj n)) - set seen),
                           \<lambda>(adj, q, seen, c). length q]", goal_cases)
  case 1
  show ?case by simp
next
  case (2 adj current q seen component new)
  have new: "set new = set (neighbours adj current) - set seen"
    by (simp add: 2 set_fresh_neighbours)
  let ?U = "\<Union>n. set (neighbours adj n)"
  have sub: "?U - set (seen @ new) \<subseteq> ?U - set seen" by auto
  have fin: "finite (?U - set seen)" using finite_neighbours by (rule finite_Diff)
  show ?case
  proof (cases "new = []")
    case False
    then obtain x where "x \<in> set new" by (meson list.set_sel(1))
    then have "x \<in> ?U - set seen" "x \<notin> ?U - set (seen @ new)" using new by auto
    with sub have "?U - set (seen @ new) \<subset> ?U - set seen" by blast
    from psubset_card_mono [OF fin this] show ?thesis by simp
  qed simp
qed

definition bfs_component :: "string \<Rightarrow> adjacency \<Rightarrow> string list" where
  "bfs_component start adj = bfs_loop adj [start] [start] []"

definition subgraph_signature :: "SGIRGraph \<Rightarrow> string list \<Rightarrow> string list" where
  "subgraph_signature g ids =
     (let nm = node_map g;
          sub_edges = filter (\<lambda>e. source e \<in> set ids \<and> target e \<in> set ids) (edges g);
          node_label = (\<lambda>nid. case dict_get nm nid of
                           None \<Rightarrow> ''unknown'' | Some n \<Rightarrow> node_type_value (node_type n))
      in concat (map (\<lambda>e. concat (map (\<lambda>nid.
              [node_label nid, source e, target e, edge_type_value (edge_type e)])
            [source e, target e]))
           (sort_key (\<lambda>e. (source e, target e)) sub_edges)))"

type_synonym dup_state = "(string list, string) dict \<times> (string \<times> string) list"

fun dup_nodes ::
    "SGIRGraph \<Rightarrow> adjacency \<Rightarrow> SGIRNode list \<Rightarrow> string list \<Rightarrow> dup_state \<Rightarrow> dup_state" where
  "dup_nodes g adj [] visited st = st"
| "dup_nodes g adj (n # ns) visited (sigs, dups) =
     (if node_id n \<in> set visited then dup_nodes g adj ns visited (sigs, dups)
      else (let component = bfs_component (node_id n) adj
            in if length component < MIN_DUPLICATE_COMPONENT_SIZE
               then dup_nodes g adj ns (visited @ component) (sigs, dups)
               else (let sig = subgraph_signature g component
                     in dup_nodes g adj ns (visited @ component)
                          (case dict_get sigs sig of
                             Some existing \<Rightarrow> (sigs, dups @ [(existing, node_id n)])
                           | None \<Rightarrow> (dict_set sig (node_id n) sigs, dups)))))"

definition detect_duplicates :: "SoftwareGraph \<Rightarrow> (string \<times> string) list" where
  "detect_duplicates graph =
     snd (fold (\<lambda>g. dup_nodes g (adjacency_of (edges g)) (nodes g) [])
       (map snd (layers graph)) ([], []))"

section \<open>inline_trivial_nodes\<close>

definition is_simple_node :: "SGIRNode \<Rightarrow> int \<Rightarrow> bool" where
  "is_simple_node n threshold =
     (if complexity_rank (complexity n) > threshold then False
      else \<not> (side_effects n \<noteq> [] \<or> failure_modes n \<noteq> []))"

definition inline_candidates ::
    "'g networkx \<Rightarrow> 'g GraphIndex \<Rightarrow> int \<Rightarrow> SGIRGraph \<Rightarrow> string list" where
  "inline_candidates nx gi threshold lg =
     remdups (map node_id (filter (\<lambda>n.
       fst (fan_out nx (node_id n) (Some (layer lg)) gi) = 1 \<and> is_simple_node n threshold)
       (nodes lg)))"

text \<open>\<open>edge_map.get(cid, [])\<close>, and \<open>inlined_map\<close>: the target of the first edge out of \<open>cid\<close>.\<close>

definition out_edges :: "SGIRGraph \<Rightarrow> string \<Rightarrow> SGIREdge list" where
  "out_edges g cid = filter (\<lambda>e. source e = cid) (edges g)"

definition inlined_map :: "SGIRGraph \<Rightarrow> string \<Rightarrow> string option" where
  "inlined_map g cid = (case out_edges g cid of [] \<Rightarrow> None | e # es \<Rightarrow> Some (target e))"

definition inlined_edges :: "SGIRGraph \<Rightarrow> string list \<Rightarrow> string \<Rightarrow> SGIREdge list" where
  "inlined_edges g cands cid =
     (case inlined_map g cid of
        None \<Rightarrow> []
      | Some t \<Rightarrow>
          map (\<lambda>ie. \<lparr>source = source ie, target = t, edge_type = edge_type ie,
                 edge_weight = edge_weight ie, edge_metadata = [],
                 label = ''inlined:'' @ (case dict_get (node_map g) cid of
                                           None \<Rightarrow> [] | Some n \<Rightarrow> node_name n)\<rparr>)
            (filter (\<lambda>e. target e = cid \<and> source e \<notin> set cands) (edges g)))"

definition inline_body ::
    "'g networkx \<Rightarrow> (string list \<Rightarrow> string list) \<Rightarrow> 'g GraphIndex \<Rightarrow> int
      \<Rightarrow> SGIRGraph \<Rightarrow> py_error + SGIRGraph option" where
  "inline_body nx iter gi threshold lg =
     (let cands = inline_candidates nx gi threshold lg
      in if cands = [] then Inr None
         else Inr (Some (rebuild_graph lg
           (filter (\<lambda>n. node_id n \<notin> set cands) (nodes lg))
           (filter (\<lambda>e. \<not> (source e \<in> set cands \<or> target e \<in> set cands)) (edges lg)
            @ concat (map (inlined_edges lg cands) (iter cands))))))"

definition inline_trivial_nodes ::
    "'g networkx \<Rightarrow> (string list \<Rightarrow> string list) \<Rightarrow> int \<Rightarrow> SoftwareGraph \<Rightarrow> 'g GraphIndex
      \<Rightarrow> py_error + SoftwareGraph" where
  "inline_trivial_nodes nx iter threshold graph gi =
     for_layers (inline_body nx iter gi threshold) graph"

section \<open>parallelize_independent_branches\<close>

definition plain_digraph :: "'g networkx \<Rightarrow> SGIRGraph \<Rightarrow> 'g" where
  "plain_digraph nx lg =
     fold (\<lambda>e. nx_add_edge nx (source e) (target e) []) (edges lg)
       (fold (\<lambda>n. nx_add_node nx (node_id n) []) (nodes lg) (nx_empty nx))"

definition next_level :: "'g networkx \<Rightarrow> 'g \<Rightarrow> string list \<Rightarrow> string list \<Rightarrow> string list" where
  "next_level nx g assigned current =
     remdups (filter (\<lambda>s. s \<notin> set assigned \<and> set (nx_predecessors nx g s) \<subseteq> set assigned)
       (concat (map (nx_successors nx g) current)))"

text \<open>
  The \<open>while\<close> loop, with fuel: each level takes new nodes, so one turn per node and one more are
  enough (\<open>parallel_levels_complete\<close>).
\<close>

fun levels_loop ::
    "nat \<Rightarrow> 'g networkx \<Rightarrow> 'g \<Rightarrow> string list \<Rightarrow> string list \<Rightarrow> string list list option" where
  "levels_loop 0 nx g assigned current = None"
| "levels_loop (Suc k) nx g assigned current =
     (if current = [] then Some []
      else map_option (Cons current)
             (levels_loop k nx g (assigned @ current)
               (next_level nx g (assigned @ current) current)))"

definition parallel_levels :: "'g networkx \<Rightarrow> 'g \<Rightarrow> string list list option" where
  "parallel_levels nx g =
     levels_loop (Suc (length (nx_nodes nx g))) nx g []
       (filter (\<lambda>n. nx_in_degree nx g n = 0) (nx_nodes nx g))"

fun add_branches ::
    "string list list \<Rightarrow> string set list \<times> string list list \<Rightarrow> string set list \<times> string list list" where
  "add_branches [] st = st"
| "add_branches (b # bs) (seen, out) =
     add_branches bs
       (if MIN_PARALLEL_BRANCH_SIZE \<le> length b \<and> set b \<notin> set seen
        then (set b # seen, out @ [sort b]) else (seen, out))"

definition layer_branches :: "'g networkx \<Rightarrow> 'g GraphIndex \<Rightarrow> SGIRGraph \<Rightarrow> string list list option" where
  "layer_branches nx gi lg =
     (let g = (case get_graph (layer lg) gi of None \<Rightarrow> plain_digraph nx lg | Some g \<Rightarrow> g)
      in map_option (\<lambda>ls. ls @ nx_sccs nx g)
           (if nx_is_dag nx g then parallel_levels nx g else Some []))"

text \<open>\<open>None\<close>: a level loop that would not end.\<close>

definition parallelize_independent_branches ::
    "'g networkx \<Rightarrow> SoftwareGraph \<Rightarrow> 'g GraphIndex \<Rightarrow> string list list option" where
  "parallelize_independent_branches nx graph gi =
     map_option snd (fold (\<lambda>lg acc. case (acc, layer_branches nx gi lg) of
         (Some st, Some bs) \<Rightarrow> Some (add_branches bs st) | _ \<Rightarrow> None)
       (map snd (layers graph)) (Some ([], [])))"

section \<open>clean_dependency_cycles\<close>

text \<open>The state of the loop over a cycle: the worst complexity so far and its edge.\<close>

fun worst_edge_loop ::
    "(string, SGIRNode) dict \<Rightarrow> (string \<times> string) list \<Rightarrow> int \<times> (string \<times> string) option
      \<Rightarrow> (string \<times> string) option" where
  "worst_edge_loop nm [] (worst, e) = e"
| "worst_edge_loop nm ((s, t) # ps) (worst, e) =
     (case dict_get nm s of
        None \<Rightarrow> worst_edge_loop nm ps (worst, e)
      | Some n \<Rightarrow>
          worst_edge_loop nm ps
            (if worst < complexity_rank (complexity n)
             then (complexity_rank (complexity n), Some (s, t)) else (worst, e)))"

definition select_cycle_break_edge :: "string list \<Rightarrow> SGIRGraph \<Rightarrow> (string \<times> string) option" where
  "select_cycle_break_edge cyc lg = worst_edge_loop (node_map lg) (cycle_pairs cyc) (- 1, None)"

fun break_edges ::
    "'g networkx \<Rightarrow> 'g \<Rightarrow> SGIRGraph \<Rightarrow> string list list \<Rightarrow> (string \<times> string) set
      \<Rightarrow> py_error + (string \<times> string) set" where
  "break_edges nx g lg [] acc = Inr acc"
| "break_edges nx g lg (scc # sccs) acc =
     (if length scc < MIN_CYCLE_SCC_SIZE then break_edges nx g lg sccs acc
      else (case nx_simple_cycles nx (nx_subgraph nx g scc) of
              Inl e \<Rightarrow> Inl (FromNetworkX e)
            | Inr cycles \<Rightarrow>
                break_edges nx g lg sccs
                  (acc \<union> set (List.map_filter (\<lambda>c. select_cycle_break_edge c lg) cycles))))"

definition clean_cycles_body :: "'g networkx \<Rightarrow> SGIRGraph \<Rightarrow> py_error + SGIRGraph option" where
  "clean_cycles_body nx lg =
     (let g = plain_digraph nx lg
      in case break_edges nx g lg (nx_sccs nx g) {} of
           Inl e \<Rightarrow> Inl e
         | Inr removed \<Rightarrow>
             Inr (Some (rebuild_graph lg (nodes lg)
               (filter (\<lambda>e. (source e, target e) \<notin> removed) (edges lg)))))"

definition clean_dependency_cycles :: "'g networkx \<Rightarrow> SoftwareGraph \<Rightarrow> py_error + SoftwareGraph" where
  "clean_dependency_cycles nx graph = for_layers (clean_cycles_body nx) graph"

section \<open>reduce_complexity\<close>

definition must_split :: "SGIRNode \<Rightarrow> bool" where
  "must_split n \<longleftrightarrow> complexity n = Cubic \<or> complexity n = Exponential"

definition part_id :: "SGIRNode \<Rightarrow> nat \<Rightarrow> string" where
  "part_id n i = node_id n @ ''__part'' @ show_nat i"

definition split_node :: "SGIRNode \<Rightarrow> nat \<Rightarrow> SGIRNode list" where
  "split_node n num_parts =
     map (\<lambda>i. (new_node (part_id n i) (node_name n @ ''_part'' @ show_nat i))
         \<lparr>purpose := purpose n, node_type := node_type n, language := language n,
          source_location := source_location n,
          inputs := (if i = 0 then inputs n else [part_id n (i - 1)]),
          outputs := (if i = num_parts - 1 then outputs n else [part_id n i]),
          preconditions := (if i = 0 then preconditions n else []),
          postconditions := (if i = num_parts - 1 then postconditions n else []),
          side_effects := side_effects n, external_dependencies := external_dependencies n,
          complexity := Linear, failure_modes := failure_modes n,
          security_boundary := security_boundary n, ownership := ownership n,
          test_coverage := test_coverage n, documentation := documentation n\<rparr>)
       [0..<num_parts]"

definition splits_of :: "SGIRGraph \<Rightarrow> (string, string list) dict" where
  "splits_of lg =
     fold (\<lambda>n. if must_split n
               then dict_set (node_id n) (map node_id (split_node n DEFAULT_SPLIT_PARTS))
               else (\<lambda>d. d)) (nodes lg) []"

definition redirect_edge :: "(string, string list) dict \<Rightarrow> SGIREdge \<Rightarrow> SGIREdge" where
  "redirect_edge splits e =
     (let e1 = (case dict_get splits (source e) of
                  None \<Rightarrow> e
                | Some ps \<Rightarrow> \<lparr>source = hd ps, target = target e, edge_type = edge_type e,
                             edge_weight = edge_weight e, edge_metadata = [], label = label e\<rparr>)
      in (case dict_get splits (target e) of
            None \<Rightarrow> e1
          | Some ps \<Rightarrow> \<lparr>source = source e1, target = last ps, edge_type = edge_type e,
                       edge_weight = edge_weight e, edge_metadata = [], label = label e\<rparr>))"

definition chain_edges :: "string list \<Rightarrow> SGIREdge list" where
  "chain_edges ps =
     map (\<lambda>j. (new_edge (ps ! j) (ps ! (j + 1)) EControl)\<lparr>label := ''split_chain''\<rparr>)
       [0..<length ps - 1]"

definition reduce_body :: "SGIRGraph \<Rightarrow> py_error + SGIRGraph option" where
  "reduce_body lg =
     (let splits = splits_of lg
      in if splits = [] then Inr None
         else Inr (Some (rebuild_graph lg
           (concat (map (\<lambda>n. if must_split n then split_node n DEFAULT_SPLIT_PARTS else [n]) (nodes lg)))
           (map (redirect_edge splits) (edges lg) @ concat (map (chain_edges \<circ> snd) splits)))))"

definition reduce_complexity :: "SoftwareGraph \<Rightarrow> py_error + SoftwareGraph" where
  "reduce_complexity graph = for_layers reduce_body graph"

end
