(* ===== verification/PassFacts.thy ===== *)
theory PassFacts
  imports OptPasses "HOL-Library.Transitive_Closure_Table"
begin

text \<open>
  What the optimization passes do to a graph: the lemmas about each pass of \<open>OptPasses\<close> and the
  properties of the passes by themselves.  \<open>edges_closed\<close> says that every edge of a layer joins
  nodes of that layer.
\<close>

definition closed_layer :: "SGIRGraph \<Rightarrow> bool" where
  "closed_layer g \<longleftrightarrow> (\<forall>e\<in>set (edges g). source e \<in> node_ids g \<and> target e \<in> node_ids g)"

definition edges_closed :: "SoftwareGraph \<Rightarrow> bool" where
  "edges_closed s \<longleftrightarrow> (\<forall>g\<in>snd ` set (layers s). closed_layer g)"

lemma set_all_nodes: "set (all_nodes s) = (\<Union>g\<in>snd ` set (layers s). set (nodes g))"
  by (auto simp: all_nodes_def)

lemma edges_closedD: "edges_closed s \<Longrightarrow> g \<in> snd ` set (layers s) \<Longrightarrow> closed_layer g"
  unfolding edges_closed_def by blast

lemma all_nodes_closed: "edges_closed s \<Longrightarrow> all_nodes_of s = ids_of s"
  by (fastforce simp: all_nodes_of_def ids_of_def edges_closed_def closed_layer_def layer_nodes_def)

lemma rebuild_graph_simps [simp]:
  "layer (rebuild_graph g ns es) = layer g" "nodes (rebuild_graph g ns es) = ns"
  "edges (rebuild_graph g ns es) = es" "graph_metadata (rebuild_graph g ns es) = graph_metadata g"
  by (simp_all add: rebuild_graph_def)

section \<open>Reachability by breadth-first search\<close>

definition arcs :: "adjacency \<Rightarrow> (string \<times> string) set" where
  "arcs adj = {(a, b). b \<in> set (neighbours adj a)}"

lemma bfs_loop_reach:
  assumes "set q \<union> set c = set seen" "arcs adj `` set c \<subseteq> set seen"
    and "distinct (c @ q)" "distinct seen"
  shows "set (bfs_loop adj q seen c) = (arcs adj)\<^sup>* `` set seen \<and> distinct (bfs_loop adj q seen c)"
  using assms
proof (induction adj q seen c rule: bfs_loop.induct)
  case (1 adj seen c)
  have "(arcs adj)\<^sup>* `` set c \<subseteq> set c"
    using 1 Image_closed_trancl [of "arcs adj" "set c"] by simp
  with 1 show ?case by auto
next
  case (2 adj x q seen c)
  let ?new = "fresh_neighbours seen (neighbours adj x)"
  have new: "set ?new = arcs adj `` {x} - set seen"
    by (auto simp: set_fresh_neighbours arcs_def)
  have dist: "distinct (fresh_neighbours s ns)" for s ns
    by (induction s ns rule: fresh_neighbours.induct) (auto simp: set_fresh_neighbours)
  have "set (bfs_loop adj (q @ ?new) (seen @ ?new) (c @ [x])) = (arcs adj)\<^sup>* `` set (seen @ ?new) \<and>
      distinct (bfs_loop adj (q @ ?new) (seen @ ?new) (c @ [x]))"
  proof (rule "2.IH" [OF refl])
    show "set (q @ ?new) \<union> set (c @ [x]) = set (seen @ ?new)" using "2.prems"(1) by auto
    show "arcs adj `` set (c @ [x]) \<subseteq> set (seen @ ?new)" using "2.prems"(2) new by auto
    show "distinct ((c @ [x]) @ q @ ?new)" using "2.prems" new dist by auto
    show "distinct (seen @ ?new)" using "2.prems"(4) new dist by auto
  qed
  moreover have "(arcs adj)\<^sup>* `` set (seen @ ?new) = (arcs adj)\<^sup>* `` set seen"
  proof -
    have "x \<in> set seen" using "2.prems"(1) by auto
    then have "set ?new \<subseteq> (arcs adj)\<^sup>* `` set seen" unfolding new by blast
    then have "(arcs adj)\<^sup>* `` set ?new \<subseteq> (arcs adj)\<^sup>* `` set seen"
      by (blast intro: rtrancl_trans)
    then show ?thesis by (simp add: Image_Un Un_absorb2)
  qed
  ultimately show ?case by (simp add: Let_def)
qed

lemma neighbours_set: "neighbours (dict_set k ms adj) n = (if k = n then ms else neighbours adj n)"
  by (simp add: neighbours_def)

lemma arcs_adjacency: "arcs (adjacency_of es) = (\<lambda>e. (source e, target e)) ` set es"
proof -
  let ?add = "\<lambda>e adj. dict_set (source e) (let ms = neighbours adj (source e)
      in if target e \<in> set ms then ms else ms @ [target e]) adj"
  have step: "arcs (?add e adj) = insert (source e, target e) (arcs adj)" for e adj
    by (auto simp: arcs_def neighbours_set Let_def split: if_splits)
  have "arcs (fold ?add es adj) = arcs adj \<union> (\<lambda>e. (source e, target e)) ` set es" for adj
    by (induction es arbitrary: adj) (auto simp only: fold_simps o_apply step list.set image_insert image_empty)
  moreover have "arcs [] = {}" by (simp add: arcs_def neighbours_def)
  ultimately show ?thesis by (simp add: adjacency_of_def)
qed

text \<open>
  Breadth-first search over a layer's adjacency sets ends, and returns without repetition
  exactly the nodes that a directed path from the start reaches, the start included.
\<close>

theorem bfs_component_reachable:
  "set (bfs_component start (adjacency_of es)) =
     {m. (start, m) \<in> ((\<lambda>e. (source e, target e)) ` set es)\<^sup>*} \<and>
   distinct (bfs_component start (adjacency_of es))"
  using bfs_loop_reach [of "[start]" "[]" "[start]" "adjacency_of es"]
  by (auto simp: bfs_component_def arcs_adjacency)

section \<open>Dead code\<close>

lemma live_sub: "live eps s \<subseteq> all_nodes_of s"
proof
  fix m assume "m \<in> live eps s"
  then obtain ep where "ep \<in> all_nodes_of s" "(ep, m) \<in> (pairs_of s)\<^sup>*" by (auto simp: live_def)
  from this(2,1) show "m \<in> all_nodes_of s"
    by (cases rule: rtranclE) (force simp: all_nodes_of_alt)+
qed

lemma live_step: "a \<in> live eps s \<Longrightarrow> (a, b) \<in> pairs_of s \<Longrightarrow> b \<in> live eps s"
  by (auto simp: live_def intro: rtrancl_into_rtrancl)

definition drop_dead :: "string set \<Rightarrow> SGIRGraph \<Rightarrow> SGIRGraph" where
  "drop_dead D g = rebuild_graph g (filter (\<lambda>n. node_id n \<notin> D) (nodes g))
     (filter (\<lambda>e. source e \<notin> D \<and> target e \<notin> D) (edges g))"

lemma node_ids_drop_dead: "node_ids (drop_dead D g) = node_ids g - D"
  by (auto simp: drop_dead_def node_ids_alt)

lemma pairs_drop_dead:
  "(\<lambda>e. (source e, target e)) ` set (edges (drop_dead D g)) =
     {(a, b) \<in> (\<lambda>e. (source e, target e)) ` set (edges g). a \<notin> D \<and> b \<notin> D}"
  by (auto simp: drop_dead_def)

lemma closed_drop_dead: "closed_layer g \<Longrightarrow> closed_layer (drop_dead D g)"
  unfolding closed_layer_def node_ids_drop_dead by (simp add: drop_dead_def)

lemma remove_dead_body_closed:
  assumes "closed_layer g"
  shows "apply_body (remove_dead_body D) g = drop_dead D g"
proof -
  have n: "n \<in> set (nodes g) \<Longrightarrow> node_id n \<in> D \<inter> node_ids g \<longleftrightarrow> node_id n \<in> D" for n
    by (auto simp: node_ids_alt)
  have e: "e \<in> set (edges g) \<Longrightarrow>
      (source e \<in> D \<inter> node_ids g \<longleftrightarrow> source e \<in> D) \<and> (target e \<in> D \<inter> node_ids g \<longleftrightarrow> target e \<in> D)" for e
    using assms by (auto simp: closed_layer_def)
  have eqs: "filter (\<lambda>n. node_id n \<notin> D \<inter> node_ids g) (nodes g) = filter (\<lambda>n. node_id n \<notin> D) (nodes g)"
    "filter (\<lambda>e. source e \<notin> D \<inter> node_ids g \<and> target e \<notin> D \<inter> node_ids g) (edges g) =
     filter (\<lambda>e. source e \<notin> D \<and> target e \<notin> D) (edges g)"
    by (rule filter_cong [OF refl], use n e in blast)+
  show ?thesis
  proof (cases "D \<inter> node_ids g = {}")
    case True
    then have "filter (\<lambda>n. node_id n \<notin> D) (nodes g) = nodes g"
      "filter (\<lambda>e. source e \<notin> D \<and> target e \<notin> D) (edges g) = edges g"
      unfolding eqs [symmetric] by simp_all
    with True show ?thesis
      by (simp add: apply_body_def remove_dead_body_def drop_dead_def rebuild_graph_def)
  next
    case False
    then show ?thesis
      unfolding apply_body_def remove_dead_body_def drop_dead_def Let_def eqs by simp
  qed
qed

lemma remove_dead_ok:
  assumes "nx_documented nx" "wf_sg s" "edges_closed s"
  shows "\<exists>s'. fst (remove_dead_nodes nx eps s (mk_index nx s)) = Inr s' \<and> wf_sg s' \<and> edges_closed s' \<and>
    ids_of s' = live eps s \<and> pairs_of s' = {(a, b) \<in> pairs_of s. a \<in> live eps s \<and> b \<in> live eps s}"
proof -
  let ?D = "all_nodes_of s - live eps s"
  let ?s' = "map_layers (apply_body (remove_dead_body ?D)) s"
  have "fst (remove_dead_nodes nx eps s (mk_index nx s)) = for_layers (remove_dead_body ?D) s"
    using find_dead_nodes_value [OF assms(1) index_of_mk_index [OF assms(2)], of eps]
    by (simp add: remove_dead_nodes_def Let_def case_prod_beta)
  moreover have "no_raise (remove_dead_body ?D) s"
    by (simp add: no_raise_def remove_dead_body_def Let_def)
  ultimately have run: "fst (remove_dead_nodes nx eps s (mk_index nx s)) = Inr ?s'"
    using for_layers_wf [OF assms(2)] by simp
  have body: "apply_body (remove_dead_body ?D) g = drop_dead ?D g" if "g \<in> snd ` set (layers s)" for g
    using that assms(3) by (intro remove_dead_body_closed edges_closedD)
  have "layer (apply_body (remove_dead_body ?D) g) = layer g" for g
    by (auto simp: apply_body_def remove_dead_body_def Let_def)
  then have wf: "wf_sg ?s'" using assms(2) by (intro wf_map_layers)
  have ids: "node_ids (drop_dead ?D g) = node_ids g \<inter> live eps s" if "g \<in> snd ` set (layers s)" for g
    using that by (auto simp: node_ids_drop_dead all_nodes_of_def layer_nodes_def)
  have "closed_layer (drop_dead ?D g)" if "g \<in> snd ` set (layers s)" for g
    using that assms(3) by (intro closed_drop_dead edges_closedD)
  then have closed: "edges_closed ?s'" by (auto simp: edges_closed_def snd_map_layers body)
  have "ids_of ?s' = (\<Union>g\<in>snd ` set (layers s). node_ids g \<inter> live eps s)"
    unfolding ids_map_layers by (rule SUP_cong [OF refl]) (simp add: body ids)
  also have "\<dots> = live eps s"
    using live_sub [of eps s] all_nodes_closed [OF assms(3)] by (auto simp: ids_of_def)
  finally have idsE: "ids_of ?s' = live eps s" .
  have "pairs_of ?s' = (\<Union>g\<in>snd ` set (layers s). (\<lambda>e. (source e, target e)) ` set (edges (drop_dead ?D g)))"
    unfolding pairs_map_layers by (rule SUP_cong [OF refl]) (simp add: body)
  also have "\<dots> = {(a, b) \<in> pairs_of s. a \<notin> ?D \<and> b \<notin> ?D}"
    by (auto simp: pairs_drop_dead pairs_of_def)
  also have "\<dots> = {(a, b) \<in> pairs_of s. a \<in> live eps s \<and> b \<in> live eps s}"
    by (force simp: all_nodes_of_alt)
  finally show ?thesis using run wf closed idsE by blast
qed

text \<open>
  C4: on a graph whose edges join nodes of their layer, dead code removal keeps exactly the nodes
  that some entry point reaches (over all layers together) and every edge between them, and its
  result is again such a graph.
\<close>

theorem remove_dead_nodes_spec:
  assumes "nx_documented nx" "wf_sg s" "edges_closed s"
  shows "\<exists>s'. fst (remove_dead_nodes nx eps s (mk_index nx s)) = Inr s' \<and> wf_sg s' \<and> edges_closed s' \<and>
    ids_of s' = live eps s \<and> pairs_of s' = {(a, b) \<in> pairs_of s. a \<in> live eps s \<and> b \<in> live eps s}"
  by (rule remove_dead_ok [OF assms])

section \<open>A small graph\<close>

definition demo_repo :: RepositoryMetadata where
  "demo_repo = \<lparr>repo_name = ''demo'', root_path = ''/demo'', languages = [''python''], frameworks = [],
     build_systems = [], architecture_style = ''unknown'', total_files = 1, total_lines = 9, extra = []\<rparr>"

definition one_layer :: "SGIRNode list \<Rightarrow> SGIREdge list \<Rightarrow> SoftwareGraph" where
  "one_layer ns es = \<lparr>repository = demo_repo,
     layers = [(LCall, \<lparr>layer = LCall, nodes = ns, edges = es, graph_metadata = []\<rparr>)]\<rparr>"

definition demo_graph :: SoftwareGraph where
  "demo_graph = one_layer
     [new_node ''main'' ''main'', new_node ''a'' ''a'', (new_node ''b'' ''b'')\<lparr>complexity := Cubic\<rparr>, new_node ''old'' ''old'']
     [new_edge ''main'' ''a'' ECall, new_edge ''a'' ''b'' ECall, new_edge ''b'' ''a'' ECall]"

lemmas demo_graph_defs = demo_graph_def one_layer_def new_node_def new_edge_def

lemma demo_graph_ok: "wf_sg demo_graph" "edges_closed demo_graph"
  by (simp_all add: demo_graph_defs wf_sg_def edges_closed_def closed_layer_def node_ids_alt)

lemma remove_dead_nodes_spec_witness:
  "\<exists>s'. fst (remove_dead_nodes list_nx [''main''] demo_graph (mk_index list_nx demo_graph)) = Inr s' \<and>
    wf_sg s' \<and> edges_closed s' \<and> ids_of s' = live [''main''] demo_graph \<and>
    pairs_of s' = {(a, b) \<in> pairs_of demo_graph. a \<in> live [''main''] demo_graph \<and> b \<in> live [''main''] demo_graph}"
  by (rule remove_dead_nodes_spec [OF list_nx_documented demo_graph_ok])

section \<open>Splitting complex nodes\<close>

lemma splits_of_get:
  "dict_get (splits_of g) k =
     (if \<exists>n\<in>set (nodes g). must_split n \<and> node_id n = k then Some (map (\<lambda>i. k @ ''__part'' @ show_nat i) [0..<2])
      else None)"
proof -
  have ids: "map node_id (split_node n DEFAULT_SPLIT_PARTS) =
      map (\<lambda>i. node_id n @ ''__part'' @ show_nat i) [0..<2]" for n
    by (simp add: split_node_def DEFAULT_SPLIT_PARTS_def part_id_def new_node_def)
  have "dict_get (fold (\<lambda>n. if must_split n
        then dict_set (node_id n) (map node_id (split_node n DEFAULT_SPLIT_PARTS)) else (\<lambda>d. d)) ns d) k =
      (if \<exists>n\<in>set ns. must_split n \<and> node_id n = k
       then Some (map (\<lambda>i. k @ ''__part'' @ show_nat i) [0..<2]) else dict_get d k)" for ns d
    unfolding ids by (induction ns arbitrary: d) auto
  then show ?thesis by (simp add: splits_of_def)
qed

lemma splits_of_empty: "splits_of g = [] \<longleftrightarrow> (\<forall>n\<in>set (nodes g). \<not> must_split n)"
proof
  assume "splits_of g = []"
  then have "dict_get (splits_of g) (node_id n) = None" for n by simp
  then show "\<forall>n\<in>set (nodes g). \<not> must_split n"
    unfolding splits_of_get by (metis option.distinct(1))
next
  assume "\<forall>n\<in>set (nodes g). \<not> must_split n"
  then have "dict_get (splits_of g) k = None" for k by (simp add: splits_of_get)
  then show "splits_of g = []" by (metis map_of_eq_empty_iff ext)
qed

definition part_ids :: "string \<Rightarrow> string list" where
  "part_ids k = [k @ ''__part0'', k @ ''__part1'']"

lemma splits_of_parts:
  "dict_get (splits_of g) k =
     (if \<exists>n\<in>set (nodes g). must_split n \<and> node_id n = k then Some (part_ids k) else None)"
proof -
  have "char_of (48 :: nat) = CHR ''0''" "char_of (49 :: nat) = CHR ''1''" by code_simp+
  then have "map (\<lambda>i. k @ ''__part'' @ show_nat i) [0..<2] = part_ids k"
    by (simp add: part_ids_def upt_rec show_nat_small)
  then show ?thesis by (simp only: splits_of_get)
qed

definition reduced :: "SGIRGraph \<Rightarrow> SGIRGraph" where
  "reduced g = apply_body reduce_body g"

lemma no_split_concat:
  "\<forall>n\<in>set ns. \<not> must_split n \<Longrightarrow>
     concat (map (\<lambda>n. if must_split n then f n else [n]) ns) = ns"
  by (induction ns) auto

lemma reduced_simps:
  "layer (reduced g) = layer g"
  "nodes (reduced g) =
     concat (map (\<lambda>n. if must_split n then split_node n DEFAULT_SPLIT_PARTS else [n]) (nodes g))"
  "edges (reduced g) =
     map (redirect_edge (splits_of g)) (edges g) @ concat (map (chain_edges \<circ> snd) (splits_of g))"
proof -
  have "redirect_edge [] e = e" for e by (simp add: redirect_edge_def)
  then have "map (redirect_edge []) es = es" for es by (simp add: map_idI)
  then show "layer (reduced g) = layer g"
    "nodes (reduced g) =
       concat (map (\<lambda>n. if must_split n then split_node n DEFAULT_SPLIT_PARTS else [n]) (nodes g))"
    "edges (reduced g) =
       map (redirect_edge (splits_of g)) (edges g) @ concat (map (chain_edges \<circ> snd) (splits_of g))"
    using splits_of_empty [of g]
    by (auto simp: reduced_def apply_body_def reduce_body_def Let_def no_split_concat)
qed

lemma split_node_parts:
  "node_id ` set (split_node n DEFAULT_SPLIT_PARTS) = set (part_ids (node_id n))"
  "p \<in> set (split_node n k) \<Longrightarrow> complexity p = Linear"
proof -
  have "char_of (48 :: nat) = CHR ''0''" "char_of (49 :: nat) = CHR ''1''" by code_simp+
  then show "node_id ` set (split_node n DEFAULT_SPLIT_PARTS) = set (part_ids (node_id n))"
    by (simp add: split_node_def DEFAULT_SPLIT_PARTS_def part_id_def new_node_def part_ids_def
        upt_rec show_nat_small)
qed (auto simp: split_node_def)

lemma reduced_node_ids:
  "node_ids (reduced g) = node_id ` {n \<in> set (nodes g). \<not> must_split n} \<union>
     (\<Union>n\<in>{n\<in>set (nodes g). must_split n}. set (part_ids (node_id n)))"
proof -
  have "node_ids (reduced g) = (\<Union>n\<in>set (nodes g). node_id ` set
      (if must_split n then split_node n DEFAULT_SPLIT_PARTS else [n]))"
    by (simp only: node_ids_alt reduced_simps set_concat set_map image_UN image_image)
  also have "\<dots> = (\<Union>n\<in>set (nodes g). if must_split n then set (part_ids (node_id n)) else {node_id n})"
    by (rule SUP_cong [OF refl]) (simp add: split_node_parts(1))
  finally show ?thesis by (auto split: if_splits)
qed

lemma redirect_edge_ends:
  "source (redirect_edge d e) = (case dict_get d (source e) of None \<Rightarrow> source e | Some ps \<Rightarrow> hd ps)"
  "target (redirect_edge d e) = (case dict_get d (target e) of None \<Rightarrow> target e | Some ps \<Rightarrow> last ps)"
  by (simp_all add: redirect_edge_def Let_def split: option.split)

lemma chain_edges_ends:
  "e \<in> set (chain_edges ps) \<Longrightarrow> source e \<in> set ps \<and> target e \<in> set ps"
  by (auto simp: chain_edges_def new_edge_def)

lemma reduced_end:
  assumes "k \<in> node_ids g"
  shows "(case dict_get (splits_of g) k of None \<Rightarrow> k | Some ps \<Rightarrow> hd ps) \<in> node_ids (reduced g)"
    and "(case dict_get (splits_of g) k of None \<Rightarrow> k | Some ps \<Rightarrow> last ps) \<in> node_ids (reduced g)"
proof -
  have "(case dict_get (splits_of g) k of None \<Rightarrow> k | Some ps \<Rightarrow> hd ps) \<in> node_ids (reduced g) \<and>
      (case dict_get (splits_of g) k of None \<Rightarrow> k | Some ps \<Rightarrow> last ps) \<in> node_ids (reduced g)"
  proof (cases "\<exists>n\<in>set (nodes g). must_split n \<and> node_id n = k")
    case True
    then have "set (part_ids k) \<subseteq> node_ids (reduced g)" unfolding reduced_node_ids by blast
    with True show ?thesis by (simp add: splits_of_parts part_ids_def)
  next
    case False
    with assms have "k \<in> node_ids (reduced g)"
      unfolding reduced_node_ids by (auto simp: node_ids_alt)
    moreover from False have "dict_get (splits_of g) k = None" by (simp only: splits_of_parts if_False)
    ultimately show ?thesis by simp
  qed
  then show "(case dict_get (splits_of g) k of None \<Rightarrow> k | Some ps \<Rightarrow> hd ps) \<in> node_ids (reduced g)"
    and "(case dict_get (splits_of g) k of None \<Rightarrow> k | Some ps \<Rightarrow> last ps) \<in> node_ids (reduced g)"
    by blast+
qed

lemma closed_reduced:
  assumes "closed_layer g"
  shows "closed_layer (reduced g)"
  unfolding closed_layer_def
proof
  fix e assume e: "e \<in> set (edges (reduced g))"
  show "source e \<in> node_ids (reduced g) \<and> target e \<in> node_ids (reduced g)"
  proof (cases "e \<in> redirect_edge (splits_of g) ` set (edges g)")
    case True
    then obtain e0 where e0: "e0 \<in> set (edges g)" and e: "e = redirect_edge (splits_of g) e0" by blast
    then have "source e0 \<in> node_ids g" "target e0 \<in> node_ids g"
      using assms by (auto simp: closed_layer_def)
    then show ?thesis unfolding e redirect_edge_ends by (intro conjI reduced_end)
  next
    case False
    with e obtain k ps where kps: "(k, ps) \<in> set (splits_of g)" "e \<in> set (chain_edges ps)"
      by (auto simp: reduced_simps)
    have "distinct (map fst (splits_of g))"
    proof -
      have "distinct (map fst d) \<Longrightarrow> distinct (map fst (fold (\<lambda>n. if must_split n
          then dict_set (node_id n) (f n) else (\<lambda>d. d)) ns d))" for ns d and f :: "SGIRNode \<Rightarrow> string list"
        by (induction ns arbitrary: d) auto
      then show ?thesis by (simp add: splits_of_def)
    qed
    then have "dict_get (splits_of g) k = Some ps" using kps(1) by simp
    then have "set ps \<subseteq> node_ids (reduced g)"
      by (auto simp: splits_of_parts reduced_node_ids split: if_splits)
    with chain_edges_ends [OF kps(2)] show ?thesis by blast
  qed
qed

text \<open>
  C28: splitting complex nodes never fails on a well-formed graph, leaves no node of cubic or
  exponential complexity, keeps every edge inside its layer, and keeps the ids of all other nodes.
\<close>

theorem reduce_complexity_spec:
  assumes "wf_sg s" "edges_closed s"
  shows "\<exists>s'. reduce_complexity s = Inr s' \<and> wf_sg s' \<and> edges_closed s' \<and>
    (\<forall>n\<in>set (all_nodes s'). \<not> must_split n) \<and>
    (\<forall>n\<in>set (all_nodes s). \<not> must_split n \<longrightarrow> n \<in> set (all_nodes s'))"
proof -
  let ?s' = "map_layers reduced s"
  have "no_raise reduce_body s" by (simp add: no_raise_def reduce_body_def Let_def)
  from for_layers_wf [OF assms(1) this] have "reduce_complexity s = Inr ?s'"
    by (simp add: reduce_complexity_def reduced_def [abs_def])
  moreover have "wf_sg ?s'" using assms(1) by (intro wf_map_layers) (simp_all add: reduced_simps)
  moreover have "edges_closed ?s'"
    using assms(2) by (auto simp: edges_closed_def snd_map_layers intro: closed_reduced)
  moreover have "\<not> must_split n" if "n \<in> set (nodes (reduced g))" for n g
    using that split_node_parts(2) [of n _ DEFAULT_SPLIT_PARTS]
    by (auto simp: reduced_simps must_split_def split: if_splits)
  then have "\<forall>n\<in>set (all_nodes ?s'). \<not> must_split n"
    unfolding set_all_nodes snd_map_layers by blast
  moreover have "n \<in> set (nodes (reduced g))" if "n \<in> set (nodes g)" "\<not> must_split n" for n g
    using that by (auto simp: reduced_simps)
  then have "\<forall>n\<in>set (all_nodes s). \<not> must_split n \<longrightarrow> n \<in> set (all_nodes ?s')"
    unfolding set_all_nodes snd_map_layers by blast
  ultimately show ?thesis by blast
qed

lemma reduce_complexity_spec_witness:
  "\<exists>s'. reduce_complexity demo_graph = Inr s' \<and> wf_sg s' \<and> edges_closed s' \<and>
    (\<forall>n\<in>set (all_nodes s'). \<not> must_split n) \<and>
    (\<forall>n\<in>set (all_nodes demo_graph). \<not> must_split n \<longrightarrow> n \<in> set (all_nodes s'))"
  by (rule reduce_complexity_spec [OF demo_graph_ok])

section \<open>Inlining\<close>

lemma inline_no_raise: "no_raise (inline_body nx iter gi t) s"
  by (simp add: no_raise_def inline_body_def Let_def)

lemma inlined_edges_ends:
  "e \<in> set (inlined_edges g cands c) \<Longrightarrow>
     inlined_map g c = Some (target e) \<and> (\<exists>ie\<in>set (edges g). target ie = c \<and> source ie = source e \<and> source e \<notin> set cands)"
  by (auto simp: inlined_edges_def split: option.splits)

text \<open>
  Inlining a chain leaves a dangling edge.  If a node to be inlined has a caller that stays,
  and its only callee is to be inlined too, the caller's new edge points at the callee, which the
  pass has deleted.
\<close>

theorem inline_trivial_dangling:
  assumes "set_iteration iter" "wf_sg s" "dict_get (layers s) l = Some g"
    and "c \<in> set (inline_candidates nx gi threshold g)" "d \<in> set (inline_candidates nx gi threshold g)"
    and "e \<in> set (edges g)" "target e = c" "source e \<notin> set (inline_candidates nx gi threshold g)"
    and "inlined_map g c = Some d"
  shows "\<exists>s' g' e'. inline_trivial_nodes nx iter threshold s gi = Inr s' \<and>
    dict_get (layers s') l = Some g' \<and> e' \<in> set (edges g') \<and> target e' = d \<and> d \<notin> node_ids g'"
proof -
  let ?cs = "inline_candidates nx gi threshold g"
  let ?g' = "apply_body (inline_body nx iter gi threshold) g"
  have run: "inline_trivial_nodes nx iter threshold s gi =
      Inr (map_layers (apply_body (inline_body nx iter gi threshold)) s)"
    by (simp add: inline_trivial_nodes_def for_layers_wf [OF assms(2) inline_no_raise])
  have get: "dict_get (layers (map_layers (apply_body (inline_body nx iter gi threshold)) s)) l = Some ?g'"
    using assms(3) by (simp add: map_layers_def map_of_map)
  have "?cs \<noteq> []" using assms(4) by auto
  then have ns: "nodes ?g' = filter (\<lambda>n. node_id n \<notin> set ?cs) (nodes g)"
    and es: "edges ?g' = filter (\<lambda>e. \<not> (source e \<in> set ?cs \<or> target e \<in> set ?cs)) (edges g)
            @ concat (map (inlined_edges g ?cs) (iter ?cs))"
    by (simp_all add: apply_body_def inline_body_def Let_def)
  have "\<exists>e'\<in>set (inlined_edges g ?cs c). target e' = d"
    using assms(6-9) by (force simp: inlined_edges_def)
  then obtain e' where "e' \<in> set (inlined_edges g ?cs c)" "target e' = d" by blast
  moreover from this(1) have "e' \<in> set (edges ?g')"
    unfolding es using assms(4) set_iterationD(1) [OF assms(1), of ?cs] by auto
  moreover have "d \<notin> node_ids ?g'"
    using assms(5) by (auto simp: node_ids_alt ns)
  ultimately show ?thesis using run get by blast
qed

definition chain_node :: "string \<Rightarrow> SGIRNode" where
  "chain_node i = (new_node i i)\<lparr>complexity := Constant\<rparr>"

definition chain_graph :: SoftwareGraph where
  "chain_graph = one_layer
     [(new_node ''main'' ''main'')\<lparr>side_effects := [''io'']\<rparr>, chain_node ''a'', chain_node ''b'', chain_node ''z'']
     [new_edge ''main'' ''a'' ECall, new_edge ''a'' ''b'' ECall, new_edge ''b'' ''z'' ECall]"

lemma chain_graph_ok: "wf_sg chain_graph" "edges_closed chain_graph"
  by (simp_all add: chain_graph_def demo_graph_defs chain_node_def wf_sg_def edges_closed_def
      closed_layer_def node_ids_alt)

lemma chain_candidates:
  "inline_candidates list_nx (mk_index list_nx chain_graph) 5 (snd (hd (layers chain_graph))) = [''a'', ''b'']"
  by code_simp

lemma inline_trivial_dangling_witness:
  "\<exists>s' g' e'. inline_trivial_nodes list_nx remdups 5 chain_graph (mk_index list_nx chain_graph) = Inr s' \<and>
    dict_get (layers s') LCall = Some g' \<and> e' \<in> set (edges g') \<and> target e' = ''b'' \<and> ''b'' \<notin> node_ids g'"
proof (rule inline_trivial_dangling [OF set_iteration_remdups chain_graph_ok(1)])
  show "dict_get (layers chain_graph) LCall = Some (snd (hd (layers chain_graph)))"
    by (simp add: chain_graph_def one_layer_def)
  show "''a'' \<in> set (inline_candidates list_nx (mk_index list_nx chain_graph) 5 (snd (hd (layers chain_graph))))"
    "''b'' \<in> set (inline_candidates list_nx (mk_index list_nx chain_graph) 5 (snd (hd (layers chain_graph))))"
    "source (new_edge ''main'' ''a'' ECall) \<notin>
      set (inline_candidates list_nx (mk_index list_nx chain_graph) 5 (snd (hd (layers chain_graph))))"
    by (simp_all add: chain_candidates new_edge_def)
  show "new_edge ''main'' ''a'' ECall \<in> set (edges (snd (hd (layers chain_graph))))"
    "target (new_edge ''main'' ''a'' ECall) = ''a''"
    by (simp_all add: chain_graph_def one_layer_def new_edge_def)
  show "inlined_map (snd (hd (layers chain_graph))) ''a'' = Some ''b''"
    by (simp add: chain_graph_def one_layer_def new_edge_def inlined_map_def out_edges_def)
qed

section \<open>Breaking cycles\<close>

lemma plain_digraph_sets:
  assumes "nx_documented nx"
  shows "set (nx_nodes nx (plain_digraph nx g)) = layer_nodes g"
    and "nx_pairs nx (plain_digraph nx g) = layer_pairs g"
  using assms
  by (auto simp: plain_digraph_def fold_add_edge fold_add_node nx_documentedD layer_nodes_def
      layer_pairs_def node_ids_alt)

lemma node_map_get: "k \<in> node_ids g \<Longrightarrow> dict_get (node_map g) k \<noteq> None"
proof -
  have "k \<in> node_id ` set ns \<or> dict_get d k \<noteq> None \<Longrightarrow>
      dict_get (fold (\<lambda>n. dict_set (node_id n) n) ns d) k \<noteq> None" for ns d
    by (induction ns arbitrary: d) auto
  from this [of "nodes g" "[]"] show "k \<in> node_ids g \<Longrightarrow> dict_get (node_map g) k \<noteq> None"
    unfolding node_map_def node_ids_alt by blast
qed

lemma complexity_rank_nonneg: "0 \<le> complexity_rank c"
  by (cases c) simp_all

lemma worst_edge_loop_in:
  "worst_edge_loop nm ps (w, e) = Some p \<Longrightarrow> p \<in> set ps \<or> e = Some p"
proof (induction ps arbitrary: w e)
  case (Cons q ps)
  obtain s t where q: "q = (s, t)" by (cases q)
  show ?case
  proof (cases "dict_get nm s")
    case None
    with Cons show ?thesis by (auto simp: q)
  next
    case (Some n)
    with Cons.prems Cons.IH [of "complexity_rank (complexity n)" "Some (s, t)"] Cons.IH [of w e]
    show ?thesis by (auto simp: q split: if_splits)
  qed
qed simp

lemma worst_edge_loop_found:
  "e \<noteq> None \<or> w < 0 \<and> (\<exists>q\<in>set ps. dict_get nm (fst q) \<noteq> None) \<Longrightarrow> worst_edge_loop nm ps (w, e) \<noteq> None"
proof (induction nm ps "(w, e)" arbitrary: w e rule: worst_edge_loop.induct)
  case (2 nm s t ps w e)
  show ?case
  proof (cases "dict_get nm s")
    case None
    with 2 show ?thesis by auto
  next
    case (Some n)
    with 2(2) [OF Some] 2(3) complexity_rank_nonneg [of "complexity n"] show ?thesis
      by (fastforce split: if_splits)
  qed
qed auto

lemma select_cycle_edge:
  assumes "c \<noteq> []" "set c \<subseteq> node_ids g"
  shows "\<exists>p\<in>set (cycle_pairs c). select_cycle_break_edge c g = Some p"
proof -
  have "(c ! 0, c ! (1 mod length c)) \<in> set (cycle_pairs c)"
    using assms(1) by (force simp: cycle_pairs_def)
  moreover have "dict_get (node_map g) (c ! 0) \<noteq> None"
    using assms by (intro node_map_get) auto
  ultimately have "select_cycle_break_edge c g \<noteq> None"
    unfolding select_cycle_break_edge_def by (intro worst_edge_loop_found) force
  then obtain p where p: "select_cycle_break_edge c g = Some p" by blast
  then have "p \<in> set (cycle_pairs c)"
    unfolding select_cycle_break_edge_def using worst_edge_loop_in by fastforce
  with p show ?thesis by blast
qed

lemma break_edges_result:
  assumes "nx_cycles_documented nx"
  shows "\<exists>R. break_edges nx g lg sccs acc = Inr R \<and> acc \<subseteq> R \<and>
    (\<forall>scc\<in>set sccs. \<forall>cs c p. 2 \<le> length scc \<longrightarrow> nx_simple_cycles nx (nx_subgraph nx g scc) = Inr cs \<longrightarrow>
       c \<in> set cs \<longrightarrow> select_cycle_break_edge c lg = Some p \<longrightarrow> p \<in> R)"
proof (induction sccs arbitrary: acc)
  case (Cons scc sccs)
  obtain cs where cs: "nx_simple_cycles nx (nx_subgraph nx g scc) = Inr cs"
    using assms unfolding nx_cycles_documented_def by blast
  let ?new = "set (List.map_filter (\<lambda>c. select_cycle_break_edge c lg) cs)"
  have new: "p \<in> ?new" if "c \<in> set cs" "select_cycle_break_edge c lg = Some p" for c p
    using that by (force simp: List.map_filter_def)
  show ?case
  proof (cases "2 \<le> length scc")
    case True
    from Cons.IH [of "acc \<union> ?new"] obtain R where R: "break_edges nx g lg sccs (acc \<union> ?new) = Inr R"
      "acc \<union> ?new \<subseteq> R" "\<forall>scc\<in>set sccs. \<forall>cs c p. 2 \<le> length scc \<longrightarrow>
         nx_simple_cycles nx (nx_subgraph nx g scc) = Inr cs \<longrightarrow>
         c \<in> set cs \<longrightarrow> select_cycle_break_edge c lg = Some p \<longrightarrow> p \<in> R" by blast
    with True cs new show ?thesis by (intro exI [of _ R]) (auto simp: MIN_CYCLE_SCC_SIZE_def)
  next
    case False
    with Cons.IH [of acc] show ?thesis by (auto simp: MIN_CYCLE_SCC_SIZE_def)
  qed
qed simp

lemma closing_cycle:
  assumes "(a, b) \<in> E" "a \<noteq> b" "(b, a) \<in> E\<^sup>*"
  shows "\<exists>c. simple_cycle E c \<and> a \<in> set c \<and> b \<in> set c"
proof -
  have "(\<lambda>x y. (x, y) \<in> E)\<^sup>*\<^sup>* b a" using assms(3) by (simp add: rtranclp_rtrancl_eq)
  then obtain xs where "rtrancl_path (\<lambda>x y. (x, y) \<in> E) b xs a" by (auto simp: rtranclp_eq_rtrancl_path)
  then obtain ys where ys: "rtrancl_path (\<lambda>x y. (x, y) \<in> E) b ys a" "distinct (b # ys)"
    by (rule rtrancl_path_distinct)
  have ne: "ys \<noteq> []" using ys(1) assms(2) by (auto elim: rtrancl_path.cases)
  then have last: "last ys = a" using rtrancl_path_last [OF ys(1)] by simp
  let ?c = "b # ys"
  have "(?c ! i, ?c ! ((i + 1) mod length ?c)) \<in> E" if i: "i < length ?c" for i
  proof (cases "i < length ys")
    case True
    then show ?thesis using rtrancl_path_nth [OF ys(1) True] by simp
  next
    case False
    with i have "i = length ys" by simp
    moreover have "?c ! length ys = a" using last ne by (simp add: last_conv_nth nth_Cons')
    ultimately show ?thesis using assms(1) by simp
  qed
  then have "set (cycle_pairs ?c) \<subseteq> E" 
    unfolding cycle_pairs_def set_map set_upt by (rule image_subsetI) (simp only: atLeastLessThan_iff)
  then have "simple_cycle E ?c" using ys(2) by (simp add: simple_cycle_def)
  moreover have "a \<in> set ys" using last ne by auto
  ultimately show ?thesis by (intro exI [of _ ?c]) simp
qed

lemma simple_cycle_connected:
  assumes "simple_cycle E c" "x \<in> set c" "y \<in> set c"
  shows "(x, y) \<in> E\<^sup>*"
proof -
  let ?n = "length c"
  have edge: "(c ! i, c ! ((i + 1) mod ?n)) \<in> E" if "i < ?n" for i
    using assms(1) that by (auto simp: simple_cycle_def cycle_pairs_def)
  have up: "(c ! i, c ! (i + k)) \<in> E\<^sup>*" if "i + k < ?n" for i k
    using that
  proof (induction k)
    case (Suc k)
    with edge [of "i + k"] show ?case by (auto intro: rtrancl_into_rtrancl)
  qed simp
  obtain i j where ij: "i < ?n" "x = c ! i" "j < ?n" "y = c ! j"
    using assms(2,3) by (metis in_set_conv_nth)
  have "(c ! i, c ! (?n - 1)) \<in> E\<^sup>*" using up [of i "?n - 1 - i"] ij(1) by simp
  moreover have "?n - 1 + 1 = ?n" "?n - 1 < ?n" using ij(1) by linarith+
  then have "(c ! (?n - 1), c ! 0) \<in> E" using edge [of "?n - 1"] by (simp only: mod_self)
  moreover have "(c ! 0, c ! j) \<in> E\<^sup>*" using up [of 0 j] ij(3) by simp
  ultimately show ?thesis unfolding ij by (meson rtrancl_into_rtrancl rtrancl_trans)
qed

definition broken :: "'g networkx \<Rightarrow> SGIRGraph \<Rightarrow> SGIRGraph" where
  "broken nx g = apply_body (clean_cycles_body nx) g"

lemma broken_edges:
  assumes "nx_cycles_documented nx"
  shows "\<exists>R. clean_cycles_body nx g = Inr (Some (rebuild_graph g (nodes g)
      (filter (\<lambda>e. (source e, target e) \<notin> R) (edges g)))) \<and>
    (\<forall>scc\<in>set (nx_sccs nx (plain_digraph nx g)). \<forall>cs c p. 2 \<le> length scc \<longrightarrow>
       nx_simple_cycles nx (nx_subgraph nx (plain_digraph nx g) scc) = Inr cs \<longrightarrow>
       c \<in> set cs \<longrightarrow> select_cycle_break_edge c g = Some p \<longrightarrow> p \<in> R)"
  using break_edges_result [OF assms, of "plain_digraph nx g" g "nx_sccs nx (plain_digraph nx g)" "{}"]
  by (auto simp: clean_cycles_body_def Let_def)

lemma broken_keeps:
  assumes "nx_cycles_documented nx"
  shows "layer (broken nx g) = layer g" "nodes (broken nx g) = nodes g"
    "set (edges (broken nx g)) \<subseteq> set (edges g)"
  using broken_edges [OF assms, of g] by (auto simp: broken_def apply_body_def)

lemma broken_acyclic:
  assumes nx: "nx_documented nx" "nx_cycles_documented nx" and closed: "closed_layer g"
    and ab: "a \<noteq> b" "(a, b) \<in> (layer_pairs (broken nx g))\<^sup>*" "(b, a) \<in> (layer_pairs (broken nx g))\<^sup>*"
  shows False
proof -
  let ?G = "plain_digraph nx g"
  let ?E' = "layer_pairs (broken nx g)"
  obtain R where body: "clean_cycles_body nx g = Inr (Some (rebuild_graph g (nodes g)
      (filter (\<lambda>e. (source e, target e) \<notin> R) (edges g))))"
    and R: "\<And>scc cs c p. scc \<in> set (nx_sccs nx ?G) \<Longrightarrow> 2 \<le> length scc \<Longrightarrow>
       nx_simple_cycles nx (nx_subgraph nx ?G scc) = Inr cs \<Longrightarrow> c \<in> set cs \<Longrightarrow>
       select_cycle_break_edge c g = Some p \<Longrightarrow> p \<in> R"
    using broken_edges [OF nx(2), of g] by blast
  have E': "?E' = layer_pairs g - R"
    by (auto simp: broken_def apply_body_def body layer_pairs_def)
  obtain d where d: "(a, d) \<in> ?E'" "a \<noteq> d" "(d, b) \<in> ?E'\<^sup>*"
    using ab(2,1) by (induction rule: converse_rtrancl_induct) auto
  have "(d, a) \<in> ?E'\<^sup>*" using d(3) ab(3) by (rule rtrancl_trans)
  from closing_cycle [OF d(1,2) this] obtain c where c: "simple_cycle ?E' c" "a \<in> set c" "d \<in> set c"
    by blast
  then have cE: "simple_cycle (layer_pairs g) c" by (auto simp: simple_cycle_def E')
  have pairs: "nx_pairs nx ?G = layer_pairs g" and nodes: "set (nx_nodes nx ?G) = layer_nodes g"
    using plain_digraph_sets [OF nx(1)] by blast+
  have "(a, d) \<in> layer_pairs g" using d(1) E' by blast
  then have "a \<in> layer_nodes g" by (auto simp: layer_pairs_def layer_nodes_def)
  then obtain scc where scc: "scc \<in> set (nx_sccs nx ?G)" "distinct scc"
      "set scc = {m. (a, m) \<in> (layer_pairs g)\<^sup>* \<and> (m, a) \<in> (layer_pairs g)\<^sup>*}"
    using nx_cycles_documentedD(1) [OF nx(2), of a ?G] unfolding pairs nodes by blast
  have sub: "set c \<subseteq> set scc"
    using simple_cycle_connected [OF cE] c(2) by (auto simp: scc(3))
  have "card {a, d} \<le> card (set scc)" using sub c(2,3) by (intro card_mono) auto
  then have len: "2 \<le> length scc" using d(2) scc(2) by (simp add: distinct_card)
  have ends: "set (cycle_pairs c) \<subseteq> set c \<times> set c"
    using c(2) by (auto simp: cycle_pairs_def intro!: nth_mem mod_less_divisor)
  have "nx_pairs nx (nx_subgraph nx ?G scc) = layer_pairs g \<inter> set scc \<times> set scc"
    using nx_cycles_documentedD(2) [OF nx(2), of ?G scc] by (simp only: pairs)
  with cE ends sub have "simple_cycle (nx_pairs nx (nx_subgraph nx ?G scc)) c"
    by (auto simp: simple_cycle_def)
  then obtain cs c' where cs: "nx_simple_cycles nx (nx_subgraph nx ?G scc) = Inr cs" "c' \<in> set cs"
      "simple_cycle (nx_pairs nx (nx_subgraph nx ?G scc)) c'" "set (cycle_pairs c') = set (cycle_pairs c)"
    using nx_cycles_documentedD(3) [OF nx(2), of "nx_subgraph nx ?G scc"] by blast
  have "c' \<noteq> []" using cs(3) by (simp add: simple_cycle_def)
  moreover have "set c' \<subseteq> node_ids g"
  proof -
    have "set c' \<subseteq> fst ` set (cycle_pairs c')" by (force simp: cycle_pairs_def in_set_conv_nth)
    also have "\<dots> \<subseteq> fst ` layer_pairs g" using cE unfolding cs(4) simple_cycle_def by blast
    also have "\<dots> \<subseteq> node_ids g" using closed by (auto simp: layer_pairs_def closed_layer_def)
    finally show ?thesis .
  qed
  ultimately obtain p where p: "p \<in> set (cycle_pairs c')" "select_cycle_break_edge c' g = Some p"
    using select_cycle_edge by blast
  have "p \<in> R" by (rule R [OF scc(1) len cs(1,2) p(2)])
  moreover have "p \<in> ?E'" using p(1) c(1) unfolding cs(4) simple_cycle_def by blast
  ultimately show False by (simp add: E')
qed

text \<open>
  C9: cleaning dependency cycles never fails on a well-formed graph, keeps all nodes, adds no
  edge, and leaves no two different nodes of a layer that reach each other inside it.
\<close>

theorem clean_dependency_cycles_spec:
  assumes "nx_documented nx" "nx_cycles_documented nx" "wf_sg s" "edges_closed s"
  shows "\<exists>s'. clean_dependency_cycles nx s = Inr s' \<and> wf_sg s' \<and> edges_closed s' \<and>
    all_nodes s' = all_nodes s \<and> pairs_of s' \<subseteq> pairs_of s \<and>
    (\<forall>g\<in>snd ` set (layers s'). \<forall>a b. (a, b) \<in> (layer_pairs g)\<^sup>* \<longrightarrow> (b, a) \<in> (layer_pairs g)\<^sup>* \<longrightarrow> a = b)"
proof -
  let ?s' = "map_layers (broken nx) s"
  have "no_raise (clean_cycles_body nx) s"
    using broken_edges [OF assms(2)] by (metis no_raise_def)
  from for_layers_wf [OF assms(3) this] have "clean_dependency_cycles nx s = Inr ?s'"
    by (simp add: clean_dependency_cycles_def broken_def [abs_def])
  moreover have "wf_sg ?s'" using assms(3) by (intro wf_map_layers) (simp_all add: broken_keeps [OF assms(2)])
  moreover have "closed_layer (broken nx g)" if "closed_layer g" for g
    using that broken_keeps(3) [OF assms(2), of g]
    unfolding closed_layer_def node_ids_def broken_keeps(2) [OF assms(2)] by blast
  then have "edges_closed ?s'" using assms(4) unfolding edges_closed_def snd_map_layers by blast
  moreover have "all_nodes ?s' = all_nodes s"
    by (simp add: all_nodes_def map_layers_def comp_def case_prod_beta broken_keeps(2) [OF assms(2)])
  moreover have "pairs_of ?s' \<subseteq> pairs_of s"
    unfolding pairs_map_layers unfolding pairs_of_def
    by (intro UN_mono [OF subset_refl] image_mono broken_keeps(3) [OF assms(2)])
  moreover have "a = b" if gs: "g \<in> snd ` set (layers ?s')" and ab: "(a, b) \<in> (layer_pairs g)\<^sup>*" "(b, a) \<in> (layer_pairs g)\<^sup>*"
    for g a b
  proof (rule ccontr)
    assume "a \<noteq> b"
    obtain g0 where "g = broken nx g0" "closed_layer g0"
      using gs assms(4) unfolding edges_closed_def snd_map_layers by blast
    with broken_acyclic [OF assms(1,2) _ \<open>a \<noteq> b\<close>] ab show False by blast
  qed
  ultimately show ?thesis by blast
qed

lemma clean_dependency_cycles_spec_witness:
  "\<exists>s'. clean_dependency_cycles list_nx demo_graph = Inr s' \<and> wf_sg s' \<and> edges_closed s' \<and>
    all_nodes s' = all_nodes demo_graph \<and> pairs_of s' \<subseteq> pairs_of demo_graph \<and>
    (\<forall>g\<in>snd ` set (layers s'). \<forall>a b. (a, b) \<in> (layer_pairs g)\<^sup>* \<longrightarrow> (b, a) \<in> (layer_pairs g)\<^sup>* \<longrightarrow> a = b)"
  by (rule clean_dependency_cycles_spec [OF list_nx_documented list_nx_cycles_documented demo_graph_ok])

section \<open>Parallel levels\<close>

fun layered :: "(string \<times> string) set \<Rightarrow> string set \<Rightarrow> string list list \<Rightarrow> bool" where
  "layered E A [] \<longleftrightarrow> True"
| "layered E A (l # ls) \<longleftrightarrow> (\<forall>n\<in>set l. E\<inverse> `` {n} \<subseteq> A) \<and> layered E (A \<union> set l) ls"

lemma layered_independent:
  assumes "layered E A ls" "A \<inter> set (concat ls) = {}" "distinct (concat ls)" "l \<in> set ls" "a \<in> set l" "b \<in> set l"
  shows "(a, b) \<notin> E"
  using assms
proof (induction ls arbitrary: A)
  case (Cons x ls)
  show ?case
  proof (cases "l = x")
    case True
    with Cons.prems show ?thesis by force
  next
    case False
    with Cons.prems show ?thesis by (intro Cons.IH [of "A \<union> set x"]) auto
  qed
qed simp

lemma next_level_set:
  assumes "nx_documented nx"
  shows "set (next_level nx g A c) =
    {n. (\<exists>p\<in>set c. (p, n) \<in> nx_pairs nx g) \<and> n \<notin> set A \<and> (nx_pairs nx g)\<inverse> `` {n} \<subseteq> set A}"
  using nx_documentedD(15,16) [OF assms] by (auto simp: next_level_def)

lemma levels_loop_spec:
  fixes g :: 'g
  assumes nx: "nx_documented nx"
  defines "V \<equiv> set (nx_nodes nx g)" and "E \<equiv> nx_pairs nx g"
  assumes "set (A @ c) \<subseteq> V" "distinct (A @ c)"
    and "\<And>n. n \<in> set (A @ c) \<Longrightarrow> E\<inverse> `` {n} \<subseteq> set A"
    and "\<And>n. n \<in> V \<Longrightarrow> E\<inverse> `` {n} \<subseteq> set A \<Longrightarrow> n \<in> set (A @ c)"
    and "card (V - set A) < k"
  shows "\<exists>ls. levels_loop k nx g A c = Some ls \<and> distinct (A @ concat ls) \<and> layered E (set A) ls \<and>
    (\<forall>n\<in>V. E\<inverse> `` {n} \<subseteq> set A \<union> set (concat ls) \<longrightarrow> n \<in> set A \<union> set (concat ls)) \<and>
    set (concat ls) \<subseteq> V"
  using assms(4-)
proof (induction k arbitrary: A c)
  case (Suc k)
  show ?case
  proof (cases "c = []")
    case True
    with Suc.prems show ?thesis by auto
  next
    case False
    let ?A = "A @ c"
    let ?n = "next_level nx g ?A c"
    have n: "set ?n = {n. (\<exists>p\<in>set c. (p, n) \<in> E) \<and> n \<notin> set ?A \<and> E\<inverse> `` {n} \<subseteq> set ?A}"
      unfolding E_def by (rule next_level_set [OF nx])
    have EV: "E \<subseteq> V \<times> V" unfolding E_def V_def by (rule nx_documentedD(17) [OF nx])
    have "\<exists>ls. levels_loop k nx g ?A ?n = Some ls \<and> distinct (?A @ concat ls) \<and> layered E (set ?A) ls \<and>
      (\<forall>n\<in>V. E\<inverse> `` {n} \<subseteq> set ?A \<union> set (concat ls) \<longrightarrow> n \<in> set ?A \<union> set (concat ls)) \<and>
      set (concat ls) \<subseteq> V"
    proof (rule Suc.IH)
      show "set (?A @ ?n) \<subseteq> V" using Suc.prems(1) n EV by auto
      have "distinct ?n" by (simp add: next_level_def)
      then show "distinct (?A @ ?n)" using Suc.prems(2) n by auto
      show "E\<inverse> `` {m} \<subseteq> set ?A" if "m \<in> set (?A @ ?n)" for m
        using that Suc.prems(3) [of m] n by auto
      show "m \<in> set (?A @ ?n)" if m: "m \<in> V" "E\<inverse> `` {m} \<subseteq> set ?A" for m
      proof (cases "E\<inverse> `` {m} \<subseteq> set A")
        case True
        with Suc.prems(4) [OF m(1)] show ?thesis by auto
      next
        case False
        then obtain p where "(p, m) \<in> E" "p \<notin> set A" by auto
        with m(2) have "p \<in> set c" by auto
        with \<open>(p, m) \<in> E\<close> m(2) show ?thesis unfolding set_append [of ?A ?n] n by auto
      qed
      have "finite V" by (simp add: V_def)
      obtain x where x: "x \<in> set c" using False by (meson list.set_sel(1))
      with Suc.prems(1,2) have "x \<in> V - set A" by auto
      moreover have "V - set ?A \<subseteq> V - set A" by auto
      ultimately have "V - set ?A \<subset> V - set A" using x by auto
      with \<open>finite V\<close> have "card (V - set ?A) < card (V - set A)" by (intro psubset_card_mono) auto
      with Suc.prems(5) show "card (V - set ?A) < k" by linarith
    qed
    then obtain ls where ls: "levels_loop k nx g ?A ?n = Some ls" "distinct (?A @ concat ls)"
      "layered E (set ?A) ls" "set (concat ls) \<subseteq> V"
      "\<forall>n\<in>V. E\<inverse> `` {n} \<subseteq> set ?A \<union> set (concat ls) \<longrightarrow> n \<in> set ?A \<union> set (concat ls)" by blast
    have "\<forall>n\<in>set c. E\<inverse> `` {n} \<subseteq> set A" using Suc.prems(3) by auto
    then show ?thesis
      using False ls Suc.prems(1) by (intro exI [of _ "c # ls"]) (simp add: Un_assoc)
  qed
qed simp

lemma parallel_levels_ok:
  assumes "nx_documented nx"
  shows "\<exists>ls. parallel_levels nx g = Some ls \<and> distinct (concat ls) \<and>
    (\<forall>l\<in>set ls. \<forall>a\<in>set l. \<forall>b\<in>set l. (a, b) \<notin> nx_pairs nx g) \<and>
    (acyclic (nx_pairs nx g) \<longrightarrow> set (concat ls) = set (nx_nodes nx g))"
proof -
  let ?E = "nx_pairs nx g" and ?V = "set (nx_nodes nx g)"
  let ?roots = "filter (\<lambda>n. nx_in_degree nx g n = 0) (nx_nodes nx g)"
  have fin: "finite ?E" by (simp add: nx_pairs_def)
  then have "finite {m. (m, n) \<in> ?E}" for n
    by (rule finite_subset [rotated, OF finite_imageI [of _ fst]]) force
  then have roots: "set ?roots = {n \<in> ?V. ?E\<inverse> `` {n} = {}}"
    by (auto simp: nx_documentedD(14) [OF assms])
  have "card (?V - set []) < Suc (length (nx_nodes nx g))"
    using card_length [of "nx_nodes nx g"] by simp
  moreover have "distinct ([] @ ?roots)" using nx_documentedD(9) [OF assms] by simp
  ultimately have "\<exists>ls. levels_loop (Suc (length (nx_nodes nx g))) nx g [] ?roots = Some ls \<and>
      distinct ([] @ concat ls) \<and> layered ?E (set []) ls \<and>
      (\<forall>n\<in>?V. ?E\<inverse> `` {n} \<subseteq> set [] \<union> set (concat ls) \<longrightarrow> n \<in> set [] \<union> set (concat ls)) \<and>
      set (concat ls) \<subseteq> ?V"
    by (intro levels_loop_spec [OF assms]) (use roots in auto)
  then obtain ls where ls: "parallel_levels nx g = Some ls" "distinct (concat ls)" "layered ?E {} ls"
    "set (concat ls) \<subseteq> ?V"
    "\<forall>n\<in>?V. ?E\<inverse> `` {n} \<subseteq> set (concat ls) \<longrightarrow> n \<in> set (concat ls)"
    by (auto simp: parallel_levels_def)
  have "n \<in> set (concat ls)" if "acyclic ?E" "n \<in> ?V" for n
  proof -
    have "wf ?E" using fin that(1) by (rule finite_acyclic_wf)
    then show ?thesis using that(2)
    proof (induction n rule: wf_induct_rule)
      case (less n)
      have "?E\<inverse> `` {n} \<subseteq> set (concat ls)"
        using less.IH nx_documentedD(17) [OF assms, of g] by blast
      with ls(5) less.prems show ?case by blast
    qed
  qed
  with ls(4) have "acyclic ?E \<longrightarrow> set (concat ls) = ?V" by blast
  moreover have "(a, b) \<notin> ?E" if "l \<in> set ls" "a \<in> set l" "b \<in> set l" for l a b
    using layered_independent [OF ls(3) _ ls(2) that] by simp
  ultimately show ?thesis using ls(1,2) by blast
qed

lemma parallel_levels_total: "nx_documented nx \<Longrightarrow> parallel_levels nx g \<noteq> None"
  using parallel_levels_ok by fastforce

text \<open>
  C16: Computing parallel levels always ends; no node is in two levels, nothing in a level depends
  directly on anything in the same level, and on an acyclic graph every node gets a level.
\<close>

theorem parallel_levels_spec:
  assumes "nx_documented nx"
  shows "\<exists>ls. parallel_levels nx g = Some ls \<and> distinct (concat ls) \<and>
    (\<forall>l\<in>set ls. \<forall>a\<in>set l. \<forall>b\<in>set l. (a, b) \<notin> nx_pairs nx g) \<and>
    (acyclic (nx_pairs nx g) \<longrightarrow> set (concat ls) = set (nx_nodes nx g))"
  by (rule parallel_levels_ok [OF assms])

lemma parallel_levels_spec_witness:
  "\<exists>ls. parallel_levels list_nx ([''a'', ''b'', ''c''], [(''a'', ''b'')]) = Some ls \<and>
    distinct (concat ls) \<and> set (concat ls) = {''a'', ''b'', ''c''} \<and>
    list_all (\<lambda>l. \<not> {''a'', ''b''} \<subseteq> set l) ls"
proof -
  let ?g = "([''a'', ''b'', ''c''], [(''a'', ''b'')]) :: list_graph"
  have pairs: "nx_pairs list_nx ?g = {(''a'', ''b'')}" by code_simp
  have nodes: "set (nx_nodes list_nx ?g) = {''a'', ''b'', ''c''}" by code_simp
  have "acyclic ({} :: (string \<times> string) set)" by (simp add: acyclic_def)
  then have "acyclic (nx_pairs list_nx ?g)" by (simp add: pairs acyclic_insert)
  with parallel_levels_spec [OF list_nx_documented, of ?g] obtain ls where ls:
    "parallel_levels list_nx ?g = Some ls" "distinct (concat ls)"
    "\<forall>l\<in>set ls. \<forall>a\<in>set l. \<forall>b\<in>set l. (a, b) \<notin> nx_pairs list_nx ?g"
    "set (concat ls) = set (nx_nodes list_nx ?g)" by (elim exE conjE) simp
  have "\<forall>l\<in>set ls. \<not> {''a'', ''b''} \<subseteq> set l"
  proof
    fix l assume "l \<in> set ls"
    with ls(3) have "\<forall>a\<in>set l. \<forall>b\<in>set l. (a, b) \<notin> {(''a'', ''b'')}" unfolding pairs by (rule bspec)
    then show "\<not> {''a'', ''b''} \<subseteq> set l" by auto
  qed
  with ls nodes show ?thesis by (intro exI [of _ ls]) (simp add: list_all_iff)
qed

end
