(* ===== verification/OptVerify.thy ===== *)
theory OptVerify
  imports PassFacts
begin

text \<open>
  The behaviour check of the optimizer (\<open>intelliqx_graph/optimization/verification.py\<close>).

  \<open>node_ids\<close> and \<open>edge_keys\<close> of the source are \<open>ids_of\<close> and \<open>pairs_of\<close> of \<open>SgirModels\<close>.  A trace
  is the list of its node ids.  The recursion of \<open>dfs_traces\<close> is bounded by its depth; \<open>path\<close> and
  \<open>visited\<close> are restored when a call returns, so they are arguments here, and the set of traces it
  adds is its result.  The agent's two indexes are fresh, and the queries it makes of them only
  memoise (\<open>query_value\<close>), so each query starts from the index as built.
\<close>

datatype RiskLevel = RiskLow | RiskMedium | RiskHigh | RiskCritical

fun risk_value :: "RiskLevel \<Rightarrow> string" where
  "risk_value RiskLow = ''low''"
| "risk_value RiskMedium = ''medium''"
| "risk_value RiskHigh = ''high''"
| "risk_value RiskCritical = ''critical''"

fun risk_order :: "RiskLevel \<Rightarrow> nat" where
  "risk_order RiskLow = 0"
| "risk_order RiskMedium = 1"
| "risk_order RiskHigh = 2"
| "risk_order RiskCritical = 3"

instantiation RiskLevel :: linorder
begin

definition less_eq_RiskLevel :: "RiskLevel \<Rightarrow> RiskLevel \<Rightarrow> bool" where
  "less_eq_RiskLevel a b \<longleftrightarrow> risk_order a \<le> risk_order b"

definition less_RiskLevel :: "RiskLevel \<Rightarrow> RiskLevel \<Rightarrow> bool" where
  "less_RiskLevel a b \<longleftrightarrow> risk_order a < risk_order b"

instance
proof
  fix a b :: RiskLevel
  show "a \<le> b \<Longrightarrow> b \<le> a \<Longrightarrow> a = b"
    by (cases a; cases b) (simp_all add: less_eq_RiskLevel_def)
qed (auto simp: less_eq_RiskLevel_def less_RiskLevel_def)

end

definition DEFAULT_TRACE_MAX_DEPTH :: nat where "DEFAULT_TRACE_MAX_DEPTH = 50"
definition MAX_TRACE_BRANCHING :: nat where "MAX_TRACE_BRANCHING = 10"
definition MAX_FINDING_SAMPLES :: nat where "MAX_FINDING_SAMPLES = 5"
definition RISK_MEDIUM_CHANGE_THRESHOLD :: nat where "RISK_MEDIUM_CHANGE_THRESHOLD = 50"
definition RISK_LOW_CHANGE_THRESHOLD :: nat where "RISK_LOW_CHANGE_THRESHOLD = 10"
definition DEFAULT_RISK_LEVEL :: string where "DEFAULT_RISK_LEVEL = risk_value RiskLow"

record VerificationReport =
  behavior_preserved :: bool
  nodes_added :: nat
  nodes_removed :: nat
  edges_added :: nat
  edges_removed :: nat
  risk_level :: string
  findings :: "string list"

section \<open>Traces\<close>

fun dfs_traces ::
    "'g networkx \<Rightarrow> 'g GraphIndex \<Rightarrow> string set \<Rightarrow> nat \<Rightarrow> string \<Rightarrow> string list \<Rightarrow> string set
      \<Rightarrow> string list set" where
  "dfs_traces nx gi valid 0 current path visited = {path @ [current]}"
| "dfs_traces nx gi valid (Suc depth) current path visited =
     (if current \<in> visited then {path @ [current]}
      else (let successors = filter (\<lambda>n. n \<in> valid) (fst (reachable_from nx current None gi))
            in if successors = [] then {path @ [current]}
               else (\<Union>s\<in>set (take MAX_TRACE_BRANCHING successors).
                       dfs_traces nx gi valid depth s (path @ [current]) (insert current visited))))"

definition build_trace_set ::
    "'g networkx \<Rightarrow> SoftwareGraph \<Rightarrow> 'g GraphIndex \<Rightarrow> string list \<Rightarrow> nat \<Rightarrow> string list set" where
  "build_trace_set nx graph gi entry_points max_depth =
     (\<Union>ep\<in>set (filter (\<lambda>ep. ep \<in> ids_of graph) entry_points).
        dfs_traces nx gi (ids_of graph) max_depth ep [] {})"

section \<open>The report\<close>

definition assess_risk :: "nat \<Rightarrow> nat \<Rightarrow> nat \<Rightarrow> nat \<Rightarrow> bool \<Rightarrow> string set \<Rightarrow> RiskLevel" where
  "assess_risk na nr ea er preserved improperly_removed =
     (if improperly_removed \<noteq> {} then RiskCritical
      else if \<not> preserved then RiskHigh
      else (let total_changes = na + nr + ea + er
            in if total_changes > RISK_MEDIUM_CHANGE_THRESHOLD then RiskMedium
               else if total_changes > RISK_LOW_CHANGE_THRESHOLD then RiskLow
               else RiskLow))"

definition reachable_before ::
    "'g networkx \<Rightarrow> SoftwareGraph \<Rightarrow> 'g GraphIndex \<Rightarrow> string list \<Rightarrow> string set" where
  "reachable_before nx graph gi entry_points =
     (\<Union>ep\<in>set entry_points. set (fst (reachable_from nx ep None gi))
        \<union> (if ep \<in> ids_of graph then {ep} else {}))"

definition count_line :: "string \<Rightarrow> nat \<Rightarrow> string \<Rightarrow> string list" where
  "count_line verb n what =
     (if n > 0 then [verb @ '' '' @ show_nat n @ what @ '' across all layers''] else [])"

definition py_list_repr :: "string list \<Rightarrow> string" where
  "py_list_repr xs = ''['' @ join_with '', '' (map py_repr xs) @ '']''"

definition verify ::
    "'g networkx \<Rightarrow> SoftwareGraph \<Rightarrow> SoftwareGraph \<Rightarrow> string list \<Rightarrow> VerificationReport" where
  "verify nx before after entry_points =
     (let before_index = mk_index nx before; after_index = mk_index nx after;
          na = card (ids_of after - ids_of before); nr = card (ids_of before - ids_of after);
          ea = card (pairs_of after - pairs_of before); er = card (pairs_of before - pairs_of after);
          lost = build_trace_set nx before before_index entry_points DEFAULT_TRACE_MAX_DEPTH
               - build_trace_set nx after after_index entry_points DEFAULT_TRACE_MAX_DEPTH;
          improper = (ids_of before - ids_of after) \<inter> reachable_before nx before before_index entry_points;
          preserved = (lost = {} \<and> improper = {})
      in \<lparr>behavior_preserved = preserved, nodes_added = na, nodes_removed = nr, edges_added = ea,
          edges_removed = er, risk_level = risk_value (assess_risk na nr ea er preserved improper),
          findings =
            (if lost \<noteq> {} then [''Lost '' @ show_nat (card lost) @ '' execution traces after optimization'']
             else []) @
            (if improper \<noteq> {}
             then [''Removed '' @ show_nat (card improper) @ '' reachable nodes: '' @
                   py_list_repr (take MAX_FINDING_SAMPLES (sorted_list_of_set improper))]
             else []) @
            count_line ''Removed'' nr '' nodes'' @ count_line ''Added'' na '' nodes'' @
            count_line ''Removed'' er '' edges'' @ count_line ''Added'' ea '' edges''\<rparr>)"

section \<open>What a report means\<close>

lemma reachable_before_live:
  assumes "nx_documented nx" "wf_sg s"
  shows "reachable_before nx s (mk_index nx s) eps \<inter> ids_of s = live eps s \<inter> ids_of s"
proof -
  have sub: "ids_of s \<subseteq> all_nodes_of s" by (auto simp: all_nodes_of_alt)
  show ?thesis
    using sub
    by (auto simp: reachable_before_def live_def
        reachable_from_value [OF assms(1) index_of_mk_index [OF assms(2)]] split: if_splits)
qed

text \<open>
  C13: the verifier says that behaviour is preserved exactly if every recorded trace of the old
  graph is one of the new graph and no node that an entry point reaches has disappeared.
\<close>

theorem verify_spec:
  assumes "nx_documented nx" "wf_sg before"
  shows "behavior_preserved (verify nx before after eps) \<longleftrightarrow>
    build_trace_set nx before (mk_index nx before) eps DEFAULT_TRACE_MAX_DEPTH
      \<subseteq> build_trace_set nx after (mk_index nx after) eps DEFAULT_TRACE_MAX_DEPTH \<and>
    live eps before \<inter> ids_of before \<subseteq> ids_of after"
  using reachable_before_live [OF assms, of eps] by (auto simp: verify_def Let_def)

lemma verify_spec_witness:
  "behavior_preserved (verify list_nx demo_graph chain_graph [''main'']) \<longleftrightarrow>
    build_trace_set list_nx demo_graph (mk_index list_nx demo_graph) [''main''] DEFAULT_TRACE_MAX_DEPTH
      \<subseteq> build_trace_set list_nx chain_graph (mk_index list_nx chain_graph) [''main''] DEFAULT_TRACE_MAX_DEPTH \<and>
    live [''main''] demo_graph \<inter> ids_of demo_graph \<subseteq> ids_of chain_graph"
  by (rule verify_spec [OF list_nx_documented demo_graph_ok(1)])

end
