(* ===== verification/OptPipeline.thy ===== *)
theory OptPipeline
  imports OptVerify
begin

text \<open>
  The optimization pipeline (\<open>intelliqx_graph/optimization/pipeline.py\<close>, \<open>optimize_graph\<close> of
  \<open>operations.py\<close>).

  A pass is a function from the working graph; \<open>apply_pass\<close> runs it, has the result verified and
  rolls it back if the verifier says that behaviour changed.  Every pass of \<open>run\<close> uses the
  pipeline's one graph index, built on the graph as it was before the first pass.  \<open>None\<close> would be
  a run that does not end; \<open>pipeline_total\<close> shows that it does.
\<close>

record OptimizationPipeline =
  pl_graph :: SoftwareGraph
  pl_entry_points :: "string list"
  pl_target_language :: string

record OptimizationResult =
  before_graph :: SoftwareGraph
  after_graph :: SoftwareGraph
  verification_reports :: "VerificationReport list"
  duplicate_pairs :: "(string \<times> string) list"
  parallel_branches :: "string list list"
  summary :: json

text \<open>\<open>max\<close> of the \<open>risk_level\<close> strings, with its default: strings compare by code points.\<close>

definition max_risk_level :: "VerificationReport list \<Rightarrow> string" where
  "max_risk_level reports =
     (case map risk_level reports of
        [] \<Rightarrow> DEFAULT_RISK_LEVEL
      | l # ls \<Rightarrow> fold (\<lambda>x m. if m < x then x else m) ls l)"

definition build_summary ::
    "string \<Rightarrow> VerificationReport list \<Rightarrow> (string \<times> string) list \<Rightarrow> string list list
      \<Rightarrow> SoftwareGraph \<Rightarrow> SoftwareGraph \<Rightarrow> json" where
  "build_summary lang reports dups branches before after = JObj
     [(''target_language'', JStr lang),
      (''nodes_before'', JInt (int (total_nodes before))),
      (''nodes_after'', JInt (int (total_nodes after))),
      (''edges_before'', JInt (int (total_edges before))),
      (''edges_after'', JInt (int (total_edges after))),
      (''node_reduction'', JInt (int (total_nodes before) - int (total_nodes after))),
      (''edge_reduction'', JInt (int (total_edges before) - int (total_edges after))),
      (''pass_count'', JInt (int (length reports))),
      (''all_behavior_preserved'', JBool (list_all behavior_preserved reports)),
      (''max_risk_level'', JStr (max_risk_level reports)),
      (''duplicate_pairs_found'', JInt (int (length dups))),
      (''parallel_branches_found'', JInt (int (length branches)))]"

text \<open>The working graph and the reports so far.\<close>

type_synonym progress = "SoftwareGraph \<times> VerificationReport list"

definition apply_pass ::
    "'g networkx \<Rightarrow> string list \<Rightarrow> (SoftwareGraph \<Rightarrow> py_error + SoftwareGraph) \<Rightarrow> progress
      \<Rightarrow> py_error + progress" where
  "apply_pass nx entry_points pass_fn p =
     (case p of (graph, reports) \<Rightarrow>
        (case pass_fn graph of
           Inl e \<Rightarrow> Inl e
         | Inr result \<Rightarrow>
             (let report = verify nx graph result entry_points
              in Inr (if \<not> behavior_preserved report then graph else result, reports @ [report]))))"

definition bind_error :: "'e + 'a \<Rightarrow> ('a \<Rightarrow> 'e + 'b) \<Rightarrow> 'e + 'b" where
  "bind_error m f = (case m of Inl e \<Rightarrow> Inl e | Inr x \<Rightarrow> f x)"

text \<open>The four passes, with the duplicates found after the first.\<close>

definition run_passes ::
    "'g networkx \<Rightarrow> (string list \<Rightarrow> string list) \<Rightarrow> OptimizationPipeline
      \<Rightarrow> py_error + ((string \<times> string) list \<times> progress \<times> 'g GraphIndex)" where
  "run_passes nx iter pl =
     (let gi = mk_index nx (pl_graph pl); eps = pl_entry_points pl;
          gi' = snd (remove_dead_nodes nx eps (pl_graph pl) gi)
      in bind_error (apply_pass nx eps (\<lambda>g. fst (remove_dead_nodes nx eps g gi)) (pl_graph pl, []))
        (\<lambda>p1. bind_error
          (apply_pass nx eps (\<lambda>g. inline_trivial_nodes nx iter DEFAULT_INLINE_THRESHOLD g gi') p1)
        (\<lambda>p2. bind_error (apply_pass nx eps reduce_complexity p2)
        (\<lambda>p3. bind_error (apply_pass nx eps (clean_dependency_cycles nx) p3)
        (\<lambda>p4. Inr (detect_duplicates (fst p1), p4, gi'))))))"

definition run ::
    "'g networkx \<Rightarrow> (string list \<Rightarrow> string list) \<Rightarrow> OptimizationPipeline
      \<Rightarrow> (py_error + OptimizationResult) option" where
  "run nx iter pl =
     (case run_passes nx iter pl of
        Inl e \<Rightarrow> Some (Inl e)
      | Inr (dups, (working, reports), gi) \<Rightarrow>
          (case parallelize_independent_branches nx working gi of
             None \<Rightarrow> None
           | Some branches \<Rightarrow>
               Some (Inr \<lparr>before_graph = pl_graph pl, after_graph = working,
                 verification_reports = reports, duplicate_pairs = dups,
                 parallel_branches = branches,
                 summary = build_summary (pl_target_language pl) reports dups branches
                             (pl_graph pl) working\<rparr>)))"

text \<open>\<open>optimize_graph\<close> after the graph is read; \<open>entry_points or []\<close>.\<close>

definition optimize_graph ::
    "'g networkx \<Rightarrow> (string list \<Rightarrow> string list) \<Rightarrow> SoftwareGraph \<Rightarrow> string list option \<Rightarrow> string
      \<Rightarrow> (py_error + OptimizationResult) option" where
  "optimize_graph nx iter sg entry_points target_language =
     run nx iter \<lparr>pl_graph = sg,
       pl_entry_points = (case entry_points of None \<Rightarrow> [] | Some eps \<Rightarrow> eps),
       pl_target_language = target_language\<rparr>"

section \<open>One pass\<close>

lemma apply_pass_cases:
  assumes "apply_pass nx eps f (g, rs) = Inr (g', rs')"
  obtains r where "f g = Inr r" "rs' = rs @ [verify nx g r eps]"
    "g' = (if behavior_preserved (verify nx g r eps) then r else g)"
  using assms by (auto simp: apply_pass_def Let_def split: sum.splits)

lemma ids_live_refl: "live eps g \<inter> ids_of g \<subseteq> ids_of g"
  by blast

text \<open>
  C3: whatever a pass does, after \<open>apply_pass\<close> every node that an entry point reaches is still
  there, and the pass has exactly one more report.
\<close>

theorem apply_pass_keeps_live_nodes:
  assumes "nx_documented nx" "wf_sg g" "apply_pass nx eps f (g, rs) = Inr (g', rs')"
  shows "live eps g \<inter> ids_of g \<subseteq> ids_of g' \<and> length rs' = Suc (length rs)"
proof -
  from assms(3) obtain r where "f g = Inr r" "rs' = rs @ [verify nx g r eps]"
      "g' = (if behavior_preserved (verify nx g r eps) then r else g)" by (rule apply_pass_cases)
  then show ?thesis
    using reachable_before_live [OF assms(1,2), of eps] by (auto simp: verify_def Let_def)
qed

lemma demo_main_live: "''main'' \<in> live [''main''] demo_graph" "''main'' \<in> ids_of demo_graph"
  by (auto simp: live_def all_nodes_of_alt demo_graph_defs ids_of_def node_ids_alt)

lemma apply_pass_undone:
  assumes "nx_documented nx" "wf_sg g" "f g = Inr r"
    and "k \<in> live eps g" "k \<in> ids_of g" "k \<notin> ids_of r"
  shows "apply_pass nx eps f (g, rs) = Inr (g, rs @ [verify nx g r eps]) \<and>
    \<not> behavior_preserved (verify nx g r eps) \<and> risk_level (verify nx g r eps) = ''critical''"
proof -
  have "k \<in> reachable_before nx g (mk_index nx g) eps"
    using reachable_before_live [OF assms(1,2), of eps] assms(4,5) by blast
  with assms(5,6) have ne: "(ids_of g - ids_of r) \<inter> reachable_before nx g (mk_index nx g) eps \<noteq> {}" by blast
  then have "\<not> behavior_preserved (verify nx g r eps)" by (simp add: verify_def Let_def)
  moreover from ne have "risk_level (verify nx g r eps) = ''critical''"
    by (simp add: verify_def Let_def assess_risk_def)
  ultimately show ?thesis using assms(3) by (simp add: apply_pass_def Let_def)
qed

lemma apply_pass_demo:
  "apply_pass list_nx [''main''] (\<lambda>_. Inr (one_layer [] [])) (demo_graph, []) =
     Inr (demo_graph, [] @ [verify list_nx demo_graph (one_layer [] []) [''main'']])"
proof -
  have "''main'' \<notin> ids_of (one_layer [] [])" by (simp add: one_layer_def ids_of_def node_ids_alt)
  with apply_pass_undone [where f = "\<lambda>_. Inr (one_layer [] [])" and r = "one_layer [] []"
      and rs = "[]", OF list_nx_documented demo_graph_ok(1) refl demo_main_live]
  show ?thesis by blast
qed

lemma apply_pass_keeps_live_nodes_witness:
  "live [''main''] demo_graph \<inter> ids_of demo_graph \<subseteq> ids_of demo_graph \<and>
    length ([] @ [verify list_nx demo_graph (one_layer [] []) [''main'']]) = Suc (length ([] :: VerificationReport list))"
  by (rule apply_pass_keeps_live_nodes [OF list_nx_documented demo_graph_ok(1) apply_pass_demo])

text \<open>
  A pass whose result lacks a reachable node is undone: the graph stays as it was and the
  report says so, with risk \<open>critical\<close>.
\<close>

theorem apply_pass_rolls_back:
  assumes "nx_documented nx" "wf_sg g" "f g = Inr r"
    and "k \<in> live eps g" "k \<in> ids_of g" "k \<notin> ids_of r"
  shows "apply_pass nx eps f (g, rs) = Inr (g, rs @ [verify nx g r eps]) \<and>
    \<not> behavior_preserved (verify nx g r eps) \<and> risk_level (verify nx g r eps) = ''critical''"
  using assms by (rule apply_pass_undone)

lemma apply_pass_rolls_back_witness:
  "apply_pass list_nx [''main''] (\<lambda>_. Inr (one_layer [] [])) (demo_graph, []) =
      Inr (demo_graph, [] @ [verify list_nx demo_graph (one_layer [] []) [''main'']]) \<and>
    \<not> behavior_preserved (verify list_nx demo_graph (one_layer [] []) [''main'']) \<and>
    risk_level (verify list_nx demo_graph (one_layer [] []) [''main'']) = ''critical''"
  by (rule apply_pass_rolls_back [where k = "''main''", OF list_nx_documented demo_graph_ok(1) _ demo_main_live])
    (simp_all add: one_layer_def ids_of_def node_ids_alt)

section \<open>A whole run\<close>

lemma for_layers_total:
  assumes "wf_sg g" "no_raise body g" "keeps_layer body"
  shows "for_layers body g = Inr (map_layers (apply_body body) g) \<and> wf_sg (map_layers (apply_body body) g)"
  using for_layers_wf [OF assms(1,2)] wf_map_layers [OF assms(1)] layer_apply_body [OF assms(3)] by blast

definition pass_total :: "(SoftwareGraph \<Rightarrow> py_error + SoftwareGraph) \<Rightarrow> bool" where
  "pass_total f \<longleftrightarrow> (\<forall>g. wf_sg g \<longrightarrow> (\<exists>r. f g = Inr r \<and> wf_sg r))"

lemma passes_total:
  "pass_total (\<lambda>g. fst (remove_dead_nodes nx eps g gi))"
  "pass_total (\<lambda>g. inline_trivial_nodes nx iter t g gi)"
  "pass_total reduce_complexity"
  "nx_cycles_documented nx \<Longrightarrow> pass_total (clean_dependency_cycles nx)"
proof -
  have "no_raise (remove_dead_body D) g" "keeps_layer (remove_dead_body D)" for D g
    by (auto simp: no_raise_def keeps_layer_def remove_dead_body_def Let_def split: if_splits)
  from for_layers_total [OF _ this]
  show "pass_total (\<lambda>g. fst (remove_dead_nodes nx eps g gi))"
    by (simp add: pass_total_def remove_dead_nodes_def Let_def case_prod_beta)
  have "no_raise (inline_body nx iter gi t) g" "keeps_layer (inline_body nx iter gi t)" for g
    by (auto simp: no_raise_def keeps_layer_def inline_body_def Let_def split: if_splits)
  from for_layers_total [OF _ this]
  show "pass_total (\<lambda>g. inline_trivial_nodes nx iter t g gi)"
    by (simp add: pass_total_def inline_trivial_nodes_def)
  have "no_raise reduce_body g" "keeps_layer reduce_body" for g
    by (auto simp: no_raise_def keeps_layer_def reduce_body_def Let_def split: if_splits)
  from for_layers_total [OF _ this] show "pass_total reduce_complexity"
    by (simp add: pass_total_def reduce_complexity_def)
  assume nx: "nx_cycles_documented nx"
  have "no_raise (clean_cycles_body nx) g" "keeps_layer (clean_cycles_body nx)" for g
  proof -
    have "\<exists>r. clean_cycles_body nx h = Inr r" for h using broken_edges [OF nx, of h] by blast
    then show "no_raise (clean_cycles_body nx) g" by (simp add: no_raise_def)
    show "keeps_layer (clean_cycles_body nx)"
      by (auto simp: keeps_layer_def clean_cycles_body_def Let_def split: sum.splits)
  qed
  from for_layers_total [OF _ this] show "pass_total (clean_dependency_cycles nx)"
    by (simp add: pass_total_def clean_dependency_cycles_def)
qed

lemma apply_pass_total:
  assumes "pass_total f" "wf_sg g"
  obtains g' r where "f g = Inr r" "apply_pass nx eps f (g, rs) = Inr (g', rs @ [verify nx g r eps])"
    "wf_sg g'" "g' = (if behavior_preserved (verify nx g r eps) then r else g)"
  using assms by (auto simp: pass_total_def apply_pass_def Let_def)

lemma branches_total:
  assumes "nx_documented nx"
  shows "parallelize_independent_branches nx g gi \<noteq> None"
proof -
  have "\<exists>bs. layer_branches nx gi lg = Some bs" for lg
    using parallel_levels_total [OF assms] by (auto simp: layer_branches_def Let_def)
  then obtain br where br: "\<And>lg. layer_branches nx gi lg = Some (br lg)" by metis
  have "fold (\<lambda>lg acc. case (acc, layer_branches nx gi lg) of
      (Some st, Some bs) \<Rightarrow> Some (add_branches bs st) | _ \<Rightarrow> None) lgs (Some st) \<noteq> None" for lgs st
    by (induction lgs arbitrary: st) (simp_all add: br)
  then show ?thesis by (simp add: parallelize_independent_branches_def)
qed

lemma run_total:
  assumes "nx_documented nx" "nx_cycles_documented nx" "wf_sg (pl_graph pl)"
  shows "\<exists>res. run nx iter pl = Some (Inr res) \<and> before_graph res = pl_graph pl \<and>
    wf_sg (after_graph res) \<and> length (verification_reports res) = 4"
proof -
  let ?gi = "mk_index nx (pl_graph pl)" and ?eps = "pl_entry_points pl"
  let ?gi' = "snd (remove_dead_nodes nx ?eps (pl_graph pl) ?gi)"
  note total = passes_total(1) passes_total(2) passes_total(3) passes_total(4) [OF assms(2)]
  obtain g1 r1 where 1: "apply_pass nx ?eps (\<lambda>g. fst (remove_dead_nodes nx ?eps g ?gi)) (pl_graph pl, []) =
      Inr (g1, [] @ [r1])" "wf_sg g1"
    using apply_pass_total [OF total(1) assms(3)] by metis
  obtain g2 r2 where 2: "apply_pass nx ?eps
      (\<lambda>g. inline_trivial_nodes nx iter DEFAULT_INLINE_THRESHOLD g ?gi') (g1, [] @ [r1]) =
      Inr (g2, ([] @ [r1]) @ [r2])" "wf_sg g2"
    using apply_pass_total [OF total(2) 1(2)] by metis
  obtain g3 r3 where 3: "apply_pass nx ?eps reduce_complexity (g2, ([] @ [r1]) @ [r2]) =
      Inr (g3, (([] @ [r1]) @ [r2]) @ [r3])" "wf_sg g3"
    using apply_pass_total [OF total(3) 2(2)] by metis
  obtain g4 r4 where 4: "apply_pass nx ?eps (clean_dependency_cycles nx) (g3, (([] @ [r1]) @ [r2]) @ [r3]) =
      Inr (g4, ((([] @ [r1]) @ [r2]) @ [r3]) @ [r4])" "wf_sg g4"
    using apply_pass_total [OF total(4) 3(2)] by metis
  obtain bs where "parallelize_independent_branches nx g4 ?gi' = Some bs"
    using branches_total [OF assms(1)] by blast
  with 1 2 3 4 show ?thesis
    by (simp add: run_def run_passes_def Let_def bind_error_def)
qed

text \<open>
  On a well-formed graph the whole pipeline ends without an exception, with one report per
  pass, whatever the entry points are.
\<close>

theorem pipeline_total:
  assumes "nx_documented nx" "nx_cycles_documented nx" "wf_sg (pl_graph pl)"
  shows "\<exists>res. run nx iter pl = Some (Inr res) \<and> before_graph res = pl_graph pl \<and>
    wf_sg (after_graph res) \<and> length (verification_reports res) = 4"
  by (rule run_total [OF assms])

definition demo_pipeline :: OptimizationPipeline where
  "demo_pipeline = \<lparr>pl_graph = demo_graph, pl_entry_points = [''main''], pl_target_language = ''python''\<rparr>"

lemma pipeline_total_witness:
  "\<exists>res. run list_nx remdups demo_pipeline = Some (Inr res) \<and> before_graph res = pl_graph demo_pipeline \<and>
    wf_sg (after_graph res) \<and> length (verification_reports res) = 4"
  by (rule pipeline_total [OF list_nx_documented list_nx_cycles_documented])
    (simp add: demo_pipeline_def demo_graph_ok)

section \<open>Runs without entry points\<close>

lemma verify_no_entries: "behavior_preserved (verify nx g r [])"
  by (simp add: verify_def Let_def build_trace_set_def reachable_before_def)

lemma apply_pass_no_entries:
  "f g = Inr r \<Longrightarrow> apply_pass nx [] f (g, rs) = Inr (r, rs @ [verify nx g r []])"
  by (simp add: apply_pass_def Let_def verify_no_entries)

lemma ids_empty: "ids_of g = {} \<longleftrightarrow> (\<forall>lg\<in>snd ` set (layers g). nodes lg = [])"
  by (auto simp: ids_of_def node_ids_alt)

lemma ids_empty_map:
  "ids_of g = {} \<Longrightarrow> (\<And>lg. nodes lg = [] \<Longrightarrow> nodes (f lg) = []) \<Longrightarrow> ids_of (map_layers f g) = {}"
  unfolding ids_empty snd_map_layers by blast

lemma empty_passes:
  assumes "wf_sg g" "ids_of g = {}"
  shows "\<exists>r. inline_trivial_nodes nx iter t g gi = Inr r \<and> wf_sg r \<and> ids_of r = {}"
    and "\<exists>r. reduce_complexity g = Inr r \<and> wf_sg r \<and> ids_of r = {}"
    and "nx_cycles_documented nx \<Longrightarrow> \<exists>r. clean_dependency_cycles nx g = Inr r \<and> wf_sg r \<and> ids_of r = {}"
proof -
  have "nodes lg = [] \<Longrightarrow> nodes (apply_body (inline_body nx iter gi t) lg) = []" for lg
    by (simp add: apply_body_def inline_body_def inline_candidates_def)
  moreover have "keeps_layer (inline_body nx iter gi t)"
    by (auto simp: keeps_layer_def inline_body_def Let_def split: if_splits)
  ultimately show "\<exists>r. inline_trivial_nodes nx iter t g gi = Inr r \<and> wf_sg r \<and> ids_of r = {}"
    unfolding inline_trivial_nodes_def
    using for_layers_total [OF assms(1) inline_no_raise] ids_empty_map [OF assms(2)] by blast
  have "no_raise reduce_body g" "keeps_layer reduce_body"
    by (auto simp: no_raise_def keeps_layer_def reduce_body_def Let_def split: if_splits)
  moreover have "nodes lg = [] \<Longrightarrow> nodes (apply_body reduce_body lg) = []" for lg
    using reduced_simps(2) [of lg] by (simp add: reduced_def)
  ultimately show "\<exists>r. reduce_complexity g = Inr r \<and> wf_sg r \<and> ids_of r = {}"
    unfolding reduce_complexity_def
    using for_layers_total [OF assms(1)] ids_empty_map [OF assms(2)] by blast
  assume nx: "nx_cycles_documented nx"
  have "nodes lg = [] \<Longrightarrow> nodes (apply_body (clean_cycles_body nx) lg) = []" for lg
    using broken_keeps(2) [OF nx, of lg] by (simp add: broken_def)
  moreover obtain r where "clean_dependency_cycles nx g = Inr r" "wf_sg r"
    using passes_total(4) [OF nx] assms(1) by (auto simp: pass_total_def)
  moreover have "no_raise (clean_cycles_body nx) g"
    using broken_edges [OF nx] by (metis no_raise_def)
  ultimately show "\<exists>r. clean_dependency_cycles nx g = Inr r \<and> wf_sg r \<and> ids_of r = {}"
    unfolding clean_dependency_cycles_def
    using for_layers_wf [OF assms(1)] ids_empty_map [OF assms(2)] by force
qed

text \<open>
  C11: \<open>optimize_graph\<close> called with its default entry points (none) deletes the whole program:
  the optimized graph has no nodes, and yet all four reports say that behaviour is preserved.
\<close>

theorem no_entry_points_deletes_everything:
  assumes "nx_documented nx" "nx_cycles_documented nx" "wf_sg s" "edges_closed s"
  shows "\<exists>res. optimize_graph nx iter s None lang = Some (Inr res) \<and> total_nodes (after_graph res) = 0 \<and>
    length (verification_reports res) = 4 \<and> list_all behavior_preserved (verification_reports res)"
proof -
  let ?gi = "mk_index nx s"
  let ?gi' = "snd (remove_dead_nodes nx [] s ?gi)"
  have "live [] s = {}" by (simp add: live_def)
  then obtain g1 where g1: "fst (remove_dead_nodes nx [] s ?gi) = Inr g1" "wf_sg g1" "ids_of g1 = {}"
    using remove_dead_ok [OF assms(1,3,4), of "[]"] by auto
  obtain g2 where g2: "inline_trivial_nodes nx iter DEFAULT_INLINE_THRESHOLD g1 ?gi' = Inr g2"
      "wf_sg g2" "ids_of g2 = {}"
    using empty_passes(1) [OF g1(2,3)] by blast
  obtain g3 where g3: "reduce_complexity g2 = Inr g3" "wf_sg g3" "ids_of g3 = {}"
    using empty_passes(2) [OF g2(2,3)] by blast
  obtain g4 where g4: "clean_dependency_cycles nx g3 = Inr g4" "wf_sg g4" "ids_of g4 = {}"
    using empty_passes(3) [OF g3(2,3) assms(2)] by blast
  obtain bs where bs: "parallelize_independent_branches nx g4 ?gi' = Some bs"
    using branches_total [OF assms(1)] by blast
  have "total_nodes g4 = 0"
    using g4(3) unfolding ids_empty by (auto simp: total_nodes_def node_count_def)
  with bs show ?thesis
    by (simp add: optimize_graph_def run_def run_passes_def Let_def bind_error_def
        apply_pass_no_entries [where f = "\<lambda>g. fst (remove_dead_nodes nx [] g ?gi)", OF g1(1)]
        apply_pass_no_entries
          [where f = "\<lambda>g. inline_trivial_nodes nx iter DEFAULT_INLINE_THRESHOLD g ?gi'", OF g2(1)]
        apply_pass_no_entries [where f = reduce_complexity, OF g3(1)]
        apply_pass_no_entries [where f = "clean_dependency_cycles nx", OF g4(1)] verify_no_entries)
qed

lemma no_entry_points_deletes_everything_witness:
  "\<exists>res. optimize_graph list_nx remdups demo_graph None ''python'' = Some (Inr res) \<and>
    total_nodes (after_graph res) = 0 \<and> length (verification_reports res) = 4 \<and>
    list_all behavior_preserved (verification_reports res)"
  by (rule no_entry_points_deletes_everything [OF list_nx_documented list_nx_cycles_documented demo_graph_ok])

section \<open>The summary's risk level\<close>

lemma fold_max: "fold (\<lambda>x m. if m < x then x else m) ls l = Max (set (l # ls))"
  for l :: "'a :: linorder"
proof (induction ls arbitrary: l)
  case (Cons x ls)
  have "(if l < x then x else l) = max l x" by (auto simp: max_def)
  with Cons.IH [of "max l x"] show ?case
    by (cases ls) (simp_all add: max.assoc max.left_commute)
qed simp

lemma risk_strings:
  "''critical'' < (''high'' :: string)" "''high'' < (''low'' :: string)" "''low'' < (''medium'' :: string)"
  by code_simp+

definition worst_by_name :: "RiskLevel set \<Rightarrow> RiskLevel" where
  "worst_by_name L =
     (if RiskMedium \<in> L then RiskMedium else if RiskLow \<in> L then RiskLow
      else if RiskHigh \<in> L then RiskHigh else RiskCritical)"

lemma Max_risk:
  assumes "L \<noteq> {}"
  shows "Max (risk_value ` L) = risk_value (worst_by_name L)"
proof (rule Max_eqI)
  have "L \<subseteq> {RiskLow, RiskMedium, RiskHigh, RiskCritical}" using RiskLevel.exhaust by blast
  then have "finite L" by (rule finite_subset) simp
  then show "finite (risk_value ` L)" by simp
  have le: "risk_value a \<le> risk_value b" if "a = b \<or> b = RiskMedium \<or> (b = RiskLow \<and> a \<noteq> RiskMedium) \<or>
      (b = RiskHigh \<and> a = RiskCritical)" for a b
    using that risk_strings less_trans [OF risk_strings(1,2)] less_trans [OF risk_strings(2,3)]
      less_trans [OF less_trans [OF risk_strings(1,2)] risk_strings(3)]
    by (cases a; cases b) (simp_all add: less_imp_le)
  show "y \<le> risk_value (worst_by_name L)" if y: "y \<in> risk_value ` L" for y
  proof -
    obtain a where "a \<in> L" "y = risk_value a" using y by blast
    then show ?thesis by (cases a) (auto simp: worst_by_name_def intro!: le)
  qed
  have "worst_by_name L \<in> L"
    using assms by (auto simp: worst_by_name_def) (metis RiskLevel.exhaust)
  then show "risk_value (worst_by_name L) \<in> risk_value ` L" by simp
qed

text \<open>
  The summary's \<open>max_risk_level\<close> compares the levels' names alphabetically: one \<open>medium\<close> or
  \<open>low\<close> report hides every \<open>high\<close> and \<open>critical\<close> one, and \<open>critical\<close> shows only when all are.
\<close>

theorem max_risk_level_is_alphabetical:
  assumes "reports \<noteq> []" "map risk_level reports = map risk_value levels"
  shows "max_risk_level reports = risk_value (worst_by_name (set levels))"
proof -
  obtain l ls where "map risk_level reports = l # ls"
    using assms(1) by (cases reports) auto
  then have "max_risk_level reports = Max (set (map risk_level reports))"
    by (simp only: max_risk_level_def fold_max list.case)
  also have "\<dots> = Max (risk_value ` set levels)" unfolding assms(2) by simp
  also have "\<dots> = risk_value (worst_by_name (set levels))"
    using assms by (intro Max_risk) auto
  finally show ?thesis .
qed

definition demo_report :: "RiskLevel \<Rightarrow> VerificationReport" where
  "demo_report l = \<lparr>behavior_preserved = False, nodes_added = 0, nodes_removed = 1, edges_added = 0,
     edges_removed = 0, risk_level = risk_value l, findings = []\<rparr>"

lemma max_risk_level_is_alphabetical_witness:
  "max_risk_level [demo_report RiskCritical, demo_report RiskLow, demo_report RiskHigh] =
    risk_value (worst_by_name (set [RiskCritical, RiskLow, RiskHigh])) \<and>
    risk_value (worst_by_name (set [RiskCritical, RiskLow, RiskHigh])) = ''low''"
proof
  show "max_risk_level [demo_report RiskCritical, demo_report RiskLow, demo_report RiskHigh] =
      risk_value (worst_by_name (set [RiskCritical, RiskLow, RiskHigh]))"
    by (rule max_risk_level_is_alphabetical) (simp_all add: demo_report_def)
qed (simp add: worst_by_name_def)

section \<open>Complex live nodes\<close>

text \<open>
  Complexity reduction never applies to live code.  If a reachable node is of cubic or
  exponential complexity wherever it occurs, splitting it removes its id, which the verifier takes
  for lost behaviour: the pass is undone and reported as \<open>critical\<close>.
\<close>

theorem reduce_complexity_undone_on_live_nodes:
  assumes "nx_documented nx" "wf_sg g" "k \<in> live eps g" "k \<in> ids_of g"
    and "\<And>n. n \<in> set (all_nodes g) \<Longrightarrow> node_id n = k \<Longrightarrow> must_split n"
    and "\<And>n. n \<in> set (all_nodes g) \<Longrightarrow> k \<notin> set (part_ids (node_id n))"
  shows "\<exists>r. apply_pass nx eps reduce_complexity (g, rs) = Inr (g, rs @ [r]) \<and>
    \<not> behavior_preserved r \<and> risk_level r = ''critical''"
proof -
  have "no_raise reduce_body g" by (simp add: no_raise_def reduce_body_def Let_def)
  then have run: "reduce_complexity g = Inr (map_layers reduced g)"
    by (simp add: reduce_complexity_def for_layers_wf [OF assms(2)] reduced_def [abs_def])
  have "k \<notin> ids_of (map_layers reduced g)"
    using assms(5,6) unfolding ids_map_layers reduced_node_ids set_all_nodes by blast
  from apply_pass_undone [where f = reduce_complexity, OF assms(1,2) run assms(3,4) this]
  show ?thesis by blast
qed

lemma reduce_complexity_undone_on_live_nodes_witness:
  "\<exists>r. apply_pass list_nx [''main''] reduce_complexity (demo_graph, []) = Inr (demo_graph, [] @ [r]) \<and>
    \<not> behavior_preserved r \<and> risk_level r = ''critical''"
proof (rule reduce_complexity_undone_on_live_nodes [where k = "''b''", OF list_nx_documented demo_graph_ok(1)])
  have "(''main'', ''a'') \<in> pairs_of demo_graph" "(''a'', ''b'') \<in> pairs_of demo_graph"
    by (simp_all add: demo_graph_defs pairs_of_def)
  then show "''b'' \<in> live [''main''] demo_graph"
    using live_step demo_main_live(1) by blast
qed (auto simp: demo_graph_defs ids_of_def node_ids_alt all_nodes_def must_split_def part_ids_def)

end
