(* ===== verification/KvStore.thy ===== *)
theory KvStore
  imports Prelude
begin

text \<open>
  The in-memory state store (\<open>intelliqx_state/store.py\<close>).

  The four dictionaries are the fields of \<open>kv_state\<close>; \<open>bytes\<close> values are strings.  Every method
  holds the store's lock for its whole body, so a method is one atomic step; \<open>now\<close> is what
  \<open>time.time()\<close> returned.  \<open>keys\<close> is the list of what its iterator yields.

  \<open>kv_value\<close> is the value a reader would see; the contract \<open>ttl_map\<close> says what the key-value
  operations do to it, and \<open>kv_step\<close> runs any operation of the interface.
\<close>

record kv_state =
  kv :: "(string, string) dict"
  expiry :: "(string, rat) dict"
  hashes :: "(string, (string, string) dict) dict"
  lists :: "(string, string list) dict"

datatype kv_error = KvValueError

section \<open>The methods of \<open>InMemoryStateStore\<close>\<close>

definition kv_init :: kv_state where
  "kv_init = \<lparr>kv = [], expiry = [], hashes = [], lists = []\<rparr>"

definition expired :: "rat \<Rightarrow> string \<Rightarrow> kv_state \<Rightarrow> bool" where
  "expired now k s = (case dict_get (expiry s) k of None \<Rightarrow> False | Some e \<Rightarrow> e \<le> now)"

definition purge_expired :: "rat \<Rightarrow> string \<Rightarrow> kv_state \<Rightarrow> bool \<times> kv_state" where
  "purge_expired now k s =
     (if \<not> expired now k s then (False, s)
      else (True, s\<lparr>kv := dict_pop k (kv s), hashes := dict_pop k (hashes s),
                    lists := dict_pop k (lists s), expiry := dict_pop k (expiry s)\<rparr>))"

definition kv_get :: "rat \<Rightarrow> string \<Rightarrow> kv_state \<Rightarrow> string option \<times> kv_state" where
  "kv_get now k s =
     (case purge_expired now k s of
        (True, s') \<Rightarrow> (None, s')
      | (False, s') \<Rightarrow> (dict_get (kv s') k, s'))"

definition kv_set :: "rat \<Rightarrow> string \<Rightarrow> string \<Rightarrow> int option \<Rightarrow> kv_state \<Rightarrow> kv_state" where
  "kv_set now k v ttl s =
     (let s1 = s\<lparr>kv := dict_set k v (kv s)\<rparr>
      in case ttl of
           Some n \<Rightarrow> s1\<lparr>expiry := dict_set k (now + of_int n) (expiry s1)\<rparr>
         | None \<Rightarrow> s1\<lparr>expiry := dict_pop k (expiry s1)\<rparr>)"

definition kv_delete :: "string \<Rightarrow> kv_state \<Rightarrow> kv_state" where
  "kv_delete k s =
     s\<lparr>kv := dict_pop k (kv s), expiry := dict_pop k (expiry s), hashes := dict_pop k (hashes s),
       lists := dict_pop k (lists s)\<rparr>"

definition kv_incr :: "string \<Rightarrow> int \<Rightarrow> kv_state \<Rightarrow> kv_error + (int \<times> kv_state)" where
  "kv_incr k amount s =
     (case bytes_int (case dict_get (kv s) k of None \<Rightarrow> ''0'' | Some v \<Rightarrow> v) of
        None \<Rightarrow> Inl KvValueError
      | Some n \<Rightarrow>
          (let cur = n + amount in Inr (cur, s\<lparr>kv := dict_set k (show_int cur) (kv s)\<rparr>)))"

definition kv_expire :: "rat \<Rightarrow> string \<Rightarrow> int \<Rightarrow> kv_state \<Rightarrow> kv_state" where
  "kv_expire now k ttl s = s\<lparr>expiry := dict_set k (now + of_int ttl) (expiry s)\<rparr>"

definition kv_keys :: "rat \<Rightarrow> string \<Rightarrow> kv_state \<Rightarrow> string list" where
  "kv_keys now pre s =
     (let snapshot = filter (\<lambda>k. \<not> expired now k s) (dict_keys (kv s))
      in filter (\<lambda>k. py_startswith k pre) snapshot)"

definition hset :: "rat \<Rightarrow> string \<Rightarrow> string \<Rightarrow> string \<Rightarrow> kv_state \<Rightarrow> kv_state" where
  "hset now k field v s =
     (let s1 = snd (purge_expired now k s);
          h = (case dict_get (hashes s1) k of None \<Rightarrow> [] | Some h \<Rightarrow> h)
      in s1\<lparr>hashes := dict_set k (dict_set field v h) (hashes s1)\<rparr>)"

definition hgetall :: "rat \<Rightarrow> string \<Rightarrow> kv_state \<Rightarrow> (string, string) dict \<times> kv_state" where
  "hgetall now k s =
     (case purge_expired now k s of
        (True, s') \<Rightarrow> ([], s')
      | (False, s') \<Rightarrow> (case dict_get (hashes s') k of None \<Rightarrow> [] | Some h \<Rightarrow> h, s'))"

definition hkeys :: "rat \<Rightarrow> string \<Rightarrow> kv_state \<Rightarrow> string list \<times> kv_state" where
  "hkeys now k s =
     (case purge_expired now k s of
        (True, s') \<Rightarrow> ([], s')
      | (False, s') \<Rightarrow> (case dict_get (hashes s') k of None \<Rightarrow> [] | Some h \<Rightarrow> dict_keys h, s'))"

definition lpush :: "string \<Rightarrow> string \<Rightarrow> kv_state \<Rightarrow> nat \<times> kv_state" where
  "lpush k v s =
     (let l = v # (case dict_get (lists s) k of None \<Rightarrow> [] | Some l \<Rightarrow> l)
      in (length l, s\<lparr>lists := dict_set k l (lists s)\<rparr>))"

definition rpop :: "string \<Rightarrow> kv_state \<Rightarrow> string option \<times> kv_state" where
  "rpop k s =
     (case dict_get (lists s) k of
        None \<Rightarrow> (None, s)
      | Some [] \<Rightarrow> (None, s)
      | Some l \<Rightarrow> (Some (last l), s\<lparr>lists := dict_set k (butlast l) (lists s)\<rparr>))"

definition kv_reset :: "kv_state \<Rightarrow> kv_state" where
  "kv_reset s = s\<lparr>kv := [], expiry := [], hashes := [], lists := []\<rparr>"

section \<open>The value a reader sees\<close>

definition kv_value :: "rat \<Rightarrow> kv_state \<Rightarrow> string \<Rightarrow> string option" where
  "kv_value now s k = (if expired now k s then None else dict_get (kv s) k)"

lemma purge_value:
  assumes "t \<le> t'"
  shows "kv_value t' (snd (purge_expired t k s)) k' = kv_value t' s k'"
proof (cases "k = k' \<and> expired t k s")
  case True
  with assms have "expired t' k s" by (auto simp: expired_def split: option.splits)
  with True show ?thesis by (simp add: kv_value_def purge_expired_def expired_def)
next
  case False
  then show ?thesis by (auto simp: kv_value_def purge_expired_def expired_def)
qed

lemma kv_get_value: "fst (kv_get t k s) = kv_value t s k"
  by (simp add: kv_get_def kv_value_def purge_expired_def)

lemma kv_get_state: "snd (kv_get t k s) = snd (purge_expired t k s)"
  by (simp add: kv_get_def purge_expired_def)

lemma kv_set_value:
  "kv_value t' (kv_set t k v ttl s) k' =
     (if k' = k then (case ttl of None \<Rightarrow> Some v | Some n \<Rightarrow> if t' < t + of_int n then Some v else None)
      else kv_value t' s k')"
  by (auto simp: kv_set_def kv_value_def expired_def Let_def not_less split: option.split)

lemma kv_delete_value: "kv_value t' (kv_delete k s) k' = (if k' = k then None else kv_value t' s k')"
  by (simp add: kv_delete_def kv_value_def expired_def)

text \<open>
  The contract of a map with deadlines; \<open>val t s k\<close> is what a reader at time \<open>t\<close> would see.
\<close>

locale ttl_map =
  fixes get :: "rat \<Rightarrow> 'k \<Rightarrow> 's \<Rightarrow> 'v option \<times> 's"
    and set :: "rat \<Rightarrow> 'k \<Rightarrow> 'v \<Rightarrow> int option \<Rightarrow> 's \<Rightarrow> 's"
    and delete :: "'k \<Rightarrow> 's \<Rightarrow> 's"
    and val :: "rat \<Rightarrow> 's \<Rightarrow> 'k \<Rightarrow> 'v option"
  assumes get_val: "fst (get t k s) = val t s k"
    and get_keeps: "t \<le> t' \<Longrightarrow> val t' (snd (get t k s)) k' = val t' s k'"
    and set_val: "val t' (set t k v ttl s) k' =
      (if k' = k then (case ttl of None \<Rightarrow> Some v | Some n \<Rightarrow> if t' < t + of_int n then Some v else None)
       else val t' s k')"
    and delete_val: "val t' (delete k s) k' = (if k' = k then None else val t' s k')"
begin

lemma get_set_same:
  "t' < t + of_int n \<Longrightarrow> fst (get t' k (set t k v (Some n) s)) = Some v"
  "t + of_int n \<le> t' \<Longrightarrow> fst (get t' k (set t k v (Some n) s)) = None"
  "fst (get t' k (set t k v None s)) = Some v"
  by (simp_all add: get_val set_val)

lemma get_delete_same: "fst (get t k (delete k s)) = None"
  by (simp add: get_val delete_val)

lemma set_set_commute:
  "k \<noteq> k' \<Longrightarrow> val t (set t1 k v m (set t2 k' w n s)) = val t (set t2 k' w n (set t1 k v m s))"
  by (rule ext) (auto simp: set_val)

end

interpretation memory: ttl_map kv_get kv_set kv_delete kv_value
proof (unfold_locales, goal_cases)
  case (1 t k s)
  show ?case by (rule kv_get_value)
next
  case (2 t t' k s k')
  then show ?case by (simp add: kv_get_state purge_value)
next
  case (3 t' t k v ttl s k')
  show ?case by (rule kv_set_value)
next
  case (4 t' k s k')
  show ?case by (rule kv_delete_value)
qed

section \<open>Sequences of operations\<close>

datatype kv_op =
    OpGet string | OpSet string string "int option" | OpDelete string | OpIncr string int
  | OpExpire string int | OpHset string string string | OpHgetall string | OpHkeys string
  | OpLpush string string | OpRpop string

fun kv_step :: "rat \<Rightarrow> kv_op \<Rightarrow> kv_state \<Rightarrow> kv_state" where
  "kv_step now (OpGet k) s = snd (kv_get now k s)"
| "kv_step now (OpSet k v ttl) s = kv_set now k v ttl s"
| "kv_step now (OpDelete k) s = kv_delete k s"
| "kv_step now (OpIncr k n) s = (case kv_incr k n s of Inl e \<Rightarrow> s | Inr (v, s') \<Rightarrow> s')"
| "kv_step now (OpExpire k n) s = kv_expire now k n s"
| "kv_step now (OpHset k f v) s = hset now k f v s"
| "kv_step now (OpHgetall k) s = snd (hgetall now k s)"
| "kv_step now (OpHkeys k) s = snd (hkeys now k s)"
| "kv_step now (OpLpush k v) s = snd (lpush k v s)"
| "kv_step now (OpRpop k) s = snd (rpop k s)"

text \<open>The operations that write the value of a key or move its deadline.\<close>

fun writes :: "string \<Rightarrow> kv_op \<Rightarrow> bool" where
  "writes k (OpSet k' v ttl) \<longleftrightarrow> k = k'"
| "writes k (OpDelete k') \<longleftrightarrow> k = k'"
| "writes k (OpIncr k' n) \<longleftrightarrow> k = k'"
| "writes k (OpExpire k' n) \<longleftrightarrow> k = k'"
| "writes k op \<longleftrightarrow> False"

lemma kv_step_value:
  assumes "\<not> writes k op" "t \<le> t'"
  shows "kv_value t' (kv_step t op s) k = kv_value t' s k"
proof (cases op)
  case (OpGet k')
  then show ?thesis using memory.get_keeps [OF assms(2)] by simp
next
  case (OpIncr k' n)
  with assms(1) show ?thesis
    by (auto simp: kv_incr_def Let_def kv_value_def expired_def split: sum.splits option.splits)
next
  case (OpHset k' f v)
  have "kv_value t' (kv_step t op s) k = kv_value t' (snd (purge_expired t k' s)) k"
    by (simp add: OpHset hset_def Let_def kv_value_def expired_def)
  with purge_value [OF assms(2)] show ?thesis by simp
next
  case (OpHgetall k')
  have "snd (hgetall t k' s) = snd (purge_expired t k' s)"
    by (simp add: hgetall_def purge_expired_def)
  with OpHgetall purge_value [OF assms(2)] show ?thesis by simp
next
  case (OpHkeys k')
  have "snd (hkeys t k' s) = snd (purge_expired t k' s)"
    by (simp add: hkeys_def purge_expired_def)
  with OpHkeys purge_value [OF assms(2)] show ?thesis by simp
next
  case (OpSet k' v ttl)
  with assms(1) show ?thesis by (simp add: kv_set_value)
next
  case (OpDelete k')
  with assms(1) show ?thesis by (simp add: kv_delete_value)
qed (use assms(1) in \<open>auto simp: kv_expire_def lpush_def rpop_def Let_def
       kv_value_def expired_def split: option.splits list.splits\<close>)

fun kv_run :: "(rat \<times> kv_op) list \<Rightarrow> kv_state \<Rightarrow> kv_state" where
  "kv_run [] s = s"
| "kv_run ((t, op) # ops) s = kv_run ops (kv_step t op s)"

lemma kv_run_value:
  "(\<forall>(t, op)\<in>set ops. \<not> writes k op \<and> t \<le> t') \<Longrightarrow> kv_value t' (kv_run ops s) k = kv_value t' s k"
  by (induction ops s rule: kv_run.induct) (auto simp: kv_step_value)

text \<open>
  A value stored with a time to live is what every reader gets until its deadline and no
  reader gets from then on, whatever operations that do not write the key run in between.
\<close>

theorem value_until_deadline:
  assumes "\<forall>(u, op)\<in>set ops. \<not> writes k op \<and> u \<le> t'"
  shows "fst (kv_get t' k (kv_run ops (kv_set t k v (Some n) s))) =
    (if t' < t + of_int n then Some v else None)"
  using kv_run_value [OF assms] by (simp add: memory.get_val memory.set_val)

lemma value_until_deadline_witness:
  "fst (kv_get 7 ''a'' (kv_run [(5, OpSet ''b'' ''2'' None), (6, OpHset ''a'' ''f'' ''x''), (6, OpGet ''a'')]
      (kv_set 4 ''a'' ''1'' (Some 10) kv_init))) = Some ''1''"
  using value_until_deadline [of "[(5, OpSet ''b'' ''2'' None), (6, OpHset ''a'' ''f'' ''x''), (6, OpGet ''a'')]"
      "''a''" 7 4 "''1''" 10 kv_init] by simp

section \<open>Counters\<close>

text \<open>The counter that a key holds; a key without a value counts from 0.\<close>

definition counter :: "kv_state \<Rightarrow> string \<Rightarrow> int option" where
  "counter s k = bytes_int (case dict_get (kv s) k of None \<Rightarrow> ''0'' | Some v \<Rightarrow> v)"

text \<open>
  \<open>incr\<close> adds to the counter and returns its new value, fails exactly if the stored bytes are
  no number, and leaves every other key alone; but a passed deadline does not reset it: the
  count goes on from the expired value, which no \<open>get\<close> returns.
\<close>

theorem incr_counts_past_expiry:
  assumes "counter s k = Some c"
  shows "\<exists>s'. kv_incr k n s = Inr (c + n, s') \<and> counter s' k = Some (c + n) \<and>
    (\<forall>k'. k' \<noteq> k \<longrightarrow> dict_get (kv s') k' = dict_get (kv s) k') \<and>
    (\<forall>t. expired t k s \<longrightarrow> fst (kv_get t k s') = None)"
  using assms by (auto simp: counter_def kv_incr_def Let_def bytes_int_show kv_get_value kv_value_def expired_def)

lemma incr_counts_past_expiry_witness:
  "\<exists>s'. kv_incr ''hits'' 1 (kv_set 0 ''hits'' ''41'' (Some 5) kv_init) = Inr (41 + 1, s') \<and>
    fst (kv_get 9 ''hits'' s') = None"
proof -
  have "counter (kv_set 0 ''hits'' ''41'' (Some 5) kv_init) ''hits'' = Some 41"
    by (simp add: counter_def kv_set_def kv_init_def bytes_int_def is_byte_space_def signed_int_def
        unsigned_int_def is_digit_def digit_val_def)
  from incr_counts_past_expiry [OF this, of 1]
  show ?thesis by (auto simp: expired_def kv_set_def kv_init_def)
qed

section \<open>Lists\<close>

fun pushes :: "string \<Rightarrow> string list \<Rightarrow> kv_state \<Rightarrow> kv_state" where
  "pushes k [] s = s"
| "pushes k (v # vs) s = pushes k vs (snd (lpush k v s))"

fun pops :: "string \<Rightarrow> nat \<Rightarrow> kv_state \<Rightarrow> string option list" where
  "pops k 0 s = []"
| "pops k (Suc n) s = (let (v, s') = rpop k s in v # pops k n s')"

definition the_list :: "string \<Rightarrow> kv_state \<Rightarrow> string list" where
  "the_list k s = (case dict_get (lists s) k of None \<Rightarrow> [] | Some l \<Rightarrow> l)"

lemma lpush_list: "the_list k (snd (lpush k v s)) = v # the_list k s"
  by (simp add: the_list_def lpush_def Let_def)

lemma rpop_list:
  "fst (rpop k s) = (if the_list k s = [] then None else Some (last (the_list k s)))"
  "the_list k (snd (rpop k s)) = butlast (the_list k s)"
  by (auto simp: the_list_def rpop_def split: option.split list.split)

lemma pushes_list: "the_list k (pushes k vs s) = rev vs @ the_list k s"
  by (induction vs arbitrary: s) (simp_all add: lpush_list)

lemma pops_list: "pops k (length (the_list k s)) s = map Some (rev (the_list k s))"
proof (induction "the_list k s" arbitrary: s rule: rev_induct)
  case Nil
  then show ?case by (metis list.size(3) list.simps(8) pops.simps(1) rev.simps(1))
next
  case (snoc x xs)
  obtain v s' where r: "rpop k s = (v, s')" by (cases "rpop k s")
  have l: "the_list k s = xs @ [x]" using snoc.hyps(2) by simp
  have "v = Some x" "the_list k s' = xs"
    using rpop_list [of k s] by (simp_all add: r l)
  then show ?case using snoc.hyps(1) [of s'] by (simp add: l r)
qed

text \<open>
  \<open>lpush\<close> and \<open>rpop\<close> form a first-in first-out queue: pushing values one after the other and
  then popping as often returns them in the order pushed, behind what was there.
\<close>

theorem lists_are_queues:
  "pops k (length vs + length (the_list k s)) (pushes k vs s) = map Some (rev (the_list k s) @ vs)"
  using pops_list [of k "pushes k vs s"] by (simp add: pushes_list)

text \<open>
  \<open>lpush\<close> does not look at the deadline: a value pushed after the key expired is accepted and
  then thrown away by the next \<open>get\<close> of the key.
\<close>

theorem lpush_after_deadline_is_lost:
  assumes "expired t k s" "t \<le> t'"
  shows "0 < fst (lpush k v s) \<and> fst (rpop k (snd (kv_get t' k (snd (lpush k v s))))) = None"
proof -
  have "expired t' k (snd (lpush k v s))"
    using assms by (auto simp: expired_def lpush_def Let_def split: option.splits)
  then have "dict_get (lists (snd (kv_get t' k (snd (lpush k v s))))) k = None"
    by (simp add: kv_get_state purge_expired_def)
  then show ?thesis by (simp add: rpop_def lpush_def Let_def)
qed

lemma lpush_after_deadline_is_lost_witness:
  "0 < fst (lpush ''q'' ''job'' (kv_expire 0 ''q'' 5 kv_init)) \<and>
    fst (rpop ''q'' (snd (kv_get 9 ''q'' (snd (lpush ''q'' ''job'' (kv_expire 0 ''q'' 5 kv_init)))))) = None"
  by (rule lpush_after_deadline_is_lost [of 6]) (simp_all add: expired_def kv_expire_def kv_init_def)

end
