(* ===== verification/ObjectStore.thy ===== *)
theory ObjectStore
  imports Prelude "HOL-Library.Char_ord" "HOL-Library.List_Lexorder" "HOL-Library.Product_Lexorder"
begin

text \<open>
  The object stores (\<open>intelliqx_storage/store.py\<close>, \<open>base.py\<close>): in memory, and on a file system.

  The file system is the map of its regular files and the list of its directories, both by
  absolute path (a list of names).  A \<open>pathlib\<close> path is built from a string by splitting at
  \<open>/\<close> and dropping empty and \<open>.\<close> parts; joining with an absolute path gives that path.  It keeps \<open>..\<close>
  as a part; the system resolves it, step by step (\<open>resolve_path\<close>), when the path is used.  Symbolic links and
  permissions are not modelled, and neither is what an operation that fails has done before.

  The contract \<open>object_map\<close> is what a client of \<open>ObjectStore\<close> may rely on for keys that do not get
  in each other's way (\<open>good\<close>); both stores provide it.
\<close>

datatype store_error = NotFoundError string | IsADirectoryError | NotADirectoryError
  | FileNotFoundError | FileExistsError | PathValueError

section \<open>In memory\<close>

record mem_store =
  store :: "(string, string) dict"
  meta :: "(string, (string, json) dict) dict"

definition mem_init :: mem_store where
  "mem_init = \<lparr>store = [], meta = []\<rparr>"

definition mem_meta :: "(string, json) dict \<Rightarrow> string option \<Rightarrow> string \<Rightarrow> (string, json) dict" where
  "mem_meta metadata content_type value =
     dict_set ''size'' (JInt (int (length value)))
       (dict_setdefault ''content_type''
         (case content_type of None \<Rightarrow> JNull | Some c \<Rightarrow> JStr c) metadata)"

definition mem_put ::
    "string \<Rightarrow> string \<Rightarrow> (string, json) dict option \<Rightarrow> string option \<Rightarrow> mem_store \<Rightarrow> string \<times> mem_store" where
  "mem_put key value metadata content_type s =
     (let md = (case metadata of None \<Rightarrow> [] | Some m \<Rightarrow> m);
          s' = s\<lparr>store := dict_set key value (store s),
                 meta := dict_set key (mem_meta md content_type value) (meta s)\<rparr>
      in (''mem-'' @ show_nat (length (store s')), s'))"

text \<open>\<open>put_sync\<close>, for constructors that run before there is an event loop, is a copy of \<open>put\<close>.\<close>

definition mem_put_sync ::
    "string \<Rightarrow> string \<Rightarrow> (string, json) dict option \<Rightarrow> string option \<Rightarrow> mem_store \<Rightarrow> string \<times> mem_store" where
  "mem_put_sync key value metadata content_type s =
     (let s1 = s\<lparr>store := dict_set key value (store s)\<rparr>;
          md = (case metadata of None \<Rightarrow> [] | Some m \<Rightarrow> m);
          s2 = s1\<lparr>meta := dict_set key (mem_meta md content_type value) (meta s1)\<rparr>
      in (''mem-'' @ show_nat (length (store s2)), s2))"

lemma mem_put_sync_eq: "mem_put_sync = mem_put"
  by (rule ext)+ (simp add: mem_put_sync_def mem_put_def Let_def)

definition mem_get :: "string \<Rightarrow> mem_store \<Rightarrow> store_error + string" where
  "mem_get key s =
     (case dict_get (store s) key of
        None \<Rightarrow> Inl (NotFoundError (''Object not found: '' @ py_repr key))
      | Some v \<Rightarrow> Inr v)"

definition mem_exists :: "string \<Rightarrow> mem_store \<Rightarrow> bool" where
  "mem_exists key s \<longleftrightarrow> key \<in> set (dict_keys (store s))"

definition mem_delete :: "string \<Rightarrow> mem_store \<Rightarrow> mem_store" where
  "mem_delete key s = s\<lparr>store := dict_pop key (store s), meta := dict_pop key (meta s)\<rparr>"

definition mem_list :: "string \<Rightarrow> mem_store \<Rightarrow> string list" where
  "mem_list pre s = filter (\<lambda>k. py_startswith k pre) (sort (dict_keys (store s)))"

definition mem_reset :: "mem_store \<Rightarrow> mem_store" where
  "mem_reset s = s\<lparr>store := [], meta := []\<rparr>"

text \<open>\<open>ObjectStore.size\<close> of the base class, for any \<open>get\<close>.\<close>

definition object_size :: "(string \<Rightarrow> 's \<Rightarrow> store_error + string) \<Rightarrow> string \<Rightarrow> 's \<Rightarrow> store_error + nat" where
  "object_size get key s = (case get key s of Inl e \<Rightarrow> Inl e | Inr v \<Rightarrow> Inr (length v))"

section \<open>On a file system\<close>

type_synonym fs_path = "string list"

record file_system =
  files :: "(fs_path, string) dict"
  dirs :: "fs_path list"

fun split_slash :: "string \<Rightarrow> string \<Rightarrow> string list" where
  "split_slash acc [] = [acc]"
| "split_slash acc (c # cs) =
     (if c = CHR ''/'' then acc # split_slash [] cs else split_slash (acc @ [c]) cs)"

definition path_parts :: "string \<Rightarrow> fs_path" where
  "path_parts s = filter (\<lambda>p. p \<noteq> [] \<and> p \<noteq> ''.'') (split_slash [] s)"

definition path_join :: "fs_path \<Rightarrow> string \<Rightarrow> fs_path" where
  "path_join rootdir s = (if py_startswith s ''/'' then path_parts s else rootdir @ path_parts s)"

definition drop_slash :: "string \<Rightarrow> string" where
  "drop_slash s = (if py_startswith s ''/'' then tl s else s)"

definition fs_path_of :: "fs_path \<Rightarrow> string \<Rightarrow> fs_path" where
  "fs_path_of rootdir key = path_join rootdir (drop_slash key)"

text \<open>
  How the system resolves a path: step by step from the directory \<open>cur\<close>, where \<open>..\<close> goes back to the
  parent (that of the root is the root).  Every directory on the way must be there, also one that a \<open>..\<close>
  leaves again; the place the path names need not.
\<close>

datatype lookup = NoEntry | NoDirectory | Found fs_path

fun resolve_path :: "file_system \<Rightarrow> fs_path \<Rightarrow> fs_path \<Rightarrow> lookup" where
  "resolve_path fs cur [] = Found cur"
| "resolve_path fs cur (c # cs) =
     (if cur \<in> set (dict_keys (files fs)) then NoDirectory
      else if cur \<notin> set (dirs fs) then NoEntry
      else resolve_path fs (if c = ''..'' then butlast cur else cur @ [c]) cs)"

text \<open>\<open>Path.exists\<close>: nothing on the way missing, and something at the place.\<close>

definition fs_exists_path :: "fs_path \<Rightarrow> file_system \<Rightarrow> bool" where
  "fs_exists_path p fs \<longleftrightarrow>
     (case resolve_path fs [] p of
        Found q \<Rightarrow> q \<in> set (dict_keys (files fs)) \<or> q \<in> set (dirs fs)
      | _ \<Rightarrow> False)"

text \<open>
  \<open>Path.mkdir(parents=True, exist_ok=True)\<close>: \<open>mkdir1\<close> is one \<open>os.mkdir\<close>, where a directory that is there
  already is accepted.  If the directory above is missing, \<open>pathlib\<close> makes that first, by name: it
  takes the last part off the path, \<open>..\<close> or not.
\<close>

definition mkdir1 :: "fs_path \<Rightarrow> file_system \<Rightarrow> store_error + file_system" where
  "mkdir1 p fs =
     (case resolve_path fs [] p of
        NoEntry \<Rightarrow> Inl FileNotFoundError
      | NoDirectory \<Rightarrow> Inl NotADirectoryError
      | Found q \<Rightarrow>
          if q \<in> set (dict_keys (files fs)) then Inl FileExistsError
          else if q \<in> set (dirs fs) then Inr fs
          else Inr (fs\<lparr>dirs := dirs fs @ [q]\<rparr>))"

fun mkdir_rev :: "fs_path \<Rightarrow> file_system \<Rightarrow> store_error + file_system" where
  "mkdir_rev [] fs = mkdir1 [] fs"
| "mkdir_rev (c # cs) fs =
     (case mkdir1 (rev (c # cs)) fs of
        Inl FileNotFoundError \<Rightarrow>
          (case mkdir_rev cs fs of Inl e \<Rightarrow> Inl e | Inr fs1 \<Rightarrow> mkdir1 (rev (c # cs)) fs1)
      | Inl e \<Rightarrow> Inl e
      | Inr fs1 \<Rightarrow> Inr fs1)"

definition mkdir_parents :: "fs_path \<Rightarrow> file_system \<Rightarrow> store_error + file_system" where
  "mkdir_parents p = mkdir_rev (rev p)"

text \<open>\<open>write_bytes\<close> and \<open>read_bytes\<close>\<close>

definition write_bytes :: "fs_path \<Rightarrow> string \<Rightarrow> file_system \<Rightarrow> store_error + file_system" where
  "write_bytes p value fs =
     (case resolve_path fs [] p of
        NoEntry \<Rightarrow> Inl FileNotFoundError
      | NoDirectory \<Rightarrow> Inl NotADirectoryError
      | Found q \<Rightarrow>
          if q \<in> set (dirs fs) then Inl IsADirectoryError
          else Inr (fs\<lparr>files := dict_set q value (files fs)\<rparr>))"

definition read_bytes :: "fs_path \<Rightarrow> file_system \<Rightarrow> store_error + string" where
  "read_bytes p fs =
     (case resolve_path fs [] p of
        NoEntry \<Rightarrow> Inl FileNotFoundError
      | NoDirectory \<Rightarrow> Inl NotADirectoryError
      | Found q \<Rightarrow>
          (case dict_get (files fs) q of
             Some v \<Rightarrow> Inr v
           | None \<Rightarrow> if q \<in> set (dirs fs) then Inl IsADirectoryError else Inl FileNotFoundError))"

definition fs_init :: "fs_path \<Rightarrow> file_system \<Rightarrow> store_error + file_system" where
  "fs_init rootdir fs = mkdir_parents rootdir fs"

definition fs_put :: "fs_path \<Rightarrow> string \<Rightarrow> string \<Rightarrow> file_system \<Rightarrow> store_error + (string \<times> file_system)" where
  "fs_put rootdir key value fs =
     (let p = fs_path_of rootdir key
      in case mkdir_parents (butlast p) fs of
           Inl e \<Rightarrow> Inl e
         | Inr fs1 \<Rightarrow>
             (case write_bytes p value fs1 of
                Inl e \<Rightarrow> Inl e
              | Inr fs2 \<Rightarrow> Inr (''local-'' @ show_nat (length value), fs2)))"

definition fs_get :: "fs_path \<Rightarrow> string \<Rightarrow> file_system \<Rightarrow> store_error + string" where
  "fs_get rootdir key fs =
     (let p = fs_path_of rootdir key
      in if \<not> fs_exists_path p fs then Inl (NotFoundError (''Object not found: '' @ py_repr key))
         else read_bytes p fs)"

definition fs_exists :: "fs_path \<Rightarrow> string \<Rightarrow> file_system \<Rightarrow> bool" where
  "fs_exists rootdir key fs \<longleftrightarrow> fs_exists_path (fs_path_of rootdir key) fs"

definition fs_delete :: "fs_path \<Rightarrow> string \<Rightarrow> file_system \<Rightarrow> store_error + file_system" where
  "fs_delete rootdir key fs =
     (let p = fs_path_of rootdir key
      in if \<not> fs_exists_path p fs then Inr fs
         else (case resolve_path fs [] p of
                 Found q \<Rightarrow>
                   if q \<in> set (dict_keys (files fs)) then Inr (fs\<lparr>files := dict_pop q (files fs)\<rparr>)
                   else Inl IsADirectoryError
               | _ \<Rightarrow> Inl FileNotFoundError))"

text \<open>
  \<open>sorted(base.rglob("*"))\<close> restricted to files: the paths are those below the directory that \<open>base\<close> names,
  written with \<open>base\<close> in front as it stands; \<open>relative_to\<close> looks at the names only.
\<close>

definition fs_list :: "fs_path \<Rightarrow> string \<Rightarrow> file_system \<Rightarrow> store_error + string list" where
  "fs_list rootdir pre fs =
     (let base = path_join rootdir (drop_slash pre)
      in if \<not> fs_exists_path base fs then Inr []
         else (case resolve_path fs [] base of
                 Found b \<Rightarrow>
                   (let ps = map (\<lambda>p. base @ drop (length b) p)
                          (sort (filter (\<lambda>p. prefix b p \<and> p \<noteq> b) (dict_keys (files fs))))
                    in if list_all (prefix rootdir) ps
                       then Inr (map (\<lambda>p. join_with ''/'' (drop (length rootdir) p)) ps)
                       else Inl PathValueError)
               | _ \<Rightarrow> Inr []))"

section \<open>The contract\<close>

locale object_map =
  fixes put :: "'k \<Rightarrow> 'v \<Rightarrow> 's \<Rightarrow> 'e + ('i \<times> 's)"
    and get :: "'k \<Rightarrow> 's \<Rightarrow> 'e + 'v"
    and has :: "'k \<Rightarrow> 's \<Rightarrow> bool"
    and delete :: "'k \<Rightarrow> 's \<Rightarrow> 'e + 's"
    and good :: "'k \<Rightarrow> bool"
    and inv :: "'s \<Rightarrow> bool"
    and val :: "'s \<Rightarrow> 'k \<Rightarrow> 'v option"
  assumes put_ok: "inv s \<Longrightarrow> good k \<Longrightarrow> \<exists>i s'. put k v s = Inr (i, s')"
    and put_law: "inv s \<Longrightarrow> good k \<Longrightarrow> put k v s = Inr (i, s') \<Longrightarrow>
      inv s' \<and> (\<forall>k'. good k' \<longrightarrow> val s' k' = (if k' = k then Some v else val s k'))"
    and get_law: "inv s \<Longrightarrow> good k \<Longrightarrow>
      (case val s k of None \<Rightarrow> \<exists>e. get k s = Inl e | Some v \<Rightarrow> get k s = Inr v)"
    and has_law: "inv s \<Longrightarrow> good k \<Longrightarrow> has k s \<longleftrightarrow> val s k \<noteq> None"
    and delete_ok: "inv s \<Longrightarrow> good k \<Longrightarrow> \<exists>s'. delete k s = Inr s'"
    and delete_law: "inv s \<Longrightarrow> good k \<Longrightarrow> delete k s = Inr s' \<Longrightarrow>
      inv s' \<and> (\<forall>k'. good k' \<longrightarrow> val s' k' = (if k' = k then None else val s k'))"
begin

lemma get_put_same:
  assumes "inv s" "good k"
  obtains i s' where "put k v s = Inr (i, s')" "get k s' = Inr v" "has k s'"
proof -
  obtain i s' where p: "put k v s = Inr (i, s')" using put_ok [OF assms] by blast
  then have "inv s'" "val s' k = Some v" using put_law [OF assms p] assms(2) by auto
  with get_law [of s' k] has_law [of s' k] assms(2) p show thesis by (intro that) auto
qed

lemma get_put_other:
  assumes "inv s" "good k" "good k'" "k \<noteq> k'" "put k v s = Inr (i, s')"
  shows "(\<exists>w. get k' s' = Inr w) = (\<exists>w. get k' s = Inr w)" "get k' s = Inr w \<Longrightarrow> get k' s' = Inr w"
proof -
  have "inv s'" "val s' k' = val s k'" using put_law [OF assms(1,2,5)] assms(3,4) by auto
  with get_law [OF assms(1,3)] get_law [OF \<open>inv s'\<close> assms(3)]
  show "(\<exists>w. get k' s' = Inr w) = (\<exists>w. get k' s = Inr w)" "get k' s = Inr w \<Longrightarrow> get k' s' = Inr w"
    by (cases "val s k'"; force)+
qed

lemma get_deleted:
  assumes "inv s" "good k"
  obtains s' e where "delete k s = Inr s'" "get k s' = Inl e" "\<not> has k s'"
proof -
  obtain s' where d: "delete k s = Inr s'" using delete_ok [OF assms] by blast
  then have "inv s'" "val s' k = None" using delete_law [OF assms d] assms(2) by auto
  with get_law [of s' k] has_law [of s' k] assms(2) d show thesis by (auto intro: that)
qed

end

interpretation mem: object_map "\<lambda>k v s. Inr (mem_put k v md ct s)" mem_get mem_exists
  "\<lambda>k s. Inr (mem_delete k s)" "\<lambda>k. True" "\<lambda>s. True" "\<lambda>s. dict_get (store s)" for md ct
proof (unfold_locales, goal_cases)
  case (4 s k)
  show ?case by (auto simp: mem_exists_def dict_keys_def map_of_eq_None_iff)
qed (auto simp: mem_put_def mem_get_def mem_delete_def Let_def split: option.split)

section \<open>Resolving paths\<close>

lemma resolve_append:
  "resolve_path fs cur (p @ q) = (case resolve_path fs cur p of Found r \<Rightarrow> resolve_path fs r q | l \<Rightarrow> l)"
  by (induction p arbitrary: cur) (auto split: lookup.split)

lemma strict_prefix_ConsE:
  "(\<forall>q. strict_prefix q (c # cs) \<longrightarrow> P q) \<longleftrightarrow> P [] \<and> (\<forall>q. strict_prefix q cs \<longrightarrow> P (c # q))"
proof -
  have "strict_prefix q (c # cs) \<longleftrightarrow> q = [] \<or> (\<exists>r. q = c # r \<and> strict_prefix r cs)" for q
    by (cases q) (auto simp: strict_prefix_def)
  then show ?thesis by auto
qed

text \<open>A path without \<open>..\<close>, with no file on the way.\<close>

lemma resolve_plain:
  assumes "''..'' \<notin> set cs" "\<forall>q. strict_prefix q cs \<longrightarrow> cur @ q \<notin> set (dict_keys (files fs))"
  shows "resolve_path fs cur cs =
    (if \<forall>q. strict_prefix q cs \<longrightarrow> cur @ q \<in> set (dirs fs) then Found (cur @ cs) else NoEntry)"
  using assms
proof (induction cs arbitrary: cur)
  case (Cons c cs)
  from Cons.prems have "cur \<notin> set (dict_keys (files fs))"
    "\<forall>q. strict_prefix q cs \<longrightarrow> (cur @ [c]) @ q \<notin> set (dict_keys (files fs))" "''..'' \<notin> set cs"
    by (simp_all add: strict_prefix_ConsE)
  with Cons.IH [of "cur @ [c]"] Cons.prems(1) show ?case by (simp add: strict_prefix_ConsE)
qed simp

lemma resolve_Found_plain: "resolve_path fs cur cs = Found q \<Longrightarrow> ''..'' \<notin> set cs \<Longrightarrow> q = cur @ cs"
  by (induction cs arbitrary: cur) (fastforce split: if_splits)+

text \<open>A new or changed file where no directory is leaves the resolution of other paths as it was.\<close>

lemma resolve_set_file:
  "resolve_path fs cur cs = Found q \<Longrightarrow> p \<notin> set (dirs fs) \<Longrightarrow> resolve_path (fs\<lparr>files := dict_set p v (files fs)\<rparr>) cur cs = Found q"
  by (induction cs arbitrary: cur) (auto simp: dict_keys_def dom_update split: if_splits)

text \<open>
  \<open>fs_wf\<close>: the root is there, what is above a file or a directory is a directory, and no path is both.
\<close>

definition parents :: "fs_path \<Rightarrow> fs_path list" where
  "parents p = map (\<lambda>n. take n p) [0..<length p]"

definition fs_wf :: "file_system \<Rightarrow> bool" where
  "fs_wf fs \<longleftrightarrow> [] \<in> set (dirs fs) \<and>
     (\<forall>p\<in>set (dirs fs) \<union> set (dict_keys (files fs)). set (parents p) \<subseteq> set (dirs fs)) \<and>
     set (dirs fs) \<inter> set (dict_keys (files fs)) = {}"

lemma parents_set: "p \<in> set (parents q) \<longleftrightarrow> strict_prefix p q"
proof
  assume "p \<in> set (parents q)"
  then obtain n where "n < length q" "p = take n q" by (auto simp: parents_def)
  then show "strict_prefix p q" by (simp add: strict_prefix_def take_is_prefix)
next
  assume "strict_prefix p q"
  then have "length p < length q" "p = take (length p) q"
    by (auto simp: strict_prefix_def prefix_def prefix_length_less)
  then show "p \<in> set (parents q)" unfolding parents_def by (metis atLeastLessThan_iff image_eqI list.set_map set_upt zero_le)
qed

lemma strict_prefix_butlast: "p \<noteq> [] \<Longrightarrow> strict_prefix q p \<longleftrightarrow> prefix q (butlast p)"
  by (cases p rule: rev_cases) (auto simp: strict_prefix_def)

lemma fs_wf_iff:
  "fs_wf fs \<longleftrightarrow> [] \<in> set (dirs fs) \<and>
     (\<forall>p q. p \<in> set (dirs fs) \<or> p \<in> set (dict_keys (files fs)) \<longrightarrow> strict_prefix q p \<longrightarrow> q \<in> set (dirs fs)) \<and>
     (\<forall>p. p \<in> set (dirs fs) \<longrightarrow> p \<notin> set (dict_keys (files fs)))"
  unfolding fs_wf_def parents_set [symmetric] by blast

lemma fs_wfD:
  assumes "fs_wf fs"
  shows "p \<in> set (dirs fs) \<Longrightarrow> strict_prefix q p \<Longrightarrow> q \<in> set (dirs fs)"
    and "p \<in> set (dict_keys (files fs)) \<Longrightarrow> strict_prefix q p \<Longrightarrow> q \<in> set (dirs fs)"
    and "p \<in> set (dict_keys (files fs)) \<Longrightarrow> p \<notin> set (dirs fs)"
    and "[] \<in> set (dirs fs)"
  using assms unfolding fs_wf_iff by blast+

lemma fs_wfI:
  assumes "[] \<in> set (dirs fs)" "\<And>p q. p \<in> set (dirs fs) \<Longrightarrow> strict_prefix q p \<Longrightarrow> q \<in> set (dirs fs)"
    and "\<And>p q. p \<in> set (dict_keys (files fs)) \<Longrightarrow> strict_prefix q p \<Longrightarrow> q \<in> set (dirs fs)"
    and "\<And>p. p \<in> set (dict_keys (files fs)) \<Longrightarrow> p \<notin> set (dirs fs)"
  shows "fs_wf fs"
  using assms unfolding fs_wf_iff by blast

lemma fs_wf_dirs:
  assumes "fs_wf fs" "set ds = set (dirs fs) \<union> {q. prefix q p}" "\<forall>q. prefix q p \<longrightarrow> q \<notin> set (dict_keys (files fs))"
  shows "fs_wf (fs\<lparr>dirs := ds\<rparr>)"
proof (rule fs_wfI)
  note wf = fs_wfD [OF assms(1)]
  have up: "prefix q p" if "prefix a p" "strict_prefix q a" for a q
    using that by (auto simp: strict_prefix_def intro: prefix_order.trans)
  show "[] \<in> set (dirs (fs\<lparr>dirs := ds\<rparr>))" using assms(2) by simp
  show "q \<in> set (dirs (fs\<lparr>dirs := ds\<rparr>))" if "a \<in> set (dirs (fs\<lparr>dirs := ds\<rparr>))" "strict_prefix q a" for a q
    using that wf(1) up by (auto simp: assms(2))
  show "q \<in> set (dirs (fs\<lparr>dirs := ds\<rparr>))" if "a \<in> set (dict_keys (files (fs\<lparr>dirs := ds\<rparr>)))" "strict_prefix q a" for a q
    using that wf(2) by (simp add: assms(2))
  show "a \<notin> set (dirs (fs\<lparr>dirs := ds\<rparr>))" if "a \<in> set (dict_keys (files (fs\<lparr>dirs := ds\<rparr>)))" for a
    using that wf(3) assms(3) by (auto simp: assms(2))
qed

lemma fs_wf_file:
  assumes "fs_wf fs" "p \<notin> set (dirs fs)" "\<forall>q. strict_prefix q p \<longrightarrow> q \<in> set (dirs fs)"
  shows "fs_wf (fs\<lparr>files := dict_set p v (files fs)\<rparr>)"
proof -
  note wf = fs_wfD [OF assms(1)]
  have keys: "set (dict_keys (dict_set p v (files fs))) = insert p (set (dict_keys (files fs)))"
    by (simp add: dict_keys_def dom_update)
  show ?thesis
  proof (rule fs_wfI, goal_cases)
    case (2 a q)
    then show ?case using wf(1) [of a q] by simp
  next
    case (3 a q)
    then show ?case using wf(2) [of a q] assms(3) by (auto simp: keys)
  next
    case (4 a)
    then show ?case using wf(3) [of a] assms(2) by (auto simp: keys)
  qed (simp add: wf(4))
qed

lemma fs_wf_pop:
  assumes "fs_wf fs"
  shows "fs_wf (fs\<lparr>files := dict_pop p (files fs)\<rparr>)"
proof -
  note wf = fs_wfD [OF assms]
  have keys: "a \<in> set (dict_keys (dict_pop p (files fs))) \<Longrightarrow> a \<in> set (dict_keys (files fs))" for a
    by (auto simp: dict_keys_def)
  show ?thesis
  proof (rule fs_wfI, goal_cases)
    case (2 a q)
    then show ?case using wf(1) [of a q] by simp
  next
    case (3 a q)
    then show ?case using wf(2) [of a q] keys by simp
  next
    case (4 a)
    then show ?case using wf(3) [of a] keys by simp
  qed (simp add: wf(4))
qed

lemma file_key: "dict_get m p = Some v \<Longrightarrow> p \<in> set (dict_keys m)"
  by (simp add: dict_keys_def dict_get_in_keys)

lemma mkdir1_plain:
  assumes "''..'' \<notin> set p" "\<forall>q. prefix q p \<longrightarrow> q \<notin> set (dict_keys (files fs))"
  shows "mkdir1 p fs =
    (if \<forall>q. strict_prefix q p \<longrightarrow> q \<in> set (dirs fs)
     then Inr (if p \<in> set (dirs fs) then fs else fs\<lparr>dirs := dirs fs @ [p]\<rparr>) else Inl FileNotFoundError)"
proof -
  have "\<forall>q. strict_prefix q p \<longrightarrow> [] @ q \<notin> set (dict_keys (files fs))" "p \<notin> set (dict_keys (files fs))"
    using assms(2) by (auto simp: prefix_order.less_imp_le)
  then show ?thesis using resolve_plain [OF assms(1), of "[]" fs] by (simp add: mkdir1_def)
qed

lemma mkdir_parents_snoc:
  "mkdir_parents (p @ [c]) fs =
     (case mkdir1 (p @ [c]) fs of
        Inl FileNotFoundError \<Rightarrow>
          (case mkdir_parents p fs of Inl e \<Rightarrow> Inl e | Inr fs1 \<Rightarrow> mkdir1 (p @ [c]) fs1)
      | Inl e \<Rightarrow> Inl e
      | Inr fs1 \<Rightarrow> Inr fs1)"
  by (simp add: mkdir_parents_def split: sum.split store_error.split)

text \<open>Where no file is in the way, the directory and all above it are there afterwards, and nothing else is new.\<close>

lemma mkdir_parents_plain:
  assumes "fs_wf fs"
  shows "''..'' \<notin> set p \<Longrightarrow> \<forall>q. prefix q p \<longrightarrow> q \<notin> set (dict_keys (files fs)) \<Longrightarrow>
    \<exists>ds. mkdir_parents p fs = Inr (fs\<lparr>dirs := ds\<rparr>) \<and> set ds = set (dirs fs) \<union> {q. prefix q p}"
proof (induction p rule: rev_induct)
  case Nil
  show ?case
    using fs_wfD(4) [OF assms] mkdir1_plain [of "[]" fs] Nil
    by (intro exI [of _ "dirs fs"]) (auto simp: mkdir_parents_def)
next
  case (snoc c p)
  have here: "prefix q (p @ [c]) \<longleftrightarrow> q = p @ [c] \<or> strict_prefix q (p @ [c])" for q
    by (auto simp: prefix_order.le_less)
  show ?case
  proof (cases "\<forall>q. strict_prefix q (p @ [c]) \<longrightarrow> q \<in> set (dirs fs)")
    case True
    with mkdir1_plain [OF snoc.prems] here show ?thesis
      by (intro exI [of _ "if p @ [c] \<in> set (dirs fs) then dirs fs else dirs fs @ [p @ [c]]"])
        (auto simp: mkdir_parents_snoc)
  next
    case False
    obtain ds where ds: "mkdir_parents p fs = Inr (fs\<lparr>dirs := ds\<rparr>)" "set ds = set (dirs fs) \<union> {q. prefix q p}"
      using snoc by auto
    have above: "strict_prefix q (p @ [c]) \<longleftrightarrow> prefix q p" for q using strict_prefix_butlast [of "p @ [c]"] by simp
    let ?ds = "if p @ [c] \<in> set ds then ds else ds @ [p @ [c]]"
    have "mkdir1 (p @ [c]) (fs\<lparr>dirs := ds\<rparr>) = Inr (fs\<lparr>dirs := ?ds\<rparr>)"
      using mkdir1_plain [of "p @ [c]" "fs\<lparr>dirs := ds\<rparr>"] snoc.prems ds(2) by (simp add: above)
    with False ds mkdir1_plain [OF snoc.prems] show ?thesis
      by (intro exI [of _ ?ds]) (auto simp: mkdir_parents_snoc)
  qed
qed

section \<open>The file store provides the contract\<close>

text \<open>
  A family of keys is \<open>separate\<close> if no key has a \<open>..\<close>, and no key's path is the root, outside it, or on
  the way to the path of another key; \<open>fs_ok\<close>: nothing on the disk is in the way of the family.
\<close>

definition separate :: "fs_path \<Rightarrow> string set \<Rightarrow> bool" where
  "separate rootdir K \<longleftrightarrow>
     (\<forall>k\<in>K. ''..'' \<notin> set (fs_path_of rootdir k) \<and> strict_prefix rootdir (fs_path_of rootdir k)) \<and>
     (\<forall>k\<in>K. \<forall>k'\<in>K. k \<noteq> k' \<longrightarrow> \<not> prefix (fs_path_of rootdir k) (fs_path_of rootdir k'))"

definition fs_ok :: "fs_path \<Rightarrow> string set \<Rightarrow> file_system \<Rightarrow> bool" where
  "fs_ok rootdir K fs \<longleftrightarrow> fs_wf fs \<and> separate rootdir K \<and>
     (\<forall>k\<in>K. fs_path_of rootdir k \<notin> set (dirs fs) \<and>
        (\<forall>p\<in>set (parents (fs_path_of rootdir k)). p \<notin> fst ` set (files fs)))"

lemma separate_inj:
  "separate rootdir K \<Longrightarrow> k \<in> K \<Longrightarrow> k' \<in> K \<Longrightarrow> fs_path_of rootdir k = fs_path_of rootdir k' \<longleftrightarrow> k = k'"
  unfolding separate_def by (metis prefix_order.refl)

lemma fs_ok_resolve:
  assumes "fs_ok rootdir K fs" "k \<in> K"
  shows "resolve_path fs [] (fs_path_of rootdir k) =
    (if \<forall>q. strict_prefix q (fs_path_of rootdir k) \<longrightarrow> q \<in> set (dirs fs)
     then Found (fs_path_of rootdir k) else NoEntry)"
proof -
  have "''..'' \<notin> set (fs_path_of rootdir k)" using assms by (simp add: fs_ok_def separate_def)
  moreover have "\<forall>q. strict_prefix q (fs_path_of rootdir k) \<longrightarrow> [] @ q \<notin> set (dict_keys (files fs))"
    using assms by (simp add: fs_ok_def parents_set dict_keys_def)
  ultimately show ?thesis using resolve_plain [of _ "[]" fs] by simp
qed

lemma fs_put_good:
  assumes "fs_ok rootdir K fs" "k \<in> K"
  shows "\<exists>ds. fs_put rootdir k v fs =
      Inr (''local-'' @ show_nat (length v),
           fs\<lparr>dirs := ds, files := dict_set (fs_path_of rootdir k) v (files fs)\<rparr>) \<and>
    set ds = set (dirs fs) \<union> set (parents (fs_path_of rootdir k)) \<and> fs_path_of rootdir k \<notin> set ds \<and>
    fs_wf (fs\<lparr>dirs := ds, files := dict_set (fs_path_of rootdir k) v (files fs)\<rparr>)"
proof -
  let ?p = "fs_path_of rootdir k"
  have wf: "fs_wf fs" and ne: "?p \<noteq> []" and dots: "''..'' \<notin> set ?p" and new: "?p \<notin> set (dirs fs)"
    and way: "\<forall>q. strict_prefix q ?p \<longrightarrow> q \<notin> set (dict_keys (files fs))"
    using assms by (auto simp: fs_ok_def separate_def parents_set dict_keys_def)
  have above: "strict_prefix q ?p \<longleftrightarrow> prefix q (butlast ?p)" for q by (rule strict_prefix_butlast [OF ne])
  have no: "\<forall>q. prefix q (butlast ?p) \<longrightarrow> q \<notin> set (dict_keys (files fs))" using way by (simp add: above)
  obtain ds where ds: "mkdir_parents (butlast ?p) fs = Inr (fs\<lparr>dirs := ds\<rparr>)"
    "set ds = set (dirs fs) \<union> {q. prefix q (butlast ?p)}"
    using mkdir_parents_plain [OF wf _ no] dots by (blast dest: in_set_butlastD)
  let ?fs1 = "fs\<lparr>dirs := ds\<rparr>"
  have wf1: "fs_wf ?fs1" using fs_wf_dirs [OF wf ds(2) no] .
  have all: "\<forall>q. strict_prefix q ?p \<longrightarrow> q \<in> set (dirs ?fs1)" using ds(2) by (simp add: above)
  have "\<not> prefix ?p (butlast ?p)" by (simp add: above [symmetric])
  then have out: "?p \<notin> set ds" using ds(2) new by simp
  have "\<forall>q. strict_prefix q ?p \<longrightarrow> [] @ q \<notin> set (dict_keys (files ?fs1))" using way by simp
  from resolve_plain [OF dots this] all have "resolve_path ?fs1 [] ?p = Found ?p" by simp
  then have "fs_put rootdir k v fs = Inr (''local-'' @ show_nat (length v),
      fs\<lparr>dirs := ds, files := dict_set ?p v (files fs)\<rparr>)"
    using ds(1) out by (simp add: fs_put_def Let_def write_bytes_def)
  moreover have "set ds = set (dirs fs) \<union> set (parents ?p)" using ds(2) above by (auto simp: parents_set)
  ultimately show ?thesis using fs_wf_file [OF wf1 _ all, of v] out by (intro exI [of _ ds]) simp
qed

lemma fs_put_ok:
  assumes "fs_ok rootdir K fs" "k \<in> K" "fs_put rootdir k v fs = Inr (i, fs')"
  shows "fs_ok rootdir K fs'"
    and "k' \<in> K \<Longrightarrow> dict_get (files fs') (fs_path_of rootdir k') =
      (if k' = k then Some v else dict_get (files fs) (fs_path_of rootdir k'))"
proof -
  let ?p = "fs_path_of rootdir"
  obtain ds where fs': "fs' = fs\<lparr>dirs := ds, files := dict_set (?p k) v (files fs)\<rparr>"
    and ds: "set ds = set (dirs fs) \<union> set (parents (?p k))" "?p k \<notin> set ds" and wf: "fs_wf fs'"
    using fs_put_good [OF assms(1,2), of v] assms(3) by auto
  have sep: "separate rootdir K" using assms(1) by (simp add: fs_ok_def)
  have np: "\<not> prefix (?p a) (?p b)" if "a \<in> K" "b \<in> K" "a \<noteq> b" for a b
    using sep that by (simp add: separate_def)
  have "?p j \<notin> set ds" if "j \<in> K" for j
  proof (cases "j = k")
    case False
    then have "\<not> strict_prefix (?p j) (?p k)" using np that assms(2) by (meson prefix_order.less_imp_le)
    with assms(1) that show ?thesis by (simp add: ds(1) parents_set fs_ok_def)
  qed (simp add: ds(2))
  moreover have "q \<notin> fst ` set (files fs')" if "j \<in> K" "q \<in> set (parents (?p j))" for j q
  proof -
    have "q \<noteq> ?p k"
    proof
      assume "q = ?p k"
      then have sp: "strict_prefix (?p k) (?p j)" using that(2) by (simp add: parents_set)
      then have "j \<noteq> k" by auto
      with np [OF assms(2) that(1)] sp show False by (metis prefix_order.less_imp_le)
    qed
    with assms(1) that show ?thesis by (simp add: fs' fs_ok_def)
  qed
  ultimately show "fs_ok rootdir K fs'" using sep wf by (simp add: fs_ok_def fs')
  show "k' \<in> K \<Longrightarrow> dict_get (files fs') (?p k') =
      (if k' = k then Some v else dict_get (files fs) (?p k'))"
    using separate_inj [OF sep assms(2), of k'] by (auto simp: fs')
qed

lemma fs_file_found:
  assumes "fs_ok rootdir K fs" "k \<in> K" "dict_get (files fs) (fs_path_of rootdir k) = Some v"
  shows "resolve_path fs [] (fs_path_of rootdir k) = Found (fs_path_of rootdir k)"
proof -
  have "fs_wf fs" using assms(1) by (simp add: fs_ok_def)
  from fs_wfD(2) [OF this file_key [OF assms(3)]] show ?thesis by (simp add: fs_ok_resolve [OF assms(1,2)])
qed

lemma fs_exists_good:
  assumes "fs_ok rootdir K fs" "k \<in> K"
  shows "fs_exists_path (fs_path_of rootdir k) fs \<longleftrightarrow> dict_get (files fs) (fs_path_of rootdir k) \<noteq> None"
proof
  assume "dict_get (files fs) (fs_path_of rootdir k) \<noteq> None"
  then show "fs_exists_path (fs_path_of rootdir k) fs"
    using fs_file_found [OF assms] by (auto simp: fs_exists_path_def file_key)
next
  assume "fs_exists_path (fs_path_of rootdir k) fs"
  then have "fs_path_of rootdir k \<in> set (dict_keys (files fs))"
    using assms by (auto simp: fs_exists_path_def fs_ok_resolve fs_ok_def split: if_splits)
  then show "dict_get (files fs) (fs_path_of rootdir k) \<noteq> None"
    by (auto simp: dict_keys_def map_of_eq_None_iff)
qed

lemma fs_get_good:
  assumes "fs_ok rootdir K fs" "k \<in> K"
  shows "fs_get rootdir k fs =
    (case dict_get (files fs) (fs_path_of rootdir k) of
       None \<Rightarrow> Inl (NotFoundError (''Object not found: '' @ py_repr k)) | Some v \<Rightarrow> Inr v)"
  using fs_exists_good [OF assms] fs_file_found [OF assms]
  by (auto simp: fs_get_def Let_def read_bytes_def split: option.split)

lemma fs_delete_good:
  assumes "fs_ok rootdir K fs" "k \<in> K"
  shows "fs_delete rootdir k fs =
    Inr (if dict_get (files fs) (fs_path_of rootdir k) = None then fs
         else fs\<lparr>files := dict_pop (fs_path_of rootdir k) (files fs)\<rparr>)"
  using fs_exists_good [OF assms] fs_file_found [OF assms]
  by (auto simp: fs_delete_def Let_def file_key)

interpretation local_fs: object_map "fs_put rootdir" "fs_get rootdir" "fs_exists rootdir"
  "fs_delete rootdir" "\<lambda>k. k \<in> K" "fs_ok rootdir K" "\<lambda>fs k. dict_get (files fs) (fs_path_of rootdir k)"
  for rootdir K
proof (unfold_locales, goal_cases)
  case (1 s k v)
  then show ?case using fs_put_good by fastforce
next
  case (2 s k v i s')
  then show ?case using fs_put_ok by blast
next
  case (3 s k)
  then show ?case by (simp add: fs_get_good split: option.split)
next
  case (4 s k)
  then show ?case by (simp add: fs_exists_def fs_exists_good)
next
  case (5 s k)
  then show ?case by (simp add: fs_delete_good)
next
  case (6 s k s')
  then have sep: "separate rootdir K" by (simp add: fs_ok_def)
  have "fs_ok rootdir K (s\<lparr>files := dict_pop p (files s)\<rparr>)" for p
    using 6(1) by (simp add: fs_ok_def fs_wf_pop)
  with 6 show ?case
    using separate_inj [OF sep, of k] by (auto simp: fs_delete_good split: if_splits)
qed

section \<open>Properties\<close>

text \<open>
  C34: on disk, for keys without \<open>..\<close> whose paths do not get in each other's way: a \<open>put\<close> succeeds, the key
  then reads back and exists, every other key reads as before, and nothing gets in the way of later puts.
\<close>

theorem file_store_put_get:
  assumes "fs_ok rootdir K fs" "k \<in> K"
  shows "\<exists>i fs'. fs_put rootdir k v fs = Inr (i, fs') \<and> fs_get rootdir k fs' = Inr v \<and>
    fs_exists rootdir k fs' \<and> fs_ok rootdir K fs' \<and>
    (\<forall>k'\<in>K. k' \<noteq> k \<longrightarrow> (\<forall>w. fs_get rootdir k' fs = Inr w \<longrightarrow> fs_get rootdir k' fs' = Inr w))"
proof -
  obtain i fs' where p: "fs_put rootdir k v fs = Inr (i, fs')" "fs_get rootdir k fs' = Inr v" "fs_exists rootdir k fs'"
    using local_fs.get_put_same [OF assms] by blast
  moreover have "fs_ok rootdir K fs'" by (rule fs_put_ok(1) [OF assms p(1)])
  moreover have "fs_get rootdir k' fs' = Inr w" if "k' \<in> K" "k' \<noteq> k" "fs_get rootdir k' fs = Inr w" for k' w
    using local_fs.get_put_other(2) [OF assms that(1) _ p(1) that(3)] that(2) by blast
  ultimately show ?thesis by blast
qed

definition demo_disk :: file_system where
  "demo_disk = \<lparr>files = [([''data'', ''a'', ''x''], ''1'')], dirs = [[], [''data''], [''data'', ''a'']]\<rparr>"

lemma demo_disk_wf: "fs_wf demo_disk"
  by code_simp

lemma file_store_put_get_witness:
  "\<exists>i fs'. fs_put [''data''] ''a/y'' ''2'' demo_disk = Inr (i, fs') \<and>
    fs_get [''data''] ''a/y'' fs' = Inr ''2'' \<and> fs_get [''data''] ''a/x'' fs' = Inr ''1''"
proof -
  have paths: "fs_path_of [''data''] ''a/x'' = [''data'', ''a'', ''x'']"
    "fs_path_of [''data''] ''a/y'' = [''data'', ''a'', ''y'']"
    by (simp_all add: fs_path_of_def path_join_def drop_slash_def path_parts_def py_startswith_def)
  have "fs_ok [''data''] {''a/x'', ''a/y''} demo_disk"
    by (auto simp: fs_ok_def separate_def paths demo_disk_def parents_set strict_prefix_def demo_disk_wf [unfolded demo_disk_def])
  moreover have "fs_get [''data''] ''a/x'' demo_disk = Inr ''1''"
    by code_simp
  ultimately show ?thesis
    using file_store_put_get [of "[''data'']" "{''a/x'', ''a/y''}" demo_disk "''a/y''" "''2''"] by auto
qed

text \<open>What is written is at the place the path resolves to, and is read back under every key with that path.\<close>

lemma put_places:
  assumes "fs_put r key v fs = Inr (i, fs')"
  obtains w where "resolve_path fs' [] (fs_path_of r key) = Found w" "dict_get (files fs') w = Some v"
proof -
  obtain fs1 where "write_bytes (fs_path_of r key) v fs1 = Inr fs'"
    using assms by (auto simp: fs_put_def Let_def split: sum.splits)
  then obtain w where w: "resolve_path fs1 [] (fs_path_of r key) = Found w" "w \<notin> set (dirs fs1)"
    "fs' = fs1\<lparr>files := dict_set w v (files fs1)\<rparr>"
    by (auto simp: write_bytes_def split: lookup.splits if_splits)
  have "resolve_path fs' [] (fs_path_of r key) = Found w" using resolve_set_file [OF w(1,2)] by (simp add: w(3))
  moreover have "dict_get (files fs') w = Some v" by (simp add: w(3))
  ultimately show thesis by (rule that)
qed

lemma read_after_put:
  assumes "fs_put r key v fs = Inr (i, fs')" "fs_path_of r key = p" "fs_path_of r' key' = p"
  shows "fs_get r' key' fs' = Inr v"
proof -
  obtain w where "resolve_path fs' [] (fs_path_of r key) = Found w" "dict_get (files fs') w = Some v"
    using put_places [OF assms(1)] .
  with assms(2,3) show ?thesis
    by (simp add: fs_get_def Let_def fs_exists_path_def read_bytes_def file_key)
qed

lemma split_slash_slash: "path_parts (CHR ''/'' # s) = path_parts s"
  by (simp add: path_parts_def)

text \<open>
  C35: a key that begins with two slashes leaves the store: only one slash is stripped, the rest is
  an absolute path, and two stores with different roots read and write the same file under it.
\<close>

theorem double_slash_key_escapes_root:
  assumes "fs_put r ([CHR ''/'', CHR ''/''] @ k) v fs = Inr (i, fs')"
  shows "fs_path_of r ([CHR ''/'', CHR ''/''] @ k) = path_parts k \<and>
    fs_get r' ([CHR ''/'', CHR ''/''] @ k) fs' = Inr v"
proof -
  have p: "fs_path_of q ([CHR ''/'', CHR ''/''] @ k) = path_parts k" for q
    by (simp add: fs_path_of_def path_join_def drop_slash_def py_startswith_def split_slash_slash)
  from read_after_put [OF assms p p] p show ?thesis by blast
qed

lemma double_slash_key_escapes_root_witness:
  "\<exists>i fs'. fs_put [''data''] ''//etc/x'' ''2'' demo_disk = Inr (i, fs') \<and>
    fs_path_of [''data''] ''//etc/x'' = [''etc'', ''x''] \<and> fs_get [''other''] ''//etc/x'' fs' = Inr ''2''"
proof -
  have "case fs_put [''data''] ([CHR ''/'', CHR ''/''] @ ''etc/x'') ''2'' demo_disk of Inl e \<Rightarrow> False | Inr _ \<Rightarrow> True"
    by code_simp
  then obtain i fs' where put: "fs_put [''data''] ([CHR ''/'', CHR ''/''] @ ''etc/x'') ''2'' demo_disk = Inr (i, fs')"
    by (auto split: sum.splits)
  from double_slash_key_escapes_root [OF put, of "[''other'']"] put
  show ?thesis by (auto simp: path_parts_def)
qed

text \<open>
  The same holds of a key that begins with \<open>..\<close>: it names a file beside the root, which a store on the directory
  above has under the rest of the key.  And a \<open>..\<close> further in makes different keys name one file.
\<close>

lemma dotdot_key_leaves_root:
  assumes put: "fs_put r (''../'' @ k) v fs = Inr (i, fs')" and r: "''..'' \<notin> set r"
    and k: "\<not> py_startswith k ''/''"
  shows "fs_get (butlast r) k fs' = Inr v"
proof -
  have parts: "path_parts (''../'' @ k) = ''..'' # path_parts k" by (simp add: path_parts_def)
  have p: "fs_path_of r (''../'' @ k) = r @ ''..'' # path_parts k"
    by (simp add: fs_path_of_def path_join_def drop_slash_def py_startswith_def parts [simplified])
  have q: "fs_path_of (butlast r) k = butlast r @ path_parts k"
    using k by (simp add: fs_path_of_def path_join_def drop_slash_def)
  obtain w where w: "resolve_path fs' [] (r @ ''..'' # path_parts k) = Found w" "dict_get (files fs') w = Some v"
    using put_places [OF put] unfolding p by blast
  from w(1) obtain q where q': "resolve_path fs' [] r = Found q" "resolve_path fs' q (''..'' # path_parts k) = Found w"
    unfolding resolve_append by (auto split: lookup.splits)
  moreover have "q = r" using resolve_Found_plain [OF q'(1) r] by simp
  ultimately have "resolve_path fs' [] r = Found r" "resolve_path fs' (butlast r) (path_parts k) = Found w"
    by (simp_all split: if_splits)
  moreover have "resolve_path fs' [] (butlast r) = Found (butlast r)"
  proof (cases r rule: rev_cases)
    case (snoc a c)
    with \<open>resolve_path fs' [] r = Found r\<close> show ?thesis
      using resolve_Found_plain [of fs' "[]" a] r by (auto simp: resolve_append split: lookup.splits if_splits)
  qed simp
  ultimately have "resolve_path fs' [] (butlast r @ path_parts k) = Found w" by (simp add: resolve_append)
  with w(2) show ?thesis
    by (simp add: fs_get_def Let_def q fs_exists_path_def read_bytes_def file_key)
qed

lemma dotdot_keys_collide:
  "\<exists>i fs'. fs_put [''data''] ''a/../x'' ''2'' demo_disk = Inr (i, fs') \<and> fs_get [''data''] ''x'' fs' = Inr ''2''
    \<and> fs_list [''data''] ''a/..'' fs' = Inr [''a/../a/x'', ''a/../x'']"
proof -
  have "case fs_put [''data''] ''a/../x'' ''2'' demo_disk of Inl e \<Rightarrow> False
    | Inr (i, fs') \<Rightarrow> fs_get [''data''] ''x'' fs' = Inr ''2'' \<and> fs_list [''data''] ''a/..'' fs' = Inr [''a/../a/x'', ''a/../x'']"
    by code_simp
  then show ?thesis by (auto split: sum.splits)
qed

text \<open>
  In memory, \<open>list\<close> yields exactly the stored keys with the prefix, sorted and each once.
\<close>

theorem mem_list_spec:
  assumes "distinct (map fst (store s))"
  shows "sorted (mem_list pre s) \<and> distinct (mem_list pre s) \<and>
    set (mem_list pre s) = {k. dict_get (store s) k \<noteq> None \<and> py_startswith k pre}"
proof -
  have "sorted (sort (dict_keys (store s)))" by (rule sorted_sort)
  then have "sorted (mem_list pre s)" unfolding mem_list_def by (rule sorted_filter [where f = "\<lambda>x. x", simplified])
  moreover have "distinct (mem_list pre s)" using assms by (simp add: mem_list_def dict_keys_def)
  moreover have "dict_get (store s) k \<noteq> None \<longleftrightarrow> k \<in> set (dict_keys (store s))" for k
    by (simp add: dict_keys_def map_of_eq_None_iff)
  then have "set (mem_list pre s) = {k. dict_get (store s) k \<noteq> None \<and> py_startswith k pre}"
    by (auto simp: mem_list_def)
  ultimately show ?thesis by blast
qed

lemma mem_list_spec_witness:
  "sorted (mem_list ''a'' \<lparr>store = [(''ab'', ''1''), (''b'', ''2'')], meta = []\<rparr>) \<and>
    set (mem_list ''a'' \<lparr>store = [(''ab'', ''1''), (''b'', ''2'')], meta = []\<rparr>) =
      {k. dict_get [(''ab'', ''1''), (''b'', ''2'')] k \<noteq> None \<and> py_startswith k ''a''}"
  using mem_list_spec [of "\<lparr>store = [(''ab'', ''1''), (''b'', ''2'')], meta = []\<rparr>" "''a''"] by simp

end
