(* ===== verification/CoreModels.thy ===== *)
theory CoreModels
  imports Prelude
begin

text \<open>
  The shared models and identifiers (\<open>intelliqx_core\<close>: \<open>models.py\<close>, \<open>ids.py\<close>, \<open>events.py\<close>).

  Python's \<open>$\<close> matches at the end and also just before a line feed at the end, so
  \<open>re.match\<close> with \<open>ULID_RE\<close> is the test written out in \<open>is_valid_id\<close>.  \<open>ulid.parse\<close> is a
  parameter, and so is \<open>new_id\<close>, the library's fresh id.
\<close>

datatype HealthStatus = HEALTHY | DEGRADED | UNHEALTHY

datatype AgentCategory = Coordination | Intelligence | Execution | Governance

fun category_value :: "AgentCategory \<Rightarrow> string" where
  "category_value Coordination = ''coordination''"
| "category_value Intelligence = ''intelligence''"
| "category_value Execution = ''execution''"
| "category_value Governance = ''governance''"

record AgentCapability =
  cap_name :: string
  cap_description :: string
  cap_input_schema :: "(string, json) dict"
  cap_output_schema :: "(string, json) dict"
  cost_ceiling_usd :: "rat option"
  latency_sla_ms :: "int option"

record AgentRef =
  ref_name :: string
  ref_category :: AgentCategory
  ref_version :: string

definition agent_ref :: "string \<Rightarrow> AgentCategory \<Rightarrow> AgentRef" where
  "agent_ref n c = \<lparr>ref_name = n, ref_category = c, ref_version = ''0.1.0''\<rparr>"

record Goal =
  goal_id :: string
  goal_tenant_id :: string
  goal_kind :: string
  goal_description :: string
  goal_inputs :: "(string, json) dict"
  goal_constraints :: "(string, json) dict"
  goal_created_at :: rat

record TenantContext =
  tc_tenant_id :: string
  tc_user_id :: "string option"
  tc_roles :: "string list"
  tc_trace_id :: "string option"

text \<open>The workflow statuses of the core library and the transitions that its documentation allows.\<close>

datatype FlowStatus = FlowPending | FlowRunning | FlowSucceeded | FlowFailed | FlowCancelled | FlowPaused

record PlanNode =
  pn_node_id :: string
  pn_agent :: string
  pn_inputs :: "(string, json) dict"
  pn_depends_on :: "string list"
  pn_timeout_seconds :: int
  pn_retry_policy :: "(string, json) dict"

text \<open>\<open>PlanNode(..)\<close>: validation of the one constrained field.\<close>

definition mk_plan_node :: "string \<Rightarrow> string \<Rightarrow> (string, json) dict \<Rightarrow> string list \<Rightarrow> int option \<Rightarrow> PlanNode option" where
  "mk_plan_node i a ins deps timeout =
     (let t = (case timeout of None \<Rightarrow> 300 | Some t \<Rightarrow> t)
      in if 0 < t \<and> t \<le> 3600
         then Some \<lparr>pn_node_id = i, pn_agent = a, pn_inputs = ins, pn_depends_on = deps,
                   pn_timeout_seconds = t, pn_retry_policy = []\<rparr>
         else None)"

record EventMetadata =
  event_id :: string
  em_tenant_id :: string
  correlation_id :: "string option"
  causation_id :: "string option"
  produced_by :: string
  schema_version :: string
  emitted_at :: rat

text \<open>\<open>EventMetadata(..)\<close> with its defaults: \<open>new_id\<close> is the fresh id and \<open>now\<close> the time.\<close>

definition new_metadata ::
    "string \<Rightarrow> rat \<Rightarrow> string \<Rightarrow> string option \<Rightarrow> string option \<Rightarrow> string \<Rightarrow> EventMetadata" where
  "new_metadata new_id now tenant correlation causation producer =
     \<lparr>event_id = new_id, em_tenant_id = tenant, correlation_id = correlation, causation_id = causation,
      produced_by = producer, schema_version = ''1.0'', emitted_at = now\<rparr>"

record BaseEvent =
  be_detail_type :: string
  be_metadata :: EventMetadata

record EventEnvelope =
  detail_type :: string
  payload :: json
  env_metadata :: EventMetadata

text \<open>\<open>from_event\<close>: the class name and the dumped event are what the code reads of the event.\<close>

definition from_event :: "string \<Rightarrow> json \<Rightarrow> EventMetadata \<Rightarrow> EventEnvelope" where
  "from_event class_name dumped md = \<lparr>detail_type = class_name, payload = dumped, env_metadata = md\<rparr>"

section \<open>Identifiers\<close>

definition crockford :: "char \<Rightarrow> bool" where
  "crockford c = (let n = of_char c :: nat in
     48 \<le> n \<and> n \<le> 57 \<or> 65 \<le> n \<and> n \<le> 72 \<or> n = 74 \<or> n = 75 \<or> n = 77 \<or> n = 78
     \<or> 80 \<le> n \<and> n \<le> 84 \<or> 86 \<le> n \<and> n \<le> 90)"

definition is_valid_id :: "string \<Rightarrow> bool" where
  "is_valid_id v \<longleftrightarrow>
     26 \<le> length v \<and> list_all crockford (take 26 v) \<and>
     (drop 26 v = [] \<or> drop 26 v = [char_of (10 :: nat)])"

datatype 'u parsed_id = InvalidId string | ParsedId 'u

definition parse_id :: "(string \<Rightarrow> 'u) \<Rightarrow> string \<Rightarrow> 'u parsed_id" where
  "parse_id ulid_parse v =
     (if \<not> is_valid_id v then InvalidId (''Invalid ULID: '' @ py_repr v) else ParsedId (ulid_parse v))"

text \<open>
  The check is not strict, as its documentation says: a line feed after a valid identifier passes,
  and \<open>parse_id\<close> hands the longer string on.
\<close>

lemma line_feed_accepted:
  "length u = 26 \<Longrightarrow> list_all crockford u \<Longrightarrow> is_valid_id (u @ [char_of (10 :: nat)])"
  by (simp add: is_valid_id_def)

lemma valid_id_chars: "is_valid_id v \<Longrightarrow> set v \<subseteq> insert (char_of (10 :: nat)) {c. crockford c}"
proof -
  assume v: "is_valid_id v"
  have "set v \<subseteq> set (take 26 v) \<union> set (drop 26 v)"
    by (metis append_take_drop_id set_append subset_refl)
  with v show ?thesis by (auto simp: is_valid_id_def list_all_iff)
qed

end
