(* ===== verification/Tools.thy ===== *)
theory Tools
  imports Compute
begin

text \<open>
  Tools (\<open>intelliqx_tools\<close>: \<open>registry.py\<close>, \<open>rate_limit.py\<close>, \<open>manager.py\<close>).

  A token bucket is its tokens and the time of its last refill.  One turn of the loop of
  \<open>acquire\<close> holds the lock, so \<open>try_acquire\<close> is atomic; between turns the coroutine sleeps and
  other calls run.  \<open>created\<close> and \<open>now\<close> are the two clock readings of a turn (the first is used
  only when the bucket is new).  \<open>acquire\<close> is the loop of one call with a bound on its turns;
  \<open>attempts\<close> is any interleaving of turns on one bucket.
\<close>

section \<open>The registry\<close>

record ToolDefinition =
  tool_name :: string
  tool_version :: string
  tool_description :: string
  tool_input_schema :: "(string, json) dict"
  tool_output_schema :: "(string, json) dict"
  rate_limit_per_minute :: int
  capabilities :: "string list"

type_synonym tool_registry = "(string, ToolDefinition) dict"

datatype key_error = KeyError string

definition reg_register :: "ToolDefinition \<Rightarrow> tool_registry \<Rightarrow> tool_registry" where
  "reg_register tool r = dict_set (tool_name tool) tool r"

definition reg_get :: "string \<Rightarrow> tool_registry \<Rightarrow> key_error + ToolDefinition" where
  "reg_get n r =
     (case dict_get r n of
        None \<Rightarrow> Inl (KeyError (''Tool not found: '' @ py_repr n)) | Some t \<Rightarrow> Inr t)"

definition list_tools :: "tool_registry \<Rightarrow> ToolDefinition list" where
  "list_tools r = map snd r"

definition find_by_capability :: "string \<Rightarrow> tool_registry \<Rightarrow> ToolDefinition list" where
  "find_by_capability c r = filter (\<lambda>t. c \<in> set (capabilities t)) (map snd r)"

section \<open>The rate limiter\<close>

record bucket =
  tokens :: rat
  last_refill :: rat

type_synonym buckets = "(string, bucket) dict"

definition try_acquire ::
    "rat \<Rightarrow> rat \<Rightarrow> string \<Rightarrow> int \<Rightarrow> buckets \<Rightarrow> bool \<times> buckets" where
  "try_acquire created now key rate bs =
     (let capacity = of_int rate :: rat;
          refill_per_sec = capacity / 60;
          b = (case dict_get bs key of
                 None \<Rightarrow> \<lparr>tokens = 0, last_refill = created\<rparr> | Some b \<Rightarrow> b);
          elapsed = now - last_refill b;
          filled = min capacity (tokens b + elapsed * refill_per_sec)
      in if 1 \<le> filled
         then (True, dict_set key \<lparr>tokens = filled - 1, last_refill = now\<rparr> bs)
         else (False, dict_set key \<lparr>tokens = filled, last_refill = now\<rparr> bs))"

text \<open>\<open>clock i\<close> is the pair of readings of turn \<open>i\<close>; the result is the number of turns.\<close>

fun acquire ::
    "nat \<Rightarrow> nat \<Rightarrow> (nat \<Rightarrow> rat \<times> rat) \<Rightarrow> string \<Rightarrow> int \<Rightarrow> buckets \<Rightarrow> (nat \<times> buckets) option" where
  "acquire 0 i clock key rate bs = None"
| "acquire (Suc fuel) i clock key rate bs =
     (case try_acquire (fst (clock i)) (snd (clock i)) key rate bs of
        (True, bs') \<Rightarrow> Some (Suc i, bs')
      | (False, bs') \<Rightarrow> acquire fuel (Suc i) clock key rate bs')"

fun attempts :: "(rat \<times> rat) list \<Rightarrow> string \<Rightarrow> int \<Rightarrow> buckets \<Rightarrow> nat \<times> buckets" where
  "attempts [] key rate bs = (0, bs)"
| "attempts ((c, t) # ts) key rate bs =
     (let (ok, bs') = try_acquire c t key rate bs; (n, bs'') = attempts ts key rate bs'
      in ((if ok then Suc n else n), bs''))"

section \<open>The manager\<close>

record ToolInvocationResult =
  tir_tool :: string
  tir_status :: string
  tir_output :: json
  tir_error :: "string option"

type_synonym tool_handler = "(string, json) dict \<Rightarrow> exn + json"

record ToolManager =
  registry :: tool_registry
  handlers :: "(string, tool_handler) dict"
  rate_limiter :: buckets

datatype invoke_error = LookupFailed key_error | HandlerCancelled

definition register_tool :: "ToolDefinition \<Rightarrow> tool_handler \<Rightarrow> ToolManager \<Rightarrow> ToolManager" where
  "register_tool d h m =
     m\<lparr>registry := reg_register d (registry m), handlers := dict_set (tool_name d) h (handlers m)\<rparr>"

text \<open>\<open>None\<close>: the call is still waiting for a token after \<open>fuel\<close> turns.\<close>

definition tool_invoke ::
    "nat \<Rightarrow> (nat \<Rightarrow> rat \<times> rat) \<Rightarrow> string \<Rightarrow> (string, json) dict option \<Rightarrow> ToolManager
      \<Rightarrow> ((invoke_error + ToolInvocationResult) \<times> ToolManager) option" where
  "tool_invoke fuel clock name payload m =
     (case dict_get (handlers m) name of
        None \<Rightarrow> Some (Inr \<lparr>tir_tool = name, tir_status = ''not_found'', tir_output = JNull,
                         tir_error = Some (''No handler for '' @ py_repr name)\<rparr>, m)
      | Some h \<Rightarrow>
          (case reg_get name (registry m) of
             Inl e \<Rightarrow> Some (Inl (LookupFailed e), m)
           | Inr d \<Rightarrow>
               (case acquire fuel 0 clock name (rate_limit_per_minute d) (rate_limiter m) of
                  None \<Rightarrow> None
                | Some (k, bs) \<Rightarrow>
                    (let m' = m\<lparr>rate_limiter := bs\<rparr>
                     in case h (case payload of None \<Rightarrow> [] | Some p \<Rightarrow> p) of
                          Inr out \<Rightarrow> Some (Inr \<lparr>tir_tool = name, tir_status = ''ok'',
                            tir_output = out, tir_error = None\<rparr>, m')
                        | Inl CancelledError \<Rightarrow> Some (Inl HandlerCancelled, m')
                        | Inl e \<Rightarrow> Some (Inr \<lparr>tir_tool = name, tir_status = ''error'',
                            tir_output = JNull, tir_error = Some (exn_type e @ '': '' @ exn_str e)\<rparr>, m')))))"

section \<open>Token accounting\<close>

definition bucket_of :: "rat \<Rightarrow> string \<Rightarrow> buckets \<Rightarrow> bucket" where
  "bucket_of created key bs =
     (case dict_get bs key of None \<Rightarrow> \<lparr>tokens = 0, last_refill = created\<rparr> | Some b \<Rightarrow> b)"

lemma try_acquire_bucket:
  assumes "try_acquire c t key rate bs = (ok, bs')"
  shows "dict_get bs' key = Some \<lparr>tokens = min (of_int rate) (tokens (bucket_of c key bs) +
      (t - last_refill (bucket_of c key bs)) * (of_int rate / 60)) - (if ok then 1 else 0), last_refill = t\<rparr>"
    and "ok \<longleftrightarrow> 1 \<le> min (of_int rate) (tokens (bucket_of c key bs) +
      (t - last_refill (bucket_of c key bs)) * (of_int rate / 60))"
    and "key' \<noteq> key \<Longrightarrow> dict_get bs' key' = dict_get bs key'"
  using assms by (auto simp: try_acquire_def Let_def bucket_of_def split: if_splits)

text \<open>Turns in time order, from a bucket last refilled at \<open>u\<close>.\<close>

fun in_order :: "rat \<Rightarrow> (rat \<times> rat) list \<Rightarrow> bool" where
  "in_order u [] \<longleftrightarrow> True"
| "in_order u ((c, t) # ts) \<longleftrightarrow> u \<le> c \<and> c \<le> t \<and> in_order t ts"

definition last_time :: "rat \<Rightarrow> (rat \<times> rat) list \<Rightarrow> rat" where
  "last_time u ts = (if ts = [] then u else snd (last ts))"

lemma attempts_bound:
  assumes "0 \<le> rate" "dict_get bs key = Some b" "0 \<le> tokens b" "in_order (last_refill b) ts"
  shows "of_nat (fst (attempts ts key rate bs)) \<le>
    tokens b + (last_time (last_refill b) ts - last_refill b) * (of_int rate / 60)"
  using assms
proof (induction ts arbitrary: bs b)
  case (Cons ct ts)
  obtain c t where ct: "ct = (c, t)" by (cases ct)
  obtain ok bs' where step: "try_acquire c t key rate bs = (ok, bs')" by (cases "try_acquire c t key rate bs")
  let ?r = "of_int rate / 60 :: rat"
  let ?fill = "min (of_int rate) (tokens b + (t - last_refill b) * ?r)"
  let ?b' = "\<lparr>tokens = ?fill - (if ok then 1 else 0), last_refill = t\<rparr>"
  have b: "bucket_of c key bs = b" using Cons.prems(2) by (simp add: bucket_of_def)
  note s = try_acquire_bucket [OF step, unfolded b]
  have time: "last_refill b \<le> t" "in_order t ts" using Cons.prems(4) by (auto simp: ct)
  have "0 \<le> (t - last_refill b) * ?r" using time(1) Cons.prems(1) by (intro mult_nonneg_nonneg) auto
  then have fill: "0 \<le> ?fill" using Cons.prems(1,3) by simp
  then have "0 \<le> tokens ?b'" using s(2) by auto
  with Cons.IH [OF Cons.prems(1) s(1)] time(2)
  have IH: "of_nat (fst (attempts ts key rate bs')) \<le> tokens ?b' + (last_time t ts - t) * ?r" by simp
  have "tokens ?b' + (if ok then 1 else 0) \<le> tokens b + (t - last_refill b) * ?r" by simp
  moreover have "(last_time t ts - t) * ?r + (t - last_refill b) * ?r =
      (last_time (last_refill b) (ct # ts) - last_refill b) * ?r"
  proof -
    have "last_time (last_refill b) (ct # ts) = last_time t ts" by (cases ts) (simp_all add: last_time_def ct)
    then have "(last_time (last_refill b) (ct # ts) - last_refill b) =
        (last_time t ts - t) + (t - last_refill b)" by simp
    then show ?thesis by (metis distrib_right)
  qed
  ultimately have bound: "of_nat (fst (attempts ts key rate bs')) + (if ok then 1 else 0) \<le>
      tokens b + (last_time (last_refill b) (ct # ts) - last_refill b) * ?r"
    using IH by linarith
  have "of_nat (fst (attempts (ct # ts) key rate bs)) =
      (of_nat (fst (attempts ts key rate bs')) + (if ok then 1 else 0) :: rat)"
    by (simp add: ct step split: prod.split)
  with bound show ?case by metis
qed (simp add: last_time_def)

text \<open>
  C33: however turns of concurrent calls interleave, a new bucket grants no more calls than its
  rate allows: at most \<open>rate / 60\<close> per second since it was created.  In particular the first call
  on a new key waits until a whole token has been refilled.
\<close>

theorem rate_limit_respected:
  assumes "0 \<le> rate" "dict_get bs key = None" "in_order c ((c, t) # ts)"
  shows "of_nat (fst (attempts ((c, t) # ts) key rate bs)) \<le>
    (last_time c ((c, t) # ts) - c) * (of_int rate / 60)"
proof -
  obtain ok bs' where step: "try_acquire c t key rate bs = (ok, bs')" by (cases "try_acquire c t key rate bs")
  let ?b = "\<lparr>tokens = 0, last_refill = c\<rparr>"
  have "attempts ((c, t) # ts) key rate bs = attempts ((c, t) # ts) key rate (dict_set key ?b bs)"
    using assms(2) by (simp add: try_acquire_def Let_def)
  then show ?thesis
    using attempts_bound [OF assms(1), of "dict_set key ?b bs" key ?b "(c, t) # ts"] assms(3) by simp
qed

lemma rate_limit_respected_witness:
  "of_nat (fst (attempts [(0, 0), (0, 30), (0, 60), (0, 61), (0, 120)] ''search'' 1 [])) \<le>
    (last_time 0 [(0, 0), (0, 30), (0, 60), (0, 61), (0, 120)] - 0) * (of_int 1 / 60)
   \<and> fst (attempts [(0, 0), (0, 30), (0, 60), (0, 61), (0, 120)] ''search'' 1 []) = 2"
  using rate_limit_respected [of 1 "[]" "''search''" 0 0 "[(0, 30), (0, 60), (0, 61), (0, 120)]"]
  by (simp add: try_acquire_def Let_def last_time_def)

section \<open>Waiting for a token\<close>

lemma acquire_from_bucket:
  assumes "1 \<le> rate" "dict_get bs key = Some b"
    "1 \<le> tokens b + (snd (clock (i + k)) - last_refill b) * (of_int rate / 60)"
  shows "\<exists>n bs'. acquire (Suc k) i clock key rate bs = Some (n, bs')"
  using assms(2,3)
proof (induction k arbitrary: i bs b)
  case 0
  have "(1::rat) \<le> of_int rate" using assms(1) by simp
  with 0 show ?case by (simp add: try_acquire_def Let_def)
next
  case (Suc k)
  obtain ok bs' where step: "try_acquire (fst (clock i)) (snd (clock i)) key rate bs = (ok, bs')"
    by (cases "try_acquire (fst (clock i)) (snd (clock i)) key rate bs")
  show ?case
  proof (cases ok)
    case False
    have b: "bucket_of (fst (clock i)) key bs = b" using Suc.prems(1) by (simp add: bucket_of_def)
    note s = try_acquire_bucket [OF step, unfolded b]
    let ?t = "snd (clock i)" and ?r = "of_int rate / 60 :: rat"
    let ?fill = "tokens b + (?t - last_refill b) * ?r"
    have "(1::rat) \<le> of_int rate" using assms(1) by simp
    with s(2) False have "min (of_int rate) ?fill = ?fill" by auto
    with s(1) False have get: "dict_get bs' key = Some \<lparr>tokens = ?fill, last_refill = ?t\<rparr>" by simp
    have "?fill + (snd (clock (Suc i + k)) - ?t) * ?r =
        tokens b + ((?t - last_refill b) + (snd (clock (Suc i + k)) - ?t)) * ?r"
      by (simp only: distrib_right add.assoc)
    also have "\<dots> = tokens b + (snd (clock (i + Suc k)) - last_refill b) * ?r" by simp
    finally have "1 \<le> ?fill + (snd (clock (Suc i + k)) - ?t) * ?r" using Suc.prems(2) by simp
    with Suc.IH [OF get] step False show ?thesis by simp
  qed (simp add: step)
qed

text \<open>
  With a positive rate a call on a new key returns: it is granted by the first turn taken
  \<open>60 / rate\<close> seconds after its bucket was created, or earlier.
\<close>

theorem acquire_returns:
  assumes "1 \<le> rate" "dict_get bs key = None"
    "60 / of_int rate \<le> snd (clock k) - fst (clock 0)"
  shows "\<exists>n bs'. acquire (Suc k) 0 clock key rate bs = Some (n, bs')"
proof -
  let ?b = "\<lparr>tokens = 0, last_refill = fst (clock 0)\<rparr>"
  have "acquire (Suc k) 0 clock key rate bs = acquire (Suc k) 0 clock key rate (dict_set key ?b bs)"
    using assms(2) by (simp add: try_acquire_def Let_def)
  moreover have "1 \<le> tokens ?b + (snd (clock (0 + k)) - last_refill ?b) * (of_int rate / 60)"
    using assms(1,3) by (simp add: field_simps)
  ultimately show ?thesis
    using acquire_from_bucket [OF assms(1), of "dict_set key ?b bs" key ?b clock 0 k] by simp
qed

lemma acquire_returns_witness:
  "\<exists>n bs'. acquire (Suc 3) 0 (\<lambda>i. (0, of_nat i * 20)) ''search'' 1 [] = Some (n, bs')"
  by (rule acquire_returns) simp_all

text \<open>The docstring says that \<open>acquire\<close> always returns; with a rate below one it never does.\<close>

lemma acquire_without_rate:
  assumes "rate \<le> 0"
  shows "acquire fuel i clock key rate bs = None"
proof (induction fuel arbitrary: i bs)
  case (Suc fuel)
  obtain ok bs' where step: "try_acquire (fst (clock i)) (snd (clock i)) key rate bs = (ok, bs')"
    by (cases "try_acquire (fst (clock i)) (snd (clock i)) key rate bs")
  have "(of_int rate :: rat) < 1" using assms by (simp add: of_int_less_iff [where ?'a = rat, of _ 1, simplified])
  then have "\<not> ok" using try_acquire_bucket(2) [OF step] by linarith
  with step Suc show ?case by simp
qed simp

section \<open>Invocations\<close>

text \<open>Every handler has a definition under its name, as \<open>register_tool\<close> keeps it.\<close>

definition manager_ok :: "ToolManager \<Rightarrow> bool" where
  "manager_ok m \<longleftrightarrow> set (dict_keys (handlers m)) \<subseteq> set (dict_keys (registry m))"

lemma manager_ok_new [intro]: "handlers m = [] \<Longrightarrow> manager_ok m"
  by (simp add: manager_ok_def dict_keys_def)

lemma manager_ok_register: "manager_ok m \<Longrightarrow> manager_ok (register_tool d h m)"
  by (auto simp: manager_ok_def register_tool_def reg_register_def dict_keys_def)

lemma manager_ok_register_all:
  "manager_ok m \<Longrightarrow> manager_ok (fold (\<lambda>(d, h). register_tool d h) tools m)"
  by (induction tools arbitrary: m) (auto intro: manager_ok_register)

lemma tool_invoke_frame:
  "tool_invoke fuel clock name payload m = Some (r, m') \<Longrightarrow> registry m' = registry m \<and> handlers m' = handlers m"
  by (auto simp: tool_invoke_def Let_def split: option.splits sum.splits exn.splits)

lemma manager_ok_invoke:
  "manager_ok m \<Longrightarrow> tool_invoke fuel clock name payload m = Some (r, m') \<Longrightarrow> manager_ok m'"
  using tool_invoke_frame [of fuel clock name payload m r m'] by (simp add: manager_ok_def)

lemma manager_ok_definition:
  assumes "manager_ok m" "dict_get (handlers m) name = Some h"
  shows "\<exists>d. reg_get name (registry m) = Inr d"
proof -
  have "name \<in> fst ` set (registry m)"
    using assms dict_get_in_keys [OF assms(2)] by (auto simp: manager_ok_def dict_keys_def)
  then obtain d where "dict_get (registry m) name = Some d"
    by (cases "dict_get (registry m) name") (auto simp: map_of_eq_None_iff)
  then show ?thesis by (simp add: reg_get_def)
qed

text \<open>
  After any registrations an invocation never fails on its definition: once it ends it has
  status \<open>ok\<close> with the handler's output, \<open>error\<close> with the type and text of the handler's exception,
  or \<open>not_found\<close> exactly for a name without handler; only a cancellation of the handler passes
  through.  Definitions and handlers stay as they were.
\<close>

theorem tool_invoke_answers:
  assumes "handlers m0 = []" "m = fold (\<lambda>(d, h). register_tool d h) tools m0"
    "tool_invoke fuel clock name payload m = Some (r, m')"
  shows "registry m' = registry m \<and> handlers m' = handlers m \<and>
    (case dict_get (handlers m) name of
       None \<Rightarrow> m' = m \<and> (\<exists>t. r = Inr t \<and> tir_status t = ''not_found'')
     | Some h \<Rightarrow>
         (case h (case payload of None \<Rightarrow> [] | Some p \<Rightarrow> p) of
            Inr out \<Rightarrow> r = Inr \<lparr>tir_tool = name, tir_status = ''ok'', tir_output = out, tir_error = None\<rparr>
          | Inl e \<Rightarrow>
              if e = CancelledError then r = Inl HandlerCancelled
              else \<exists>t. r = Inr t \<and> tir_status t = ''error'' \<and>
                tir_error t = Some (exn_type e @ '': '' @ exn_str e)))"
proof -
  have ok: "manager_ok m" unfolding assms(2) using assms(1) by (intro manager_ok_register_all) auto
  show ?thesis
  proof (cases "dict_get (handlers m) name")
    case None
    with assms(3) show ?thesis by (auto simp: tool_invoke_def)
  next
    case (Some h)
    from manager_ok_definition [OF ok Some] obtain d where d: "reg_get name (registry m) = Inr d" by blast
    with Some assms(3) show ?thesis
      by (auto simp: tool_invoke_def Let_def split: option.splits sum.splits exn.splits)
  qed
qed

definition demo_tool :: ToolDefinition where
  "demo_tool = \<lparr>tool_name = ''t'', tool_version = ''1'', tool_description = [], tool_input_schema = [],
    tool_output_schema = [], rate_limit_per_minute = 60, capabilities = []\<rparr>"

definition demo_manager :: ToolManager where
  "demo_manager = register_tool demo_tool (\<lambda>_. Inl (OtherException ''ValueError'' ''bad''))
    \<lparr>registry = [], handlers = [], rate_limiter = []\<rparr>"

lemma tool_invoke_answers_witness:
  "\<exists>r m'. tool_invoke 2 (\<lambda>i. (0, of_nat i)) ''t'' None demo_manager = Some (Inr r, m') \<and>
    tir_status r = ''error'' \<and> tir_error r = Some ''ValueError: bad'' \<and> handlers m' = handlers demo_manager"
proof -
  have "\<exists>r m'. tool_invoke 2 (\<lambda>i. (0, of_nat i)) ''t'' None demo_manager = Some (r, m')"
    by (simp add: demo_manager_def demo_tool_def tool_invoke_def register_tool_def reg_register_def reg_get_def
        try_acquire_def numeral_2_eq_2)
  then obtain r m' where *: "tool_invoke 2 (\<lambda>i. (0, of_nat i)) ''t'' None demo_manager = Some (r, m')" by blast
  show ?thesis
    using tool_invoke_answers [of "\<lparr>registry = [], handlers = [], rate_limiter = []\<rparr>" demo_manager
        "[(demo_tool, \<lambda>_. Inl (OtherException ''ValueError'' ''bad''))]", OF _ _ *] *
    by (auto simp: demo_manager_def register_tool_def demo_tool_def)
qed

end
