(* ===== verification/Layers.thy ===== *)
theory Layers
  imports SgirModels
begin

text \<open>
  What the eight layer builders share (\<open>parsers/__init__.py\<close>, \<open>layers.py\<close>): the parsed entities,
  the nodes, edges and ids that a \<open>build\<close> collects, and the contract of a builder.

  \<open>SGIRNode(complexity=..)\<close> validates the entity's complexity text against the enum, so a build
  can raise.  The other fields of an entity have the types of the node's fields.
\<close>

section \<open>Parsed entities\<close>

record ParsedEntity =
  pe_name :: string
  entity_type :: string
  pe_file_path :: string
  pe_line_start :: int
  pe_line_end :: int
  pe_language :: string
  parent :: "string option"
  pe_parameters :: "string list"
  return_type :: "string option"
  is_async :: bool
  is_generator :: bool
  is_static :: bool
  is_abstract :: bool
  import_source :: "string option"
  import_names :: "string list"
  is_from_import :: bool
  import_aliases :: "string list"
  import_level :: int
  bases :: "string list"
  decorators :: "string list"
  calls :: "string list"
  references :: "string list"
  docstring :: "string option"
  pe_complexity :: string

definition new_entity :: "string \<Rightarrow> string \<Rightarrow> string \<Rightarrow> ParsedEntity" where
  "new_entity n ty path = \<lparr>pe_name = n, entity_type = ty, pe_file_path = path, pe_line_start = 1,
     pe_line_end = 1, pe_language = ''python'', parent = None, pe_parameters = [], return_type = None,
     is_async = False, is_generator = False, is_static = False, is_abstract = False,
     import_source = None, import_names = [], is_from_import = False, import_aliases = [],
     import_level = 0, bases = [], decorators = [], calls = [], references = [], docstring = None,
     pe_complexity = ''unknown''\<rparr>"

record ParseResult =
  pr_language :: string
  files_parsed :: nat
  pr_entities :: "ParsedEntity list"
  pr_errors :: "(string \<times> string) list"

text \<open>\<open>parse_files\<close>, for any \<open>parse_file\<close>: a list of entities or the text of an exception.\<close>

fun parse_loop ::
    "(string \<Rightarrow> string + ParsedEntity list) \<Rightarrow> string list \<Rightarrow> ParseResult \<Rightarrow> ParseResult" where
  "parse_loop parse_file [] r = r"
| "parse_loop parse_file (fp # fps) r =
     parse_loop parse_file fps
       (case parse_file fp of
          Inr es \<Rightarrow> r\<lparr>pr_entities := pr_entities r @ es, files_parsed := files_parsed r + 1\<rparr>
        | Inl e \<Rightarrow> r\<lparr>pr_errors := pr_errors r @ [(fp, e)]\<rparr>)"

definition parse_files ::
    "string \<Rightarrow> (string \<Rightarrow> string + ParsedEntity list) \<Rightarrow> string list \<Rightarrow> ParseResult" where
  "parse_files lang parse_file fps =
     parse_loop parse_file fps \<lparr>pr_language = lang, files_parsed = 0, pr_entities = [], pr_errors = []\<rparr>"

lemma parse_loop_counts:
  "files_parsed (parse_loop pf fps r) + length (pr_errors (parse_loop pf fps r)) =
   files_parsed r + length (pr_errors r) + length fps"
  by (induction pf fps r rule: parse_loop.induct) (auto split: sum.split)

record ParsedData =
  pd_entities :: "ParsedEntity list"
  pd_repository :: "RepositoryMetadata option"

section \<open>What a build collects\<close>

datatype build_error = ValidationError string

definition parse_complexity :: "string \<Rightarrow> build_error + ComplexityEstimate" where
  "parse_complexity s =
     (case find (\<lambda>c. complexity_value c = s)
         [Constant, Logarithmic, Linear, Linearithmic, Quadratic, Cubic, Exponential, UnknownComplexity] of
        None \<Rightarrow> Inl (ValidationError s)
      | Some c \<Rightarrow> Inr c)"

definition make_node_id :: "string \<Rightarrow> string \<Rightarrow> string" where
  "make_node_id p n = p @ ''::'' @ n"

definition entity_id :: "ParsedEntity \<Rightarrow> string" where
  "entity_id e = make_node_id (pe_file_path e) (pe_name e)"

definition text_or_empty :: "string option \<Rightarrow> string" where
  "text_or_empty x = (case x of None \<Rightarrow> [] | Some s \<Rightarrow> s)"

definition return_outputs :: "ParsedEntity \<Rightarrow> string list" where
  "return_outputs e = (if text_or_empty (return_type e) = [] then [] else [text_or_empty (return_type e)])"

definition entity_location :: "ParsedEntity \<Rightarrow> SourceLocation" where
  "entity_location e = \<lparr>loc_file_path = pe_file_path e, line_start = pe_line_start e,
     line_end = pe_line_end e, column_start = 0, column_end = 0\<rparr>"

definition callable_type :: "ParsedEntity \<Rightarrow> bool" where
  "callable_type e \<longleftrightarrow> entity_type e \<in> {''function'', ''method'', ''class''}"

definition function_type :: "ParsedEntity \<Rightarrow> bool" where
  "function_type e \<longleftrightarrow> entity_type e \<in> {''function'', ''method''}"

definition callable_node_type :: "ParsedEntity \<Rightarrow> NodeType" where
  "callable_node_type e =
     (if entity_type e = ''method'' then NMethod
      else if entity_type e = ''class'' then NClass else NFunction)"

record layer_acc =
  seen :: "string set"
  acc_nodes :: "SGIRNode list"
  acc_edges :: "SGIREdge list"

definition empty_acc :: layer_acc where
  "empty_acc = \<lparr>seen = {}, acc_nodes = [], acc_edges = []\<rparr>"

definition push_node :: "SGIRNode \<Rightarrow> layer_acc \<Rightarrow> layer_acc" where
  "push_node n a = a\<lparr>seen := insert (node_id n) (seen a), acc_nodes := acc_nodes a @ [n]\<rparr>"

definition add_node_once :: "SGIRNode \<Rightarrow> layer_acc \<Rightarrow> layer_acc" where
  "add_node_once n a = (if node_id n \<in> seen a then a else push_node n a)"

definition push_edge :: "string \<Rightarrow> string \<Rightarrow> EdgeType \<Rightarrow> string \<Rightarrow> layer_acc \<Rightarrow> layer_acc" where
  "push_edge s t ty lab a = a\<lparr>acc_edges := acc_edges a @ [(new_edge s t ty)\<lparr>label := lab\<rparr>]\<rparr>"

text \<open>
  The loop with which builders make their first nodes: an entity that \<open>p\<close> selects adds a node unless
  its id is taken.
\<close>

fun entity_nodes ::
    "(ParsedEntity \<Rightarrow> bool) \<Rightarrow> (ParsedEntity \<Rightarrow> build_error + SGIRNode) \<Rightarrow> ParsedEntity list \<Rightarrow> layer_acc
      \<Rightarrow> build_error + layer_acc" where
  "entity_nodes p mk [] a = Inr a"
| "entity_nodes p mk (e # es) a =
     (if \<not> p e \<or> entity_id e \<in> seen a then entity_nodes p mk es a
      else case mk e of
             Inl err \<Rightarrow> Inl err
           | Inr n \<Rightarrow> entity_nodes p mk es (push_node n a))"

definition layer_graph :: "GraphLayer \<Rightarrow> layer_acc \<Rightarrow> SGIRGraph option \<Rightarrow> SGIRGraph" where
  "layer_graph l a existing = \<lparr>layer = l, nodes = acc_nodes a, edges = acc_edges a,
     graph_metadata = (case existing of None \<Rightarrow> [] | Some g \<Rightarrow> graph_metadata g)\<rparr>"

section \<open>Well-formed layers\<close>

definition graph_ok :: "SGIRGraph \<Rightarrow> bool" where
  "graph_ok g \<longleftrightarrow> distinct (map node_id (nodes g)) \<and>
     (\<forall>e\<in>set (edges g). source e \<in> node_ids g \<and> target e \<in> node_ids g)"

definition acc_ok :: "layer_acc \<Rightarrow> bool" where
  "acc_ok a \<longleftrightarrow> distinct (map node_id (acc_nodes a)) \<and> seen a = node_id ` set (acc_nodes a) \<and>
     (\<forall>e\<in>set (acc_edges a). source e \<in> seen a \<and> target e \<in> seen a)"

named_theorems acc_intros "steps of a builder that keep its nodes and edges well formed"

lemma acc_ok_empty [acc_intros]: "acc_ok empty_acc"
  by (simp add: acc_ok_def empty_acc_def)

lemma seen_add_node_once [simp]: "seen (add_node_once n a) = insert (node_id n) (seen a)"
  by (auto simp: add_node_once_def push_node_def)

lemma seen_push_node [simp]: "seen (push_node n a) = insert (node_id n) (seen a)"
  by (simp add: push_node_def)

lemma seen_push_edge [simp]: "seen (push_edge s t ty lab a) = seen a"
  by (simp add: push_edge_def)

lemma acc_ok_push_node: "acc_ok a \<Longrightarrow> node_id n \<notin> seen a \<Longrightarrow> acc_ok (push_node n a)"
  by (auto simp: acc_ok_def push_node_def)

lemma acc_ok_add_node_once [acc_intros]: "acc_ok a \<Longrightarrow> acc_ok (add_node_once n a)"
  by (simp add: add_node_once_def acc_ok_push_node)

lemma acc_ok_push_edge [acc_intros]:
  "acc_ok a \<Longrightarrow> s \<in> seen a \<Longrightarrow> t \<in> seen a \<Longrightarrow> acc_ok (push_edge s t ty lab a)"
  unfolding acc_ok_def by (auto simp: push_edge_def new_edge_def)

lemma graph_ok_layer_graph: "acc_ok a \<Longrightarrow> graph_ok (layer_graph l a ex)"
  unfolding acc_ok_def by (auto simp: graph_ok_def layer_graph_def node_ids_alt)

lemma layer_layer_graph [simp]: "layer (layer_graph l a ex) = l"
  by (simp add: layer_graph_def)

lemma metadata_layer_graph [simp]:
  "graph_metadata (layer_graph l a ex) = (case ex of None \<Rightarrow> [] | Some g \<Rightarrow> graph_metadata g)"
  by (simp add: layer_graph_def)

lemma entity_nodes_ok:
  assumes "\<And>e n. p e \<Longrightarrow> mk e = Inr n \<Longrightarrow> node_id n = entity_id e"
    and "acc_ok a" "entity_nodes p mk es a = Inr a'"
  shows "acc_ok a'" and "seen a' = seen a \<union> entity_id ` {e \<in> set es. p e}"
    and "acc_edges a' = acc_edges a"
proof -
  have "acc_ok a' \<and> seen a' = seen a \<union> entity_id ` {e \<in> set es. p e} \<and> acc_edges a' = acc_edges a"
    using assms(2,3)
  proof (induction es arbitrary: a)
    case (Cons e es)
    show ?case
    proof (cases "p e \<and> entity_id e \<notin> seen a")
      case True
      with Cons.prems(2) obtain n where n: "mk e = Inr n" "entity_nodes p mk es (push_node n a) = Inr a'"
        by (auto split: sum.splits)
      with True assms(1) have id: "node_id n = entity_id e" by blast
      with Cons.prems(1) True have "acc_ok (push_node n a)" by (simp add: acc_ok_push_node)
      from Cons.IH [OF this n(2)] True id show ?thesis by (auto simp: push_node_def)
    next
      case False
      with Cons show ?thesis by auto
    qed
  qed simp
  then show "acc_ok a'" and "seen a' = seen a \<union> entity_id ` {e \<in> set es. p e}"
    and "acc_edges a' = acc_edges a" by auto
qed

lemma entity_nodes_total:
  "(\<And>e. e \<in> set es \<Longrightarrow> p e \<Longrightarrow> \<exists>n. mk e = Inr n) \<Longrightarrow> \<exists>a'. entity_nodes p mk es a = Inr a'"
proof (induction es arbitrary: a)
  case (Cons e es)
  have *: "\<exists>a'. entity_nodes p mk es b = Inr a'" for b
    by (rule Cons.IH) (simp add: Cons.prems)
  show ?case
  proof (cases "p e")
    case True
    with Cons.prems [of e] obtain n where "mk e = Inr n" by auto
    with * show ?thesis by auto
  qed (simp add: *)
qed simp

text \<open>\<open>grows a b\<close>: from \<open>a\<close> to \<open>b\<close> ids are only added and the nodes and edges stay well formed.\<close>

definition grows :: "layer_acc \<Rightarrow> layer_acc \<Rightarrow> bool" where
  "grows a b \<longleftrightarrow> (acc_ok a \<longrightarrow> acc_ok b) \<and> seen a \<subseteq> seen b"

lemma growsD: "grows a b \<Longrightarrow> acc_ok a \<Longrightarrow> acc_ok b" "grows a b \<Longrightarrow> x \<in> seen a \<Longrightarrow> x \<in> seen b"
  by (auto simp: grows_def)

lemma grows_seen: "grows a b \<Longrightarrow> seen a \<subseteq> seen b"
  by (simp add: grows_def)

lemma grows_refl [simp, acc_intros]: "grows a a"
  by (simp add: grows_def)

lemma grows_trans [trans]: "grows a b \<Longrightarrow> grows b c \<Longrightarrow> grows a c"
  by (auto simp: grows_def)

lemma grows_add_node_once [simp, acc_intros]: "grows a (add_node_once n a)"
  by (auto simp: grows_def acc_ok_add_node_once)

lemma grows_push_node [acc_intros]: "node_id n \<notin> seen a \<Longrightarrow> grows a (push_node n a)"
  by (auto simp: grows_def acc_ok_push_node)

lemma grows_push_edge [acc_intros]: "s \<in> seen a \<Longrightarrow> t \<in> seen a \<Longrightarrow> grows a (push_edge s t ty lab a)"
  by (auto simp: grows_def acc_ok_push_edge)

lemma grows_fold:
  assumes "\<And>x b. x \<in> set xs \<Longrightarrow> grows a b \<Longrightarrow> grows b (f x b)"
  shows "grows a (fold f xs a)"
proof -
  have "grows a (fold f xs b)" if "grows a b" for b
    using assms that
  proof (induction xs arbitrary: b)
    case (Cons x xs)
    from Cons.prems have "grows a (f x b)" by (meson grows_trans list.set_intros(1))
    with Cons.IH [of "f x b"] Cons.prems(1) show ?case by simp
  qed simp
  then show ?thesis by simp
qed

section \<open>The contract of a builder\<close>

locale layer_builder =
  fixes lay :: GraphLayer
    and build :: "ParsedData \<Rightarrow> SGIRGraph option \<Rightarrow> build_error + SGIRGraph"
  assumes build_layer: "build pd ex = Inr g \<Longrightarrow> layer g = lay"
    and build_ok: "build pd ex = Inr g \<Longrightarrow> graph_ok g"
    and build_metadata: "build pd ex = Inr g \<Longrightarrow>
      graph_metadata g = (case ex of None \<Rightarrow> [] | Some h \<Rightarrow> graph_metadata h)"
    and build_total: "(\<And>e. e \<in> set (pd_entities pd) \<Longrightarrow> callable_type e \<Longrightarrow>
      \<exists>c. parse_complexity (pe_complexity e) = Inr c) \<Longrightarrow> \<exists>g. build pd ex = Inr g"
begin

lemma edge_ends_are_nodes:
  assumes "build pd ex = Inr g" "e \<in> set (edges g)"
  obtains n m where "n \<in> set (nodes g)" "m \<in> set (nodes g)" "node_id n = source e" "node_id m = target e"
proof -
  from build_ok [OF assms(1)] assms(2) have "source e \<in> node_ids g" "target e \<in> node_ids g"
    by (auto simp: graph_ok_def)
  with that show thesis by (auto simp: node_ids_alt)
qed

lemma node_by_id:
  "build pd ex = Inr g \<Longrightarrow> n \<in> set (nodes g) \<Longrightarrow> m \<in> set (nodes g) \<Longrightarrow> node_id n = node_id m \<Longrightarrow> n = m"
  using build_ok [of pd ex g] by (auto simp: graph_ok_def distinct_map inj_on_def)

lemma rebuild_keeps_metadata:
  "build pd ex = Inr g \<Longrightarrow> build pd' (Some g) = Inr g' \<Longrightarrow> graph_metadata g' = graph_metadata g"
  using build_metadata [of pd' "Some g" g'] by simp

end

end
