(* ===== verification/LayerBuilders.thy ===== *)
theory LayerBuilders
  imports Layers
begin

text \<open>
  The eight layer builders (\<open>optimization/layers/*.py\<close>), one \<open>build\<close> each, and their registry.

  Where the code asks whether some pattern of a set occurs, the order of the set does not matter
  and the set is a list.  \<open>detect_auth_patterns\<close> stops at the first pattern of a set that occurs in
  a name: its result depends on the iteration order of the set, which is the parameter \<open>order\<close>.
\<close>

definition any_in :: "string list \<Rightarrow> string \<Rightarrow> bool" where
  "any_in patterns s \<longleftrightarrow> (\<exists>p\<in>set patterns. py_contains p s)"

definition base_node :: "NodeType \<Rightarrow> ParsedEntity \<Rightarrow> SGIRNode" where
  "base_node ty e = (new_node (entity_id e) (pe_name e))\<lparr>purpose := text_or_empty (docstring e),
     node_type := ty, language := pe_language e, source_location := Some (entity_location e)\<rparr>"

definition with_signature :: "ParsedEntity \<Rightarrow> SGIRNode \<Rightarrow> SGIRNode" where
  "with_signature e n = n\<lparr>inputs := pe_parameters e, outputs := return_outputs e\<rparr>"

definition with_complexity :: "ParsedEntity \<Rightarrow> SGIRNode \<Rightarrow> build_error + SGIRNode" where
  "with_complexity e n =
     (case parse_complexity (pe_complexity e) of
        Inl err \<Rightarrow> Inl err
      | Inr c \<Rightarrow> Inr (n\<lparr>complexity := c\<rparr>))"

lemma node_id_base [simp]: "node_id (base_node ty e) = entity_id e"
  by (simp add: base_node_def new_node_def)

lemma node_id_signature [simp]: "node_id (with_signature e n) = node_id n"
  by (simp add: with_signature_def)

lemma node_id_complexity: "with_complexity e n = Inr m \<Longrightarrow> node_id m = node_id n"
  by (auto simp: with_complexity_def split: sum.splits)

section \<open>Call graph\<close>

definition call_node :: "ParsedEntity \<Rightarrow> build_error + SGIRNode" where
  "call_node e = with_complexity e (with_signature e (base_node (callable_node_type e) e))"

definition find_call_target :: "string \<Rightarrow> ParsedEntity \<Rightarrow> ParsedEntity list \<Rightarrow> string set \<Rightarrow> string option" where
  "find_call_target call_name caller es ids =
     (case find (\<lambda>e. pe_name e = call_name \<and> entity_id e \<in> ids) es of
        Some e \<Rightarrow> Some (entity_id e)
      | None \<Rightarrow>
          (let p = text_or_empty (parent caller);
               pid = make_node_id (pe_file_path caller) (p @ ''.'' @ call_name)
           in if p \<noteq> [] \<and> pid \<in> ids then Some pid else None))"

definition call_edge :: "ParsedEntity list \<Rightarrow> ParsedEntity \<Rightarrow> string \<Rightarrow> layer_acc \<Rightarrow> layer_acc" where
  "call_edge es e call_name a =
     (case find_call_target call_name e es (seen a) of
        None \<Rightarrow> a
      | Some t \<Rightarrow> if t \<noteq> [] \<and> t \<noteq> entity_id e then push_edge (entity_id e) t ECall call_name a else a)"

definition call_edges :: "ParsedEntity list \<Rightarrow> ParsedEntity \<Rightarrow> layer_acc \<Rightarrow> layer_acc" where
  "call_edges es e a = (if callable_type e then fold (call_edge es e) (calls e) a else a)"

definition call_graph_build :: "ParsedData \<Rightarrow> SGIRGraph option \<Rightarrow> build_error + SGIRGraph" where
  "call_graph_build pd existing =
     (let es = pd_entities pd
      in case entity_nodes callable_type call_node es empty_acc of
           Inl err \<Rightarrow> Inl err
         | Inr a \<Rightarrow> Inr (layer_graph LCall (fold (call_edges es) es a) existing))"

section \<open>Data flow\<close>

definition function_node_type :: "ParsedEntity \<Rightarrow> NodeType" where
  "function_node_type e = (if entity_type e = ''method'' then NMethod else NFunction)"

definition data_flow_node :: "ParsedEntity \<Rightarrow> build_error + SGIRNode" where
  "data_flow_node e = with_complexity e (with_signature e (base_node (function_node_type e) e))"

text \<open>\<open>name_to_ids\<close>, filled next to the nodes: a node's name and id are its entity's.\<close>

definition name_to_ids :: "layer_acc \<Rightarrow> string \<Rightarrow> string list" where
  "name_to_ids a n = map node_id (filter (\<lambda>m. node_name m = n) (acc_nodes a))"

definition data_edge :: "ParsedEntity \<Rightarrow> string \<Rightarrow> string \<Rightarrow> layer_acc \<Rightarrow> layer_acc" where
  "data_edge e ref t a = (if t \<noteq> entity_id e then push_edge (entity_id e) t EData ref a else a)"

definition data_edges :: "ParsedEntity \<Rightarrow> layer_acc \<Rightarrow> layer_acc" where
  "data_edges e a =
     (if function_type e
      then fold (\<lambda>ref a. fold (data_edge e ref) (name_to_ids a ref) a) (references e) a else a)"

definition data_flow_build :: "ParsedData \<Rightarrow> SGIRGraph option \<Rightarrow> build_error + SGIRGraph" where
  "data_flow_build pd existing =
     (case entity_nodes function_type data_flow_node (pd_entities pd) empty_acc of
        Inl err \<Rightarrow> Inl err
      | Inr a \<Rightarrow> Inr (layer_graph LDataFlow (fold data_edges (pd_entities pd) a) existing))"

section \<open>Control flow\<close>

definition CONTROL_FLOW_DECORATORS :: "string list" where
  "CONTROL_FLOW_DECORATORS = [''app.route'', ''route'', ''get'', ''post'', ''put'', ''delete'',
     ''patch'', ''before_request'', ''after_request'', ''errorhandler'', ''middleware'']"

definition is_route :: "string \<Rightarrow> bool" where
  "is_route d \<longleftrightarrow> any_in CONTROL_FLOW_DECORATORS (py_lower d)"

definition detect_side_effects :: "ParsedEntity \<Rightarrow> string list" where
  "detect_side_effects e = (if is_async e then [''async''] else [])
     @ (if is_generator e then [''generator''] else [])
     @ map (\<lambda>d. ''route:'' @ d) (filter is_route (decorators e))"

definition is_entry_point :: "ParsedEntity \<Rightarrow> bool" where
  "is_entry_point e \<longleftrightarrow> (\<exists>d\<in>set (decorators e). is_route d)"

definition resolve_ids :: "string \<Rightarrow> ParsedEntity list \<Rightarrow> string set \<Rightarrow> string list" where
  "resolve_ids n es ids = map entity_id (filter (\<lambda>e. pe_name e = n \<and> entity_id e \<in> ids) es)"

definition control_node :: "ParsedEntity \<Rightarrow> build_error + SGIRNode" where
  "control_node e = with_complexity e
     ((with_signature e (base_node (callable_node_type e) e))\<lparr>side_effects := detect_side_effects e\<rparr>)"

definition contains_edge :: "ParsedEntity \<Rightarrow> ParsedEntity \<Rightarrow> layer_acc \<Rightarrow> layer_acc" where
  "contains_edge e child a =
     (if parent child = Some (pe_name e) \<and> entity_type child = ''method''
         \<and> entity_id e \<in> seen a \<and> entity_id child \<in> seen a
      then push_edge (entity_id e) (entity_id child) EControl ''contains'' a else a)"

definition contains_edges :: "ParsedEntity list \<Rightarrow> ParsedEntity \<Rightarrow> layer_acc \<Rightarrow> layer_acc" where
  "contains_edges es e a = (if entity_type e = ''class'' then fold (contains_edge e) es a else a)"

definition route_edge :: "ParsedEntity \<Rightarrow> string \<Rightarrow> string \<Rightarrow> layer_acc \<Rightarrow> layer_acc" where
  "route_edge e call_name t a =
     (if t \<noteq> entity_id e then push_edge (entity_id e) t EControl call_name a else a)"

definition route_edges :: "ParsedEntity list \<Rightarrow> ParsedEntity \<Rightarrow> layer_acc \<Rightarrow> layer_acc" where
  "route_edges es e a =
     (if function_type e \<and> is_entry_point e \<and> entity_id e \<in> seen a
      then fold (\<lambda>c a. fold (route_edge e c) (resolve_ids c es (seen a)) a) (calls e) a else a)"

definition control_flow_build :: "ParsedData \<Rightarrow> SGIRGraph option \<Rightarrow> build_error + SGIRGraph" where
  "control_flow_build pd existing =
     (let es = pd_entities pd
      in case entity_nodes callable_type control_node es empty_acc of
           Inl err \<Rightarrow> Inl err
         | Inr a \<Rightarrow> Inr (layer_graph LControlFlow
             (fold (route_edges es) es (fold (contains_edges es) es a)) existing))"

section \<open>Dependencies\<close>

definition import_source_node :: "ParsedEntity \<Rightarrow> SGIRNode" where
  "import_source_node e = (new_node (make_node_id ''module'' (pe_file_path e)) (pe_file_path e))
     \<lparr>node_type := NModule, language := pe_language e, source_location := Some (entity_location e)\<rparr>"

definition import_target_node :: "ParsedEntity \<Rightarrow> string \<Rightarrow> SGIRNode" where
  "import_target_node e imp = (new_node (make_node_id ''module'' imp) imp)
     \<lparr>node_type := (if CHR ''.'' \<in> set imp then NPackage else NModule), language := pe_language e\<rparr>"

text \<open>The second component is \<open>module_nodes\<close>.\<close>

definition note_module :: "SGIRNode \<Rightarrow> layer_acc \<times> (string, string) dict \<Rightarrow> layer_acc \<times> (string, string) dict" where
  "note_module n am =
     (case am of (a, mods) \<Rightarrow>
        if node_id n \<in> seen a then (a, mods) else (push_node n a, dict_set (node_name n) (node_id n) mods))"

definition import_step ::
    "ParsedEntity \<Rightarrow> string \<Rightarrow> layer_acc \<times> (string, string) dict \<Rightarrow> layer_acc \<times> (string, string) dict" where
  "import_step e imp am =
     (case note_module (import_target_node e imp) (note_module (import_source_node e) am) of
        (a, mods) \<Rightarrow>
          (push_edge (make_node_id ''module'' (pe_file_path e)) (make_node_id ''module'' imp) EImport imp a, mods))"

definition import_steps ::
    "ParsedEntity \<Rightarrow> layer_acc \<times> (string, string) dict \<Rightarrow> layer_acc \<times> (string, string) dict" where
  "import_steps e am =
     (if entity_type e = ''import'' then fold (import_step e) (import_names e) am else am)"

definition repo_node :: "string \<Rightarrow> NodeType \<Rightarrow> RepositoryMetadata \<Rightarrow> SGIRNode" where
  "repo_node kind ty r = (new_node (make_node_id kind (repo_name r)) (repo_name r))
     \<lparr>node_type := ty, language := join_with '', '' (languages r), external_dependencies := frameworks r\<rparr>"

definition repo_edges :: "RepositoryMetadata \<Rightarrow> (string, string) dict \<Rightarrow> layer_acc \<Rightarrow> layer_acc" where
  "repo_edges r mods a =
     (let rid = make_node_id ''repo'' (repo_name r)
      in fold (\<lambda>m a. if m \<noteq> rid then push_edge rid m EDependency [] a else a) (map snd mods)
           (add_node_once (repo_node ''repo'' NPackage r) a))"

definition dependency_build :: "ParsedData \<Rightarrow> SGIRGraph option \<Rightarrow> build_error + SGIRGraph" where
  "dependency_build pd existing =
     (case fold import_steps (pd_entities pd) (empty_acc, []) of
        (a, mods) \<Rightarrow> Inr (layer_graph LDependency
          (case pd_repository pd of None \<Rightarrow> a | Some r \<Rightarrow> repo_edges r mods a) existing))"

section \<open>State transitions\<close>

definition LIFECYCLE_DECORATORS :: "string list" where
  "LIFECYCLE_DECORATORS = [''init'', ''__init__'', ''__post_init__'', ''__enter__'', ''__exit__'',
     ''__del__'', ''__new__'', ''setup'', ''teardown'', ''before_connect'', ''after_connect'',
     ''on_startup'', ''on_shutdown'']"

definition EVENT_DECORATORS :: "string list" where
  "EVENT_DECORATORS = [''on'', ''event'', ''handler'', ''listener'', ''subscribe'', ''signal'', ''callback'']"

definition marked :: "string list \<Rightarrow> ParsedEntity \<Rightarrow> bool" where
  "marked ds m \<longleftrightarrow> pe_name m \<in> set ds \<or> (\<exists>d\<in>set (decorators m). py_lower d \<in> set ds)"

definition is_lifecycle :: "ParsedEntity \<Rightarrow> bool" where
  "is_lifecycle m \<longleftrightarrow> marked LIFECYCLE_DECORATORS m"

definition is_event :: "ParsedEntity \<Rightarrow> bool" where
  "is_event m \<longleftrightarrow> \<not> is_lifecycle m \<and> marked EVENT_DECORATORS m"

definition class_node :: "ParsedEntity \<Rightarrow> SGIRNode" where
  "class_node e = (base_node NClass e)\<lparr>preconditions := bases e\<rparr>"

definition class_step ::
    "ParsedEntity \<Rightarrow> layer_acc \<times> (string, ParsedEntity list) dict \<Rightarrow> layer_acc \<times> (string, ParsedEntity list) dict" where
  "class_step e am =
     (case am of (a, cm) \<Rightarrow>
        ((if entity_type e = ''class'' then add_node_once (class_node e) a else a),
         (let p = text_or_empty (parent e)
          in if entity_type e = ''method'' \<and> p \<noteq> []
             then dict_set p ((case dict_get cm p of None \<Rightarrow> [] | Some ms \<Rightarrow> ms) @ [e]) cm else cm)))"

definition lifecycle_step :: "string \<Rightarrow> ParsedEntity \<Rightarrow> layer_acc \<Rightarrow> layer_acc" where
  "lifecycle_step class_name m a =
     (let a' = add_node_once (with_signature m (base_node NMethod m)) a;
          cid = make_node_id (pe_file_path m) class_name
      in if cid \<in> seen a' then push_edge cid (entity_id m) EStateTransition (pe_name m) a' else a')"

definition next_edge :: "ParsedEntity \<times> ParsedEntity \<Rightarrow> layer_acc \<Rightarrow> layer_acc" where
  "next_edge pm a =
     (if entity_id (fst pm) \<in> seen a \<and> entity_id (snd pm) \<in> seen a
      then push_edge (entity_id (fst pm)) (entity_id (snd pm)) EStateTransition ''next'' a else a)"

definition event_edge :: "ParsedEntity \<Rightarrow> string \<Rightarrow> string \<Rightarrow> layer_acc \<Rightarrow> layer_acc" where
  "event_edge m called t a =
     (if t \<noteq> entity_id m then push_edge (entity_id m) t EEvent called a else a)"

definition event_step :: "ParsedEntity list \<Rightarrow> ParsedEntity \<Rightarrow> layer_acc \<Rightarrow> layer_acc" where
  "event_step es m a =
     fold (\<lambda>c a. fold (event_edge m c) (resolve_ids c es (seen a)) a) (calls m)
       (add_node_once (with_signature m (base_node NEventHandler m)) a)"

definition class_methods_step :: "ParsedEntity list \<Rightarrow> string \<times> ParsedEntity list \<Rightarrow> layer_acc \<Rightarrow> layer_acc" where
  "class_methods_step es cm a =
     (let ls = filter is_lifecycle (snd cm)
      in fold (event_step es) (filter is_event (snd cm))
           (fold next_edge (zip ls (tl ls))
             (fold (lifecycle_step (fst cm)) ls a)))"

definition find_class_id :: "string \<Rightarrow> ParsedEntity list \<Rightarrow> string set \<Rightarrow> string option" where
  "find_class_id n es ids =
     map_option entity_id
       (find (\<lambda>e. entity_type e = ''class'' \<and> pe_name e = n \<and> entity_id e \<in> ids) es)"

definition inherit_edge :: "ParsedEntity list \<Rightarrow> ParsedEntity \<Rightarrow> string \<Rightarrow> layer_acc \<Rightarrow> layer_acc" where
  "inherit_edge es e base a =
     (case find_class_id base es (seen a) of
        None \<Rightarrow> a
      | Some b \<Rightarrow> if b \<noteq> [] \<and> entity_id e \<in> seen a then push_edge (entity_id e) b EInherit base a else a)"

definition inherit_edges :: "ParsedEntity list \<Rightarrow> ParsedEntity \<Rightarrow> layer_acc \<Rightarrow> layer_acc" where
  "inherit_edges es e a = (if entity_type e = ''class'' then fold (inherit_edge es e) (bases e) a else a)"

definition state_transition_build :: "ParsedData \<Rightarrow> SGIRGraph option \<Rightarrow> build_error + SGIRGraph" where
  "state_transition_build pd existing =
     (let es = pd_entities pd
      in case fold class_step es (empty_acc, []) of
           (a, cm) \<Rightarrow> Inr (layer_graph LStateTransition
             (fold (inherit_edges es) es (fold (class_methods_step es) cm a)) existing))"

section \<open>Resources\<close>

definition IO_PATTERNS :: "string list" where
  "IO_PATTERNS = [''open'', ''read'', ''write'', ''connect'', ''send'', ''recv'', ''fetch'',
     ''request'', ''urlopen'', ''socket'', ''database'', ''query'', ''execute'', ''cursor'',
     ''connection'', ''session'', ''cache'', ''redis'', ''mq'', ''queue'', ''publish'', ''consume'',
     ''subscribe'']"

definition EXTERNAL_CALL_PATTERNS :: "string list" where
  "EXTERNAL_CALL_PATTERNS = [''requests'', ''httpx'', ''urllib'', ''aiohttp'', ''grpc'',
     ''websocket'', ''socket'', ''subprocess'', ''os.system'']"

definition detect_io_operations :: "ParsedEntity \<Rightarrow> string list" where
  "detect_io_operations e =
     fold (\<lambda>n fs. if any_in IO_PATTERNS (py_lower n) \<and> n \<notin> set fs then fs @ [n] else fs)
       (calls e @ references e) []"

definition build_resource_usage :: "ParsedEntity \<Rightarrow> (string, json) dict" where
  "build_resource_usage e =
     (let ops = detect_io_operations e
      in (if ops = [] then [] else [(''io_operations'', JArr (map JStr ops))])
         @ (if is_async e then [(''async'', JBool True)] else []))"

definition classify_resource :: "string \<Rightarrow> string" where
  "classify_resource n =
     (let l = py_lower n
      in if any_in [''database'', ''query'', ''cursor'', ''connection'', ''execute''] l then ''database''
         else if any_in [''cache'', ''redis'', ''memcache''] l then ''cache''
         else if any_in [''queue'', ''mq'', ''publish'', ''consume'', ''subscribe''] l then ''message_queue''
         else if any_in [''requests'', ''httpx'', ''urllib'', ''aiohttp'', ''fetch'', ''socket''] l then ''http''
         else ''file'')"

definition is_external :: "string \<Rightarrow> bool" where
  "is_external n \<longleftrightarrow> any_in EXTERNAL_CALL_PATTERNS (py_lower n)"

definition resource_node :: "string \<Rightarrow> SGIRNode" where
  "resource_node r = (new_node (make_node_id ''resource'' r) r)
     \<lparr>node_type := NService, resource_usage := [(''type'', JStr (classify_resource r))]\<rparr>"

definition resource_edge :: "ParsedEntity \<Rightarrow> string \<Rightarrow> layer_acc \<Rightarrow> layer_acc" where
  "resource_edge e r a =
     push_edge (entity_id e) (make_node_id ''resource'' r)
       (if is_external r then ENetwork else EDatabase) r (add_node_once (resource_node r) a)"

definition resource_step :: "ParsedEntity \<Rightarrow> layer_acc \<Rightarrow> layer_acc" where
  "resource_step e a =
     (if \<not> function_type e \<or> entity_id e \<in> seen a then a
      else let effects = detect_io_operations e
           in fold (resource_edge e) effects
                (push_node ((with_signature e (base_node (function_node_type e) e))
                   \<lparr>side_effects := effects, resource_usage := build_resource_usage e\<rparr>) a))"

definition resource_build :: "ParsedData \<Rightarrow> SGIRGraph option \<Rightarrow> build_error + SGIRGraph" where
  "resource_build pd existing =
     Inr (layer_graph LResource (fold resource_step (pd_entities pd) empty_acc) existing)"

section \<open>Security\<close>

definition AUTH_PATTERNS :: "string list" where
  "AUTH_PATTERNS = [''authenticate'', ''authorization'', ''auth'', ''login'', ''logout'', ''token'',
     ''jwt'', ''oauth'', ''session'', ''permission'', ''role'', ''access_control'', ''csrf'', ''cors'',
     ''sanitize'', ''escape'', ''validate'', ''hash'', ''encrypt'', ''decrypt'', ''sign'', ''verify'',
     ''secret'', ''credential'', ''api_key'', ''apikey'', ''password'', ''passwd'']"

definition SENSITIVE_DATA_PATTERNS :: "string list" where
  "SENSITIVE_DATA_PATTERNS = [''password'', ''secret'', ''token'', ''key'', ''credential'', ''private'',
     ''ssn'', ''credit_card'', ''email'', ''pii'', ''phi'']"

definition classify_security_boundary :: "ParsedEntity \<Rightarrow> SecurityBoundary" where
  "classify_security_boundary e =
     (let t = py_lower (join_with '' '' (calls e @ references e @ decorators e))
      in if any_in [''admin'', ''superuser'', ''root''] t then SbAdmin
         else if any_in AUTH_PATTERNS t then SbAuthenticated
         else if any_in [''internal'', ''private''] t then SbInternal
         else if any_in [''external'', ''public'', ''api''] t then SbExternal
         else SbNone)"

definition detect_auth_patterns :: "string list \<Rightarrow> ParsedEntity \<Rightarrow> string list" where
  "detect_auth_patterns order e =
     fold (\<lambda>n fs. case find (\<lambda>p. py_contains p (py_lower n)) order of
                    None \<Rightarrow> fs
                  | Some p \<Rightarrow> if p \<notin> set fs then fs @ [p] else fs)
       (calls e @ references e @ decorators e) []"

definition is_sensitive_data :: "string \<Rightarrow> bool" where
  "is_sensitive_data n \<longleftrightarrow> any_in SENSITIVE_DATA_PATTERNS (py_lower n)"

definition security_node :: "string list \<Rightarrow> ParsedEntity \<Rightarrow> SGIRNode" where
  "security_node order e = (base_node (callable_node_type e) e)
     \<lparr>security_boundary := classify_security_boundary e, side_effects := detect_auth_patterns order e\<rparr>"

definition concern_node :: "string \<Rightarrow> SGIRNode" where
  "concern_node p = (new_node (make_node_id ''security'' p) p)
     \<lparr>node_type := NMiddleware, security_boundary := SbAuthenticated, purpose := ''Security concern: '' @ p\<rparr>"

definition sensitive_node :: "string \<Rightarrow> SGIRNode" where
  "sensitive_node r = (new_node (make_node_id ''sensitive'' r) r)
     \<lparr>node_type := NDatamodel, security_boundary := SbInternal, purpose := ''Sensitive data: '' @ r\<rparr>"

definition concern_edge :: "ParsedEntity \<Rightarrow> string \<Rightarrow> layer_acc \<Rightarrow> layer_acc" where
  "concern_edge e p a =
     push_edge (entity_id e) (make_node_id ''security'' p) EEvent p (add_node_once (concern_node p) a)"

definition sensitive_edge :: "ParsedEntity \<Rightarrow> string \<Rightarrow> layer_acc \<Rightarrow> layer_acc" where
  "sensitive_edge e r a =
     (if is_sensitive_data r
      then push_edge (entity_id e) (make_node_id ''sensitive'' r) EData (''accesses:'' @ r)
             (add_node_once (sensitive_node r) a)
      else a)"

definition security_step :: "string list \<Rightarrow> ParsedEntity \<Rightarrow> layer_acc \<Rightarrow> layer_acc" where
  "security_step order e a =
     (if \<not> callable_type e then a
      else fold (sensitive_edge e) (references e)
             (fold (concern_edge e) (detect_auth_patterns order e) (add_node_once (security_node order e) a)))"

definition security_build :: "string list \<Rightarrow> ParsedData \<Rightarrow> SGIRGraph option \<Rightarrow> build_error + SGIRGraph" where
  "security_build order pd existing =
     Inr (layer_graph LSecurity (fold (security_step order) (pd_entities pd) empty_acc) existing)"

section \<open>Deployment\<close>

definition CONFIG_FILE_PATTERNS :: "string list" where
  "CONFIG_FILE_PATTERNS = [''config'', ''settings'', ''env'', ''yaml'', ''yml'', ''toml'', ''ini'', ''json'', ''properties'']"

definition is_config_entity :: "ParsedEntity \<Rightarrow> bool" where
  "is_config_entity e \<longleftrightarrow> any_in CONFIG_FILE_PATTERNS (py_lower (pe_name e))"

definition is_deployable :: "ParsedEntity \<Rightarrow> bool" where
  "is_deployable e \<longleftrightarrow>
     (\<exists>d\<in>set (decorators e). any_in [''route'', ''app'', ''handler'', ''entry'', ''main''] (py_lower d))"

definition build_system_node :: "string \<Rightarrow> SGIRNode" where
  "build_system_node b = (new_node (make_node_id ''build'' b) b)
     \<lparr>node_type := NConfig, purpose := ''Build system: '' @ b\<rparr>"

definition config_node :: "ParsedEntity \<Rightarrow> SGIRNode" where
  "config_node e = (new_node (make_node_id ''config'' (pe_name e)) (pe_name e))
     \<lparr>node_type := NConfig, language := pe_language e, source_location := Some (entity_location e),
      purpose := text_or_empty (docstring e)\<rparr>"

definition endpoint_node :: "ParsedEntity \<Rightarrow> SGIRNode" where
  "endpoint_node e = (base_node NEndpoint e)\<lparr>purpose := []\<rparr>"

text \<open>A node that hangs off the repository's node, if there is a repository.\<close>

definition deploy_node :: "RepositoryMetadata option \<Rightarrow> string \<Rightarrow> SGIRNode \<Rightarrow> layer_acc \<Rightarrow> layer_acc" where
  "deploy_node repo lab n a =
     (if node_id n \<in> seen a then a
      else let a' = push_node n a
           in case repo of
                None \<Rightarrow> a'
              | Some r \<Rightarrow>
                  let rid = make_node_id ''deploy'' (repo_name r)
                  in if rid \<in> seen a' then push_edge rid (node_id n) EDependency lab a' else a')"

definition deploy_repo :: "RepositoryMetadata option \<Rightarrow> layer_acc" where
  "deploy_repo repo =
     (case repo of
        None \<Rightarrow> empty_acc
      | Some r \<Rightarrow> fold (\<lambda>b. deploy_node repo ''builds_with'' (build_system_node b)) (build_systems r)
          (push_node (repo_node ''deploy'' NService r) empty_acc))"

definition endpoint_step :: "RepositoryMetadata option \<Rightarrow> ParsedEntity \<Rightarrow> layer_acc \<Rightarrow> layer_acc" where
  "endpoint_step repo e a =
     (if function_type e \<and> is_deployable e then deploy_node repo ''exposes'' (endpoint_node e) a else a)"

definition deployment_build :: "ParsedData \<Rightarrow> SGIRGraph option \<Rightarrow> build_error + SGIRGraph" where
  "deployment_build pd existing =
     (let repo = pd_repository pd; es = pd_entities pd
      in Inr (layer_graph LDeployment
           (fold (endpoint_step repo) es
             (fold (\<lambda>e. deploy_node repo ''configures'' (config_node e)) (filter is_config_entity es)
               (deploy_repo repo))) existing))"

section \<open>Every builder keeps its graph well formed\<close>

text \<open>Builds of the first kind: \<open>entity_nodes\<close>, then loops that grow; of the second: only such loops.\<close>

lemma entity_layer_builder:
  assumes b: "\<And>pd ex. build pd ex =
      (case entity_nodes p mk (pd_entities pd) empty_acc of
         Inl err \<Rightarrow> Inl err | Inr a \<Rightarrow> Inr (layer_graph l (rest pd a) ex))"
    and id: "\<And>e n. mk e = Inr n \<Longrightarrow> node_id n = entity_id e"
    and p: "\<And>e. p e \<Longrightarrow> callable_type e"
    and mk: "\<And>e c. parse_complexity (pe_complexity e) = Inr c \<Longrightarrow> \<exists>n. mk e = Inr n"
    and rest: "\<And>pd a. (\<And>e. e \<in> set (pd_entities pd) \<Longrightarrow> p e \<Longrightarrow> entity_id e \<in> seen a) \<Longrightarrow>
      acc_ok a \<Longrightarrow> grows a (rest pd a)"
  shows "layer_builder l build"
proof
  fix pd :: ParsedData and ex :: "SGIRGraph option" and g :: SGIRGraph
  assume "build pd ex = Inr g"
  then obtain a where a: "entity_nodes p mk (pd_entities pd) empty_acc = Inr a"
    and g: "g = layer_graph l (rest pd a) ex"
    by (auto simp: b split: sum.splits)
  note ok = entity_nodes_ok [OF id acc_ok_empty a, simplified]
  show "layer g = l" and "graph_metadata g = (case ex of None \<Rightarrow> [] | Some h \<Rightarrow> graph_metadata h)"
    by (simp_all add: g)
  have "entity_id e \<in> seen a" if "e \<in> set (pd_entities pd)" "p e" for e
    using ok(2) that by auto
  from rest [OF this ok(1)] have "grows a (rest pd a)" .
  with ok(1) show "graph_ok g" unfolding g by (blast intro: graph_ok_layer_graph growsD)
next
  fix pd :: ParsedData and ex :: "SGIRGraph option"
  assume ok: "\<And>e. e \<in> set (pd_entities pd) \<Longrightarrow> callable_type e \<Longrightarrow>
    \<exists>c. parse_complexity (pe_complexity e) = Inr c"
  have "\<exists>n. mk e = Inr n" if "e \<in> set (pd_entities pd)" "p e" for e
    using ok [OF that(1) p [OF that(2)]] mk by blast
  from entity_nodes_total [of "pd_entities pd" p mk, OF this]
  obtain a where "entity_nodes p mk (pd_entities pd) empty_acc = Inr a" by blast
  then show "\<exists>g. build pd ex = Inr g" by (simp add: b)
qed

lemma plain_layer_builder:
  assumes "\<And>pd ex. build pd ex = Inr (layer_graph l (acc pd) ex)" "\<And>pd. grows empty_acc (acc pd)"
  shows "layer_builder l build"
  by standard (auto simp: assms intro: graph_ok_layer_graph growsD [OF assms(2)] acc_ok_empty)

lemma find_call_target_seen: "find_call_target c e es ids = Some t \<Longrightarrow> t \<in> ids"
  by (auto simp: find_call_target_def Let_def find_Some_iff split: option.splits if_splits)

lemma call_edges_grows: "(callable_type e \<Longrightarrow> entity_id e \<in> seen a) \<Longrightarrow> grows a (call_edges es e a)"
  unfolding call_edges_def
  by (auto intro!: grows_fold acc_intros simp: call_edge_def find_call_target_seen growsD split: option.split)

interpretation call_builder: layer_builder LCall call_graph_build
  by (rule entity_layer_builder [where p = callable_type and mk = call_node
        and rest = "\<lambda>pd. fold (call_edges (pd_entities pd)) (pd_entities pd)"])
    (auto simp: call_graph_build_def Let_def call_node_def with_complexity_def split: sum.splits
      intro!: grows_fold call_edges_grows intro: growsD)

lemma name_to_ids_seen: "acc_ok a \<Longrightarrow> t \<in> set (name_to_ids a n) \<Longrightarrow> t \<in> seen a"
  by (auto simp: name_to_ids_def acc_ok_def)

lemma edges_from_grows:
  assumes "\<And>t b. f t b = (if t \<noteq> s then push_edge s t ty lab b else b)" "s \<in> seen a" "set ts \<subseteq> seen a"
  shows "grows a (fold f ts a)"
proof (rule grows_fold)
  fix t b assume "t \<in> set ts" "grows a b"
  with assms(2,3) have "s \<in> seen b" "t \<in> seen b" by (auto dest: grows_seen)
  then show "grows b (f t b)" by (simp add: assms(1) grows_push_edge)
qed

lemma data_edges_grows:
  assumes "acc_ok a" "function_type e \<Longrightarrow> entity_id e \<in> seen a"
  shows "grows a (data_edges e a)"
proof (cases "function_type e")
  case True
  have "grows b (fold (data_edge e r) (name_to_ids b r) b)" if "grows a b" for r b
  proof (rule edges_from_grows)
    show "data_edge e r t c = (if t \<noteq> entity_id e then push_edge (entity_id e) t EData r c else c)" for t c
      by (simp add: data_edge_def)
    show "entity_id e \<in> seen b" using assms(2) [OF True] that by (blast dest: growsD)
    show "set (name_to_ids b r) \<subseteq> seen b"
      using name_to_ids_seen growsD(1) [OF that assms(1)] by blast
  qed
  with True show ?thesis unfolding data_edges_def by (auto intro: grows_fold)
qed (simp add: data_edges_def)

interpretation data_flow_builder: layer_builder LDataFlow data_flow_build
  by (rule entity_layer_builder [where p = function_type and mk = data_flow_node
        and rest = "\<lambda>pd. fold data_edges (pd_entities pd)"])
    (auto simp: data_flow_build_def data_flow_node_def with_complexity_def function_type_def callable_type_def
      split: sum.splits intro!: grows_fold data_edges_grows intro: growsD)

lemma resolve_ids_seen: "t \<in> set (resolve_ids n es ids) \<Longrightarrow> t \<in> ids"
  by (auto simp: resolve_ids_def)

lemma contains_edges_grows: "grows a (contains_edges es e a)"
  unfolding contains_edges_def by (auto intro!: grows_fold acc_intros simp: contains_edge_def)

lemma route_edges_grows: "grows a (route_edges es e a)"
proof (cases "entity_id e \<in> seen a")
  case True
  have "grows b (fold (route_edge e c) (resolve_ids c es (seen b)) b)" if "grows a b" for c b
  proof (rule edges_from_grows)
    show "route_edge e c t d = (if t \<noteq> entity_id e then push_edge (entity_id e) t EControl c d else d)" for t d
      by (simp add: route_edge_def)
    show "entity_id e \<in> seen b" using True that by (blast dest: growsD)
    show "set (resolve_ids c es (seen b)) \<subseteq> seen b" using resolve_ids_seen by blast
  qed
  then show ?thesis unfolding route_edges_def by (auto intro: grows_fold)
qed (simp add: route_edges_def)

interpretation control_flow_builder: layer_builder LControlFlow control_flow_build
  by (rule entity_layer_builder [where p = callable_type and mk = control_node
        and rest = "\<lambda>pd a. fold (route_edges (pd_entities pd)) (pd_entities pd)
          (fold (contains_edges (pd_entities pd)) (pd_entities pd) a)"])
    (auto simp: control_flow_build_def Let_def control_node_def with_complexity_def split: sum.splits
      intro: grows_trans [OF grows_fold grows_fold] contains_edges_grows route_edges_grows)

text \<open>Dependencies: \<open>module_nodes\<close> only holds ids of nodes.\<close>

definition mods_grow ::
    "layer_acc \<times> (string, string) dict \<Rightarrow> layer_acc \<times> (string, string) dict \<Rightarrow> bool" where
  "mods_grow x y \<longleftrightarrow> grows (fst x) (fst y) \<and>
     (snd ` set (snd x) \<subseteq> seen (fst x) \<longrightarrow> snd ` set (snd y) \<subseteq> seen (fst y))"

lemma mods_grow_trans [trans]: "mods_grow x y \<Longrightarrow> mods_grow y z \<Longrightarrow> mods_grow x z"
  by (auto simp: mods_grow_def intro: grows_trans)

lemma mods_grow_fold:
  assumes "\<And>x am. x \<in> set xs \<Longrightarrow> mods_grow am (f x am)"
  shows "mods_grow am (fold f xs am)"
  using assms
proof (induction xs arbitrary: am)
  case (Cons x xs)
  have "mods_grow am (f x am)" by (rule Cons.prems) simp
  also have "mods_grow (f x am) (fold f xs (f x am))" by (rule Cons.IH) (simp add: Cons.prems)
  finally show ?case by simp
qed (simp add: mods_grow_def)

lemma snd_dict_set: "snd ` set (dict_set k v m) \<subseteq> insert v (snd ` set m)"
  by (induction m) auto

lemma note_module_grows: "mods_grow am (note_module n am)"
proof -
  obtain a mods where am: "am = (a, mods)" by (cases am)
  show ?thesis
    using snd_dict_set [of "node_name n" "node_id n" mods]
    by (auto simp: am note_module_def mods_grow_def intro: grows_push_node)
qed

lemma note_module_seen: "node_id n \<in> seen (fst (note_module n am))"
  by (cases am) (simp add: note_module_def)

lemma import_step_grows: "mods_grow am (import_step e imp am)"
proof -
  let ?b = "note_module (import_source_node e) am"
  let ?c = "note_module (import_target_node e imp) ?b"
  have "mods_grow ?b ?c" "mods_grow am ?c" by (auto intro: mods_grow_trans note_module_grows)
  moreover have "make_node_id ''module'' (pe_file_path e) \<in> seen (fst ?b)"
    using note_module_seen [of "import_source_node e" am] by (simp add: import_source_node_def new_node_def)
  moreover have "make_node_id ''module'' imp \<in> seen (fst ?c)"
    using note_module_seen [of "import_target_node e imp" ?b] by (simp add: import_target_node_def new_node_def)
  ultimately have "mods_grow ?c (import_step e imp am)" "mods_grow am ?c"
    by (auto simp: import_step_def mods_grow_def split: prod.split intro!: grows_push_edge dest: growsD)
  then show ?thesis by (auto intro: mods_grow_trans)
qed

lemma import_steps_grows: "mods_grow am (import_steps e am)"
  by (auto simp: import_steps_def mods_grow_def [of am am] intro!: mods_grow_fold import_step_grows)

lemma repo_edges_grows:
  assumes "snd ` set mods \<subseteq> seen a"
  shows "grows a (repo_edges r mods a)"
proof -
  have "grows (add_node_once (repo_node ''repo'' NPackage r) a) (repo_edges r mods a)"
    unfolding repo_edges_def Let_def using assms
    by (intro grows_fold) (force intro!: grows_push_edge simp: repo_node_def new_node_def dest!: grows_seen)
  then show ?thesis by (blast intro: grows_trans grows_add_node_once)
qed

definition dependency_acc :: "ParsedData \<Rightarrow> layer_acc" where
  "dependency_acc pd =
     (case fold import_steps (pd_entities pd) (empty_acc, []) of
        (a, mods) \<Rightarrow> (case pd_repository pd of None \<Rightarrow> a | Some r \<Rightarrow> repo_edges r mods a))"

interpretation dependency_builder: layer_builder LDependency dependency_build
proof (rule plain_layer_builder [where acc = dependency_acc])
  show "dependency_build pd ex = Inr (layer_graph LDependency (dependency_acc pd) ex)" for pd ex
    by (simp add: dependency_build_def dependency_acc_def split: prod.split)
  show "grows empty_acc (dependency_acc pd)" for pd
  proof -
    obtain a mods where am: "fold import_steps (pd_entities pd) (empty_acc, []) = (a, mods)" by force
    have "mods_grow (empty_acc, []) (a, mods)"
      unfolding am [symmetric] by (intro mods_grow_fold import_steps_grows)
    then have "grows empty_acc a" "snd ` set mods \<subseteq> seen a" by (auto simp: mods_grow_def)
    then show ?thesis
      by (auto simp: dependency_acc_def am split: option.split intro: grows_trans repo_edges_grows)
  qed
qed

lemma class_step_grows: "grows (fst am) (fst (class_step e am))"
  by (cases am) (simp add: class_step_def)

lemma class_steps_grow: "grows (fst am) (fst (fold class_step es am))"
proof (induction es arbitrary: am)
  case (Cons e es)
  show ?case using class_step_grows [of am e] Cons.IH [of "class_step e am"] by (auto intro: grows_trans)
qed simp

lemma lifecycle_step_grows: "grows a (lifecycle_step c m a)"
proof -
  let ?b = "add_node_once (with_signature m (base_node NMethod m)) a"
  have "entity_id m \<in> seen ?b" by simp
  then have "grows ?b (lifecycle_step c m a)" by (auto simp: lifecycle_step_def Let_def intro!: grows_push_edge)
  then show ?thesis by (blast intro: grows_trans grows_add_node_once)
qed

lemma next_edge_grows: "grows a (next_edge pm a)"
  by (auto simp: next_edge_def intro: grows_push_edge)

lemma event_step_grows: "grows a (event_step es m a)"
proof -
  let ?b = "add_node_once (with_signature m (base_node NEventHandler m)) a"
  have "grows d (fold (event_edge m c) (resolve_ids c es (seen d)) d)" if "grows ?b d" for c d
  proof (rule edges_from_grows)
    show "event_edge m c t x = (if t \<noteq> entity_id m then push_edge (entity_id m) t EEvent c x else x)" for t x
      by (simp add: event_edge_def)
    show "entity_id m \<in> seen d" using that by (auto dest: grows_seen)
    show "set (resolve_ids c es (seen d)) \<subseteq> seen d" using resolve_ids_seen by blast
  qed
  then have "grows ?b (event_step es m a)" unfolding event_step_def by (auto intro: grows_fold [where a = ?b])
  then show ?thesis by (blast intro: grows_trans grows_add_node_once)
qed

lemma class_methods_step_grows: "grows a (class_methods_step es cm a)"
  unfolding class_methods_step_def Let_def
  by (intro grows_trans [OF grows_trans [OF grows_fold grows_fold] grows_fold]
      lifecycle_step_grows next_edge_grows event_step_grows)

lemma find_class_id_seen: "find_class_id n es ids = Some t \<Longrightarrow> t \<in> ids"
  by (auto simp: find_class_id_def find_Some_iff)

lemma inherit_edges_grows: "grows a (inherit_edges es e a)"
  unfolding inherit_edges_def
  by (auto intro!: grows_fold acc_intros simp: inherit_edge_def find_class_id_seen split: option.split)

interpretation state_transition_builder: layer_builder LStateTransition state_transition_build
proof (rule plain_layer_builder [where acc = "\<lambda>pd. let es = pd_entities pd; am = fold class_step es (empty_acc, [])
      in fold (inherit_edges es) es (fold (class_methods_step es) (snd am) (fst am))"])
  show "grows empty_acc (let es = pd_entities pd; am = fold class_step es (empty_acc, [])
      in fold (inherit_edges es) es (fold (class_methods_step es) (snd am) (fst am)))" for pd
    using class_steps_grow [of "(empty_acc, [])" "pd_entities pd"]
    by (auto simp: Let_def intro: grows_trans [OF _ grows_trans [OF grows_fold grows_fold]]
        class_methods_step_grows inherit_edges_grows)
qed (simp add: state_transition_build_def Let_def case_prod_beta)

lemma node_id_new [simp]: "node_id (new_node i n) = i"
  by (simp add: new_node_def)

lemma resource_edge_grows: "entity_id e \<in> seen a \<Longrightarrow> grows a (resource_edge e r a)"
proof -
  assume e: "entity_id e \<in> seen a"
  let ?b = "add_node_once (resource_node r) a"
  have "entity_id e \<in> seen ?b" "make_node_id ''resource'' r \<in> seen ?b" using e by (simp_all add: resource_node_def)
  then have "grows ?b (resource_edge e r a)" by (auto simp: resource_edge_def intro!: grows_push_edge)
  then show ?thesis by (blast intro: grows_trans grows_add_node_once)
qed

lemma resource_step_grows: "grows a (resource_step e a)"
proof (cases "function_type e \<and> entity_id e \<notin> seen a")
  case True
  let ?n = "(with_signature e (base_node (function_node_type e) e))
    \<lparr>side_effects := detect_io_operations e, resource_usage := build_resource_usage e\<rparr>"
  have "grows a (push_node ?n a)" using True by (intro grows_push_node) simp
  also have "grows (push_node ?n a) (fold (resource_edge e) (detect_io_operations e) (push_node ?n a))"
    by (rule grows_fold) (auto intro!: resource_edge_grows dest!: grows_seen)
  finally show ?thesis using True by (simp add: resource_step_def Let_def)
qed (auto simp: resource_step_def)

interpretation resource_builder: layer_builder LResource resource_build
  by (rule plain_layer_builder [where acc = "\<lambda>pd. fold resource_step (pd_entities pd) empty_acc"])
    (auto simp: resource_build_def intro: grows_fold resource_step_grows)

lemma concern_edge_grows: "entity_id e \<in> seen a \<Longrightarrow> grows a (concern_edge e p a)"
proof -
  assume e: "entity_id e \<in> seen a"
  let ?b = "add_node_once (concern_node p) a"
  have "entity_id e \<in> seen ?b" "make_node_id ''security'' p \<in> seen ?b" using e by (simp_all add: concern_node_def)
  then have "grows ?b (concern_edge e p a)" by (auto simp: concern_edge_def intro!: grows_push_edge)
  then show ?thesis by (blast intro: grows_trans grows_add_node_once)
qed

lemma sensitive_edge_grows: "entity_id e \<in> seen a \<Longrightarrow> grows a (sensitive_edge e r a)"
proof -
  assume e: "entity_id e \<in> seen a"
  let ?b = "add_node_once (sensitive_node r) a"
  have "entity_id e \<in> seen ?b" "make_node_id ''sensitive'' r \<in> seen ?b" using e by (simp_all add: sensitive_node_def)
  then have "is_sensitive_data r \<Longrightarrow> grows ?b (sensitive_edge e r a)" by (auto simp: sensitive_edge_def intro!: grows_push_edge)
  then show ?thesis
    by (cases "is_sensitive_data r") (auto simp: sensitive_edge_def intro: grows_trans [OF grows_add_node_once])
qed

lemma security_step_grows: "grows a (security_step order e a)"
proof (cases "callable_type e")
  case True
  let ?b = "add_node_once (security_node order e) a"
  let ?c = "fold (concern_edge e) (detect_auth_patterns order e) ?b"
  have b: "entity_id e \<in> seen ?b" by (simp add: security_node_def)
  then have c: "grows ?b ?c" by (intro grows_fold) (auto intro!: concern_edge_grows dest!: grows_seen)
  with b have "entity_id e \<in> seen ?c" by (blast dest: growsD)
  then have "grows ?c (fold (sensitive_edge e) (references e) ?c)"
    by (intro grows_fold) (auto intro!: sensitive_edge_grows dest!: grows_seen)
  with c True show ?thesis by (auto simp: security_step_def intro: grows_trans [OF grows_add_node_once grows_trans])
qed (simp add: security_step_def)

interpretation security_builder: layer_builder LSecurity "security_build order" for order
  by (rule plain_layer_builder [where acc = "\<lambda>pd. fold (security_step order) (pd_entities pd) empty_acc"])
    (auto simp: security_build_def intro: grows_fold security_step_grows)

lemma deploy_node_grows: "grows a (deploy_node repo lab n a)"
  by (auto simp: deploy_node_def Let_def intro: grows_push_node grows_trans [OF grows_push_node grows_push_edge]
      split: option.split)

lemma deploy_repo_grows: "grows empty_acc (deploy_repo repo)"
proof (cases repo)
  case (Some r)
  have "grows empty_acc (push_node (repo_node ''deploy'' NService r) empty_acc)"
    by (rule grows_push_node) (simp add: empty_acc_def)
  with Some show ?thesis
    by (auto simp: deploy_repo_def intro: grows_trans [OF _ grows_fold] deploy_node_grows)
qed (simp add: deploy_repo_def)

lemma endpoint_step_grows: "grows a (endpoint_step repo e a)"
  by (simp add: endpoint_step_def deploy_node_grows)

interpretation deployment_builder: layer_builder LDeployment deployment_build
  by (rule plain_layer_builder [where acc = "\<lambda>pd. fold (endpoint_step (pd_repository pd)) (pd_entities pd)
        (fold (\<lambda>e. deploy_node (pd_repository pd) ''configures'' (config_node e))
          (filter is_config_entity (pd_entities pd)) (deploy_repo (pd_repository pd)))"])
    (auto simp: deployment_build_def Let_def
      intro: grows_trans [OF grows_trans [OF deploy_repo_grows grows_fold] grows_fold] deploy_node_grows endpoint_step_grows)

end
