(* ===== verification/GraphBuild.thy ===== *)
theory GraphBuild
  imports LayerBuilders
begin

text \<open>
  The builder registry (\<open>layers.py\<close>, \<open>optimization/layers/__init__.py\<close>) and the building of a
  software graph from parsed entities (\<open>operations.build_software_graph\<close>), up to its JSON text:
  validating the incoming dicts and dumping the graph are pydantic's.
\<close>

type_synonym builder = "ParsedData \<Rightarrow> SGIRGraph option \<Rightarrow> build_error + SGIRGraph"

type_synonym builder_registry = "(GraphLayer, builder) dict"

definition register_builder :: "GraphLayer \<Rightarrow> builder \<Rightarrow> builder_registry \<Rightarrow> builder_registry" where
  "register_builder l b r = dict_set l b r"

definition get_builder :: "GraphLayer \<Rightarrow> builder_registry \<Rightarrow> builder option" where
  "get_builder l r = dict_get r l"

definition registered_layers :: "builder_registry \<Rightarrow> GraphLayer list" where
  "registered_layers r = map fst r"

fun build_loop :: "builder_registry \<Rightarrow> ParsedData \<Rightarrow> layer_dict \<Rightarrow> build_error + layer_dict" where
  "build_loop [] pd results = Inr results"
| "build_loop ((l, b) # r) pd results =
     (case b pd (dict_get results l) of
        Inl e \<Rightarrow> Inl e
      | Inr g \<Rightarrow> build_loop r pd (dict_set l g results))"

definition build_all :: "builder_registry \<Rightarrow> ParsedData \<Rightarrow> build_error + layer_dict" where
  "build_all r pd = build_loop r pd []"

definition create_default_registry :: "string list \<Rightarrow> builder_registry" where
  "create_default_registry order =
     register_builder LDeployment deployment_build
     (register_builder LSecurity (security_build order)
     (register_builder LResource resource_build
     (register_builder LStateTransition state_transition_build
     (register_builder LDependency dependency_build
     (register_builder LControlFlow control_flow_build
     (register_builder LDataFlow data_flow_build
     (register_builder LCall call_graph_build [])))))))"

definition build_software_graph ::
    "string list \<Rightarrow> RepositoryMetadata \<Rightarrow> ParsedEntity list \<Rightarrow> build_error + SoftwareGraph" where
  "build_software_graph order repo es =
     (case build_all (create_default_registry order) \<lparr>pd_entities = es, pd_repository = Some repo\<rparr> of
        Inl e \<Rightarrow> Inl e
      | Inr results \<Rightarrow> Inr (fold add_layer (map snd results) \<lparr>repository = repo, layers = []\<rparr>))"

section \<open>The registry\<close>

lemma default_registry_alt:
  "create_default_registry order =
     [(LCall, call_graph_build), (LDataFlow, data_flow_build), (LControlFlow, control_flow_build),
      (LDependency, dependency_build), (LStateTransition, state_transition_build),
      (LResource, resource_build), (LSecurity, security_build order), (LDeployment, deployment_build)]"
  by (simp add: create_default_registry_def register_builder_def)

lemma default_registry_builders: "\<forall>(l, b)\<in>set (create_default_registry order). layer_builder l b"
  by (simp add: default_registry_alt call_builder.layer_builder_axioms data_flow_builder.layer_builder_axioms
      control_flow_builder.layer_builder_axioms dependency_builder.layer_builder_axioms
      state_transition_builder.layer_builder_axioms resource_builder.layer_builder_axioms
      security_builder.layer_builder_axioms deployment_builder.layer_builder_axioms)

text \<open>With builders that keep their contract, \<open>build_all\<close> has one well-formed graph per layer, in order.\<close>

definition layers_ok :: "layer_dict \<Rightarrow> bool" where
  "layers_ok ls \<longleftrightarrow> distinct (map fst ls) \<and> (\<forall>(l, g)\<in>set ls. layer g = l \<and> graph_ok g)"

lemma build_loop_ok:
  assumes "\<forall>(l, b)\<in>set r. layer_builder l b" "distinct (map fst ls @ map fst r)"
    and "layers_ok ls" "build_loop r pd ls = Inr ls'"
  shows "layers_ok ls' \<and> map fst ls' = map fst ls @ map fst r"
  using assms
proof (induction r arbitrary: ls)
  case (Cons x r)
  obtain l b where x: "x = (l, b)" by (cases x)
  from Cons.prems(4) obtain g where g: "b pd (dict_get ls l) = Inr g" "build_loop r pd (dict_set l g ls) = Inr ls'"
    by (auto simp: x split: sum.splits)
  have lb: "layer_builder l b" using Cons.prems(1) by (simp add: x)
  have gok: "layer g = l" "graph_ok g"
    using layer_builder.build_layer [OF lb g(1)] layer_builder.build_ok [OF lb g(1)] by auto
  have new: "dict_set l g ls = ls @ [(l, g)]"
    using Cons.prems(2) by (intro dict_set_new) (auto simp: x)
  have "layers_ok ls' \<and> map fst ls' = map fst (ls @ [(l, g)]) @ map fst r"
  proof (rule Cons.IH)
    show "\<forall>(l, b)\<in>set r. layer_builder l b" using Cons.prems(1) by simp
    show "distinct (map fst (ls @ [(l, g)]) @ map fst r)" using Cons.prems(2) by (auto simp: x)
    show "layers_ok (ls @ [(l, g)])"
      using Cons.prems(2,3) gok by (auto simp: layers_ok_def x)
    show "build_loop r pd (ls @ [(l, g)]) = Inr ls'" using g(2) new by simp
  qed
  then show ?case by (simp add: x)
qed simp

lemma build_loop_total:
  assumes "\<forall>(l, b)\<in>set r. layer_builder l b"
    and "\<And>e. e \<in> set (pd_entities pd) \<Longrightarrow> callable_type e \<Longrightarrow> \<exists>c. parse_complexity (pe_complexity e) = Inr c"
  shows "\<exists>ls'. build_loop r pd ls = Inr ls'"
  using assms(1)
proof (induction r arbitrary: ls)
  case (Cons x r)
  obtain l b where x: "x = (l, b)" by (cases x)
  have lb: "layer_builder l b" using Cons.prems by (simp add: x)
  from layer_builder.build_total [OF lb assms(2)]
  obtain g where "b pd (dict_get ls l) = Inr g" by blast
  with Cons show ?case by (auto simp: x)
qed simp

lemma fold_add_layer:
  assumes "distinct (map fst (ls0 @ ls))" "\<forall>(l, g)\<in>set ls. layer g = l"
  shows "fold add_layer (map snd ls) \<lparr>repository = repo, layers = ls0\<rparr> =
    \<lparr>repository = repo, layers = ls0 @ ls\<rparr>"
  using assms
proof (induction ls arbitrary: ls0)
  case (Cons x ls)
  obtain l g where x: "x = (l, g)" by (cases x)
  have "layer g = l" using Cons.prems(2) by (simp add: x)
  moreover have "dict_set l g ls0 = ls0 @ [(l, g)]" using Cons.prems(1) by (intro dict_set_new) (auto simp: x)
  ultimately show ?case using Cons.IH [of "ls0 @ [(l, g)]"] Cons.prems by (simp add: x add_layer_def)
qed simp

lemma build_software_graph_ok:
  assumes "\<forall>e\<in>set es. callable_type e \<longrightarrow> (\<exists>c. parse_complexity (pe_complexity e) = Inr c)"
  shows "\<exists>sg. build_software_graph order repo es = Inr sg \<and> wf_sg sg \<and> repository sg = repo \<and>
    layers_present sg = [LCall, LDataFlow, LControlFlow, LDependency, LStateTransition, LResource,
      LSecurity, LDeployment] \<and>
    (\<forall>g\<in>snd ` set (layers sg). graph_ok g)"
proof -
  let ?r = "create_default_registry order" and ?pd = "\<lparr>pd_entities = es, pd_repository = Some repo\<rparr>"
  from build_loop_total [OF default_registry_builders, of ?pd order "[]"] assms
  obtain ls where ls: "build_loop ?r ?pd [] = Inr ls" by auto
  have ok: "layers_ok ls \<and> map fst ls = map fst ?r"
    using build_loop_ok [of ?r "[]" ?pd ls] default_registry_builders ls
    by (simp add: layers_ok_def default_registry_alt)
  then have "distinct (map fst ([] @ ls)) \<and> (\<forall>(l, g)\<in>set ls. layer g = l)" by (auto simp: layers_ok_def)
  then have "build_software_graph order repo es = Inr \<lparr>repository = repo, layers = ls\<rparr>"
    using fold_add_layer [of "[]" ls repo] by (simp add: build_software_graph_def build_all_def ls)
  with ok show ?thesis
    by (auto simp: wf_sg_def layers_ok_def layers_present_def default_registry_alt)
qed

text \<open>
  C14: entities whose functions, methods and classes have known complexity texts give a software graph (an
  unknown text makes the build raise, see \<open>parse_complexity\<close>): it is well formed, has all eight layers in the order of registration, and in every layer ids are unique and both
  ends of every edge are nodes of that layer.
\<close>

theorem built_graph_well_formed:
  assumes "\<forall>e\<in>set es. callable_type e \<longrightarrow> (\<exists>c. parse_complexity (pe_complexity e) = Inr c)"
  shows "\<exists>sg. build_software_graph order repo es = Inr sg \<and> wf_sg sg \<and> repository sg = repo \<and>
    layers_present sg = [LCall, LDataFlow, LControlFlow, LDependency, LStateTransition, LResource,
      LSecurity, LDeployment] \<and>
    (\<forall>g\<in>snd ` set (layers sg). graph_ok g)"
  by (rule build_software_graph_ok [OF assms])

definition demo_entities :: "ParsedEntity list" where
  "demo_entities =
     [(new_entity ''run'' ''function'' ''a.py'')\<lparr>calls := [''open'']\<rparr>,
      (new_entity ''main'' ''function'' ''b.py'')\<lparr>calls := [''run'', ''login'']\<rparr>,
      new_entity ''run'' ''function'' ''b.py'']"

definition demo_repo :: RepositoryMetadata where
  "demo_repo = \<lparr>repo_name = ''demo'', root_path = ''/demo'', languages = [''python''], frameworks = [],
     build_systems = [''pip''], architecture_style = ''unknown'', total_files = 2, total_lines = 9, extra = []\<rparr>"

lemma built_graph_well_formed_witness:
  "\<exists>sg. build_software_graph AUTH_PATTERNS demo_repo demo_entities = Inr sg \<and> wf_sg sg \<and> repository sg = demo_repo \<and>
    layers_present sg = [LCall, LDataFlow, LControlFlow, LDependency, LStateTransition, LResource,
      LSecurity, LDeployment] \<and> list_all graph_ok (map snd (layers sg))"
proof -
  have "\<forall>e\<in>set demo_entities. callable_type e \<longrightarrow> (\<exists>c. parse_complexity (pe_complexity e) = Inr c)"
    by (auto simp: demo_entities_def new_entity_def parse_complexity_def)
  from built_graph_well_formed [OF this, of AUTH_PATTERNS demo_repo]
  show ?thesis by (simp add: list_all_iff)
qed

section \<open>The call graph\<close>

definition call_edge_list :: "ParsedEntity list \<Rightarrow> string set \<Rightarrow> ParsedEntity \<Rightarrow> string \<Rightarrow> SGIREdge list" where
  "call_edge_list es ids e c =
     (case find_call_target c e es ids of
        None \<Rightarrow> []
      | Some t \<Rightarrow> if t \<noteq> [] \<and> t \<noteq> entity_id e then [(new_edge (entity_id e) t ECall)\<lparr>label := c\<rparr>] else [])"

lemma call_edge_alt: "call_edge es e c a = a\<lparr>acc_edges := acc_edges a @ call_edge_list es (seen a) e c\<rparr>"
  by (simp add: call_edge_def call_edge_list_def push_edge_def split: option.split)

lemma fold_append_edges:
  assumes "\<And>x a. f x a = a\<lparr>acc_edges := acc_edges a @ h (seen a) x\<rparr>"
  shows "fold f xs a = a\<lparr>acc_edges := acc_edges a @ concat (map (h (seen a)) xs)\<rparr>"
  by (induction xs arbitrary: a) (simp_all add: assms)

lemma call_edges_alt:
  "call_edges es e a = a\<lparr>acc_edges := acc_edges a @
     (if callable_type e then concat (map (call_edge_list es (seen a) e) (calls e)) else [])\<rparr>"
  by (simp add: call_edges_def fold_append_edges [where h = "\<lambda>ids. call_edge_list es ids e", OF call_edge_alt])

lemma call_graph_edges:
  assumes "call_graph_build pd ex = Inr g"
  shows "node_ids g = entity_id ` {e \<in> set (pd_entities pd). callable_type e}"
    and "edges g = concat (map (\<lambda>e. if callable_type e
      then concat (map (call_edge_list (pd_entities pd) (node_ids g) e) (calls e)) else []) (pd_entities pd))"
proof -
  let ?es = "pd_entities pd"
  from assms obtain a where a: "entity_nodes callable_type call_node ?es empty_acc = Inr a"
    and g: "g = layer_graph LCall (fold (call_edges ?es) ?es a) ex"
    by (auto simp: call_graph_build_def Let_def split: sum.splits)
  have fold: "fold (call_edges ?es) ?es a = a\<lparr>acc_edges := acc_edges a @ concat (map (\<lambda>e. if callable_type e
      then concat (map (call_edge_list ?es (seen a) e) (calls e)) else []) ?es)\<rparr>"
    by (rule fold_append_edges) (rule call_edges_alt)
  have id: "call_node e = Inr n \<Longrightarrow> node_id n = entity_id e" for e n
    by (auto simp: call_node_def dest: node_id_complexity)
  note ok = entity_nodes_ok [OF id acc_ok_empty a, simplified]
  have ids: "node_ids g = seen a" using ok(1) by (simp add: g fold layer_graph_def node_ids_alt acc_ok_def)
  with ok(2) show "node_ids g = entity_id ` {e \<in> set ?es. callable_type e}" by (simp add: empty_acc_def)
  show "edges g = concat (map (\<lambda>e. if callable_type e
      then concat (map (call_edge_list ?es (node_ids g) e) (calls e)) else []) ?es)"
    using ok(3) unfolding ids by (simp add: g fold layer_graph_def empty_acc_def)
qed

text \<open>
  C15: the call graph has a node for the id of every function, method and class, and exactly the
  edges from callers to what their calls resolve to, self calls left out.  A call resolves to the
  first entity of its name whose id is a node; only if there is none, to \<open>parent.name\<close> in the file
  of the caller.
\<close>

theorem call_graph_spec:
  assumes "call_graph_build pd ex = Inr g"
  shows "node_ids g = entity_id ` {e \<in> set (pd_entities pd). callable_type e} \<and>
    set (edges g) = {(new_edge (entity_id e) t ECall)\<lparr>label := c\<rparr> | e c t.
       e \<in> set (pd_entities pd) \<and> callable_type e \<and> c \<in> set (calls e) \<and> t \<in> node_ids g \<and> t \<noteq> entity_id e \<and>
       (case filter (\<lambda>d. pe_name d = c \<and> entity_id d \<in> node_ids g) (pd_entities pd) of
          d # ds \<Rightarrow> t = entity_id d
        | [] \<Rightarrow> \<exists>p. parent e = Some p \<and> p \<noteq> [] \<and> t = make_node_id (pe_file_path e) (p @ ''.'' @ c))}"
    (is "_ \<and> _ = {_ | e c t. ?P e c t}")
proof -
  have find: "find P xs = (case filter P xs of [] \<Rightarrow> None | x # xs \<Rightarrow> Some x)" for P and xs :: "ParsedEntity list"
    by (induction xs) auto
  have ne: "entity_id d \<noteq> []" "make_node_id p q \<noteq> []" for d p q
    by (simp_all add: entity_id_def make_node_id_def)
  have target: "find_call_target c e (pd_entities pd) (node_ids g) = Some t \<and> t \<noteq> [] \<longleftrightarrow>
      t \<in> node_ids g \<and>
      (case filter (\<lambda>d. pe_name d = c \<and> entity_id d \<in> node_ids g) (pd_entities pd) of
          d # ds \<Rightarrow> t = entity_id d
        | [] \<Rightarrow> \<exists>p. parent e = Some p \<and> p \<noteq> [] \<and> t = make_node_id (pe_file_path e) (p @ ''.'' @ c))" for c e t
  proof (cases "filter (\<lambda>d. pe_name d = c \<and> entity_id d \<in> node_ids g) (pd_entities pd)")
    case Nil
    then show ?thesis
      by (cases "parent e") (auto simp: find_call_target_def find text_or_empty_def ne Let_def split: if_splits)
  next
    case (Cons d ds)
    then have "d \<in> set (filter (\<lambda>d. pe_name d = c \<and> entity_id d \<in> node_ids g) (pd_entities pd))" by simp
    then have "entity_id d \<in> node_ids g" by simp
    with Cons show ?thesis by (auto simp: find_call_target_def find ne)
  qed
  have list: "x \<in> set (call_edge_list (pd_entities pd) (node_ids g) e c) \<longleftrightarrow>
      (\<exists>t. find_call_target c e (pd_entities pd) (node_ids g) = Some t \<and> t \<noteq> [] \<and> t \<noteq> entity_id e \<and>
        x = (new_edge (entity_id e) t ECall)\<lparr>label := c\<rparr>)" for x e c
    by (cases "find_call_target c e (pd_entities pd) (node_ids g)") (auto simp: call_edge_list_def)
  have "x \<in> set (edges g) \<longleftrightarrow> (\<exists>e\<in>set (pd_entities pd). callable_type e \<and>
      (\<exists>c\<in>set (calls e). x \<in> set (call_edge_list (pd_entities pd) (node_ids g) e c)))" for x
    unfolding call_graph_edges(2) [OF assms] by (auto split: if_splits)
  also have "\<dots> x \<longleftrightarrow> (\<exists>e c t. x = (new_edge (entity_id e) t ECall)\<lparr>label := c\<rparr> \<and> ?P e c t)" for x
    unfolding list using target by blast
  finally show ?thesis using call_graph_edges(1) [OF assms] by blast
qed

definition demo_data :: ParsedData where
  "demo_data = \<lparr>pd_entities = demo_entities, pd_repository = Some demo_repo\<rparr>"

text \<open>
  In \<open>demo_entities\<close> the file \<open>b.py\<close> defines and calls \<open>run\<close>; the edge goes to the \<open>run\<close> of
  \<open>a.py\<close>, which comes first.
\<close>

lemma call_resolves_to_first_file:
  "\<exists>g. call_graph_build demo_data None = Inr g \<and>
    map (\<lambda>e. (source e, target e)) (edges g) = [(''b.py::main'', ''a.py::run'')]"
  by (simp add: demo_data_def demo_entities_def call_graph_build_def new_entity_def callable_type_def
      entity_id_def make_node_id_def call_node_def with_complexity_def parse_complexity_def with_signature_def
      base_node_def new_node_def push_node_def empty_acc_def call_edges_def call_edge_def find_call_target_def
      text_or_empty_def push_edge_def new_edge_def layer_graph_def)

lemma call_graph_spec_witness:
  "\<exists>g. call_graph_build demo_data None = Inr g \<and>
    node_ids g = {''a.py::run'', ''b.py::main'', ''b.py::run''} \<and> edges g \<noteq> []"
proof -
  from call_resolves_to_first_file obtain g where
    g: "call_graph_build demo_data None = Inr g" "map (\<lambda>e. (source e, target e)) (edges g) \<noteq> []" by auto
  have "{e \<in> set (pd_entities demo_data). callable_type e} = set demo_entities"
    by (auto simp: demo_data_def demo_entities_def new_entity_def callable_type_def)
  with call_graph_spec [OF g(1)] have "node_ids g = entity_id ` set demo_entities" by simp
  also have "\<dots> = {''a.py::run'', ''b.py::main'', ''b.py::run''}"
    by (simp add: demo_entities_def new_entity_def entity_id_def make_node_id_def)
  finally show ?thesis using g by auto
qed

text \<open>Two methods of the same name in one file are one node: the second class's method is lost.\<close>

definition twin_methods :: ParsedData where
  "twin_methods = \<lparr>pd_entities =
     [(new_entity ''save'' ''method'' ''m.py'')\<lparr>parent := Some ''A''\<rparr>,
      (new_entity ''save'' ''method'' ''m.py'')\<lparr>parent := Some ''B'', calls := [''log'']\<rparr>,
      new_entity ''log'' ''function'' ''m.py''], pd_repository = None\<rparr>"

lemma twin_methods_share_node:
  "\<exists>g. call_graph_build twin_methods None = Inr g \<and>
    map node_id (nodes g) = [''m.py::save'', ''m.py::log''] \<and>
    map (\<lambda>e. (source e, target e)) (edges g) = [(''m.py::save'', ''m.py::log'')]"
  by (simp add: twin_methods_def call_graph_build_def new_entity_def callable_type_def
      entity_id_def make_node_id_def call_node_def with_complexity_def parse_complexity_def with_signature_def
      base_node_def new_node_def push_node_def empty_acc_def call_edges_def call_edge_def find_call_target_def
      text_or_empty_def push_edge_def new_edge_def layer_graph_def)

text \<open>
  The security layer depends on the iteration order of \<open>AUTH_PATTERNS\<close>: a name with two patterns
  gets the one that comes first.
\<close>

lemma auth_patterns_depend_on_order:
  "detect_auth_patterns AUTH_PATTERNS ((new_entity ''f'' ''function'' ''a.py'')\<lparr>calls := [''validate_token'']\<rparr>) =
     [''token''] \<and>
   detect_auth_patterns (rev AUTH_PATTERNS) ((new_entity ''f'' ''function'' ''a.py'')\<lparr>calls := [''validate_token'']\<rparr>) =
     [''validate'']"
  by (simp add: detect_auth_patterns_def AUTH_PATTERNS_def new_entity_def py_contains_def py_lower_def
      py_lower_char_def Let_def sublist_Cons_right)

text \<open>An import of a name from a module is an edge to the name, not to the module.\<close>

lemma from_import_edge_to_name:
  "\<exists>g. dependency_build \<lparr>pd_entities = [(new_entity ''g'' ''import'' ''a.py'')
      \<lparr>import_source := Some ''pkg.util'', import_names := [''g''], is_from_import := True\<rparr>], pd_repository = None\<rparr> None
     = Inr g \<and> map (\<lambda>e. (source e, target e)) (edges g) = [(''module::a.py'', ''module::g'')]"
  by (simp add: dependency_build_def new_entity_def import_steps_def import_step_def note_module_def
      import_source_node_def import_target_node_def make_node_id_def push_node_def new_node_def push_edge_def
      new_edge_def layer_graph_def empty_acc_def)

end
