(* ===== verification/KnowledgeGraph.thy ===== *)
theory KnowledgeGraph
  imports ObjectStore
begin

text \<open>
  The knowledge graph (\<open>intelliqx_kg/graph.py\<close>) on the in-memory object store.

  \<open>json.dumps\<close> and the Parquet writer are the parameters \<open>dumps\<close> and \<open>parquet\<close> (the latter a
  function of the schema's name and the rows).  DuckDB evaluates the one-directional query of
  \<open>neighbors\<close>: \<open>iter\<close> is the order in which it produces the distinct rows, of which it keeps the
  first 1000.  Free SQL (\<open>query\<close>), the views and the union of both directions are DuckDB's.
\<close>

record Node =
  kn_id :: string
  kn_type :: string
  kn_tenant_id :: string
  kn_attrs :: "(string, json) dict"
  embedding_ref :: "string option"

record Edge =
  ke_src :: string
  ke_dst :: string
  ke_type :: string
  ke_tenant_id :: string
  ke_weight :: rat
  ke_attrs :: "(string, json) dict"

type_synonym arrow_row = "(string, json) dict"

record KnowledgeGraph =
  collection :: string
  storage :: mem_store
  nodes_arrow :: "arrow_row list"
  edges_arrow :: "arrow_row list"
  nodes_table :: "Node list"
  edges_table :: "Edge list"

definition kg_init :: "string \<Rightarrow> mem_store \<Rightarrow> KnowledgeGraph" where
  "kg_init c s = \<lparr>collection = c, storage = s, nodes_arrow = [], edges_arrow = [],
     nodes_table = [], edges_table = []\<rparr>"

definition node_row :: "(json \<Rightarrow> string) \<Rightarrow> Node \<Rightarrow> arrow_row" where
  "node_row dumps n = [(''id'', JStr (kn_id n)), (''type'', JStr (kn_type n)),
     (''tenant_id'', JStr (kn_tenant_id n)), (''attrs'', JStr (dumps (JObj (kn_attrs n)))),
     (''embedding_ref'', case embedding_ref n of None \<Rightarrow> JNull | Some r \<Rightarrow> JStr r)]"

definition edge_row :: "(json \<Rightarrow> string) \<Rightarrow> Edge \<Rightarrow> arrow_row" where
  "edge_row dumps e = [(''src'', JStr (ke_src e)), (''dst'', JStr (ke_dst e)), (''type'', JStr (ke_type e)),
     (''tenant_id'', JStr (ke_tenant_id e)), (''weight'', JFloat (ke_weight e)),
     (''attrs'', JStr (dumps (JObj (ke_attrs e))))]"

definition pad8 :: "nat \<Rightarrow> string" where
  "pad8 n = replicate (8 - length (show_nat n)) (CHR ''0'') @ show_nat n"

definition part_key :: "string \<Rightarrow> string \<Rightarrow> nat \<Rightarrow> string" where
  "part_key c kind n = c @ ''/'' @ kind @ ''/part-'' @ pad8 n @ ''.parquet''"

definition flush :: "(string \<Rightarrow> arrow_row list \<Rightarrow> string) \<Rightarrow> string \<Rightarrow> KnowledgeGraph \<Rightarrow> KnowledgeGraph" where
  "flush parquet kind g =
     (let rows = (if kind = ''nodes'' then nodes_arrow g else edges_arrow g)
      in if rows = [] then g
         else let key = part_key (collection g) kind (length (nodes_table g));
                  g' = g\<lparr>storage := snd (mem_put key (parquet kind rows) None
                           (Some ''application/octet-stream'') (storage g))\<rparr>
              in if kind = ''nodes'' then g'\<lparr>nodes_arrow := []\<rparr> else g'\<lparr>edges_arrow := []\<rparr>)"

definition add_nodes ::
    "(json \<Rightarrow> string) \<Rightarrow> (string \<Rightarrow> arrow_row list \<Rightarrow> string) \<Rightarrow> Node list \<Rightarrow> KnowledgeGraph \<Rightarrow> nat \<times> KnowledgeGraph" where
  "add_nodes dumps parquet ns g =
     (let g' = g\<lparr>nodes_table := nodes_table g @ ns, nodes_arrow := nodes_arrow g @ map (node_row dumps) ns\<rparr>
      in (length ns, if length ns \<noteq> 0 then flush parquet ''nodes'' g' else g'))"

definition add_edges ::
    "(json \<Rightarrow> string) \<Rightarrow> (string \<Rightarrow> arrow_row list \<Rightarrow> string) \<Rightarrow> Edge list \<Rightarrow> KnowledgeGraph \<Rightarrow> nat \<times> KnowledgeGraph" where
  "add_edges dumps parquet es g =
     (let g' = g\<lparr>edges_table := edges_table g @ es, edges_arrow := edges_arrow g @ map (edge_row dumps) es\<rparr>
      in (length es, if length es \<noteq> 0 then flush parquet ''edges'' g' else g'))"

definition edge_filter :: "string option \<Rightarrow> string option \<Rightarrow> Edge \<Rightarrow> bool" where
  "edge_filter tenant ty e \<longleftrightarrow>
     (case tenant of None \<Rightarrow> True | Some t \<Rightarrow> ke_tenant_id e = t) \<and>
     (case ty of None \<Rightarrow> True | Some t \<Rightarrow> ke_type e = t)"

type_synonym neighbor_row = "string \<times> string \<times> string \<times> string"

definition neighbor_row :: "(json \<Rightarrow> string) \<Rightarrow> Node \<Rightarrow> neighbor_row" where
  "neighbor_row dumps n = (kn_id n, kn_type n, kn_tenant_id n, dumps (JObj (kn_attrs n)))"

definition neighbors_one_way ::
    "(json \<Rightarrow> string) \<Rightarrow> (neighbor_row list \<Rightarrow> neighbor_row list) \<Rightarrow> (Edge \<Rightarrow> string) \<Rightarrow> (Edge \<Rightarrow> string)
      \<Rightarrow> string \<Rightarrow> string option \<Rightarrow> string option \<Rightarrow> KnowledgeGraph \<Rightarrow> neighbor_row list" where
  "neighbors_one_way dumps iter here there i tenant ty g =
     take 1000 (iter (concat (map (\<lambda>e. map (neighbor_row dumps) (filter (\<lambda>n. there e = kn_id n) (nodes_table g)))
       (filter (\<lambda>e. here e = i \<and> edge_filter tenant ty e) (edges_table g)))))"

definition neighbors_out ::
    "(json \<Rightarrow> string) \<Rightarrow> (neighbor_row list \<Rightarrow> neighbor_row list) \<Rightarrow> string \<Rightarrow> string option \<Rightarrow> string option
      \<Rightarrow> KnowledgeGraph \<Rightarrow> neighbor_row list" where
  "neighbors_out dumps iter = neighbors_one_way dumps iter ke_src ke_dst"

definition neighbors_in ::
    "(json \<Rightarrow> string) \<Rightarrow> (neighbor_row list \<Rightarrow> neighbor_row list) \<Rightarrow> string \<Rightarrow> string option \<Rightarrow> string option
      \<Rightarrow> KnowledgeGraph \<Rightarrow> neighbor_row list" where
  "neighbors_in dumps iter = neighbors_one_way dumps iter ke_dst ke_src"

definition kg_node_count :: "string option \<Rightarrow> KnowledgeGraph \<Rightarrow> nat" where
  "kg_node_count tenant g =
     (case tenant of None \<Rightarrow> length (nodes_table g)
      | Some t \<Rightarrow> length (filter (\<lambda>n. kn_tenant_id n = t) (nodes_table g)))"

definition kg_edge_count :: "string option \<Rightarrow> KnowledgeGraph \<Rightarrow> nat" where
  "kg_edge_count tenant g =
     (case tenant of None \<Rightarrow> length (edges_table g)
      | Some t \<Rightarrow> length (filter (\<lambda>e. ke_tenant_id e = t) (edges_table g)))"

definition kg_reset :: "KnowledgeGraph \<Rightarrow> KnowledgeGraph" where
  "kg_reset g = g\<lparr>nodes_table := [], edges_table := [], nodes_arrow := [], edges_arrow := []\<rparr>"

lemma neighbors_out_exact:
  assumes "set_iteration iter"
    and "\<exists>rs. length rs \<le> 1000 \<and> set rs = {neighbor_row dumps n | n e. n \<in> set (nodes_table g) \<and>
      e \<in> set (edges_table g) \<and> ke_src e = i \<and> ke_dst e = kn_id n \<and> edge_filter tenant ty e}"
  shows "set (neighbors_out dumps iter i tenant ty g) =
    {neighbor_row dumps n | n e. n \<in> set (nodes_table g) \<and> e \<in> set (edges_table g) \<and>
      ke_src e = i \<and> ke_dst e = kn_id n \<and> edge_filter tenant ty e}"
proof -
  define rows where "rows = concat (map (\<lambda>e. map (neighbor_row dumps) (filter (\<lambda>n. ke_dst e = kn_id n) (nodes_table g)))
       (filter (\<lambda>e. ke_src e = i \<and> edge_filter tenant ty e) (edges_table g)))"
  have rows: "set rows = {neighbor_row dumps n | n e. n \<in> set (nodes_table g) \<and> e \<in> set (edges_table g) \<and>
      ke_src e = i \<and> ke_dst e = kn_id n \<and> edge_filter tenant ty e}" unfolding rows_def by auto
  note it = set_iterationD [OF assms(1), of rows]
  from assms(2) obtain rs where rs: "length rs \<le> 1000" "set rs = set rows" unfolding rows by blast
  have "length (iter rows) = card (set rows)" using distinct_card [OF it(2)] it(1) by simp
  also have "\<dots> \<le> length rs" using rs(2) card_length [of rs] by simp
  finally have "length (iter rows) \<le> 1000" using rs(1) by simp
  then have "neighbors_out dumps iter i tenant ty g = iter rows"
    by (simp add: neighbors_out_def neighbors_one_way_def rows_def)
  with it(1) rows show ?thesis by simp
qed

section \<open>Partitions\<close>

lemma digits_val_zeros: "digits_val 0 (replicate n (CHR ''0'') @ s) = digits_val 0 s"
  by (induction n) (simp_all add: is_digit_def digit_val_def)

lemma pad8_inj: "pad8 a = pad8 b \<longleftrightarrow> a = b"
proof
  assume "pad8 a = pad8 b"
  then have "digits_val 0 (pad8 a) = digits_val 0 (pad8 b)" by simp
  then show "a = b" using show_nat_digits by (simp add: pad8_def digits_val_zeros)
qed simp

lemma part_key_inj:
  assumes "length k = length k'"
  shows "part_key c k a = part_key c k' b \<longleftrightarrow> k = k' \<and> a = b"
  using assms by (auto simp: part_key_def pad8_inj)

datatype kg_op = AddNodes "Node list" | AddEdges "Edge list"

fun kg_step :: "(json \<Rightarrow> string) \<Rightarrow> (string \<Rightarrow> arrow_row list \<Rightarrow> string) \<Rightarrow> kg_op \<Rightarrow> KnowledgeGraph \<Rightarrow> KnowledgeGraph" where
  "kg_step dumps parquet (AddNodes ns) g = snd (add_nodes dumps parquet ns g)"
| "kg_step dumps parquet (AddEdges es) g = snd (add_edges dumps parquet es g)"

fun nodes_of :: "kg_op list \<Rightarrow> Node list" where
  "nodes_of [] = []"
| "nodes_of (AddNodes ns # ops) = ns @ nodes_of ops"
| "nodes_of (AddEdges es # ops) = nodes_of ops"

text \<open>The state between calls: empty buffers.\<close>

definition buffers_flushed :: "KnowledgeGraph \<Rightarrow> bool" where
  "buffers_flushed g \<longleftrightarrow> nodes_arrow g = [] \<and> edges_arrow g = []"

lemma kg_step_flushed: "buffers_flushed g \<Longrightarrow> buffers_flushed (kg_step dumps parquet op g)"
  by (cases op) (auto simp: buffers_flushed_def add_nodes_def add_edges_def flush_def Let_def)

lemma kg_step_frame:
  "collection (kg_step dumps parquet op g) = collection g"
  "nodes_table (kg_step dumps parquet op g) = nodes_table g @ nodes_of [op]"
  by (cases op; simp add: add_nodes_def add_edges_def flush_def Let_def)+

lemma mem_put_store [simp]: "store (snd (mem_put k v md ct s)) = dict_set k v (store s)"
  by (simp add: mem_put_def Let_def)

lemma add_nodes_partition:
  assumes "buffers_flushed g" "ns \<noteq> []"
  shows "dict_get (store (storage (kg_step dumps parquet (AddNodes ns) g)))
      (part_key (collection g) ''nodes'' (length (nodes_table g @ ns))) =
    Some (parquet ''nodes'' (map (node_row dumps) ns))"
  using assms by (simp add: buffers_flushed_def add_nodes_def flush_def Let_def)

lemma kg_step_keeps_node_partitions:
  assumes "buffers_flushed g" "n \<le> length (nodes_table g)"
  shows "dict_get (store (storage (kg_step dumps parquet op g))) (part_key (collection g) ''nodes'' n) =
    dict_get (store (storage g)) (part_key (collection g) ''nodes'' n)"
  using assms
  by (cases op) (auto simp: buffers_flushed_def add_nodes_def add_edges_def flush_def Let_def part_key_inj)

lemma fold_kg_steps:
  assumes "buffers_flushed g" "n \<le> length (nodes_table g)"
  shows "dict_get (store (storage (fold (kg_step dumps parquet) ops g))) (part_key (collection g) ''nodes'' n) =
      dict_get (store (storage g)) (part_key (collection g) ''nodes'' n)"
    and "buffers_flushed (fold (kg_step dumps parquet) ops g)"
    and "collection (fold (kg_step dumps parquet) ops g) = collection g"
    and "nodes_table (fold (kg_step dumps parquet) ops g) = nodes_table g @ nodes_of ops"
proof -
  have "dict_get (store (storage (fold (kg_step dumps parquet) ops g))) (part_key (collection g) ''nodes'' n) =
      dict_get (store (storage g)) (part_key (collection g) ''nodes'' n) \<and>
    buffers_flushed (fold (kg_step dumps parquet) ops g) \<and>
    collection (fold (kg_step dumps parquet) ops g) = collection g \<and>
    nodes_table (fold (kg_step dumps parquet) ops g) = nodes_table g @ nodes_of ops"
    using assms
  proof (induction ops arbitrary: g)
    case (Cons op ops)
    let ?g = "kg_step dumps parquet op g"
    have "buffers_flushed ?g" "n \<le> length (nodes_table ?g)"
      using Cons.prems by (auto simp: kg_step_flushed kg_step_frame)
    from Cons.IH [OF this] kg_step_keeps_node_partitions [OF Cons.prems]
    show ?case by (cases op) (simp_all add: kg_step_frame del: kg_step.simps)
  qed simp
  then show "dict_get (store (storage (fold (kg_step dumps parquet) ops g))) (part_key (collection g) ''nodes'' n) =
      dict_get (store (storage g)) (part_key (collection g) ''nodes'' n)"
    and "buffers_flushed (fold (kg_step dumps parquet) ops g)"
    and "collection (fold (kg_step dumps parquet) ops g) = collection g"
    and "nodes_table (fold (kg_step dumps parquet) ops g) = nodes_table g @ nodes_of ops"
    by blast+
qed

text \<open>
  Every non-empty batch of nodes stays stored as a partition of its own, whatever is added
  later: under the number of nodes known after the batch there is the encoding of exactly its
  rows.
\<close>

theorem node_partitions_kept:
  assumes "ns \<noteq> []"
  shows "dict_get (store (storage (fold (kg_step dumps parquet) (before @ AddNodes ns # after) (kg_init c s))))
      (part_key c ''nodes'' (length (nodes_of before @ ns))) =
    Some (parquet ''nodes'' (map (node_row dumps) ns))"
proof -
  let ?g = "fold (kg_step dumps parquet) before (kg_init c s)"
  let ?h = "kg_step dumps parquet (AddNodes ns) ?g"
  have init: "buffers_flushed (kg_init c s)" "0 \<le> length (nodes_table (kg_init c s))"
    by (simp_all add: kg_init_def buffers_flushed_def)
  note g = fold_kg_steps(2-4) [OF init, of dumps parquet before]
  have c: "collection ?g = c" "nodes_table ?g = nodes_of before" using g by (simp_all add: kg_init_def)
  have "buffers_flushed ?h" "length (nodes_of before @ ns) \<le> length (nodes_table ?h)"
    using g(1) c by (simp_all add: kg_step_flushed kg_step_frame del: kg_step.simps)
  note h = fold_kg_steps(1) [OF this, of dumps parquet after]
  have "dict_get (store (storage ?h)) (part_key c ''nodes'' (length (nodes_of before @ ns))) =
      Some (parquet ''nodes'' (map (node_row dumps) ns))"
    using add_nodes_partition [OF g(1) assms, of dumps parquet] c by simp
  with h c show ?thesis by (simp add: kg_step_frame del: kg_step.simps)
qed

definition demo_node :: Node where
  "demo_node = \<lparr>kn_id = ''n'', kn_type = ''File'', kn_tenant_id = ''t'', kn_attrs = [], embedding_ref = None\<rparr>"

definition demo_edge :: "string \<Rightarrow> Edge" where
  "demo_edge d = \<lparr>ke_src = ''n'', ke_dst = d, ke_type = ''IMPORTS'', ke_tenant_id = ''t'', ke_weight = 1, ke_attrs = []\<rparr>"

lemma node_partitions_kept_witness:
  "dict_get (store (storage (fold (kg_step (\<lambda>_. ''{}'') (\<lambda>k rows. replicate (length rows) (CHR ''r'')))
      ([AddNodes [demo_node]] @ AddNodes [demo_node, demo_node] # [AddEdges [demo_edge ''m'']]) (kg_init ''c'' mem_init))))
      (part_key ''c'' ''nodes'' 3) = Some ''rr''"
  using node_partitions_kept [of "[demo_node, demo_node]" "\<lambda>_. ''{}''" "\<lambda>k rows. replicate (length rows) (CHR ''r'')"
      "[AddNodes [demo_node]]" "[AddEdges [demo_edge ''m'']]" "''c''" mem_init]
  by (simp add: numeral_3_eq_3 numeral_2_eq_2)

text \<open>
  Edge partitions are numbered by the count of nodes, too: a second batch of edges without new
  nodes between them overwrites the first batch's partition, although the table in memory has both.
\<close>

theorem edge_partition_overwritten:
  assumes "buffers_flushed g" "es1 \<noteq> []" "es2 \<noteq> []"
  shows "\<exists>key. dict_get (store (storage (kg_step dumps parquet (AddEdges es1) g))) key =
      Some (parquet ''edges'' (map (edge_row dumps) es1)) \<and>
    (let g' = kg_step dumps parquet (AddEdges es2) (kg_step dumps parquet (AddEdges es1) g)
     in edges_table g' = edges_table g @ es1 @ es2 \<and>
        dict_get (store (storage g')) key = Some (parquet ''edges'' (map (edge_row dumps) es2)) \<and>
        (\<forall>k. k \<noteq> key \<longrightarrow> dict_get (store (storage g')) k = dict_get (store (storage g)) k))"
  by (rule exI [of _ "part_key (collection g) ''edges'' (length (nodes_table g))"])
    (use assms in \<open>simp add: buffers_flushed_def add_edges_def flush_def Let_def\<close>)

lemma edge_partition_overwritten_witness:
  "\<exists>key. dict_get (store (storage (kg_step (\<lambda>_. ''{}'') (\<lambda>k rows. replicate (length rows) (CHR ''r'')) (AddEdges [demo_edge ''a''])
      (kg_init ''c'' mem_init)))) key = Some ''r'' \<and>
    dict_get (store (storage (kg_step (\<lambda>_. ''{}'') (\<lambda>k rows. replicate (length rows) (CHR ''r'')) (AddEdges [demo_edge ''b'', demo_edge ''d''])
      (kg_step (\<lambda>_. ''{}'') (\<lambda>k rows. replicate (length rows) (CHR ''r'')) (AddEdges [demo_edge ''a'']) (kg_init ''c'' mem_init))))) key = Some ''rr''"
proof -
  have "buffers_flushed (kg_init ''c'' mem_init)" by (simp add: kg_init_def buffers_flushed_def)
  from edge_partition_overwritten [OF this, of "[demo_edge ''a'']" "[demo_edge ''b'', demo_edge ''d'']"
      "\<lambda>_. ''{}''" "\<lambda>k rows. replicate (length rows) (CHR ''r'')"]
  show ?thesis by (auto simp: Let_def simp del: kg_step.simps)
qed

end
