(* ===== verification/Events.thy ===== *)
theory Events
  imports Compute
begin

text \<open>
  The event bus and the event contracts (\<open>intelliqx_events\<close>: \<open>bus.py\<close>, \<open>handler.py\<close>, \<open>schemas.py\<close>).

  \<open>subscribe\<close> always makes a new handler object (it wraps a callable or copies a handler), so the
  number of the subscription is the object's identity, which is what \<open>unsubscribe\<close> compares.
  Running a callback is the parameter \<open>call\<close>: it may change the bus and may raise.  \<open>CancelledError\<close> is
  no \<open>Exception\<close> and always passes through.
\<close>

record 'c EventHandler =
  h_name :: string
  callback :: 'c
  h_dlq :: "string option"
  h_ident :: nat

record ('c, 'e) InMemoryEventBus =
  subscriptions :: "(string, 'c EventHandler list) dict"
  subscription_ids :: "(string, string \<times> 'c EventHandler) dict"
  next_sub_id :: nat
  dlqs :: "(string, 'e list) dict"
  started :: bool

definition bus_init :: "('c, 'e) InMemoryEventBus" where
  "bus_init = \<lparr>subscriptions = [], subscription_ids = [], next_sub_id = 0, dlqs = [], started = False\<rparr>"

definition handlers_of :: "string \<Rightarrow> ('c, 'e) InMemoryEventBus \<Rightarrow> 'c EventHandler list" where
  "handlers_of t b = (case dict_get (subscriptions b) t of None \<Rightarrow> [] | Some hs \<Rightarrow> hs)"

definition get_dlq :: "string \<Rightarrow> ('c, 'e) InMemoryEventBus \<Rightarrow> 'e list" where
  "get_dlq q b = (case dict_get (dlqs b) q of None \<Rightarrow> [] | Some es \<Rightarrow> es)"

text \<open>\<open>topic or "dlq"\<close>.\<close>

definition dlq :: "'e \<Rightarrow> string option \<Rightarrow> ('c, 'e) InMemoryEventBus \<Rightarrow> ('c, 'e) InMemoryEventBus" where
  "dlq ev topic b =
     (let q = (case topic of None \<Rightarrow> ''dlq'' | Some t \<Rightarrow> if t = [] then ''dlq'' else t)
      in b\<lparr>dlqs := dict_set q (get_dlq q b @ [ev]) (dlqs b)\<rparr>)"

datatype 'c to_subscribe = Callable string 'c | Handler string 'c "string option"

definition subscribe ::
    "string \<Rightarrow> 'c to_subscribe \<Rightarrow> string option \<Rightarrow> ('c, 'e) InMemoryEventBus \<Rightarrow> string \<times> ('c, 'e) InMemoryEventBus" where
  "subscribe topic what q b =
     (let n = Suc (next_sub_id b);
          sub_id = ''sub-'' @ show_nat n;
          h = (case what of
                 Callable nm f \<Rightarrow> \<lparr>h_name = nm, callback = f, h_dlq = q, h_ident = n\<rparr>
               | Handler nm f own \<Rightarrow> \<lparr>h_name = nm, callback = f,
                   h_dlq = (case q of None \<Rightarrow> own | Some s \<Rightarrow> if s = [] then own else q), h_ident = n\<rparr>)
      in (sub_id, b\<lparr>next_sub_id := n,
                    subscriptions := dict_set topic (handlers_of topic b @ [h]) (subscriptions b),
                    subscription_ids := dict_set sub_id (topic, h) (subscription_ids b)\<rparr>))"

definition unsubscribe :: "string option \<Rightarrow> ('c, 'e) InMemoryEventBus \<Rightarrow> ('c, 'e) InMemoryEventBus" where
  "unsubscribe sid b =
     (case sid of
        None \<Rightarrow> b\<lparr>subscriptions := [], subscription_ids := []\<rparr>
      | Some i \<Rightarrow>
          (case dict_get (subscription_ids b) i of
             None \<Rightarrow> b
           | Some (topic, h) \<Rightarrow>
               let hs = filter (\<lambda>r. h_ident r \<noteq> h_ident h) (handlers_of topic b)
               in b\<lparr>subscription_ids := dict_pop i (subscription_ids b),
                    subscriptions := (if hs = [] then dict_pop topic (subscriptions b)
                                      else dict_set topic hs (subscriptions b))\<rparr>))"

fun dispatch ::
    "('c \<Rightarrow> 'e \<Rightarrow> ('c, 'e) InMemoryEventBus \<Rightarrow> exn option \<times> ('c, 'e) InMemoryEventBus) \<Rightarrow> 'e
      \<Rightarrow> 'c EventHandler list \<Rightarrow> ('c, 'e) InMemoryEventBus \<Rightarrow> exn option \<times> ('c, 'e) InMemoryEventBus" where
  "dispatch call ev [] b = (None, b)"
| "dispatch call ev (h # hs) b =
     (case call (callback h) ev b of
        (None, b') \<Rightarrow> dispatch call ev hs b'
      | (Some CancelledError, b') \<Rightarrow> (Some CancelledError, b')
      | (Some e, b') \<Rightarrow>
          (case h_dlq h of
             None \<Rightarrow> (Some e, b')
           | Some q \<Rightarrow> if q = [] then (Some e, b') else dispatch call ev hs (dlq ev (Some q) b')))"

text \<open>\<open>event_id\<close>: the id in the event's metadata, if any, and the local id made up otherwise.\<close>

definition publish ::
    "('c \<Rightarrow> 'e \<Rightarrow> ('c, 'e) InMemoryEventBus \<Rightarrow> exn option \<times> ('c, 'e) InMemoryEventBus) \<Rightarrow> ('e \<Rightarrow> string option)
      \<Rightarrow> ('e \<Rightarrow> string) \<Rightarrow> string \<Rightarrow> 'e \<Rightarrow> ('c, 'e) InMemoryEventBus
      \<Rightarrow> (exn + string) \<times> ('c, 'e) InMemoryEventBus" where
  "publish call event_id local_id topic ev b =
     (let i = (case event_id ev of None \<Rightarrow> local_id ev | Some s \<Rightarrow> if s = [] then local_id ev else s)
      in case dispatch call ev (handlers_of topic b) b of
           (None, b') \<Rightarrow> (Inr i, b')
         | (Some e, b') \<Rightarrow> (Inl e, b'))"

definition bus_reset :: "('c, 'e) InMemoryEventBus \<Rightarrow> ('c, 'e) InMemoryEventBus" where
  "bus_reset b = b\<lparr>subscriptions := [], subscription_ids := [], dlqs := [], next_sub_id := 0\<rparr>"

definition bus_start :: "('c, 'e) InMemoryEventBus \<Rightarrow> ('c, 'e) InMemoryEventBus" where
  "bus_start b = b\<lparr>started := True\<rparr>"

definition bus_stop :: "('c, 'e) InMemoryEventBus \<Rightarrow> ('c, 'e) InMemoryEventBus" where
  "bus_stop b = b\<lparr>started := False\<rparr>"

section \<open>Contracts\<close>

record EventContract =
  ec_topic :: string
  ec_description :: string
  contract_schema :: "(string, json) dict"

type_synonym event_registry = "(string, EventContract) dict"

definition contract_register :: "EventContract \<Rightarrow> event_registry \<Rightarrow> event_registry" where
  "contract_register c r = dict_set (ec_topic c) c r"

definition contract_get :: "string \<Rightarrow> event_registry \<Rightarrow> string + EventContract" where
  "contract_get t r = (case dict_get r t of None \<Rightarrow> Inl (''Unknown topic: '' @ py_repr t) | Some c \<Rightarrow> Inr c)"

text \<open>
  \<open>EventContract(topic=.., description=.., schema_=data)\<close>: the field's name in input is its alias
  \<open>schema\<close>; pydantic ignores other keys, so the field keeps its default.
\<close>

definition contract_from_kwargs :: "string \<Rightarrow> string \<Rightarrow> (string, (string, json) dict) dict \<Rightarrow> EventContract" where
  "contract_from_kwargs t d kwargs = \<lparr>ec_topic = t, ec_description = d,
     contract_schema = (case dict_get kwargs ''schema'' of None \<Rightarrow> [] | Some s \<Rightarrow> s)\<rparr>"

text \<open>
  A file of the directory, in sorted order: its stem and what \<open>json.loads\<close> gives (\<open>None\<close>: not JSON).
  The model covers files whose JSON is an object with texts for \<open>title\<close> and \<open>description\<close>.
\<close>

definition json_text :: "json option \<Rightarrow> string" where
  "json_text j = (case j of Some (JStr s) \<Rightarrow> s | _ \<Rightarrow> [])"

fun load_contracts :: "(string \<times> (string, json) dict option) list \<Rightarrow> event_registry \<Rightarrow> nat \<times> event_registry" where
  "load_contracts [] r = (0, r)"
| "load_contracts ((stem, None) # fs) r = load_contracts fs r"
| "load_contracts ((stem, Some d) # fs) r =
     (let title = json_text (dict_get d ''title'');
          c = contract_from_kwargs (if title = [] then stem else title)
                (json_text (dict_get d ''description'')) [(''schema_'', d)];
          (n, r') = load_contracts fs (contract_register c r)
      in (Suc n, r'))"

text \<open>Every loaded contract has the empty schema, which accepts any payload.\<close>

lemma loaded_contracts_have_no_schema:
  assumes "\<forall>c\<in>snd ` set r. contract_schema c = []"
  shows "\<forall>c\<in>snd ` set (snd (load_contracts fs r)). contract_schema c = []"
  using assms
proof (induction fs r rule: load_contracts.induct)
  case (3 stem d fs r)
  let ?title = "json_text (dict_get d ''title'')"
  let ?c = "contract_from_kwargs (if ?title = [] then stem else ?title)
    (json_text (dict_get d ''description'')) [(''schema_'', d)]"
  have c: "contract_schema ?c = []" by (simp add: contract_from_kwargs_def)
  have "contract_schema (snd x) = []" if "x \<in> set (dict_set k e m)" "contract_schema e = []"
      "\<forall>y\<in>set m. contract_schema (snd y) = []" for x k e and m :: event_registry
    using that by (induction m) (auto split: if_splits)
  with c 3(2) have "\<forall>c\<in>snd ` set (contract_register ?c r). contract_schema c = []"
    unfolding contract_register_def by blast
  from 3(1) [OF refl refl this] show ?case by (simp add: Let_def split: prod.split)
qed simp_all

section \<open>Subscriptions\<close>

text \<open>The numbers of registered handlers have been given out.\<close>

definition bus_ok :: "('c, 'e) InMemoryEventBus \<Rightarrow> bool" where
  "bus_ok b \<longleftrightarrow> (\<forall>t. \<forall>h\<in>set (handlers_of t b). h_ident h \<le> next_sub_id b)"

lemma handlers_subscribe:
  "handlers_of t (snd (subscribe topic what q b)) =
     handlers_of t b @ (if t = topic then [snd (the (dict_get (subscription_ids (snd (subscribe topic what q b)))
       (fst (subscribe topic what q b))))] else [])"
  by (simp add: subscribe_def handlers_of_def Let_def)

lemma subscribed_entry:
  "\<exists>h. dict_get (subscription_ids (snd (subscribe topic what q b))) (fst (subscribe topic what q b)) = Some (topic, h) \<and>
     h_ident h = Suc (next_sub_id b)"
  by (cases what) (simp_all add: subscribe_def Let_def)

lemma handlers_unsubscribe:
  "handlers_of t (unsubscribe (Some i) b) =
     (case dict_get (subscription_ids b) i of
        None \<Rightarrow> handlers_of t b
      | Some (topic, h) \<Rightarrow> if t = topic then filter (\<lambda>r. h_ident r \<noteq> h_ident h) (handlers_of t b) else handlers_of t b)"
  by (auto simp: unsubscribe_def handlers_of_def Let_def split: option.split)

lemma bus_ok_init: "bus_ok bus_init"
  by (simp add: bus_ok_def bus_init_def handlers_of_def)

lemma bus_ok_subscribe: "bus_ok b \<Longrightarrow> bus_ok (snd (subscribe topic what q b))"
proof -
  assume ok: "bus_ok b"
  obtain h where h: "dict_get (subscription_ids (snd (subscribe topic what q b))) (fst (subscribe topic what q b)) = Some (topic, h)"
    "h_ident h = Suc (next_sub_id b)" using subscribed_entry by blast
  have n: "next_sub_id (snd (subscribe topic what q b)) = Suc (next_sub_id b)" by (simp add: subscribe_def Let_def)
  show ?thesis unfolding bus_ok_def handlers_subscribe n h
    using ok h(2) by (auto simp: bus_ok_def le_Suc_eq)
qed

lemma bus_ok_unsubscribe: "bus_ok b \<Longrightarrow> bus_ok (unsubscribe sid b)"
proof (cases sid)
  case (Some i)
  assume ok: "bus_ok b"
  have "next_sub_id (unsubscribe (Some i) b) = next_sub_id b"
    by (simp add: unsubscribe_def Let_def split: option.split)
  with ok show ?thesis unfolding Some bus_ok_def handlers_unsubscribe
    by (auto split: option.split)
qed (simp add: bus_ok_def unsubscribe_def handlers_of_def)

lemma bus_ok_dlq: "bus_ok b \<Longrightarrow> bus_ok (dlq ev q b)"
  by (simp add: bus_ok_def dlq_def handlers_of_def Let_def)

lemma bus_ok_reset: "bus_ok (bus_reset b)"
  by (simp add: bus_ok_def bus_reset_def handlers_of_def)

lemma bus_ok_dispatch:
  assumes "\<And>c e b. bus_ok b \<Longrightarrow> bus_ok (snd (call c e b))" "bus_ok b"
  shows "bus_ok (snd (dispatch call ev hs b))"
  using assms(2)
proof (induction hs arbitrary: b)
  case (Cons h hs)
  obtain r b' where c: "call (callback h) ev b = (r, b')" by (cases "call (callback h) ev b")
  have "bus_ok b'" using assms(1) [OF Cons.prems, of "callback h" ev] c by simp
  with Cons.IH show ?case
    by (auto simp: c bus_ok_dlq split: option.split exn.split)
qed simp

text \<open>
  On a bus whose handler numbers have all been given out (as every operation keeps it), a
  subscription appends one handler to its topic, and giving its id to \<open>unsubscribe\<close> removes exactly
  that handler: every topic is then as before.
\<close>

theorem subscribe_unsubscribe:
  assumes "bus_ok b" "subscribe topic what q b = (sid, b')"
  shows "length (handlers_of topic b') = Suc (length (handlers_of topic b)) \<and> bus_ok b' \<and>
    (\<forall>t. handlers_of t (unsubscribe (Some sid) b') = handlers_of t b)"
proof -
  obtain h where h: "dict_get (subscription_ids b') sid = Some (topic, h)" "h_ident h = Suc (next_sub_id b)"
    using subscribed_entry [of topic what q b] assms(2) by auto
  have hs: "handlers_of t b' = handlers_of t b @ (if t = topic then [h] else [])" for t
    using handlers_subscribe [of t topic what q b] assms(2) h(1) by simp
  have old: "filter (\<lambda>r. h_ident r \<noteq> Suc (next_sub_id b)) (handlers_of t b) = handlers_of t b" for t
    using assms(1) by (force simp: bus_ok_def intro: filter_True)
  have "handlers_of t (unsubscribe (Some sid) b') = handlers_of t b" for t
    unfolding handlers_unsubscribe h(1) by (simp add: hs h(2) old)
  with hs bus_ok_subscribe [OF assms(1), of topic what q] assms(2) show ?thesis by simp
qed

definition demo_bus :: "(bool, nat) InMemoryEventBus" where
  "demo_bus = snd (subscribe ''t'' (Callable ''f'' False) (Some ''bad'') (snd (subscribe ''t'' (Callable ''g'' True) (Some ''bad'') bus_init)))"

lemma subscribe_unsubscribe_witness:
  "\<exists>sid b'. subscribe ''t'' (Handler ''h'' True None) None demo_bus = (sid, b') \<and>
    length (handlers_of ''t'' b') = 3 \<and> handlers_of ''t'' (unsubscribe (Some sid) b') = handlers_of ''t'' demo_bus"
proof -
  have ok: "bus_ok demo_bus" unfolding demo_bus_def by (intro bus_ok_subscribe bus_ok_init)
  obtain sid b' where s: "subscribe ''t'' (Handler ''h'' True None) None demo_bus = (sid, b')"
    by (cases "subscribe ''t'' (Handler ''h'' True None) None demo_bus")
  have "length (handlers_of ''t'' demo_bus) = 2"
    by (simp add: demo_bus_def subscribe_def handlers_of_def Let_def bus_init_def)
  with subscribe_unsubscribe [OF ok s] s show ?thesis by simp
qed

section \<open>Delivery\<close>

definition pure_call :: "('c \<Rightarrow> 'e \<Rightarrow> exn option) \<Rightarrow> 'c \<Rightarrow> 'e \<Rightarrow> ('c, 'e) InMemoryEventBus \<Rightarrow> exn option \<times> ('c, 'e) InMemoryEventBus" where
  "pure_call verdict c ev b = (verdict c ev, b)"

lemma get_dlq_dlq: "q \<noteq> [] \<Longrightarrow> get_dlq q' (dlq ev (Some q) b) = get_dlq q' b @ (if q' = q then [ev] else [])"
  by (simp add: get_dlq_def dlq_def Let_def)

lemma dispatch_pure:
  assumes "\<And>h. h \<in> set hs \<Longrightarrow> verdict (callback h) ev \<noteq> Some CancelledError \<and> h_dlq h \<noteq> None \<and> h_dlq h \<noteq> Some []"
  shows "fst (dispatch (pure_call verdict) ev hs b) = None"
    and "get_dlq q (snd (dispatch (pure_call verdict) ev hs b)) =
      get_dlq q b @ replicate (length (filter (\<lambda>h. verdict (callback h) ev \<noteq> None \<and> h_dlq h = Some q) hs)) ev"
    and "handlers_of t (snd (dispatch (pure_call verdict) ev hs b)) = handlers_of t b"
proof -
  have "fst (dispatch (pure_call verdict) ev hs b) = None \<and>
    get_dlq q (snd (dispatch (pure_call verdict) ev hs b)) =
      get_dlq q b @ replicate (length (filter (\<lambda>h. verdict (callback h) ev \<noteq> None \<and> h_dlq h = Some q) hs)) ev \<and>
    handlers_of t (snd (dispatch (pure_call verdict) ev hs b)) = handlers_of t b"
    using assms
  proof (induction hs arbitrary: b)
    case (Cons h hs)
    from Cons.prems [of h] obtain d where d: "h_dlq h = Some d" "d \<noteq> []" by auto
    have IH: "fst (dispatch (pure_call verdict) ev hs b') = None \<and>
      get_dlq q (snd (dispatch (pure_call verdict) ev hs b')) =
        get_dlq q b' @ replicate (length (filter (\<lambda>h. verdict (callback h) ev \<noteq> None \<and> h_dlq h = Some q) hs)) ev \<and>
      handlers_of t (snd (dispatch (pure_call verdict) ev hs b')) = handlers_of t b'" for b'
      by (rule Cons.IH) (simp add: Cons.prems)
    have call: "pure_call verdict c ev b = (verdict c ev, b)" for c and b :: "('a, 'b) InMemoryEventBus"
      by (simp add: pure_call_def)
    have t: "handlers_of t (dlq ev (Some d) b) = handlers_of t b"
      by (simp add: dlq_def handlers_of_def Let_def)
    show ?case
    proof (cases "verdict (callback h) ev")
      case None
      then show ?thesis using IH [of b] by (simp add: call)
    next
      case (Some e)
      then have "e \<noteq> CancelledError" using Cons.prems [of h] by auto
      then have "dispatch (pure_call verdict) ev (h # hs) b = dispatch (pure_call verdict) ev hs (dlq ev (Some d) b)"
        using Some d by (cases e) (simp_all add: call)
      then show ?thesis using IH [of "dlq ev (Some d) b"] Some d t
        by (simp add: get_dlq_dlq replicate_append_same [symmetric])
    qed
  qed simp
  then show "fst (dispatch (pure_call verdict) ev hs b) = None"
    and "get_dlq q (snd (dispatch (pure_call verdict) ev hs b)) =
      get_dlq q b @ replicate (length (filter (\<lambda>h. verdict (callback h) ev \<noteq> None \<and> h_dlq h = Some q) hs)) ev"
    and "handlers_of t (snd (dispatch (pure_call verdict) ev hs b)) = handlers_of t b" by blast+
qed

text \<open>
  C36: if every handler of a topic has a dead-letter queue, \<open>publish\<close> reaches all of them and
  answers the event's id, no matter which of them raise; each failure adds the event once to the
  queue of its handler, and subscriptions stay.  Callbacks that leave the bus alone are assumed.
\<close>

theorem publish_isolates_failures:
  assumes "\<forall>h\<in>set (handlers_of topic b). h_dlq h \<noteq> None \<and> h_dlq h \<noteq> Some []"
    and "\<forall>h\<in>set (handlers_of topic b). verdict (callback h) ev \<noteq> Some CancelledError"
    and "event_id ev = Some i" "i \<noteq> []"
  shows "\<exists>b'. publish (pure_call verdict) event_id local_id topic ev b = (Inr i, b') \<and>
    (\<forall>q. get_dlq q b' = get_dlq q b @ replicate (length (filter
      (\<lambda>h. verdict (callback h) ev \<noteq> None \<and> h_dlq h = Some q) (handlers_of topic b))) ev) \<and>
    (\<forall>t. handlers_of t b' = handlers_of t b)"
proof -
  obtain r b' where d: "dispatch (pure_call verdict) ev (handlers_of topic b) b = (r, b')"
    by (cases "dispatch (pure_call verdict) ev (handlers_of topic b) b")
  have *: "verdict (callback h) ev \<noteq> Some CancelledError \<and> h_dlq h \<noteq> None \<and> h_dlq h \<noteq> Some []"
    if "h \<in> set (handlers_of topic b)" for h using assms(1,2) that by blast
  have "r = None" using dispatch_pure(1) [where hs = "handlers_of topic b" and verdict = verdict and ev = ev and b = b] * d by simp
  moreover have "get_dlq q b' = get_dlq q b @ replicate (length (filter
      (\<lambda>h. verdict (callback h) ev \<noteq> None \<and> h_dlq h = Some q) (handlers_of topic b))) ev" for q
    using dispatch_pure(2) [where hs = "handlers_of topic b" and verdict = verdict and ev = ev and b = b and q = q] * d by simp
  moreover have "handlers_of t b' = handlers_of t b" for t
    using dispatch_pure(3) [where hs = "handlers_of topic b" and verdict = verdict and ev = ev and b = b and t = t] * d by simp
  ultimately show ?thesis using assms(3,4) by (simp add: publish_def d)
qed

lemma publish_isolates_failures_witness:
  "\<exists>b'. publish (pure_call (\<lambda>ok n. if ok then None else Some (OtherException ''ValueError'' ''no'')))
      (\<lambda>n. Some ''e1'') (\<lambda>n. ''local-1'') ''t'' (7::nat) demo_bus = (Inr ''e1'', b') \<and> get_dlq ''bad'' b' = [7]"
proof -
  have hs: "handlers_of ''t'' demo_bus =
      [\<lparr>h_name = ''g'', callback = True, h_dlq = Some ''bad'', h_ident = 1\<rparr>,
       \<lparr>h_name = ''f'', callback = False, h_dlq = Some ''bad'', h_ident = 2\<rparr>]"
    by (simp add: demo_bus_def subscribe_def handlers_of_def Let_def bus_init_def)
  have "get_dlq ''bad'' demo_bus = []"
    by (simp add: demo_bus_def subscribe_def get_dlq_def Let_def bus_init_def)
  then show ?thesis
    using publish_isolates_failures [of "''t''" demo_bus
        "\<lambda>ok n. if ok then None else Some (OtherException ''ValueError'' ''no'')" 7 "\<lambda>n. Some ''e1''" "''e1''" "\<lambda>n. ''local-1''"]
    by (auto simp: hs)
qed

section \<open>Validation against contracts\<close>

datatype contract_error = UnknownTopic string | SchemaViolation string

text \<open>\<open>jsonschema\<close> is \<open>None\<close> if the package is missing, and else gives the error of a payload under a schema.\<close>

definition contract_validate ::
    "((string, json) dict \<Rightarrow> (string, json) dict \<Rightarrow> string option) option \<Rightarrow> string \<Rightarrow> (string, json) dict \<Rightarrow> event_registry
      \<Rightarrow> contract_error + unit" where
  "contract_validate jsonschema topic payload r =
     (case jsonschema of
        None \<Rightarrow> Inr ()
      | Some check \<Rightarrow>
          (case contract_get topic r of
             Inl e \<Rightarrow> Inl (UnknownTopic e)
           | Inr c \<Rightarrow> (case check (contract_schema c) payload of None \<Rightarrow> Inr () | Some e \<Rightarrow> Inl (SchemaViolation e))))"

text \<open>\<open>EventRegistry.all\<close>, a copy of the dict.\<close>

definition contract_all :: "event_registry \<Rightarrow> event_registry" where
  "contract_all r = r"

text \<open>
  Since the loader loses the schema, a loaded contract accepts every payload: the empty schema has no
  violations.
\<close>

lemma loaded_contracts_accept_all:
  assumes "contract_get topic (snd (load_contracts fs [])) = Inr c" "\<And>p. check [] p = None"
  shows "contract_validate (Some check) topic payload (snd (load_contracts fs [])) = Inr ()"
proof -
  have "c \<in> snd ` set (snd (load_contracts fs []))"
    using assms(1) by (force simp: contract_get_def split: option.splits dest: map_of_SomeD)
  then have "contract_schema c = []" using loaded_contracts_have_no_schema [of "[]" fs] by fastforce
  then show ?thesis using assms by (simp add: contract_validate_def)
qed

end
