(* ===== verification/Tenant.thy ===== *)
theory Tenant
  imports CoreModels "HOL-Library.Sublist"
begin

text \<open>
  Tenants (\<open>intelliqx_tenant\<close>: \<open>context.py\<close>, \<open>isolation.py\<close>).

  The context variable is the state: \<open>with_tenant\<close> sets it, runs a body (any function of the state that
  may raise, and that leaves the variable as it found it or not) and resets it to what it was before,
  on every exit.  \<open>str\<close> of a JSON value other than a text or an int is the parameter \<open>str_of\<close>.
  \<open>TenantContext\<close> takes texts (and \<open>None\<close>) only; anything else is a validation error.
\<close>

section \<open>The context variable\<close>

type_synonym tenant_var = "TenantContext option"

definition with_tenant :: "TenantContext \<Rightarrow> (tenant_var \<Rightarrow> 'r \<times> tenant_var) \<Rightarrow> tenant_var \<Rightarrow> 'r \<times> tenant_var" where
  "with_tenant t body v = (case body (Some t) of (r, _) \<Rightarrow> (r, v))"

lemma with_tenant_nested:
  "with_tenant t (with_tenant u body) v = with_tenant u body v"
  by (simp add: with_tenant_def split: prod.split)

section \<open>Contexts from requests\<close>

datatype tenant_error = MissingTenant string | BadField string | NotIterable

fun truthy :: "json option \<Rightarrow> bool" where
  "truthy None = False"
| "truthy (Some JNull) = False"
| "truthy (Some (JBool b)) = b"
| "truthy (Some (JInt i)) = (i \<noteq> 0)"
| "truthy (Some (JFloat q)) = (q \<noteq> 0)"
| "truthy (Some (JStr s)) = (s \<noteq> [])"
| "truthy (Some (JArr xs)) = (xs \<noteq> [])"
| "truthy (Some (JObj kvs)) = (kvs \<noteq> [])"

fun py_str :: "(json \<Rightarrow> string) \<Rightarrow> json \<Rightarrow> string" where
  "py_str str_of (JStr s) = s"
| "py_str str_of (JInt i) = show_int i"
| "py_str str_of j = str_of j"

fun optional_text :: "json option \<Rightarrow> tenant_error + string option" where
  "optional_text None = Inr None"
| "optional_text (Some JNull) = Inr None"
| "optional_text (Some (JStr s)) = Inr (Some s)"
| "optional_text (Some j) = Inl (BadField ''text'')"

text \<open>\<open>roles.split(",")\<close> with each part stripped and blanks dropped.\<close>

fun split_on :: "char \<Rightarrow> string \<Rightarrow> string \<Rightarrow> string list" where
  "split_on d acc [] = [acc]"
| "split_on d acc (c # cs) = (if c = d then acc # split_on d [] cs else split_on d (acc @ [c]) cs)"

definition split_roles :: "string \<Rightarrow> string list" where
  "split_roles s = map py_strip (filter (\<lambda>r. py_strip r \<noteq> []) (split_on (CHR '','') [] s))"

fun texts :: "json list \<Rightarrow> tenant_error + string list" where
  "texts [] = Inr []"
| "texts (JStr s # js) = (case texts js of Inl e \<Rightarrow> Inl e | Inr ss \<Rightarrow> Inr (s # ss))"
| "texts (j # js) = Inl (BadField ''roles'')"

definition parse_roles :: "json option \<Rightarrow> tenant_error + string list" where
  "parse_roles j =
     (if \<not> truthy j then Inr []
      else case the j of
             JStr s \<Rightarrow> Inr (split_roles s)
           | JArr js \<Rightarrow> texts js
           | JObj kvs \<Rightarrow> Inr (map fst kvs)
           | _ \<Rightarrow> Inl NotIterable)"

definition from_jwt_claims :: "(json \<Rightarrow> string) \<Rightarrow> (string, json) dict \<Rightarrow> tenant_error + TenantContext" where
  "from_jwt_claims str_of claims =
     (let tid = (if truthy (dict_get claims ''tid'') then dict_get claims ''tid'' else dict_get claims ''tenant_id'')
      in if \<not> truthy tid then Inl (MissingTenant (''JWT missing tenant claim '' @ py_repr ''tid''))
         else case parse_roles (dict_get claims ''roles'') of
                Inl e \<Rightarrow> Inl e
              | Inr rs \<Rightarrow>
                  (case (optional_text (dict_get claims ''sub''), optional_text (dict_get claims ''trace_id'')) of
                     (Inr u, Inr tr) \<Rightarrow> Inr \<lparr>tc_tenant_id = py_str str_of (the tid), tc_user_id = u,
                                         tc_roles = rs, tc_trace_id = tr\<rparr>
                   | (Inl e, _) \<Rightarrow> Inl e
                   | (_, Inl e) \<Rightarrow> Inl e))"

text \<open>\<open>{k.lower(): v for k, v in headers.items()}\<close>: later headers win.\<close>

definition lower_headers :: "(string, string) dict \<Rightarrow> (string, string) dict" where
  "lower_headers hs = fold (\<lambda>(k, v). dict_set (py_lower k) v) hs []"

definition from_headers :: "(string, string) dict \<Rightarrow> tenant_error + TenantContext" where
  "from_headers headers =
     (let lower = lower_headers headers
      in case dict_get lower ''x-intelliqx-tenant'' of
           Some (c # cs) \<Rightarrow> Inr \<lparr>tc_tenant_id = c # cs, tc_user_id = dict_get lower ''x-intelliqx-user'',
                               tc_roles = [], tc_trace_id = dict_get lower ''x-trace-id''\<rparr>
         | _ \<Rightarrow> Inl (MissingTenant ''Missing X-IntelliqX-Tenant header''))"

lemma split_on_no_sep: "d \<notin> set acc \<Longrightarrow> p \<in> set (split_on d acc s) \<Longrightarrow> d \<notin> set p"
  by (induction d acc s rule: split_on.induct) (auto split: if_splits)

text \<open>Roles from a text are stripped, not blank and free of commas.\<close>

lemma split_roles_clean:
  assumes "r \<in> set (split_roles s)"
  shows "r \<noteq> [] \<and> py_strip r = r \<and> CHR '','' \<notin> set r"
proof -
  from assms obtain p where p: "p \<in> set (split_on (CHR '','') [] s)" "r = py_strip p" "py_strip p \<noteq> []"
    by (auto simp: split_roles_def)
  have "CHR '','' \<notin> set p" using split_on_no_sep [of "CHR '',''" "[]" p s] p(1) by simp
  with p py_strip_subset [of p] show ?thesis by (auto simp: py_strip_idem)
qed

section \<open>Isolation\<close>

datatype violation = TenantViolation string

definition iso_check :: "TenantContext \<Rightarrow> string option \<Rightarrow> violation + unit" where
  "iso_check t resource_tenant =
     (case resource_tenant of
        None \<Rightarrow> Inr ()
      | Some r \<Rightarrow>
          if r \<noteq> tc_tenant_id t
          then Inl (TenantViolation (''Tenant '' @ py_repr (tc_tenant_id t) @
                 '' attempted to access resource owned by '' @ py_repr r))
          else Inr ())"

text \<open>\<open>getattr(obj, attr, None)\<close> on an object's attributes.\<close>

definition check_object :: "TenantContext \<Rightarrow> (string, string option) dict \<Rightarrow> string \<Rightarrow> violation + unit" where
  "check_object t attrs tenant_attr =
     iso_check t (case dict_get attrs tenant_attr of None \<Rightarrow> None | Some v \<Rightarrow> v)"

definition namespace :: "TenantContext \<Rightarrow> string \<Rightarrow> string" where
  "namespace t key = tc_tenant_id t @ ''/'' @ key"

lemma append_sep_inj:
  assumes "d \<notin> set a" "d \<notin> set b"
  shows "a @ d # x = b @ d # y \<longleftrightarrow> a = b \<and> x = y"
proof
  assume eq: "a @ d # x = b @ d # y"
  have "takeWhile (\<lambda>c. c \<noteq> d) (a @ d # x) = a" "takeWhile (\<lambda>c. c \<noteq> d) (b @ d # y) = b"
    using assms by (auto simp: takeWhile_tail)
  with eq show "a = b \<and> x = y" by force
qed simp

text \<open>
  Names in the namespaces of tenants whose ids have no slash never collide: two namespaced keys
  are equal only for the same tenant and the same key.
\<close>

theorem namespace_separates:
  assumes "CHR ''/'' \<notin> set (tc_tenant_id t)" "CHR ''/'' \<notin> set (tc_tenant_id u)"
  shows "namespace t k = namespace u k' \<longleftrightarrow> tc_tenant_id t = tc_tenant_id u \<and> k = k'"
  using append_sep_inj [OF assms] by (simp add: namespace_def)

definition demo_tenant :: "string \<Rightarrow> TenantContext" where
  "demo_tenant i = \<lparr>tc_tenant_id = i, tc_user_id = None, tc_roles = [], tc_trace_id = None\<rparr>"

lemma namespace_separates_witness:
  "namespace (demo_tenant ''acme'') ''b/c'' \<noteq> namespace (demo_tenant ''ac'') ''me/b/c''"
  using namespace_separates [of "demo_tenant ''acme''" "demo_tenant ''ac''"]
  by (simp add: demo_tenant_def)

text \<open>Nothing keeps a slash out of an id; with one, two tenants share keys.\<close>

lemma namespaces_collide:
  "from_headers [(''X-IntelliqX-Tenant'', ''a/b'')] = Inr (demo_tenant ''a/b'') \<and>
   from_headers [(''x-intelliqx-tenant'', ''a'')] = Inr (demo_tenant ''a'') \<and>
   namespace (demo_tenant ''a/b'') ''c'' = namespace (demo_tenant ''a'') ''b/c''"
  by code_simp

end
