(* ===== verification/Sdk.thy ===== *)
theory Sdk
  imports CoreModels "HOL-Library.Extended_Nat"
begin

text \<open>
  The agent SDK (\<open>intelliqx_sdk\<close>: \<open>manifest.py\<close>, \<open>sandbox.py\<close>).

  The state of the sandbox is the resource limits of the process, a soft and a hard value for each
  resource, \<open>\<infinity>\<close> for none.  \<open>setrlimit\<close> follows POSIX: soft must not exceed hard, and only a
  privileged process may raise a hard limit.  A block under \<open>enforce\<close> is a function of the limits.
\<close>

record AgentManifest =
  mf_name :: string
  mf_version :: string
  mf_category :: AgentCategory
  mf_description :: string
  mf_author :: string
  mf_input_schema :: "(string, json) dict"
  mf_output_schema :: "(string, json) dict"
  mf_capabilities :: "string list"
  permissions :: "string list"
  signature :: "string option"
  entrypoint :: string

section \<open>Resource limits\<close>

datatype rlimit = RLIMIT_CPU | RLIMIT_AS | RLIMIT_NOFILE

type_synonym limits = "rlimit \<Rightarrow> enat \<times> enat"

definition setrlimit :: "bool \<Rightarrow> rlimit \<Rightarrow> enat \<times> enat \<Rightarrow> limits \<Rightarrow> string + limits" where
  "setrlimit privileged r new l =
     (if snd new < fst new then Inl ''current limit exceeds maximum limit''
      else if snd (l r) < snd new \<and> \<not> privileged then Inl ''not allowed to raise maximum limit''
      else Inr (l(r := new)))"

text \<open>Calls in order, up to the first that fails.\<close>

fun set_all :: "bool \<Rightarrow> (rlimit \<times> enat \<times> enat) list \<Rightarrow> limits \<Rightarrow> string option \<times> limits" where
  "set_all privileged [] l = (None, l)"
| "set_all privileged ((r, new) # rs) l =
     (case setrlimit privileged r new l of
        Inl e \<Rightarrow> (Some e, l)
      | Inr l' \<Rightarrow> set_all privileged rs l')"

record Sandbox =
  cpu_time_seconds :: nat
  memory_mb :: nat
  max_file_descriptors :: nat

text \<open>The constructor; \<open>soft_nofile\<close> is the soft limit read on Darwin, 0 if it cannot be read.\<close>

definition mk_sandbox :: "bool \<Rightarrow> nat \<Rightarrow> nat \<Rightarrow> nat \<Rightarrow> nat \<Rightarrow> Sandbox" where
  "mk_sandbox is_darwin soft_nofile cpu mem fds =
     \<lparr>cpu_time_seconds = cpu, memory_mb = mem,
      max_file_descriptors = (if is_darwin \<and> soft_nofile \<noteq> 0 \<and> soft_nofile < fds then soft_nofile else fds)\<rparr>"

definition requested :: "Sandbox \<Rightarrow> (rlimit \<times> enat \<times> enat) list" where
  "requested sb =
     [(RLIMIT_CPU, enat (cpu_time_seconds sb), enat (cpu_time_seconds sb)),
      (RLIMIT_AS, enat (memory_mb sb * 1024 * 1024), enat (memory_mb sb * 1024 * 1024)),
      (RLIMIT_NOFILE, enat (max_file_descriptors sb), enat (max_file_descriptors sb))]"

definition saved :: "limits \<Rightarrow> (rlimit \<times> enat \<times> enat) list" where
  "saved l = [(RLIMIT_CPU, l RLIMIT_CPU), (RLIMIT_AS, l RLIMIT_AS), (RLIMIT_NOFILE, l RLIMIT_NOFILE)]"

datatype block_exn = OsOrValueError string | OtherRaised string

datatype sandbox_exn = SandboxViolation string | Passed string

text \<open>The \<open>finally\<close> part swallows its own errors.\<close>

definition enforce ::
    "bool \<Rightarrow> Sandbox \<Rightarrow> (limits \<Rightarrow> (block_exn + 'r) \<times> limits) \<Rightarrow> limits \<Rightarrow> (sandbox_exn + 'r) \<times> limits" where
  "enforce privileged sb block l =
     (let (res, l2) =
        (case set_all privileged (requested sb) l of
           (Some e, l1) \<Rightarrow> (Inl (SandboxViolation e), l1)
         | (None, l1) \<Rightarrow>
             (case block l1 of
                (Inl (OsOrValueError e), l2) \<Rightarrow> (Inl (SandboxViolation e), l2)
              | (Inl (OtherRaised e), l2) \<Rightarrow> (Inl (Passed e), l2)
              | (Inr r, l2) \<Rightarrow> (Inr r, l2)))
      in (res, snd (set_all privileged (saved l) l2)))"

definition limits_ok :: "limits \<Rightarrow> bool" where
  "limits_ok l \<longleftrightarrow> (\<forall>r. fst (l r) \<le> snd (l r))"

definition keeps_limits :: "(limits \<Rightarrow> (block_exn + 'r) \<times> limits) \<Rightarrow> bool" where
  "keeps_limits block \<longleftrightarrow> (\<forall>l. snd (block l) = l)"

definition lowered :: "Sandbox \<Rightarrow> limits \<Rightarrow> limits" where
  "lowered sb l = l(RLIMIT_CPU := (enat (cpu_time_seconds sb), enat (cpu_time_seconds sb)),
     RLIMIT_AS := (enat (memory_mb sb * 1024 * 1024), enat (memory_mb sb * 1024 * 1024)),
     RLIMIT_NOFILE := (enat (max_file_descriptors sb), enat (max_file_descriptors sb)))"

text \<open>What the block sees.\<close>

definition fits :: "Sandbox \<Rightarrow> limits \<Rightarrow> bool" where
  "fits sb l \<longleftrightarrow> (\<forall>(r, new) \<in> set (requested sb). snd new \<le> snd (l r))"

lemma set_requested: "fits sb l \<or> privileged \<Longrightarrow> set_all privileged (requested sb) l = (None, lowered sb l)"
  by (auto simp: requested_def setrlimit_def lowered_def fits_def)

lemma limits_upd_all: "l'(RLIMIT_CPU := l RLIMIT_CPU, RLIMIT_AS := l RLIMIT_AS, RLIMIT_NOFILE := l RLIMIT_NOFILE) = l"
proof
  show "(l'(RLIMIT_CPU := l RLIMIT_CPU, RLIMIT_AS := l RLIMIT_AS, RLIMIT_NOFILE := l RLIMIT_NOFILE)) r = l r" for r
    by (cases r) simp_all
qed

lemma restore_privileged: "limits_ok l \<Longrightarrow> set_all True (saved l) l' = (None, l)"
  by (simp add: saved_def setrlimit_def limits_ok_def not_less limits_upd_all)

lemma restore_unprivileged:
  "limits_ok l \<Longrightarrow> snd (l' RLIMIT_CPU) < snd (l RLIMIT_CPU) \<Longrightarrow> snd (set_all False (saved l) l') = l'"
  by (simp add: saved_def setrlimit_def limits_ok_def not_less)

text \<open>
  A sandbox that is allowed to lower the limits runs its block under exactly the requested
  limits.  On exit a privileged process has its old limits again; any other process keeps the
  lowered ones for good, whenever its CPU limit was above the sandbox's, and is told nothing.
\<close>

theorem sandbox_exit_limits:
  assumes "limits_ok l" "keeps_limits block" "fits sb l"
    and "enforce privileged sb block l = (res, l')"
  shows "(\<forall>r. fst (block (lowered sb l)) = Inr r \<longrightarrow> res = Inr r) \<and>
    (privileged \<longrightarrow> l' = l) \<and>
    (\<not> privileged \<and> enat (cpu_time_seconds sb) < snd (l RLIMIT_CPU) \<longrightarrow> l' = lowered sb l)"
proof -
  obtain br l2 where b: "block (lowered sb l) = (br, l2)" by force
  with assms(2) have l2: "l2 = lowered sb l" by (metis keeps_limits_def snd_conv)
  have set: "set_all privileged (requested sb) l = (None, lowered sb l)" using assms(3) by (simp add: set_requested)
  have l': "l' = snd (set_all privileged (saved l) l2)"
    using assms(4) by (auto simp: enforce_def set b split: sum.splits block_exn.splits)
  have "snd (lowered sb l RLIMIT_CPU) = enat (cpu_time_seconds sb)" by (simp add: lowered_def)
  with l' l2 restore_unprivileged [OF assms(1), of l2] restore_privileged [OF assms(1), of l2]
  have "(privileged \<longrightarrow> l' = l) \<and> (\<not> privileged \<and> enat (cpu_time_seconds sb) < snd (l RLIMIT_CPU) \<longrightarrow> l' = lowered sb l)"
    by (cases privileged) auto
  moreover have "br = Inr r \<Longrightarrow> res = Inr r" for r
    using assms(4) by (auto simp: enforce_def set b)
  ultimately show ?thesis by (simp add: b)
qed

definition demo_sandbox :: Sandbox where
  "demo_sandbox = mk_sandbox False 0 60 512 64"

definition demo_limits :: limits where
  "demo_limits = (\<lambda>r. case r of RLIMIT_NOFILE \<Rightarrow> (1024, 4096) | _ \<Rightarrow> (\<infinity>, \<infinity>))"

lemma sandbox_exit_limits_witness:
  "\<exists>res l'. enforce False demo_sandbox (\<lambda>l. (Inr (5::nat), l)) demo_limits = (res, l') \<and>
    res = Inr 5 \<and> l' RLIMIT_CPU = (60, 60) \<and> demo_limits RLIMIT_CPU = (\<infinity>, \<infinity>)"
proof -
  obtain res l' where e: "enforce False demo_sandbox (\<lambda>l. (Inr (5::nat), l)) demo_limits = (res, l')" by force
  have "limits_ok demo_limits" by (simp add: limits_ok_def demo_limits_def split: rlimit.split)
  moreover have "fits demo_sandbox demo_limits"
    by (simp add: fits_def requested_def demo_sandbox_def mk_sandbox_def demo_limits_def numeral_eq_enat)
  ultimately have "res = Inr 5 \<and> l' = lowered demo_sandbox demo_limits"
    using sandbox_exit_limits [OF _ _ _ e]
    by (auto simp: keeps_limits_def demo_sandbox_def mk_sandbox_def demo_limits_def)
  with e show ?thesis by (auto simp: lowered_def demo_sandbox_def mk_sandbox_def demo_limits_def numeral_eq_enat)
qed

end
