(* ===== verification/OkfConcept.thy ===== *)
theory OkfConcept
  imports Prelude
begin

text \<open>
  OKF documents (\<open>intelliqx_okf\<close>: \<open>frontmatter.py\<close>, \<open>concept.py\<close>).

  A document is a string over the characters up to U+00FF (so there is no byte order mark to strip).
  YAML is the parameter \<open>yaml_load\<close>, which gives a JSON value or an error, and \<open>yaml_dump\<close>; a date is
  its ISO text, which \<open>parse_time\<close> (pydantic's conversion to \<open>datetime\<close>) makes of a YAML value.  The regular expressions of the source are written out:
  \<open>fm_find\<close> is the next match of \<open>^---\s*$\<close>, whose \<open>\s*\<close> runs over line ends and gives back what follows
  the last one, \<open>is_heading\<close> a line that \<open>^# (.+)$\<close> matches, \<open>find_links\<close> the matches of the link
  pattern.
\<close>

abbreviation newline :: char where
  "newline \<equiv> CHR 0x0A"

section \<open>Models\<close>

record OKFFrontmatter =
  fm_type :: string
  fm_title :: "string option"
  fm_description :: "string option"
  fm_resource :: "string option"
  fm_tags :: "string list"
  fm_timestamp :: "string option"
  okf_version :: "string option"
  extra_fields :: "(string, json) dict"

record OKFLink =
  link_text :: string
  link_target :: string

record OKFSection =
  heading :: string
  section_body :: string

record Citation =
  citation_label :: string
  citation_target :: string

record OKFConcept =
  concept_id :: string
  source_path :: "string option"
  frontmatter :: OKFFrontmatter
  concept_body :: string
  sections :: "OKFSection list"
  concept_links :: "OKFLink list"
  citations :: "Citation list"

datatype okf_error = FrontmatterError string | MissingType

fun text_field :: "json option \<Rightarrow> okf_error + string option" where
  "text_field None = Inr None"
| "text_field (Some JNull) = Inr None"
| "text_field (Some (JStr s)) = Inr (Some s)"
| "text_field (Some j) = Inl (FrontmatterError ''string'')"

fun text_list :: "json list \<Rightarrow> okf_error + string list" where
  "text_list [] = Inr []"
| "text_list (JStr s # js) = (case text_list js of Inl e \<Rightarrow> Inl e | Inr ss \<Rightarrow> Inr (s # ss))"
| "text_list (j # js) = Inl (FrontmatterError ''tags'')"

fun time_field :: "(json \<Rightarrow> string option) \<Rightarrow> json option \<Rightarrow> okf_error + string option" where
  "time_field parse_time None = Inr None"
| "time_field parse_time (Some JNull) = Inr None"
| "time_field parse_time (Some j) =
     (case parse_time j of None \<Rightarrow> Inl (FrontmatterError ''timestamp'') | Some d \<Rightarrow> Inr (Some d))"

definition bind_okf :: "okf_error + 'a \<Rightarrow> ('a \<Rightarrow> okf_error + 'b) \<Rightarrow> okf_error + 'b" where
  "bind_okf m f = (case m of Inl e \<Rightarrow> Inl e | Inr x \<Rightarrow> f x)"

lemma bind_okf_simps [simp]: "bind_okf (Inl e) f = Inl e" "bind_okf (Inr x) f = f x"
  by (simp_all add: bind_okf_def)

text \<open>
  \<open>OKFFrontmatter(**fm, extra_fields=extras)\<close>.  The length check of \<open>type\<close> comes before
  \<open>_strip_type\<close>.
\<close>

definition mk_frontmatter ::
    "(json \<Rightarrow> string option) \<Rightarrow> (string, json) dict \<Rightarrow> (string, json) dict \<Rightarrow> okf_error + OKFFrontmatter" where
  "mk_frontmatter parse_time fm extras =
     bind_okf (case dict_get fm ''type'' of
                 Some (JStr (c # cs)) \<Rightarrow> Inr (py_strip (c # cs)) | _ \<Rightarrow> Inl (FrontmatterError ''type'')) (\<lambda>ty.
     bind_okf (text_field (dict_get fm ''title'')) (\<lambda>ti.
     bind_okf (text_field (dict_get fm ''description'')) (\<lambda>de.
     bind_okf (text_field (dict_get fm ''resource'')) (\<lambda>rs.
     bind_okf (case dict_get fm ''tags'' of
                 None \<Rightarrow> Inr [] | Some (JArr js) \<Rightarrow> text_list js | Some j \<Rightarrow> Inl (FrontmatterError ''tags'')) (\<lambda>ta.
     bind_okf (time_field parse_time (dict_get fm ''timestamp'')) (\<lambda>tm.
     bind_okf (text_field (dict_get fm ''okf_version'')) (\<lambda>ve.
     Inr \<lparr>fm_type = ty, fm_title = ti, fm_description = de, fm_resource = rs, fm_tags = ta,
          fm_timestamp = tm, okf_version = ve, extra_fields = extras\<rparr>)))))))"

definition optional_entry :: "string \<Rightarrow> string option \<Rightarrow> (string, json) dict" where
  "optional_entry k v = (case v of None \<Rightarrow> [] | Some s \<Rightarrow> [(k, JStr s)])"

text \<open>What \<open>model_dump_okf\<close> writes before the extra fields.\<close>

definition known_dump :: "OKFFrontmatter \<Rightarrow> (string, json) dict" where
  "known_dump f =
     [(''type'', JStr (fm_type f))] @ optional_entry ''title'' (fm_title f)
        @ optional_entry ''description'' (fm_description f) @ optional_entry ''resource'' (fm_resource f)
        @ (if fm_tags f = [] then [] else [(''tags'', JArr (map JStr (fm_tags f)))])
        @ optional_entry ''timestamp'' (fm_timestamp f) @ optional_entry ''okf_version'' (okf_version f)"

definition model_dump_okf :: "OKFFrontmatter \<Rightarrow> (string, json) dict" where
  "model_dump_okf f = fold (\<lambda>(k, v). dict_setdefault k v) (extra_fields f) (known_dump f)"

section \<open>Front matter and body\<close>

text \<open>How much of the text after \<open>---\<close> belongs to the match, if any.\<close>

definition marker_rest :: "string \<Rightarrow> nat option" where
  "marker_rest s =
     (let w = takeWhile py_isspace s
      in if dropWhile py_isspace s = [] then Some (length w)
         else if newline \<in> set w then Some (length w - 1 - length (takeWhile (\<lambda>c. c \<noteq> newline) (rev w)))
         else None)"

definition marker_at :: "bool \<Rightarrow> string \<Rightarrow> string option" where
  "marker_at bol s =
     (if bol \<and> py_startswith s ''---''
      then map_option (\<lambda>k. drop (3 + k) s) (marker_rest (drop 3 s)) else None)"

text \<open>The text before the next marker and the text after it.\<close>

fun fm_find :: "bool \<Rightarrow> string \<Rightarrow> (string \<times> string) option" where
  "fm_find bol [] = None"
| "fm_find bol (c # cs) =
     (case marker_at bol (c # cs) of
        Some after \<Rightarrow> Some ([], after)
      | None \<Rightarrow> map_option (\<lambda>(b, a). (c # b, a)) (fm_find (c = newline) cs))"

definition parse_frontmatter_and_body ::
    "(string \<Rightarrow> 'y + json) \<Rightarrow> string \<Rightarrow> (string, json) dict \<times> string" where
  "parse_frontmatter_and_body yaml_load text =
     (if \<not> py_startswith text [CHR ''-'', CHR ''-'', CHR ''-'', newline]
         \<and> \<not> py_startswith text [CHR ''-'', CHR ''-'', CHR ''-'', CHR 0x0D, newline] then ([], text)
      else case fm_find True text of
             None \<Rightarrow> ([], text)
           | Some (_, rest) \<Rightarrow>
               (case fm_find False rest of
                  None \<Rightarrow> ([], text)
                | Some (fm_text, body) \<Rightarrow>
                    ((case yaml_load fm_text of Inr (JObj kvs) \<Rightarrow> kvs | _ \<Rightarrow> []),
                     (case body of c # cs \<Rightarrow> if c = newline then cs else body | [] \<Rightarrow> []))))"

section \<open>Sections, links, citations\<close>

fun py_lines :: "string \<Rightarrow> string \<Rightarrow> string list" where
  "py_lines acc [] = [acc]"
| "py_lines acc (c # cs) = (if c = newline then acc # py_lines [] cs else py_lines (acc @ [c]) cs)"

definition is_heading :: "string \<Rightarrow> bool" where
  "is_heading l \<longleftrightarrow> py_startswith l ''# '' \<and> 3 \<le> length l"

definition strip_lines :: "string list \<Rightarrow> string" where
  "strip_lines ls =
     rev (dropWhile (\<lambda>c. c = newline) (rev (dropWhile (\<lambda>c. c = newline) (join_with [newline] ls))))"

definition rstrip_lines :: "string list \<Rightarrow> string" where
  "rstrip_lines ls = rev (dropWhile (\<lambda>c. c = newline) (rev (join_with [newline] ls)))"

function heading_sections :: "string list \<Rightarrow> OKFSection list" where
  "heading_sections [] = []"
| "heading_sections (h # ls) =
     \<lparr>heading = py_strip (drop 2 h), section_body = strip_lines (takeWhile (\<lambda>l. \<not> is_heading l) ls)\<rparr>
     # heading_sections (dropWhile (\<lambda>l. \<not> is_heading l) ls)"
  by pat_completeness auto

termination heading_sections
  by (relation "measure length") (auto simp: le_imp_less_Suc length_dropWhile_le)

definition split_sections :: "string \<Rightarrow> OKFSection list" where
  "split_sections body =
     (let ls = py_lines [] body; intro = takeWhile (\<lambda>l. \<not> is_heading l) ls
      in if \<not> list_ex is_heading ls then [\<lparr>heading = [], section_body = body\<rparr>]
         else (if intro = [] then [] else [\<lparr>heading = [], section_body = rstrip_lines intro\<rparr>])
              @ heading_sections (dropWhile (\<lambda>l. \<not> is_heading l) ls))"

text \<open>A link at the head of the text: its text, its target and what follows.\<close>

definition link_at :: "string \<Rightarrow> (string \<times> string \<times> string) option" where
  "link_at s =
     (case s of
        [] \<Rightarrow> None
      | c # cs \<Rightarrow>
          (let t = takeWhile (\<lambda>c. c \<noteq> CHR '']'') cs; r = dropWhile (\<lambda>c. c \<noteq> CHR '']'') cs;
               u = takeWhile (\<lambda>c. c \<noteq> CHR '')'') (drop 2 r); r' = dropWhile (\<lambda>c. c \<noteq> CHR '')'') (drop 2 r)
           in if c = CHR ''['' \<and> t \<noteq> [] \<and> py_startswith r '']('' \<and> u \<noteq> [] \<and> r' \<noteq> []
              then Some (t, u, tl r') else None))"

lemma link_at_shorter: "link_at s = Some (t, u, r) \<Longrightarrow> length r < length s"
proof -
  assume l: "link_at s = Some (t, u, r)"
  then obtain c cs where s: "s = c # cs" by (cases s) (auto simp: link_at_def)
  let ?r = "dropWhile (\<lambda>c. c \<noteq> CHR '']'') cs"
  from l have "r = tl (dropWhile (\<lambda>c. c \<noteq> CHR '')'') (drop 2 ?r))"
    by (auto simp: s link_at_def Let_def split: if_splits)
  moreover have "length (dropWhile (\<lambda>c. c \<noteq> CHR '')'') (drop 2 ?r)) \<le> length ?r"
    using length_dropWhile_le [of "\<lambda>c. c \<noteq> CHR '')''" "drop 2 ?r"] by simp
  moreover have "length ?r \<le> length cs" by (rule length_dropWhile_le)
  ultimately show ?thesis by (simp add: s)
qed

function find_links :: "string \<Rightarrow> (string \<times> string) list" where
  "find_links s =
     (case link_at s of
        Some (t, u, r) \<Rightarrow> (t, u) # find_links r
      | None \<Rightarrow> (case s of [] \<Rightarrow> [] | c # cs \<Rightarrow> find_links cs))"
  by pat_completeness auto

termination find_links
  by (relation "measure length") (auto dest: link_at_shorter)

declare find_links.simps [simp del]

definition extract_links :: "string \<Rightarrow> OKFLink list" where
  "extract_links body =
     map (\<lambda>(t, u). \<lparr>link_text = t, link_target = u\<rparr>)
       (fold (\<lambda>(t, u) out. let k = (py_strip t, py_strip u) in if k \<in> set out then out else out @ [k])
         (find_links body) [])"

definition strip_bracketed :: "string \<Rightarrow> string" where
  "strip_bracketed l =
     (case l of
        [] \<Rightarrow> []
      | c # cs \<Rightarrow>
          (let d = takeWhile is_digit cs; r = dropWhile is_digit cs
           in if c = CHR ''['' \<and> d \<noteq> [] \<and> r \<noteq> [] \<and> hd r = CHR '']'' then dropWhile py_isspace (tl r) else l))"

definition strip_numbered :: "string \<Rightarrow> string" where
  "strip_numbered l =
     (let d = takeWhile is_digit l; r = dropWhile is_digit l
      in if d \<noteq> [] \<and> r \<noteq> [] \<and> hd r = CHR ''.'' then dropWhile py_isspace (tl r) else l)"

definition extract_citations :: "OKFSection list \<Rightarrow> Citation list" where
  "extract_citations ss =
     (case find (\<lambda>s. py_lower (heading s) = ''citations'') ss of
        None \<Rightarrow> []
      | Some s \<Rightarrow> map (\<lambda>(t, u). \<lparr>citation_label = strip_numbered (strip_bracketed (py_strip t)),
                                citation_target = py_strip u\<rparr>) (find_links (section_body s)))"

section \<open>Loading and saving\<close>

definition KNOWN_FIELDS :: "string list" where
  "KNOWN_FIELDS = [''type'', ''title'', ''description'', ''resource'', ''tags'', ''timestamp'', ''okf_version'']"

definition split_frontmatter_from_extras ::
    "(json \<Rightarrow> string option) \<Rightarrow> (string, json) dict \<Rightarrow> okf_error + OKFFrontmatter" where
  "split_frontmatter_from_extras parse_time parsed =
     mk_frontmatter parse_time (filter (\<lambda>(k, v). k \<in> set KNOWN_FIELDS) parsed)
       (filter (\<lambda>(k, v). k \<notin> set KNOWN_FIELDS) parsed)"

definition remove_md :: "string \<Rightarrow> string" where
  "remove_md p = (if suffix ''.md'' p then take (length p - 3) p else p)"

text \<open>A falsy \<open>type\<close> is one of \<open>None\<close>, \<open>False\<close>, a zero, or empty.\<close>

fun falsy :: "json option \<Rightarrow> bool" where
  "falsy None = True"
| "falsy (Some JNull) = True"
| "falsy (Some (JBool b)) = (\<not> b)"
| "falsy (Some (JInt i)) = (i = 0)"
| "falsy (Some (JFloat q)) = (q = 0)"
| "falsy (Some (JStr s)) = (s = [])"
| "falsy (Some (JArr xs)) = (xs = [])"
| "falsy (Some (JObj kvs)) = (kvs = [])"

text \<open>\<open>file_text\<close> is the decoded content of the file; \<open>read_text\<close> translates its line ends.\<close>

definition load_concept ::
    "(string \<Rightarrow> 'y + json) \<Rightarrow> (json \<Rightarrow> string option) \<Rightarrow> string \<Rightarrow> string \<Rightarrow> okf_error + OKFConcept" where
  "load_concept yaml_load parse_time p file_text =
     (case parse_frontmatter_and_body yaml_load (universal_newlines file_text) of
        (parsed, body) \<Rightarrow>
          if falsy (dict_get parsed ''type'') then Inl MissingType
          else bind_okf (split_frontmatter_from_extras parse_time parsed) (\<lambda>fm.
            let ss = split_sections body
            in Inr \<lparr>concept_id = remove_md p, source_path = Some p, frontmatter = fm, concept_body = body,
                    sections = ss, concept_links = extract_links body, citations = extract_citations ss\<rparr>))"

text \<open>The content of the file that \<open>save_concept\<close> writes.\<close>

definition rstrip_newlines :: "string \<Rightarrow> string" where
  "rstrip_newlines s = rev (dropWhile (\<lambda>c. c = newline) (rev s))"

definition save_text :: "((string, json) dict \<Rightarrow> string) \<Rightarrow> OKFConcept \<Rightarrow> string" where
  "save_text yaml_dump c =
     (let yaml_text = rstrip_newlines (yaml_dump (model_dump_okf (frontmatter c)));
          body = concept_body c;
          body' = (if suffix [newline] body then body else body @ [newline])
      in ''---'' @ [newline] @ yaml_text @ [newline] @ ''---'' @ [newline, newline] @ body')"

section \<open>Round trip of a saved concept\<close>

lemma prefix_marker_append:
  "prefix ''---'' (z @ newline # r) \<longleftrightarrow> prefix ''---'' z"
  by (cases z; cases "tl z"; cases "tl (tl z)") auto

text \<open>In a text without marker lines the next marker is the one that follows it.\<close>

lemma fm_find_after_text:
  assumes "marker_at True (''---'' @ r) = Some a"
  shows "\<not> sublist (newline # ''---'') z \<Longrightarrow> (bol \<Longrightarrow> \<not> prefix ''---'' z) \<Longrightarrow>
    fm_find bol (z @ newline # ''---'' @ r) = Some (z @ [newline], a)"
proof (induction z arbitrary: bol)
  case Nil
  then show ?case using assms by (cases "marker_rest r") (auto simp: marker_at_def py_startswith_def)
next
  case (Cons c z)
  from Cons.prems(1) have "\<not> sublist (newline # ''---'') z" "c = newline \<Longrightarrow> \<not> prefix ''---'' z"
    by (auto simp: sublist_Cons_right)
  from Cons.IH [OF this] Cons.prems(2) show ?case
    using prefix_marker_append [of "c # z" "''---'' @ r"] by (auto simp: marker_at_def py_startswith_def)
qed

lemma marker_rest_then:
  assumes "w = takeWhile py_isspace s" "newline \<notin> set w" "\<not> list_all py_isspace s"
  shows "marker_rest (newline # s) = Some 0" "marker_rest (newline # newline # s) = Some 1"
proof -
  have ne: "dropWhile py_isspace s \<noteq> []" using assms(3) by (simp add: list_all_iff dropWhile_eq_Nil_conv)
  have sp: "py_isspace newline" by (simp add: py_isspace_def)
  have "takeWhile (\<lambda>c. c \<noteq> newline) (rev w @ newline # u) = rev w" for u
    using assms(2) by (subst takeWhile_append2) auto
  with ne sp show "marker_rest (newline # s) = Some 0" "marker_rest (newline # newline # s) = Some 1"
    by (simp_all add: marker_rest_def Let_def flip: assms(1))
qed

lemma parse_of_saved_text:
  assumes "y \<noteq> []" "\<not> py_isspace (hd y)" "\<not> sublist (newline # ''---'') (newline # y)"
    and "newline \<notin> set (takeWhile py_isspace body)" "\<not> list_all py_isspace body"
    and "yaml_load (newline # y @ [newline]) = Inr (JObj d)"
  shows "parse_frontmatter_and_body yaml_load
           (''---'' @ [newline] @ y @ [newline] @ ''---'' @ [newline, newline] @ body) = (d, body)"
proof -
  let ?close = "[newline, newline] @ body"
  let ?t = "''---'' @ newline # y @ newline # ''---'' @ ?close"
  have "takeWhile py_isspace (y @ newline # ''---'' @ ?close) = []"
    using assms(1,2) by (cases y) auto
  moreover have "\<not> list_all py_isspace (y @ newline # ''---'' @ ?close)"
    using assms(1,2) by (cases y) auto
  ultimately have "marker_rest (newline # y @ newline # ''---'' @ ?close) = Some 0"
    by (intro marker_rest_then(1) [of "[]"]) auto
  then have first: "fm_find True ?t = Some ([], newline # y @ newline # ''---'' @ ?close)"
    by (simp add: marker_at_def py_startswith_def)
  have "marker_rest ?close = Some 1" using marker_rest_then(2) [OF refl assms(4,5)] by simp
  then have "marker_at True (''---'' @ ?close) = Some (newline # body)"
    by (simp add: marker_at_def py_startswith_def)
  from fm_find_after_text [OF this assms(3), of False]
  have "fm_find False (newline # y @ newline # ''---'' @ ?close) = Some (newline # y @ [newline], newline # body)"
    by simp
  with first assms(6) show ?thesis
    by (simp add: parse_frontmatter_and_body_def py_startswith_def)
qed

lemma text_list_strings [simp]: "text_list (map JStr ss) = Inr ss"
  by (induction ss) auto

lemma dict_get_optional_entry:
  "dict_get (optional_entry k v @ r) k' =
     (if k = k' then (case v of Some s \<Rightarrow> Some (JStr s) | None \<Rightarrow> dict_get r k') else dict_get r k')"
  by (simp add: optional_entry_def split: option.split)

lemma setdefault_fresh:
  "distinct (map fst xs) \<Longrightarrow> fst ` set xs \<inter> fst ` set m = {} \<Longrightarrow>
     fold (\<lambda>(k, v). dict_setdefault k v) xs m = m @ xs"
proof (induction xs arbitrary: m)
  case (Cons x xs)
  then have "dict_setdefault (fst x) (snd x) m = m @ [x]"
    by (auto simp: dict_setdefault_def dict_keys_def)
  with Cons.IH [of "m @ [x]"] Cons.prems show ?case by (auto simp: split_beta)
qed simp

lemma known_dump_keys: "fst ` set (known_dump f) \<subseteq> set KNOWN_FIELDS"
  by (auto simp: known_dump_def KNOWN_FIELDS_def optional_entry_def split: option.splits if_splits)

definition frontmatter_ok :: "(json \<Rightarrow> string option) \<Rightarrow> OKFFrontmatter \<Rightarrow> bool" where
  "frontmatter_ok parse_time f \<longleftrightarrow>
     fm_type f \<noteq> [] \<and> py_strip (fm_type f) = fm_type f
     \<and> distinct (map fst (extra_fields f))
     \<and> list_all (\<lambda>(k, v). k \<notin> set KNOWN_FIELDS) (extra_fields f)
     \<and> (case fm_timestamp f of None \<Rightarrow> True | Some t \<Rightarrow> parse_time (JStr t) = Some t)"

lemma dump_is_known_then_extra:
  assumes "frontmatter_ok parse_time f"
  shows "model_dump_okf f = known_dump f @ extra_fields f"
proof -
  have "fst ` set (extra_fields f) \<inter> fst ` set (known_dump f) = {}"
    using assms known_dump_keys [of f] by (force simp: frontmatter_ok_def list_all_iff)
  with assms show ?thesis
    by (simp add: model_dump_okf_def setdefault_fresh frontmatter_ok_def)
qed

lemma dict_get_optional_entry_end:
  "dict_get (optional_entry k v) k' = (if k = k' then map_option JStr v else None)"
  by (simp add: optional_entry_def split: option.split)

lemma optional_value: "(case v of Some s \<Rightarrow> Some (JStr s) | None \<Rightarrow> None) = map_option JStr v"
  by (cases v) auto

lemma dict_get_tags:
  "dict_get ((if ts = [] then [] else [(''tags'', JArr (map JStr ts))]) @ r) k' =
     (if k' = ''tags'' \<and> ts \<noteq> [] then Some (JArr (map JStr ts)) else dict_get r k')"
  by simp

lemma known_dump_get:
  "dict_get (known_dump f) ''type'' = Some (JStr (fm_type f))"
  "dict_get (known_dump f) ''title'' = map_option JStr (fm_title f)"
  "dict_get (known_dump f) ''description'' = map_option JStr (fm_description f)"
  "dict_get (known_dump f) ''resource'' = map_option JStr (fm_resource f)"
  "dict_get (known_dump f) ''tags'' = (if fm_tags f = [] then None else Some (JArr (map JStr (fm_tags f))))"
  "dict_get (known_dump f) ''timestamp'' = map_option JStr (fm_timestamp f)"
  "dict_get (known_dump f) ''okf_version'' = map_option JStr (okf_version f)"
  unfolding known_dump_def append_Cons append_Nil map_of.simps fun_upd_apply fst_conv snd_conv
    dict_get_optional_entry dict_get_optional_entry_end dict_get_tags
  by (simp_all add: optional_value)

lemma text_field_strings [simp]: "text_field (map_option JStr v) = Inr v"
  by (cases v) auto

lemma dump_then_split:
  assumes "frontmatter_ok parse_time f"
  shows "split_frontmatter_from_extras parse_time (model_dump_okf f) = Inr f"
proof -
  have parts: "filter (\<lambda>(k, v). k \<in> set KNOWN_FIELDS) (known_dump f @ extra_fields f) = known_dump f"
    "filter (\<lambda>(k, v). k \<notin> set KNOWN_FIELDS) (known_dump f @ extra_fields f) = extra_fields f"
  proof -
    have ks: "\<And>x. x \<in> set (known_dump f) \<Longrightarrow> fst x \<in> set KNOWN_FIELDS" using known_dump_keys [of f] by blast
    have es: "\<And>x. x \<in> set (extra_fields f) \<Longrightarrow> fst x \<notin> set KNOWN_FIELDS"
      using assms unfolding frontmatter_ok_def list_all_iff by fastforce
    show "filter (\<lambda>(k, v). k \<in> set KNOWN_FIELDS) (known_dump f @ extra_fields f) = known_dump f"
      "filter (\<lambda>(k, v). k \<notin> set KNOWN_FIELDS) (known_dump f @ extra_fields f) = extra_fields f"
      using ks es by (simp_all add: split_beta cong: filter_cong)
  qed
  obtain c cs where ty: "fm_type f = c # cs" "py_strip (c # cs) = c # cs"
    using assms by (cases "fm_type f") (auto simp: frontmatter_ok_def)
  have tm: "time_field parse_time (map_option JStr (fm_timestamp f)) = Inr (fm_timestamp f)"
    using assms by (cases "fm_timestamp f") (auto simp: frontmatter_ok_def)
  have "\<lparr>fm_type = c # cs, fm_title = fm_title f, fm_description = fm_description f,
          fm_resource = fm_resource f, fm_tags = fm_tags f, fm_timestamp = fm_timestamp f,
          okf_version = okf_version f, extra_fields = extra_fields f\<rparr> = f"
    by (simp flip: ty(1))
  then show ?thesis
    by (simp add: split_frontmatter_from_extras_def mk_frontmatter_def dump_is_known_then_extra [OF assms]
        parts known_dump_get tm ty del: filter_append map_of_append)
qed

text \<open>The line ends of a saved text, read again.\<close>

lemma read_saved_text:
  assumes "CHR 0x0D \<notin> set y"
  shows "universal_newlines (''---'' @ [newline] @ y @ [newline] @ ''---'' @ [newline, newline]
      @ (if suffix [newline] b then b else b @ [newline]))
    = ''---'' @ [newline] @ y @ [newline] @ ''---'' @ [newline, newline]
      @ (if suffix [newline] (universal_newlines b) then universal_newlines b else universal_newlines b @ [newline])"
proof -
  let ?h = "''---'' @ [newline] @ y @ [newline] @ ''---'' @ [newline, newline]"
  have "CHR 0x0D \<notin> set ?h" using assms by simp
  note head = universal_newlines_append [OF this]
  have "suffix [newline] b \<longleftrightarrow> b \<noteq> [] \<and> last b = newline" by (cases b rule: rev_cases) auto
  then have "universal_newlines (if suffix [newline] b then b else b @ [newline])
      = (if suffix [newline] (universal_newlines b) then universal_newlines b else universal_newlines b @ [newline])"
    by (auto simp: universal_newlines_final)
  with head show ?thesis by simp
qed

text \<open>
  C19: A concept that is saved and loaded again comes back with the front matter it had, extra fields
  included, and with its body up to line ends: carriage returns, alone or before a line feed, come back as line
  feeds, and the final line end the saved file has is part of the body.  The body may not begin with a line end after
  white space (see \<open>leading_blank_line_is_lost\<close>).  Hypotheses on YAML, as PyYAML writes and reads the front matter: the text has
  no carriage return (they are escaped), no blank at the start and no line that begins with \<open>---\<close>, and is read
  back as what was written.
\<close>

theorem save_load:
  assumes "frontmatter_ok parse_time (frontmatter c)"
    and "y = rstrip_newlines (yaml_dump (model_dump_okf (frontmatter c)))"
    and "y \<noteq> []" "\<not> py_isspace (hd y)" "\<not> sublist (newline # ''---'') (newline # y)" "CHR 0x0D \<notin> set y"
    and "yaml_load (newline # y @ [newline]) = Inr (JObj (model_dump_okf (frontmatter c)))"
    and "b = universal_newlines (concept_body c)"
    and "newline \<notin> set (takeWhile py_isspace b)" "\<not> list_all py_isspace b"
  shows "\<exists>c'. load_concept yaml_load parse_time p (save_text yaml_dump c) = Inr c'
    \<and> frontmatter c' = frontmatter c
    \<and> concept_body c' = (if suffix [newline] b then b else b @ [newline])
    \<and> sections c' = split_sections (concept_body c')"
proof -
  let ?d = "model_dump_okf (frontmatter c)"
  let ?b' = "if suffix [newline] b then b else b @ [newline]"
  have "newline \<notin> set (takeWhile py_isspace ?b')" "\<not> list_all py_isspace ?b'"
    using assms(9,10) by (auto simp: list_all_iff takeWhile_append)
  from parse_of_saved_text [where body = ?b' and yaml_load = yaml_load, OF assms(3-5) this assms(7)]
  have "parse_frontmatter_and_body yaml_load (universal_newlines (save_text yaml_dump c)) = (?d, ?b')"
    using read_saved_text [OF assms(6), of "concept_body c"] unfolding assms(8)
    by (simp add: save_text_def Let_def flip: assms(2))
  moreover have "dict_get ?d ''type'' = Some (JStr (fm_type (frontmatter c)))" "fm_type (frontmatter c) \<noteq> []"
    using dump_is_known_then_extra [OF assms(1)] known_dump_get(1) [of "frontmatter c"] assms(1)
    by (auto simp: frontmatter_ok_def map_add_Some_iff)
  ultimately show ?thesis
    by (simp add: load_concept_def dump_then_split [OF assms(1)] Let_def)
qed

text \<open>A concept whose body has line ends of both kinds.\<close>

definition okf_example :: OKFConcept where
  "okf_example = \<lparr>concept_id = ''users'', source_path = None,
     frontmatter = \<lparr>fm_type = ''Table'', fm_title = Some ''Users'', fm_description = None, fm_resource = None,
       fm_tags = [''pii''], fm_timestamp = None, okf_version = None, extra_fields = [(''owner'', JStr ''ops'')]\<rparr>,
     concept_body = ''# Schema'' @ [CHR 0x0D, newline] @ ''id'', sections = [], concept_links = [], citations = []\<rparr>"

definition okf_example_yaml :: string where
  "okf_example_yaml = ''type: Table'' @ [newline] @ ''title: Users'' @ [newline] @ ''tags:'' @ [newline] @ ''- pii''
     @ [newline] @ ''owner: ops''"

lemma save_load_witness:
  "\<exists>c'. load_concept (\<lambda>t. if t = newline # okf_example_yaml @ [newline]
                            then Inr (JObj (model_dump_okf (frontmatter okf_example))) else Inl ())
            (\<lambda>_. None) ''users.md'' (save_text (\<lambda>_. okf_example_yaml @ [newline]) okf_example) = Inr c'
    \<and> frontmatter c' = frontmatter okf_example
    \<and> concept_body c' = ''# Schema'' @ [newline] @ ''id'' @ [newline]
    \<and> sections c' = split_sections (concept_body c')"
proof -
  let ?b = "''# Schema'' @ [newline] @ ''id''"
  have e: "''# Schema'' @ [newline] @ ''id'' @ [newline] = (if suffix [newline] ?b then ?b else ?b @ [newline])"
    by code_simp
  show ?thesis unfolding e
  proof (rule save_load [where y = okf_example_yaml])
    show "frontmatter_ok (\<lambda>_. None) (frontmatter okf_example)" by code_simp
    show "okf_example_yaml
        = rstrip_newlines ((\<lambda>_. okf_example_yaml @ [newline]) (model_dump_okf (frontmatter okf_example)))"
      by code_simp
    show "okf_example_yaml \<noteq> []" by code_simp
    show "\<not> py_isspace (hd okf_example_yaml)" by code_simp
    show "\<not> sublist (newline # ''---'') (newline # okf_example_yaml)"
      by (simp add: okf_example_yaml_def sublist_Cons_right)
    show "CHR 0x0D \<notin> set okf_example_yaml" by code_simp
    show "?b = universal_newlines (concept_body okf_example)" by code_simp
    show "newline \<notin> set (takeWhile py_isspace ?b)" by code_simp
    show "\<not> list_all py_isspace ?b" by code_simp
  qed simp
qed

text \<open>A body that begins with an empty line loses it: the closing marker takes in all line ends but the last.\<close>

lemma leading_blank_line_is_lost:
  "parse_frontmatter_and_body (\<lambda>_. Inr (JObj [])) (save_text (\<lambda>_. ''type: T'')
     (okf_example\<lparr>concept_body := [newline, CHR ''x'']\<rparr>)) = ([], ''x'' @ [newline])"
  by code_simp

text \<open>A blank type passes the length check, which comes before the stripping, and is then empty.\<close>

lemma blank_type_becomes_empty:
  "\<exists>f. mk_frontmatter parse_time [(''type'', JStr '' '')] [] = Inr f \<and> fm_type f = []"
  by (simp add: mk_frontmatter_def py_strip_def py_lstrip_def py_isspace_def)

end
