(* ===== verification/OkfBundle.thy ===== *)
theory OkfBundle
  imports OkfConcept ObjectStore
begin

text \<open>
  OKF bundles (\<open>intelliqx_okf\<close>: \<open>bundle.py\<close>, \<open>validator.py\<close>): loading a directory of documents,
  resolving the links between them, validation.

  A directory is the list of its \<open>.md\<close> entries as \<open>rglob\<close> yields them: the path relative to the root
  and the text, or the error of reading it.  The main result is that \<open>normalise_path\<close>, which
  substitutes until nothing changes, ends and drops exactly the \<open>.\<close> segments before the last.
\<close>

section \<open>Bundles\<close>

record OKFBundle =
  bundle_root :: string
  concepts :: "(string, OKFConcept) dict"
  bundle_errors :: "(string \<times> string) list"
  reserved :: "string list"

definition RESERVED_FILENAMES :: "string list" where
  "RESERVED_FILENAMES = [''index.md'', ''log.md'']"

text \<open>\<open>file_text\<close> is the decoded content, or the text of the error that reading it raises.\<close>

record md_file =
  rel_path :: string
  is_symlink :: bool
  is_file :: bool
  file_text :: "string + string"

definition file_name :: "string \<Rightarrow> string" where
  "file_name p = last (split_slash [] p)"

definition walk_md :: "md_file list \<Rightarrow> bool \<Rightarrow> md_file list" where
  "walk_md fs follow_symlinks = filter (\<lambda>f. follow_symlinks \<or> \<not> is_symlink f) fs"

text \<open>The text of a rejected front matter's error is pydantic's: the parameter \<open>pydantic_text\<close>.\<close>

fun error_text :: "(string \<Rightarrow> string) \<Rightarrow> string \<Rightarrow> okf_error \<Rightarrow> string" where
  "error_text pydantic_text p MissingType =
     ''OKF concept '' @ p @ '' has no '' @ py_repr ''type'' @ '' frontmatter field (required by spec '' @ [CHR 0xA7] @ ''4.1)''"
| "error_text pydantic_text p (FrontmatterError f) = pydantic_text f"

definition load_file ::
    "(string \<Rightarrow> 'y + json) \<Rightarrow> (json \<Rightarrow> string option) \<Rightarrow> (string \<Rightarrow> string) \<Rightarrow> string \<Rightarrow> md_file
       \<Rightarrow> string + OKFConcept" where
  "load_file yaml_load parse_time pydantic_text p f =
     (case file_text f of
        Inl e \<Rightarrow> Inl e
      | Inr t \<Rightarrow> (case load_concept yaml_load parse_time p t of
                   Inl e \<Rightarrow> Inl (error_text pydantic_text p e) | Inr c \<Rightarrow> Inr c))"

definition load_step ::
    "(string \<Rightarrow> 'y + json) \<Rightarrow> (json \<Rightarrow> string option) \<Rightarrow> (string \<Rightarrow> string) \<Rightarrow> md_file
       \<Rightarrow> OKFBundle \<Rightarrow> OKFBundle" where
  "load_step yaml_load parse_time pydantic_text f b =
     (let p = bundle_root b @ ''/'' @ rel_path f; cid = remove_md (rel_path f)
      in case load_file yaml_load parse_time pydantic_text p f of
           Inl e \<Rightarrow> b\<lparr>bundle_errors := bundle_errors b @ [(p, e)]\<rparr>
         | Inr c \<Rightarrow> b\<lparr>concepts := dict_set cid (c\<lparr>concept_id := cid\<rparr>) (concepts b),
                      reserved := (if file_name (rel_path f) \<in> set RESERVED_FILENAMES
                                   then List.insert cid (reserved b) else reserved b)\<rparr>)"

definition load_bundle ::
    "(string \<Rightarrow> 'y + json) \<Rightarrow> (json \<Rightarrow> string option) \<Rightarrow> (string \<Rightarrow> string) \<Rightarrow> string
       \<Rightarrow> md_file list \<Rightarrow> bool \<Rightarrow> OKFBundle" where
  "load_bundle yaml_load parse_time pydantic_text rootdir fs follow_symlinks =
     fold (load_step yaml_load parse_time pydantic_text) (filter is_file (walk_md fs follow_symlinks))
       \<lparr>bundle_root = rootdir, concepts = [], bundle_errors = [], reserved = []\<rparr>"

section \<open>Normalising a path\<close>

text \<open>
  One pass of the substitution of \<open>(^|/)\./\<close>: a match takes its text away, so the slash that ends
  one match cannot begin the next.
\<close>

function normalise_pass :: "bool \<Rightarrow> string \<Rightarrow> string" where
  "normalise_pass bos [] = []"
| "normalise_pass bos (c # cs) =
     (if bos \<and> py_startswith (c # cs) ''./'' then normalise_pass False (drop 2 (c # cs))
      else if py_startswith (c # cs) ''/./'' then CHR ''/'' # normalise_pass False (drop 3 (c # cs))
      else c # normalise_pass False cs)"
  by pat_completeness auto

termination normalise_pass
  by (relation "measure (length \<circ> snd)") auto

lemma normalise_pass_length: "length (normalise_pass bos s) \<le> length s"
  by (induction bos s rule: normalise_pass.induct) (auto simp: py_startswith_def)

lemma normalise_pass_fixed:
  "length (normalise_pass bos s) < length s \<or>
   normalise_pass bos s = s \<and> (bos \<longrightarrow> \<not> prefix ''./'' s) \<and> \<not> sublist ''/./'' s"
proof (induction bos s rule: normalise_pass.induct)
  case (2 bos c cs)
  have l: "length (normalise_pass False (drop 2 (c # cs))) \<le> length (drop 2 (c # cs))"
    "length (normalise_pass False (drop 3 (c # cs))) \<le> length (drop 3 (c # cs))"
    by (rule normalise_pass_length)+
  show ?case
  proof (cases "bos \<and> py_startswith (c # cs) ''./''")
    case True
    then show ?thesis using l(1) by (auto simp: py_startswith_def)
  next
    case head: False
    show ?thesis
    proof (cases "py_startswith (c # cs) ''/./''")
      case True
      then show ?thesis using head l(2) by (auto simp: py_startswith_def dest: prefix_length_le)
    next
      case False
      with head "2.IH"(3) show ?thesis by (auto simp: py_startswith_def sublist_Cons_right)
    qed
  qed
qed simp

function normalise_path :: "string \<Rightarrow> string" where
  "normalise_path p = (let q = normalise_pass True p in if q = p then p else normalise_path q)"
  by pat_completeness auto

termination normalise_path
proof (relation "measure length", goal_cases)
  case (2 p q)
  then show ?case using normalise_pass_fixed [of True p] by auto
qed simp

declare normalise_path.simps [simp del]

text \<open>The specification: the segments between slashes, without the \<open>.\<close> segments before the last.\<close>

fun segments :: "string \<Rightarrow> string list" where
  "segments [] = [[]]"
| "segments (c # cs) =
     (if c = CHR ''/'' then [] # segments cs
      else (c # hd (segments cs)) # tl (segments cs))"

definition drop_dots :: "string list \<Rightarrow> string list" where
  "drop_dots ss = filter (\<lambda>s. s \<noteq> ''.'') (butlast ss) @ [last ss]"

text \<open>The same in one pass over the characters.\<close>

fun skip_dots :: "bool \<Rightarrow> string \<Rightarrow> string" where
  "skip_dots b [] = []"
| "skip_dots b (c # cs) =
     (if b \<and> c = CHR ''.'' \<and> cs \<noteq> [] \<and> hd cs = CHR ''/'' then skip_dots True (tl cs)
      else c # skip_dots (c = CHR ''/'') cs)"

lemma normalise_pass_other:
  "\<not> (bos \<and> prefix ''./'' (c # cs)) \<Longrightarrow> \<not> prefix ''/./'' (c # cs) \<Longrightarrow>
     normalise_pass bos (c # cs) = c # normalise_pass False cs"
  by (simp only: normalise_pass.simps py_startswith_def if_False)

lemma normalise_pass_slash:
  "normalise_pass False (CHR ''/'' # s) =
     (if prefix ''./'' s then CHR ''/'' # normalise_pass False (drop 2 s) else CHR ''/'' # normalise_pass False s)"
  by (simp add: py_startswith_def)

lemma skip_dots_pass: "(bos \<Longrightarrow> b) \<Longrightarrow> skip_dots b (normalise_pass bos s) = skip_dots b s"
proof (induction s arbitrary: bos b rule: length_induct)
  case (1 s)
  note IH = "1.IH" [rule_format] and bos = "1.prems"
  show ?case
  proof (cases s)
    case Nil
    then show ?thesis by simp
  next
    case (Cons c cs)
    consider (start) r where "bos" "s = ''./'' @ r" | (mid) r where "s = ''/./'' @ r"
      | (other) "\<not> (bos \<and> prefix ''./'' s)" "\<not> prefix ''/./'' s"
      by (auto simp: prefix_def)
    then show ?thesis
    proof cases
      case start
      then show ?thesis using bos IH [of r False True] by (simp add: py_startswith_def)
    next
      case mid
      then show ?thesis using IH [of r False True] by (simp add: py_startswith_def)
    next
      case other
      then have pass: "normalise_pass bos s = c # normalise_pass False cs"
        unfolding Cons by (rule normalise_pass_other)
      show ?thesis
      proof (cases "b \<and> c = CHR ''.'' \<and> cs \<noteq> [] \<and> hd cs = CHR ''/''")
        case False
        have "cs = [] \<or> hd cs \<noteq> CHR ''/'' \<Longrightarrow> normalise_pass False cs = [] \<or> hd (normalise_pass False cs) \<noteq> CHR ''/''"
          by (cases cs) (auto simp: py_startswith_def)
        with False pass IH [of cs False "c = CHR ''/''"] show ?thesis by (auto simp: Cons)
      next
        case True
        then obtain r where cs: "cs = CHR ''/'' # r" by (cases cs) auto
        have p: "normalise_pass bos s = CHR ''.'' # CHR ''/'' #
            (if prefix ''./'' r then normalise_pass False (drop 2 r) else normalise_pass False r)"
          using True by (simp only: pass cs normalise_pass_slash if_distrib [of "(#) x" for x])
        have "skip_dots True (normalise_pass False r) = skip_dots True r"
          "skip_dots True (normalise_pass False (drop 2 r)) = skip_dots True (drop 2 r)"
          by (rule IH, simp_all add: Cons cs)+
        then show ?thesis unfolding p using True by (auto simp: Cons cs prefix_def)
      qed
    qed
  qed
qed

lemma skip_dots_fixed: "(b \<Longrightarrow> \<not> prefix ''./'' s) \<Longrightarrow> \<not> sublist ''/./'' s \<Longrightarrow> skip_dots b s = s"
proof (induction s arbitrary: b)
  case (Cons c s)
  from Cons.prems(2) have "c = CHR ''/'' \<Longrightarrow> \<not> prefix ''./'' s" "\<not> sublist ''/./'' s"
    by (auto simp: sublist_Cons_right)
  then have "skip_dots (c = CHR ''/'') s = s" by (rule Cons.IH) simp_all
  with Cons.prems(1) show ?case by (cases s) auto
qed simp

lemma normalise_path_skip_dots: "normalise_path p = skip_dots True p"
proof (induction p rule: normalise_path.induct)
  case (1 p)
  show ?case
  proof (cases "normalise_pass True p = p")
    case True
    then have "\<not> prefix ''./'' p" "\<not> sublist ''/./'' p" using normalise_pass_fixed [of True p] by auto
    with True show ?thesis by (simp add: normalise_path.simps [of p] skip_dots_fixed)
  next
    case False
    then show ?thesis
      using "1.IH" [OF refl] skip_dots_pass [of True True p] by (simp add: normalise_path.simps [of p])
  qed
qed

lemma segments_Cons: "segments s \<noteq> []"
  by (cases s) auto

lemma join_Cons: "ss \<noteq> [] \<Longrightarrow> join_with sep (x # ss) = x @ sep @ join_with sep ss"
  by (cases ss) auto

lemma join_char: "join_with sep ((c # x) # xs) = c # join_with sep (x # xs)"
  by (cases xs) auto

lemma drop_dots_Cons:
  "drop_dots (x # xs) = (if xs = [] then [x] else if x = ''.'' then drop_dots xs else x # drop_dots xs)"
  by (simp add: drop_dots_def)

lemma drop_dots_nonempty: "drop_dots ss \<noteq> []"
  by (simp add: drop_dots_def)

lemma segments_single: "segments s = [x] \<Longrightarrow> CHR ''/'' \<notin> set s"
proof (induction s arbitrary: x)
  case (Cons c s)
  then show ?case using segments_Cons [of s] by (cases "segments s") (auto split: if_splits)
qed simp

lemma hd_slash_segments: "segments s = [] # ss \<Longrightarrow> ss \<noteq> [] \<Longrightarrow> s \<noteq> [] \<and> hd s = CHR ''/''"
  by (cases s) (auto split: if_splits)

lemma skip_dots_segments:
  "skip_dots b s =
     (if b then join_with ''/'' (drop_dots (segments s))
      else join_with ''/'' (hd (segments s) # (if tl (segments s) = [] then [] else drop_dots (tl (segments s)))))"
proof (induction b s rule: skip_dots.induct)
  case (1 b)
  show ?case by (simp add: drop_dots_def)
next
  case (2 b c cs)
  obtain x xs where ss: "segments cs = x # xs" using segments_Cons [of cs] by (cases "segments cs") auto
  show ?case
  proof (cases "b \<and> c = CHR ''.'' \<and> cs \<noteq> [] \<and> hd cs = CHR ''/''")
    case True
    then obtain r where "cs = CHR ''/'' # r" by (cases cs) auto
    with True "2.IH"(1) show ?thesis by (simp add: drop_dots_Cons segments_Cons)
  next
    case False
    note rest = "2.IH"(2) [OF False]
    show ?thesis
    proof (cases "c = CHR ''/''")
      case True
      with False rest show ?thesis
        by (simp add: drop_dots_Cons segments_Cons join_Cons drop_dots_nonempty)
    next
      case no: False
      have "\<not> (b \<and> c # x = ''.'' \<and> xs \<noteq> [])"
        using False hd_slash_segments [of cs xs] ss by auto
      with False rest no ss show ?thesis by (auto simp: drop_dots_Cons join_char)
    qed
  qed
qed

text \<open>
  C29: \<open>normalise_path\<close>, which substitutes until nothing changes, is equivalent to taking the path's
  segments apart and dropping the \<open>.\<close> segments before the last.
\<close>

theorem normalise_path_equiv:
  "normalise_path p = join_with ''/'' (drop_dots (segments p))"
  by (simp add: normalise_path_skip_dots skip_dots_segments)

section \<open>Resolving links\<close>

record OKFEdge =
  edge_source :: string
  edge_target :: string
  edge_text :: string

definition is_external :: "string \<Rightarrow> bool" where
  "is_external t \<longleftrightarrow> list_ex (py_startswith t) [''http://'', ''https://'', ''file://'', ''mailto:'']"

definition as_posix :: "string list \<Rightarrow> string" where
  "as_posix ps = (if ps = [] then ''.'' else join_with ''/'' ps)"

text \<open>The concept a link of the concept \<open>source_id\<close> points to; \<open>None\<close> for a link that is skipped.\<close>

definition link_target_id :: "string \<Rightarrow> string \<Rightarrow> string option" where
  "link_target_id source_id t =
     (if t = [] \<or> is_external t then None
      else Some (normalise_path (remove_md
             (if py_startswith t ''/'' then dropWhile (\<lambda>c. c = CHR ''/'') t
              else as_posix (butlast (path_parts source_id) @ path_parts t)))))"

definition edge_step :: "OKFBundle \<Rightarrow> OKFConcept \<Rightarrow> OKFLink \<Rightarrow> OKFEdge list \<times> nat \<Rightarrow> OKFEdge list \<times> nat" where
  "edge_step b c l r =
     (case r of (out, unresolved_count) \<Rightarrow>
        case link_target_id (concept_id c) (link_target l) of
          None \<Rightarrow> (out, unresolved_count)
        | Some t \<Rightarrow>
            if t \<notin> set (dict_keys (concepts b)) then (out, Suc unresolved_count)
            else (out @ [\<lparr>edge_source = concept_id c, edge_target = t, edge_text = link_text l\<rparr>], unresolved_count))"

definition resolver_edges :: "OKFBundle \<Rightarrow> nat \<Rightarrow> OKFEdge list \<times> nat" where
  "resolver_edges b unresolved_count =
     fold (\<lambda>c. fold (edge_step b c) (concept_links c)) (map snd (concepts b)) ([], unresolved_count)"

section \<open>Validation\<close>

record ValidationIssue =
  issue_level :: string
  issue_path :: string
  message :: string

definition errors_of :: "ValidationIssue list \<Rightarrow> ValidationIssue list" where
  "errors_of issues = filter (\<lambda>i. issue_level i = ''error'') issues"

definition warnings_of :: "ValidationIssue list \<Rightarrow> ValidationIssue list" where
  "warnings_of issues = filter (\<lambda>i. issue_level i = ''warning'') issues"

definition issues_ok :: "ValidationIssue list \<Rightarrow> bool" where
  "issues_ok issues \<longleftrightarrow> \<not> list_ex (\<lambda>i. issue_level i = ''error'') issues"

definition issue :: "string \<Rightarrow> string \<Rightarrow> string \<Rightarrow> ValidationIssue" where
  "issue lv p m = \<lparr>issue_level = lv, issue_path = p, message = m\<rparr>"

definition quoted :: "string \<Rightarrow> string" where
  "quoted s = [CHR 0x27] @ s @ [CHR 0x27]"

fun duplicate_headings :: "string \<Rightarrow> string set \<Rightarrow> string list \<Rightarrow> ValidationIssue list" where
  "duplicate_headings cid seen [] = []"
| "duplicate_headings cid seen (h # hs) =
     (if h \<in> seen then [issue ''warning'' cid (''duplicate section heading: '' @ quoted h)] else [])
     @ duplicate_headings cid (insert h seen) hs"

definition unset_text :: "string option \<Rightarrow> bool" where
  "unset_text v \<longleftrightarrow> v = None \<or> v = Some []"

definition validate_concept :: "OKFConcept \<Rightarrow> ValidationIssue list" where
  "validate_concept c =
     (let cid = concept_id c; f = frontmatter c
      in (if fm_type f = [] \<or> py_strip (fm_type f) = []
          then [issue ''error'' cid (''frontmatter '' @ quoted ''type'' @ '' must be non-empty'')] else [])
       @ (if concept_body c = [] \<or> py_strip (concept_body c) = []
          then [issue ''warning'' cid ''concept body is empty''] else [])
       @ (if unset_text (fm_title f) \<and> unset_text (fm_description f)
          then [issue ''warning'' cid (''neither '' @ quoted ''title'' @ '' nor '' @ quoted ''description'' @ '' is set'')]
          else [])
       @ duplicate_headings cid {} (filter (\<lambda>h. h \<noteq> []) (map heading (sections c))))"

fun repeated_headings :: "string \<Rightarrow> string set \<Rightarrow> string list \<Rightarrow> ValidationIssue list" where
  "repeated_headings cid seen [] = []"
| "repeated_headings cid seen (h # hs) =
     (if h \<noteq> [] \<and> h \<in> seen then [issue ''warning'' cid (''section heading repeated: '' @ quoted h)] else [])
     @ repeated_headings cid (insert h seen) hs"

definition seen_headings_of :: "(string, string set) dict \<Rightarrow> string \<Rightarrow> string set" where
  "seen_headings_of seen cid = (case dict_get seen cid of None \<Rightarrow> {} | Some s \<Rightarrow> s)"

definition concept_issues ::
    "OKFConcept \<Rightarrow> ValidationIssue list \<times> (string, string set) dict \<Rightarrow> ValidationIssue list \<times> (string, string set) dict" where
  "concept_issues c r =
     (case r of (issues, seen) \<Rightarrow>
        let cid = concept_id c; hs = map heading (sections c); old = seen_headings_of seen cid
        in (issues @ validate_concept c @ repeated_headings cid old hs, dict_set cid (old \<union> set hs) seen))"

definition validate_bundle :: "OKFBundle \<Rightarrow> ValidationIssue list" where
  "validate_bundle b =
     map (\<lambda>(p, e). issue ''error'' p (''failed to parse: '' @ e)) (bundle_errors b)
     @ fst (fold concept_issues (map snd (concepts b)) ([], []))
     @ (if ''index'' \<notin> set (reserved b)
        then [issue ''warning'' (bundle_root b) (''bundle root '' @ quoted ''index.md'' @ '' is missing'')] else [])
     @ (let n = snd (resolver_edges b 0)
        in if n = 0 then []
           else [issue ''warning'' (bundle_root b) (show_nat n @ '' unresolved internal link(s)'')])"

section \<open>What loading, resolving and validating give\<close>

definition stored_under_ids :: "OKFBundle \<Rightarrow> bool" where
  "stored_under_ids b \<longleftrightarrow>
     distinct (map fst (concepts b)) \<and> list_all (\<lambda>(k, c). concept_id c = k) (concepts b)
     \<and> set (reserved b) \<subseteq> fst ` set (concepts b)"

definition accounts_for :: "OKFBundle \<Rightarrow> md_file \<Rightarrow> bool" where
  "accounts_for b f \<longleftrightarrow>
     remove_md (rel_path f) \<in> fst ` set (concepts b)
     \<or> (bundle_root b @ ''/'' @ rel_path f) \<in> fst ` set (bundle_errors b)"

lemma bundle_root_load_step [simp]: "bundle_root (load_step yl pt px f b) = bundle_root b"
  by (simp add: load_step_def Let_def split: sum.split)

lemma load_step_accounts: "accounts_for (load_step yl pt px f b) f"
  by (auto simp: accounts_for_def load_step_def Let_def split: sum.split)

lemma load_step_keeps: "accounts_for b g \<Longrightarrow> accounts_for (load_step yl pt px f b) g"
  by (auto simp: accounts_for_def load_step_def Let_def split: sum.split)

lemma list_all_dict_set:
  "list_all (\<lambda>(k, c). P k c) m \<Longrightarrow> P k v \<Longrightarrow> list_all (\<lambda>(k, c). P k c) (dict_set k v m)"
  by (induction m) auto

lemma load_step_stored:
  assumes "stored_under_ids b"
  shows "stored_under_ids (load_step yl pt px f b)"
  using assms
  by (auto simp: stored_under_ids_def load_step_def Let_def distinct_dict_set
      intro!: list_all_dict_set split: sum.split)

lemma load_steps:
  "stored_under_ids b \<Longrightarrow> stored_under_ids (fold (load_step yl pt px) fs b)
   \<and> (\<forall>g. g \<in> set fs \<or> accounts_for b g \<longrightarrow> accounts_for (fold (load_step yl pt px) fs b) g)"
proof (induction fs arbitrary: b)
  case (Cons f fs)
  from Cons.IH [OF load_step_stored [OF Cons.prems, of yl pt px f]] show ?case
    using load_step_accounts [of yl pt px f b] load_step_keeps [of b _ yl pt px f] by auto
qed simp

text \<open>
  Loading a bundle loses no file: each regular file of the walk is a concept stored once, under its
  path without \<open>.md\<close> as its own id, or is listed in \<open>errors\<close>; reserved ids are concepts of the bundle.
\<close>

theorem load_bundle_accounts:
  assumes "f \<in> set fs" "is_file f" "follow_symlinks \<or> \<not> is_symlink f"
    and "b = load_bundle yaml_load parse_time pydantic_text rootdir fs follow_symlinks"
  shows "(remove_md (rel_path f) \<in> fst ` set (concepts b)
          \<or> (rootdir @ ''/'' @ rel_path f) \<in> fst ` set (bundle_errors b))
    \<and> distinct (map fst (concepts b)) \<and> list_all (\<lambda>(k, c). concept_id c = k) (concepts b)
    \<and> set (reserved b) \<subseteq> fst ` set (concepts b)"
proof -
  let ?b0 = "\<lparr>bundle_root = rootdir, concepts = [], bundle_errors = [], reserved = []\<rparr> :: OKFBundle"
  have "stored_under_ids ?b0" by (simp add: stored_under_ids_def)
  from load_steps [OF this, of yaml_load parse_time pydantic_text "filter is_file (walk_md fs follow_symlinks)"]
  have "stored_under_ids b" "accounts_for b f"
    using assms by (auto simp: load_bundle_def walk_md_def)
  moreover have "bundle_root (fold (load_step yaml_load parse_time pydantic_text) gs c) = bundle_root c" for gs c
    by (induction gs arbitrary: c) auto
  then have "bundle_root b = rootdir" by (simp add: assms(4) load_bundle_def)
  ultimately show ?thesis by (simp add: stored_under_ids_def accounts_for_def)
qed

definition md_users :: md_file where
  "md_users = \<lparr>rel_path = ''tables/users.md'', is_symlink = False, is_file = True,
     file_text = Inr (''---'' @ [newline] @ ''x'' @ [newline] @ ''---'' @ [newline] @ ''see [o](../index.md)'')\<rparr>"

definition md_index :: md_file where
  "md_index = \<lparr>rel_path = ''index.md'', is_symlink = False, is_file = True,
     file_text = Inr (''---'' @ [newline] @ ''x'' @ [newline] @ ''---'' @ [newline] @ ''[u](./tables/users.md)'')\<rparr>"

definition demo_bundle :: OKFBundle where
  "demo_bundle = load_bundle (\<lambda>_. Inr (JObj [(''type'', JStr ''Table'')]) :: unit + json) (\<lambda>_. None) id ''/b''
     [md_users, md_index] False"

lemma load_bundle_accounts_witness:
  "remove_md (rel_path md_users) \<in> fst ` set (concepts demo_bundle)
   \<or> (''/b'' @ ''/'' @ rel_path md_users) \<in> fst ` set (bundle_errors demo_bundle)"
  using load_bundle_accounts [of md_users "[md_users, md_index]" False demo_bundle
      "\<lambda>_. Inr (JObj [(''type'', JStr ''Table'')]) :: unit + json" "\<lambda>_. None" id "''/b''"]
  by (simp add: demo_bundle_def md_users_def)

definition link_edges :: "OKFBundle \<Rightarrow> OKFConcept \<Rightarrow> OKFLink list \<Rightarrow> OKFEdge list" where
  "link_edges b c ls = concat (map (\<lambda>l. case link_target_id (concept_id c) (link_target l) of
        None \<Rightarrow> []
      | Some t \<Rightarrow> if t \<in> fst ` set (concepts b)
                 then [\<lparr>edge_source = concept_id c, edge_target = t, edge_text = link_text l\<rparr>] else []) ls)"

definition broken_links :: "OKFBundle \<Rightarrow> OKFConcept \<Rightarrow> OKFLink list \<Rightarrow> OKFLink list" where
  "broken_links b c ls = filter (\<lambda>l. case link_target_id (concept_id c) (link_target l) of
        None \<Rightarrow> False | Some t \<Rightarrow> t \<notin> fst ` set (concepts b)) ls"

lemma edge_steps:
  "fold (edge_step b c) ls (out, n) = (out @ link_edges b c ls, n + length (broken_links b c ls))"
proof (induction ls arbitrary: out n)
  case Nil
  then show ?case by (simp add: link_edges_def broken_links_def)
next
  case (Cons l ls)
  have "edge_step b c l (out, n) = (out @ link_edges b c [l], n + length (broken_links b c [l]))"
    by (simp add: edge_step_def link_edges_def broken_links_def dict_keys_def split: option.split)
  with Cons.IH show ?case by (simp add: link_edges_def broken_links_def)
qed

lemma resolver_steps:
  "fold (\<lambda>c. fold (edge_step b c) (concept_links c)) cs (out, n) =
     (out @ concat (map (\<lambda>c. link_edges b c (concept_links c)) cs),
      n + (\<Sum>c\<leftarrow>cs. length (broken_links b c (concept_links c))))"
  by (induction cs arbitrary: out n) (simp_all add: edge_steps)

text \<open>
  The resolver turns every internal link of the bundle, in order, into one edge if its target is a
  concept of the bundle, and counts it as unresolved if not; external links are neither.
\<close>

theorem resolver_spec:
  "resolver_edges b n =
     (concat (map (\<lambda>c. link_edges b c (concept_links c)) (map snd (concepts b))),
      n + (\<Sum>c\<leftarrow>map snd (concepts b). length (broken_links b c (concept_links c))))"
  by (simp add: resolver_edges_def resolver_steps)

text \<open>
  A relative link with \<open>..\<close> is never resolved, though its file is in the bundle: the path of the link
  is joined and stripped of \<open>.\<close> segments only.
\<close>

lemma parent_link_unresolved:
  "map fst (concepts demo_bundle) = [''tables/users'', ''index'']
   \<and> resolver_edges demo_bundle 0
     = ([\<lparr>edge_source = ''index'', edge_target = ''tables/users'', edge_text = ''u''\<rparr>], 1)"
  by code_simp

lemma errors_in_validate_concept:
  "list_ex (\<lambda>i. issue_level i = ''error'') (validate_concept c) \<longleftrightarrow> py_strip (fm_type (frontmatter c)) = []"
proof -
  have "\<not> list_ex (\<lambda>i. issue_level i = ''error'') (duplicate_headings cid seen hs)" for cid seen hs
    by (induction cid seen hs rule: duplicate_headings.induct) (auto simp: issue_def)
  moreover have "py_strip [] = []" by (simp add: py_strip_def py_lstrip_def)
  ultimately show ?thesis by (auto simp: validate_concept_def Let_def issue_def)
qed

lemma errors_in_repeated_headings:
  "\<not> list_ex (\<lambda>i. issue_level i = ''error'') (repeated_headings cid seen hs)"
  by (induction cid seen hs rule: repeated_headings.induct) (auto simp: issue_def)

lemma errors_in_concept_issues:
  "list_ex (\<lambda>i. issue_level i = ''error'') (fst (fold concept_issues cs (issues, seen))) \<longleftrightarrow>
     list_ex (\<lambda>i. issue_level i = ''error'') issues \<or> list_ex (\<lambda>c. py_strip (fm_type (frontmatter c)) = []) cs"
proof (induction cs arbitrary: issues seen)
  case (Cons c cs)
  show ?case
    using Cons.IH errors_in_repeated_headings
    by (simp add: concept_issues_def Let_def errors_in_validate_concept list_ex_append)
qed simp

text \<open>
  A bundle is valid exactly if every file was parsed and no concept has a blank type; missing
  titles, bodies, an index or link targets are warnings only.
\<close>

theorem validate_bundle_ok_iff:
  "issues_ok (validate_bundle b) \<longleftrightarrow>
     bundle_errors b = [] \<and> list_all (\<lambda>(k, c). py_strip (fm_type (frontmatter c)) \<noteq> []) (concepts b)"
proof -
  let ?E = "list_ex (\<lambda>i. issue_level i = ''error'')"
  have parsed: "?E (map (\<lambda>(p, e). issue ''error'' p (t e)) es) \<longleftrightarrow> es \<noteq> []" for t and es :: "(string \<times> string) list"
    by (cases es) (auto simp: issue_def)
  have rest: "\<not> ?E (if P then [issue ''warning'' p m] else [])" "\<not> ?E (if P then [] else [issue ''warning'' p m])"
    for P p m
    by (simp_all add: issue_def)
  have "?E (validate_bundle b) \<longleftrightarrow>
      bundle_errors b \<noteq> [] \<or> list_ex (\<lambda>c. py_strip (fm_type (frontmatter c)) = []) (map snd (concepts b))"
    unfolding validate_bundle_def Let_def list_ex_append parsed errors_in_concept_issues
    using rest by simp
  then show ?thesis
    by (auto simp: issues_ok_def list_ex_iff list_all_iff)
qed

text \<open>A heading that occurs twice is reported twice, by \<open>validate_concept\<close> and by \<open>validate_bundle\<close>.\<close>

lemma headings_reported_twice:
  "length (duplicate_headings cid seen (filter (\<lambda>h. h \<noteq> []) hs)) = length (repeated_headings cid seen hs)"
proof -
  have "seen - {[]} = seen' - {[]} \<Longrightarrow>
      length (duplicate_headings cid seen' (filter (\<lambda>h. h \<noteq> []) hs)) = length (repeated_headings cid seen hs)"
    for seen' :: "string set"
  proof (induction hs arbitrary: seen seen')
    case (Cons h hs)
    show ?case
    proof (cases "h = []")
      case True
      with Cons.IH [of "insert h seen" seen'] Cons.prems show ?thesis by auto
    next
      case False
      then have "h \<in> seen' \<longleftrightarrow> h \<in> seen" "insert h seen - {[]} = insert h seen' - {[]}"
        using Cons.prems by auto
      with False Cons.IH [of "insert h seen" "insert h seen'"] show ?thesis by simp
    qed
  qed simp
  then show ?thesis by simp
qed

end
