(* ===== verification/OkfIndex.thy ===== *)
theory OkfIndex
  imports OkfConcept
begin

text \<open>
  The OKF search index (\<open>intelliqx_okf\<close>: \<open>index.py\<close>, \<open>embed.py\<close>).

  The SQLite tables are lists: \<open>irows\<close> is \<open>concepts\<close>, \<open>fts\<close> the entries of the external-content table
  \<open>concepts_fts\<close> and \<open>vecs\<close> the table \<open>concepts_vec\<close>.  \<open>INSERT OR REPLACE\<close> removes the row of the same
  primary key; SQLite fires no delete trigger for it (\<open>recursive_triggers\<close> is off), so the insert
  trigger only adds an entry.  JSON columns hold the value, not its text.  Three things are
  parameters: the embedder \<open>embedding\<close>, the full-text search \<open>fts_match\<close>, which gives the ids of the
  entries that match a query, best first, and the vector search \<open>knn\<close>, which gives the \<open>k\<close> nearest
  entries with their distances.
\<close>

section \<open>State\<close>

record irow =
  row_id :: nat
  row_concept :: string
  row_type :: string
  row_title :: "string option"
  row_description :: "string option"
  row_body :: string
  row_tags :: "string list"
  row_metadata :: "(string, json) dict"
  row_timestamp :: "string option"

record fts_row =
  fts_id :: nat
  fts_title :: "string option"
  fts_description :: "string option"
  fts_body :: string

record Index =
  embed_name :: string
  embed_dim :: nat
  irows :: "irow list"
  fts :: "fts_row list"
  vecs :: "(nat \<times> rat list) list"
  index_meta :: "(string \<times> nat) option"

record Hit =
  hit_concept :: OKFConcept
  score :: rat

datatype index_error =
    EmbeddingMismatch string nat string nat
  | DimensionError nat nat
  | TopError int
  | WeightError rat
  | PayloadError okf_error

definition empty_index :: "string \<Rightarrow> nat \<Rightarrow> Index" where
  "empty_index nm d = \<lparr>embed_name = nm, embed_dim = d, irows = [], fts = [], vecs = [], index_meta = None\<rparr>"

text \<open>\<open>__init__\<close> with the embedder \<open>(nm, d)\<close> on a database.\<close>

definition open_db :: "string \<Rightarrow> nat \<Rightarrow> Index \<Rightarrow> index_error + Index" where
  "open_db nm d db =
     (case index_meta db of
        None \<Rightarrow> Inr (db\<lparr>embed_name := nm, embed_dim := d, index_meta := Some (nm, d)\<rparr>)
      | Some (nm', d') \<Rightarrow>
          if nm' \<noteq> nm \<or> d' \<noteq> d then Inl (EmbeddingMismatch nm' d' nm d)
          else Inr (db\<lparr>embed_name := nm, embed_dim := d\<rparr>))"

section \<open>Writing\<close>

definition embed_text :: "OKFConcept \<Rightarrow> string" where
  "embed_text c =
     (let f = frontmatter c; part = (\<lambda>v. case v of None \<Rightarrow> [] | Some s \<Rightarrow> s)
      in py_strip (join_with '' '' (filter (\<lambda>p. p \<noteq> [])
           [part (fm_title f), part (fm_description f), concept_body c])))"

definition next_id :: "Index \<Rightarrow> nat" where
  "next_id ix = fold max (map row_id (irows ix)) 0 + 1"

definition row_of :: "nat \<Rightarrow> OKFConcept \<Rightarrow> irow" where
  "row_of n c = (let f = frontmatter c in
     \<lparr>row_id = n, row_concept = concept_id c, row_type = fm_type f, row_title = fm_title f,
      row_description = fm_description f, row_body = concept_body c, row_tags = fm_tags f,
      row_metadata = extra_fields f, row_timestamp = fm_timestamp f\<rparr>)"

definition fts_of :: "irow \<Rightarrow> fts_row" where
  "fts_of r = \<lparr>fts_id = row_id r, fts_title = row_title r, fts_description = row_description r, fts_body = row_body r\<rparr>"

definition index_write :: "(string \<Rightarrow> rat list) \<Rightarrow> Index \<Rightarrow> OKFConcept \<Rightarrow> index_error + Index" where
  "index_write embedding ix c =
     (let text = embed_text c; vec = (if text = [] then None else Some (embedding text)); n = next_id ix; r = row_of n c;
          ix' = ix\<lparr>irows := filter (\<lambda>q. row_concept q \<noteq> concept_id c) (irows ix) @ [r],
                   fts := fts ix @ [fts_of r],
                   vecs := filter (\<lambda>(i, e). i \<noteq> n) (vecs ix)
                             @ (case vec of None \<Rightarrow> [] | Some v \<Rightarrow> [(n, v)])\<rparr>
      in case vec of
           None \<Rightarrow> Inr ix'
         | Some v \<Rightarrow> if length v \<noteq> embed_dim ix then Inl (DimensionError (embed_dim ix) (length v)) else Inr ix')"

section \<open>Reading\<close>

fun py_words :: "string \<Rightarrow> string \<Rightarrow> string list" where
  "py_words acc [] = (if acc = [] then [] else [acc])"
| "py_words acc (c # cs) =
     (if py_isspace c then (if acc = [] then [] else [acc]) @ py_words [] cs else py_words (acc @ [c]) cs)"

definition quote_fts :: "string \<Rightarrow> string" where
  "quote_fts query =
     (let toks = py_words [] query; q = CHR 0x22
      in if toks = [] then [q, q]
         else join_with '' '' (map (\<lambda>t. q # filter (\<lambda>c. c \<noteq> q) t @ [q]) toks))"

definition row_passes :: "string option \<Rightarrow> string option \<Rightarrow> irow \<Rightarrow> bool" where
  "row_passes type_filter tag_filter r \<longleftrightarrow>
     (case type_filter of None \<Rightarrow> True | Some t \<Rightarrow> row_type r = t)
     \<and> (case tag_filter of None \<Rightarrow> True | Some t \<Rightarrow> t \<in> set (row_tags r))"

text \<open>Without a filter the condition does not look at \<open>concepts\<close> at all.\<close>

definition fts_passes :: "Index \<Rightarrow> string option \<Rightarrow> string option \<Rightarrow> nat \<Rightarrow> bool" where
  "fts_passes ix type_filter tag_filter i \<longleftrightarrow>
     (type_filter \<noteq> None \<longrightarrow> list_ex (\<lambda>r. row_id r = i \<and> row_passes type_filter None r) (irows ix))
     \<and> (tag_filter \<noteq> None \<longrightarrow> list_ex (\<lambda>r. row_id r = i \<and> row_passes None tag_filter r) (irows ix))"

definition fts_candidates ::
    "(string \<Rightarrow> fts_row list \<Rightarrow> nat list) \<Rightarrow> Index \<Rightarrow> string \<Rightarrow> string option \<Rightarrow> string option \<Rightarrow> nat \<Rightarrow> nat list" where
  "fts_candidates fts_match ix query type_filter tag_filter limit =
     take limit (filter (fts_passes ix type_filter tag_filter) (fts_match (quote_fts query) (fts ix)))"

definition vector_candidates ::
    "(rat list \<Rightarrow> nat \<Rightarrow> (nat \<times> rat list) list \<Rightarrow> (nat \<times> rat option) list) \<Rightarrow> Index \<Rightarrow> rat list
       \<Rightarrow> string option \<Rightarrow> string option \<Rightarrow> nat \<Rightarrow> index_error + (nat \<times> rat) list" where
  "vector_candidates knn ix q type_filter tag_filter limit =
     (if length q \<noteq> embed_dim ix then Inl (DimensionError (embed_dim ix) (length q))
      else Inr (concat (map (\<lambda>(i, d). case d of
              None \<Rightarrow> []
            | Some x \<Rightarrow> if list_ex (\<lambda>r. row_id r = i \<and> row_passes type_filter tag_filter r) (irows ix)
                       then [(i, x)] else []) (knn q limit (vecs ix)))))"

definition rrf_add :: "nat \<Rightarrow> rat \<Rightarrow> (nat, rat) dict \<Rightarrow> (nat, rat) dict" where
  "rrf_add i x rrf = dict_set i ((case dict_get rrf i of None \<Rightarrow> 0 | Some y \<Rightarrow> y) + x) rrf"

fun add_fts_ranks :: "rat \<Rightarrow> nat \<Rightarrow> nat list \<Rightarrow> (nat, rat) dict \<Rightarrow> (nat, rat) dict" where
  "add_fts_ranks w rank [] rrf = rrf"
| "add_fts_ranks w rank (i # is) rrf =
     add_fts_ranks w (Suc rank) is (rrf_add i ((1 - w) / of_nat (60 + rank + 1)) rrf)"

fun add_vec_ranks :: "rat \<Rightarrow> nat \<Rightarrow> (nat \<times> rat) list \<Rightarrow> (nat, rat) dict \<Rightarrow> (nat, rat) dict" where
  "add_vec_ranks w rank [] rrf = rrf"
| "add_vec_ranks w rank ((i, d) # is) rrf =
     add_vec_ranks w (Suc rank) is (rrf_add i (w * max 0 (min 1 (1 - d)) / of_nat (60 + rank + 1)) rrf)"

definition json_text_option :: "string option \<Rightarrow> json" where
  "json_text_option v = (case v of None \<Rightarrow> JNull | Some s \<Rightarrow> JStr s)"

text \<open>\<open>_row_to_concept_payload\<close>: the stored extras are validated beside the named columns.\<close>

definition row_payload :: "irow \<Rightarrow> (string, json) dict" where
  "row_payload r =
     fold (\<lambda>(k, v). dict_set k v) (row_metadata r)
       [(''type'', JStr (row_type r)), (''title'', json_text_option (row_title r)),
        (''description'', json_text_option (row_description r)), (''tags'', JArr (map JStr (row_tags r))),
        (''timestamp'', json_text_option (row_timestamp r))]"

definition row_to_concept :: "(json \<Rightarrow> string option) \<Rightarrow> irow \<Rightarrow> okf_error + OKFConcept" where
  "row_to_concept parse_time r =
     (let p = row_payload r
      in bind_okf (case dict_get p ''extra_fields'' of
                     None \<Rightarrow> Inr [] | Some (JObj kvs) \<Rightarrow> Inr kvs | Some j \<Rightarrow> Inl (FrontmatterError ''extra_fields''))
           (\<lambda>xs. bind_okf (mk_frontmatter parse_time p xs)
           (\<lambda>f. Inr \<lparr>concept_id = row_concept r, source_path = None, frontmatter = f, concept_body = row_body r,
                     sections = [], concept_links = [], citations = []\<rparr>)))"

fun make_hits ::
    "(json \<Rightarrow> string option) \<Rightarrow> Index \<Rightarrow> rat \<Rightarrow> (nat \<times> rat) list \<Rightarrow> index_error + Hit list" where
  "make_hits parse_time ix max_rrf [] = Inr []"
| "make_hits parse_time ix max_rrf ((i, x) # top_ids) =
     (case find (\<lambda>r. row_id r = i) (irows ix) of
        None \<Rightarrow> make_hits parse_time ix max_rrf top_ids
      | Some r \<Rightarrow>
          (case row_to_concept parse_time r of
             Inl e \<Rightarrow> Inl (PayloadError e)
           | Inr c \<Rightarrow>
               (case make_hits parse_time ix max_rrf top_ids of
                  Inl e \<Rightarrow> Inl e
                | Inr hits \<Rightarrow> Inr (\<lparr>hit_concept = c, score = x / max_rrf\<rparr> # hits))))"

definition top_of :: "nat \<Rightarrow> (nat, rat) dict \<Rightarrow> (nat \<times> rat) list" where
  "top_of n rrf = take n (sort_key (\<lambda>p. - snd p) rrf)"

definition max_score :: "(nat, rat) dict \<Rightarrow> rat" where
  "max_score rrf = (let m = Max (set (map snd rrf)) in if m = 0 then 1 else m)"

definition hybrid ::
    "(string \<Rightarrow> fts_row list \<Rightarrow> nat list) \<Rightarrow> (rat list \<Rightarrow> nat \<Rightarrow> (nat \<times> rat list) list \<Rightarrow> (nat \<times> rat option) list)
       \<Rightarrow> (json \<Rightarrow> string option) \<Rightarrow> Index \<Rightarrow> string \<Rightarrow> rat list option \<Rightarrow> nat \<Rightarrow> string option \<Rightarrow> string option
       \<Rightarrow> rat \<Rightarrow> index_error + Hit list" where
  "hybrid fts_match knn parse_time ix query query_embedding n type_filter tag_filter w =
     (let limit = max (n * 4) 30;
          rrf1 = (if query = [] then []
                  else add_fts_ranks w 0 (fts_candidates fts_match ix query type_filter tag_filter limit) []);
          rrf2 = (case query_embedding of
                    None \<Rightarrow> Inr rrf1
                  | Some q \<Rightarrow> (case vector_candidates knn ix q type_filter tag_filter limit of
                                 Inl e \<Rightarrow> Inl e | Inr vs \<Rightarrow> Inr (add_vec_ranks w 0 vs rrf1)))
      in case rrf2 of
           Inl e \<Rightarrow> Inl e
         | Inr rrf \<Rightarrow> if rrf = [] then Inr [] else make_hits parse_time ix (max_score rrf) (top_of n rrf))"

definition index_read ::
    "(string \<Rightarrow> fts_row list \<Rightarrow> nat list) \<Rightarrow> (rat list \<Rightarrow> nat \<Rightarrow> (nat \<times> rat list) list \<Rightarrow> (nat \<times> rat option) list)
       \<Rightarrow> (json \<Rightarrow> string option) \<Rightarrow> Index \<Rightarrow> string \<Rightarrow> int \<Rightarrow> string option \<Rightarrow> string option \<Rightarrow> rat list option
       \<Rightarrow> rat \<Rightarrow> index_error + Hit list" where
  "index_read fts_match knn parse_time ix query n type_filter tag_filter query_embedding w =
     (if n < 1 then Inl (TopError n)
      else if \<not> (0 \<le> w \<and> w \<le> 1) then Inl (WeightError w)
      else hybrid fts_match knn parse_time ix query query_embedding (nat n) type_filter tag_filter w)"

section \<open>The index stays consistent\<close>

definition row_text :: "irow \<Rightarrow> string" where
  "row_text r =
     (let part = (\<lambda>v. case v of None \<Rightarrow> [] | Some s \<Rightarrow> s)
      in py_strip (join_with '' '' (filter (\<lambda>p. p \<noteq> []) [part (row_title r), part (row_description r), row_body r])))"

lemma row_text_row_of [simp]: "row_text (row_of n c) = embed_text c"
  by (simp add: row_text_def row_of_def embed_text_def Let_def)

lemma row_of_ids [simp]: "row_id (row_of n c) = n" "row_concept (row_of n c) = concept_id c" "fts_id (fts_of r) = row_id r"
  by (simp_all add: row_of_def fts_of_def Let_def)

text \<open>
  Concepts and rows have ids of their own; each row has its entry in the full-text table, and an
  embedding of the right size exactly if it has a text; every id in use is below the next one.
\<close>

definition index_ok :: "Index \<Rightarrow> bool" where
  "index_ok ix \<longleftrightarrow>
     distinct (map row_concept (irows ix)) \<and> distinct (map row_id (irows ix))
     \<and> distinct (map fts_id (fts ix)) \<and> distinct (map fst (vecs ix))
     \<and> (\<forall>r\<in>set (irows ix). fts_of r \<in> set (fts ix) \<and> (row_id r \<in> fst ` set (vecs ix) \<longleftrightarrow> row_text r \<noteq> []))
     \<and> (\<forall>e\<in>set (fts ix). fts_id e < next_id ix) \<and> (\<forall>(i, v)\<in>set (vecs ix). i < next_id ix \<and> length v = embed_dim ix)"

lemma fold_max_ge: "x \<in> set xs \<or> x \<le> a \<Longrightarrow> x \<le> fold max xs (a :: nat)"
  by (induction xs arbitrary: a) (auto simp: le_max_iff_disj)

lemma row_below_next: "r \<in> set (irows ix) \<Longrightarrow> row_id r < next_id ix"
  unfolding next_id_def using fold_max_ge [of "row_id r" "map row_id (irows ix)" 0] by (simp add: less_Suc_eq_le)

lemma index_writeE:
  assumes "index_write embedding ix c = Inr ix'"
  obtains vs where
    "irows ix' = filter (\<lambda>q. row_concept q \<noteq> concept_id c) (irows ix) @ [row_of (next_id ix) c]"
    "fts ix' = fts ix @ [fts_of (row_of (next_id ix) c)]"
    "vecs ix' = filter (\<lambda>(i, e). i \<noteq> next_id ix) (vecs ix) @ vs"
    "embed_text c = [] \<and> vs = [] \<or> (\<exists>v. embed_text c \<noteq> [] \<and> vs = [(next_id ix, v)] \<and> length v = embed_dim ix)"
    "embed_dim ix' = embed_dim ix" "next_id ix \<le> next_id ix'"
proof -
  have "row_of (next_id ix) c \<in> set (irows ix')"
    using assms by (auto simp: index_write_def Let_def split: if_splits)
  from row_below_next [OF this] have "next_id ix \<le> next_id ix'" by simp
  then show thesis
    using assms by (cases "embed_text c = []")
      (auto simp: index_write_def Let_def split: if_splits intro!: that)
qed



fun write_all :: "(string \<Rightarrow> rat list) \<Rightarrow> Index \<Rightarrow> OKFConcept list \<Rightarrow> index_error + Index" where
  "write_all embedding ix [] = Inr ix"
| "write_all embedding ix (c # cs) =
     (case index_write embedding ix c of Inl e \<Rightarrow> Inl e | Inr ix' \<Rightarrow> write_all embedding ix' cs)"


section \<open>The tables after any sequence of writes\<close>

text \<open>
  \<open>rows_from n cs\<close>: the rows of the writes \<open>cs\<close>, numbered from \<open>n\<close>; \<open>latest rs\<close>: of the rows of one
  id only the last.
\<close>

fun rows_from :: "nat \<Rightarrow> OKFConcept list \<Rightarrow> irow list" where
  "rows_from n [] = []"
| "rows_from n (c # cs) = row_of n c # rows_from (Suc n) cs"

abbreviation rows_written :: "OKFConcept list \<Rightarrow> irow list" where "rows_written \<equiv> rows_from 1"

fun latest :: "irow list \<Rightarrow> irow list" where
  "latest [] = []"
| "latest (r # rs) = (if row_concept r \<in> row_concept ` set rs then latest rs else r # latest rs)"

lemma rows_from_append: "rows_from n (cs @ ds) = rows_from n cs @ rows_from (n + length cs) ds"
  by (induction cs arbitrary: n) auto

lemma row_concept_rows_from: "row_concept ` set (rows_from n cs) = concept_id ` set cs"
  by (induction cs arbitrary: n) auto

lemma latest_snoc: "latest (rs @ [r]) = filter (\<lambda>q. row_concept q \<noteq> row_concept r) (latest rs) @ [r]"
  by (induction rs) auto

lemma latest_subset: "set (latest rs) \<subseteq> set rs"
  by (induction rs) auto

lemma row_concept_latest: "row_concept ` set (latest rs) = row_concept ` set rs"
  by (induction rs) auto

lemma row_id_rows_from: "r \<in> set (rows_from n cs) \<Longrightarrow> n \<le> row_id r \<and> row_id r < n + length cs"
  by (induction cs arbitrary: n) fastforce+

lemma next_id_written:
  assumes "irows ix = latest (rows_written cs)"
  shows "next_id ix = Suc (length cs)"
proof (cases cs rule: rev_cases)
  case Nil
  then show ?thesis using assms by (simp add: next_id_def)
next
  case (snoc ds c)
  have le: "\<forall>r\<in>set (irows ix). row_id r \<le> length cs"
    using row_id_rows_from [of _ 1 cs] latest_subset assms by fastforce
  have "row_of (length cs) c \<in> set (irows ix)"
    unfolding assms snoc rows_from_append by (simp add: latest_snoc)
  then have "length cs < next_id ix" using row_below_next by fastforce
  moreover have "fold max (map row_id (irows ix)) 0 \<le> length cs"
    using le by (simp add: Max.set_eq_fold [symmetric])
  ultimately show ?thesis by (simp add: next_id_def)
qed

lemma write_all_snoc:
  "write_all embedding ix (cs @ [c]) =
     (case write_all embedding ix cs of Inl e \<Rightarrow> Inl e | Inr ix' \<Rightarrow> index_write embedding ix' c)"
  by (induction cs arbitrary: ix) (auto split: sum.splits)

lemma written_tables:
  "write_all embedding (empty_index nm d) cs = Inr ix \<Longrightarrow>
     irows ix = latest (rows_written cs) \<and> fts ix = map fts_of (rows_written cs)
     \<and> vecs ix = map (\<lambda>r. (row_id r, embedding (row_text r))) (filter (\<lambda>r. row_text r \<noteq> []) (rows_written cs))"
proof (induction cs arbitrary: ix rule: rev_induct)
  case Nil
  then show ?case by (auto simp: empty_index_def)
next
  case (snoc c cs)
  then obtain i1 where s: "write_all embedding (empty_index nm d) cs = Inr i1"
    "index_write embedding i1 c = Inr ix" by (auto simp: write_all_snoc split: sum.splits)
  note IH = snoc.IH [OF s(1)]
  have n: "next_id i1 = Suc (length cs)" using IH by (intro next_id_written) blast
  have "filter (\<lambda>(i, e). i \<noteq> Suc (length cs)) (vecs i1) = vecs i1"
    using IH row_id_rows_from [of _ 1 cs] by (fastforce simp: filter_id_conv)
  then show ?case
    using s(2) IH by (auto simp: index_write_def Let_def n rows_from_append latest_snoc split: if_splits)
qed


text \<open>The last concept written under an id is the one row of that id.\<close>

lemma last_write_is_the_row:
  assumes "write_all embedding (empty_index nm d) (cs @ c # ds) = Inr ix"
    and "concept_id c \<notin> concept_id ` set ds"
  shows "filter (\<lambda>r. row_concept r = concept_id c) (irows ix) = [row_of (Suc (length cs)) c]"
proof -
  have "filter (\<lambda>r. row_concept r = k) (latest (rs @ r # qs)) = [r]"
    if "row_concept r = k" "k \<notin> row_concept ` set qs" for k r rs qs
  proof -
    have "filter (\<lambda>r. row_concept r = k) (latest qs) = []"
      using that(2) row_concept_latest [of qs] by (auto simp: filter_empty_conv)
    then show ?thesis using that by (induction rs) auto
  qed
  from this [of "row_of (Suc (length cs)) c"] show ?thesis
    using written_tables [OF assms(1)] assms(2)
    by (simp add: rows_from_append row_concept_rows_from)
qed

definition demo_concept :: "string \<Rightarrow> string \<Rightarrow> OKFConcept" where
  "demo_concept i t = \<lparr>concept_id = i, source_path = None,
     frontmatter = \<lparr>fm_type = ''Note'', fm_title = None, fm_description = None, fm_resource = None, fm_tags = [],
       fm_timestamp = None, okf_version = None, extra_fields = [(''owner'', JStr ''ops'')]\<rparr>,
     concept_body = t, sections = [], concept_links = [], citations = []\<rparr>"



section \<open>What a search returns\<close>

lemma rrf_add_nonneg:
  "list_all (\<lambda>(i, y). 0 \<le> y) rrf \<Longrightarrow> 0 \<le> x \<Longrightarrow> list_all (\<lambda>(i, y). 0 \<le> y) (rrf_add i x rrf)"
proof -
  assume a: "list_all (\<lambda>(i, y). 0 \<le> y) rrf" "0 \<le> x"
  have "list_all (\<lambda>(i, y). 0 \<le> y) (dict_set i z rrf)" if "0 \<le> z" for z
    using a(1) that by (induction rrf) auto
  moreover have "0 \<le> y" if "dict_get rrf i = Some y" for y
    using a(1) that by (auto simp: list_all_iff dest: map_of_SomeD)
  ultimately show ?thesis using a(2) by (auto simp: rrf_add_def split: option.split)
qed

lemma add_fts_ranks_nonneg:
  "w \<le> 1 \<Longrightarrow> list_all (\<lambda>(i, y). 0 \<le> y) rrf \<Longrightarrow> list_all (\<lambda>(i, y). 0 \<le> y) (add_fts_ranks w rank is rrf)"
  by (induction w rank "is" rrf rule: add_fts_ranks.induct) (simp_all add: rrf_add_nonneg)

lemma add_vec_ranks_nonneg:
  "0 \<le> w \<Longrightarrow> list_all (\<lambda>(i, y). 0 \<le> y) rrf \<Longrightarrow> list_all (\<lambda>(i, y). 0 \<le> y) (add_vec_ranks w rank is rrf)"
  by (induction w rank "is" rrf rule: add_vec_ranks.induct) (simp_all add: rrf_add_nonneg)

lemma make_hits_scores:
  "make_hits parse_time ix m ps = Inr hits \<Longrightarrow>
     subseq (map score hits) (map (\<lambda>p. snd p / m) ps)
     \<and> list_all (\<lambda>h. \<exists>r\<in>set (irows ix). row_id r \<in> fst ` set ps \<and> concept_id (hit_concept h) = row_concept r) hits"
proof (induction ps arbitrary: hits)
  case (Cons p ps)
  obtain i x where p: "p = (i, x)" by (cases p)
  show ?case
  proof (cases "find (\<lambda>r. row_id r = i) (irows ix)")
    case None
    with Cons show ?thesis by (fastforce simp: p list_all_iff)
  next
    case (Some r)
    then have r: "r \<in> set (irows ix)" "row_id r = i" by (auto simp: find_Some_iff)
    from Some Cons.prems obtain c hs where h: "row_to_concept parse_time r = Inr c"
      "make_hits parse_time ix m ps = Inr hs" "hits = \<lparr>hit_concept = c, score = x / m\<rparr> # hs"
      by (auto simp: p split: sum.splits)
    have "concept_id c = row_concept r"
      using h(1) by (auto simp: row_to_concept_def Let_def bind_okf_def split: sum.splits)
    with Cons.IH [OF h(2)] r show ?thesis unfolding h(3) p by (auto simp: list_all_iff)
  qed
qed simp

lemma max_score_bounds:
  assumes "list_all (\<lambda>(i, y). 0 \<le> y) rrf" "p \<in> set rrf"
  shows "0 \<le> snd p / max_score rrf" "snd p / max_score rrf \<le> 1" "0 < max_score rrf"
proof -
  have le: "snd p \<le> Max (set (map snd rrf))" using assms(2) by (intro Max_ge) auto
  have ge: "0 \<le> snd p" using assms by (auto simp: list_all_iff)
  show pos: "0 < max_score rrf" using le ge by (simp add: max_score_def Let_def)
  show "0 \<le> snd p / max_score rrf" using ge pos by simp
  have "snd p \<le> max_score rrf" using le ge by (simp add: max_score_def Let_def)
  with pos show "snd p / max_score rrf \<le> 1" by simp
qed

lemma hybrid_cases:
  assumes "hybrid fts_match knn parse_time ix query q n tf gf w = Inr hits" "0 \<le> w" "w \<le> 1"
  obtains "hits = []"
    | rrf where "rrf \<noteq> []" "list_all (\<lambda>(i, y). 0 \<le> y) rrf"
        "make_hits parse_time ix (max_score rrf) (top_of n rrf) = Inr hits"
proof -
  define rrf1 where "rrf1 = (if query = [] then []
      else add_fts_ranks w 0 (fts_candidates fts_match ix query tf gf (max (n * 4) 30)) [])"
  have one: "list_all (\<lambda>(i, y). 0 \<le> y) rrf1" using assms(3) by (simp add: rrf1_def add_fts_ranks_nonneg)
  have "list_all (\<lambda>(i, y). 0 \<le> y) (add_vec_ranks w 0 vs rrf1)" for vs
    using assms(2) one by (rule add_vec_ranks_nonneg)
  with assms(1) one show thesis
    by (cases q) (auto simp: hybrid_def Let_def simp flip: rrf1_def split: sum.splits if_splits intro: that)
qed

lemma subseq_set: "subseq xs ys \<Longrightarrow> x \<in> set xs \<Longrightarrow> x \<in> set ys"
  by (auto dest: list_emb_set)

lemma sorted_wrt_subseq: "subseq xs ys \<Longrightarrow> sorted_wrt P ys \<Longrightarrow> sorted_wrt P xs"
  by (induction rule: list_emb.induct) (auto dest: subseq_set)

text \<open>
  C30: Every answer of a search has at most \<open>top\<close> hits in descending order of score, all scores are in
  \<open>[0, 1]\<close>, and each hit is a concept stored in the index.
\<close>

theorem index_read_bounds:
  assumes "index_read fts_match knn parse_time ix query n tf gf q w = Inr hits"
  shows "length hits \<le> nat n \<and> sorted_wrt (\<ge>) (map score hits)
    \<and> list_all (\<lambda>h. 0 \<le> score h \<and> score h \<le> 1) hits
    \<and> list_all (\<lambda>h. concept_id (hit_concept h) \<in> row_concept ` set (irows ix)) hits"
proof -
  from assms have h: "hybrid fts_match knn parse_time ix query q (nat n) tf gf w = Inr hits" "0 \<le> w" "w \<le> 1"
    by (auto simp: index_read_def split: if_splits)
  from h show ?thesis
  proof (cases rule: hybrid_cases)
    case (2 rrf)
    let ?ps = "top_of (nat n) rrf" and ?m = "max_score rrf"
    note hits = make_hits_scores [OF 2(3)]
    have mem: "p \<in> set ?ps \<Longrightarrow> p \<in> set rrf" for p by (auto simp: top_of_def dest: in_set_takeD)
    have "0 < ?m" using 2(1) max_score_bounds(3) [OF 2(2), of "hd rrf"] by simp
    have "sorted_wrt (\<lambda>a b. snd b \<le> snd a) (sort_key (\<lambda>p. - snd p) rrf)"
      using sorted_sort_key [of "\<lambda>p. - snd p" rrf] by (simp add: sorted_map)
    then have "sorted_wrt (\<lambda>a b. snd b \<le> snd a) ?ps" by (simp add: top_of_def sorted_wrt_take)
    then have "sorted_wrt (\<ge>) (map (\<lambda>p. snd p / ?m) ?ps)"
      unfolding sorted_wrt_map
      by (rule sorted_wrt_mono_rel [rotated]) (use \<open>0 < ?m\<close> in \<open>simp add: divide_right_mono\<close>)
    with hits have "sorted_wrt (\<ge>) (map score hits)" by (blast intro: sorted_wrt_subseq)
    moreover have "list_all (\<lambda>h. 0 \<le> score h \<and> score h \<le> 1) hits"
    proof (simp only: list_all_iff, intro ballI)
      fix h assume "h \<in> set hits"
      then have "score h \<in> set (map score hits)" by simp
      with conjunct1 [OF hits] have "score h \<in> set (map (\<lambda>p. snd p / ?m) ?ps)" by (rule subseq_set)
      then obtain p where "p \<in> set rrf" "score h = snd p / ?m" using mem by auto
      then show "0 \<le> score h \<and> score h \<le> 1" using max_score_bounds [OF 2(2)] by simp
    qed
    moreover have "length hits \<le> nat n"
      using list_emb_length [OF conjunct1 [OF hits]] by (simp add: top_of_def)
    ultimately show ?thesis using hits by (fastforce simp: list_all_iff)
  qed simp
qed

definition red_match :: "string \<Rightarrow> fts_row list \<Rightarrow> nat list" where
  "red_match q es = map fts_id (filter (\<lambda>e. py_contains ''red'' (fts_body e)) es)"

definition red_index :: Index where
  "red_index = \<lparr>embed_name = ''e'', embed_dim = 1,
     irows = [row_of 1 (demo_concept ''b'' ''red red''), row_of 2 (demo_concept ''a'' ''red'')],
     fts = [fts_of (row_of 1 (demo_concept ''b'' ''red red'')), fts_of (row_of 2 (demo_concept ''a'' ''red''))],
     vecs = [(1, [1]), (2, [1])], index_meta = None\<rparr>"

text \<open>A search in this index for two of its concepts, ranked by the full-text search.\<close>

lemma index_read_bounds_witness:
  "\<exists>hits. index_read red_match (\<lambda>v k es. []) (\<lambda>_. None) red_index ''red'' 5 None None None (1 / 2) = Inr hits
     \<and> map (concept_id \<circ> hit_concept) hits = [''b'', ''a''] \<and> map score hits = [1, 61 / 62]
     \<and> length hits \<le> 5 \<and> sorted_wrt (\<ge>) (map score hits) \<and> list_all (\<lambda>h. 0 \<le> score h \<and> score h \<le> 1) hits
     \<and> list_all (\<lambda>h. concept_id (hit_concept h) \<in> row_concept ` set (irows red_index)) hits"
proof -
  let ?read = "index_read red_match (\<lambda>v k es. []) (\<lambda>_. None) red_index ''red'' 5 None None None (1 / 2)"
  have "case ?read of Inl e \<Rightarrow> False
    | Inr hits \<Rightarrow> map (concept_id \<circ> hit_concept) hits = [''b'', ''a''] \<and> map score hits = [1, 61 / 62]"
    by code_simp
  then obtain hits where r: "?read = Inr hits"
    "map (concept_id \<circ> hit_concept) hits = [''b'', ''a'']" "map score hits = [1, 61 / 62]"
    by (auto split: sum.splits)
  with index_read_bounds [OF r(1)] show ?thesis by simp
qed

lemma add_fts_ranks_fresh:
  "distinct is \<Longrightarrow> set is \<inter> fst ` set rrf = {} \<Longrightarrow>
     add_fts_ranks w rank is rrf = rrf @ map (\<lambda>k. (is ! k, (1 - w) / of_nat (60 + (rank + k) + 1))) [0..<length is]"
proof (induction w rank "is" rrf rule: add_fts_ranks.induct)
  case (2 w rank i "is" rrf)
  then have "dict_get rrf i = None" by (simp add: map_of_eq_None_iff)
  with 2 have "rrf_add i ((1 - w) / of_nat (60 + rank + 1)) rrf = rrf @ [(i, (1 - w) / of_nat (60 + rank + 1))]"
    by (simp add: rrf_add_def dict_set_new)
  with 2 show ?case by (simp add: upt_conv_Cons del: upt_Suc) (simp add: map_Suc_upt [symmetric] del: upt_Suc map_Suc_upt)
qed simp

lemma ranks_sorted:
  assumes "w \<le> (1 :: rat)"
  shows "sort_key (\<lambda>p. - snd p) (map (\<lambda>k. (f k, (1 - w) / of_nat (60 + (0 + k) + 1))) [0..<n]) =
    map (\<lambda>k. (f k, (1 - w) / of_nat (60 + (0 + k) + 1))) [0..<n]"
  using assms by (intro sort_key_id_if_sorted) (auto simp: sorted_map sorted_wrt_map sorted_wrt_iff_nth_less intro!: divide_left_mono)

text \<open>
  Replacing a concept leaves the old text in the full-text table under an id that no row has: a
  search that ranks it first gives up its place, and with \<open>top = 1\<close> finds nothing.
\<close>

theorem replaced_text_hides_matches:
  assumes "index_ok ix" "r \<in> set (irows ix)" "row_concept r = concept_id c"
    and "index_write embedding ix c = Inr ix'"
    and "query \<noteq> []" "0 \<le> w" "w \<le> 1"
    and "distinct (fts_match (quote_fts query) (fts ix'))"
    and "fts_match (quote_fts query) (fts ix') = row_id r # others"
  shows "fts_of r \<in> set (fts ix') \<and> row_id r \<notin> row_id ` set (irows ix')
    \<and> index_read fts_match knn parse_time ix' query 1 None None None w = Inr []"
proof -
  from assms(4) obtain vs where ix':
    "irows ix' = filter (\<lambda>q. row_concept q \<noteq> concept_id c) (irows ix) @ [row_of (next_id ix) c]"
    "fts ix' = fts ix @ [fts_of (row_of (next_id ix) c)]" by (rule index_writeE) blast
  have old: "fts_of r \<in> set (fts ix')" using assms(1,2) by (simp add: ix'(2) index_ok_def)
  have "row_id q \<noteq> row_id r" if "q \<in> set (irows ix)" "row_concept q \<noteq> concept_id c" for q
    using assms(1-3) that by (auto simp: index_ok_def distinct_map dest: inj_onD)
  then have gone: "row_id r \<notin> row_id ` set (irows ix')"
    using row_below_next [OF assms(2)] by (fastforce simp: ix'(1))
  let ?is = "take 30 (row_id r # others)"
  let ?rrf = "map (\<lambda>k. (?is ! k, (1 - w) / of_nat (60 + (0 + k) + 1))) [0..<length ?is]"
  have "fts_candidates fts_match ix' query None None 30 = ?is"
    using assms(9) by (simp add: fts_candidates_def fts_passes_def)
  moreover have "distinct ?is" using assms(8,9) by (simp only: distinct_take)
  ultimately have rrf: "add_fts_ranks w 0 (fts_candidates fts_match ix' query None None 30) [] = ?rrf"
    by (simp only: add_fts_ranks_fresh list.set image_empty Int_empty_right append_Nil)
  have "0 < length ?is" by simp
  from upt_conv_Cons [OF this] have "[0..<length ?is] = 0 # [1..<length ?is]" by (simp only: One_nat_def)
  then have ne: "?rrf \<noteq> []" and "top_of 1 ?rrf = [(row_id r, (1 - w) / of_nat (60 + (0 + 0) + 1))]"
    using ranks_sorted [OF assms(7), of "\<lambda>k. ?is ! k" "length ?is"] by (simp_all add: top_of_def)
  moreover have "find (\<lambda>q. row_id q = row_id r) (irows ix') = None"
    using gone by (auto simp: find_None_iff intro: rev_image_eqI)
  ultimately have "hybrid fts_match knn parse_time ix' query None 1 None None w = Inr []"
    using assms(5) rrf by (simp add: hybrid_def del: upt_Suc)
  with old gone assms(6,7) show ?thesis by (simp add: index_read_def)
qed

lemma replaced_text_hides_matches_witness:
  "\<exists>ix'. index_write (\<lambda>_. [1]) red_index (demo_concept ''b'' ''blue'') = Inr ix'
     \<and> index_read red_match (\<lambda>v k es. []) (\<lambda>_. None) ix' ''red'' 1 None None None (1 / 2) = Inr []"
proof -
  let ?b = "demo_concept ''b'' ''blue''"
  have "case index_write (\<lambda>_. [1]) red_index ?b of Inl e \<Rightarrow> False | Inr ix' \<Rightarrow> red_match (quote_fts ''red'') (fts ix') = [1, 2]"
    by code_simp
  then obtain ix' where ix': "index_write (\<lambda>_. [1]) red_index ?b = Inr ix'"
    "red_match (quote_fts ''red'') (fts ix') = [1, 2]" by (auto split: sum.splits)
  have ok: "index_ok red_index"
    unfolding index_ok_def by (intro conjI) code_simp+
  have "row_of 1 (demo_concept ''b'' ''red red'') \<in> set (irows red_index)"
    "row_concept (row_of 1 (demo_concept ''b'' ''red red'')) = concept_id ?b"
    by (simp_all add: red_index_def demo_concept_def row_of_def)
  from replaced_text_hides_matches [OF ok this ix'(1), of "''red''" "1/2" red_match "[2]" "\<lambda>v k es. []" "\<lambda>_. None"] ix'
  show ?thesis by simp
qed

text \<open>The extra fields of a stored concept are validated as unknown keys, so the concept that is read has none.\<close>

lemma row_to_concept_loses_extras:
  assumes "dict_get (row_payload r) ''extra_fields'' = None" "row_to_concept parse_time r = Inr c"
  shows "extra_fields (frontmatter c) = []"
  using assms
  by (auto simp: row_to_concept_def mk_frontmatter_def Let_def bind_okf_def split: sum.splits)

section \<open>Opening and closing a database\<close>

text \<open>
  A connection: the database with the dimension of its vector table, whether extensions may be loaded and which one
  is, whether the index made the connection itself, and whether it is closed.  \<open>lib\<close> is the path of the sqlite-vec
  library, \<open>None\<close> if the package is missing; \<open>loads\<close> says which paths SQLite can load, \<open>vec0\<close> which dimensions the
  extension accepts for a table.
\<close>

record okf_conn =
  conn_db :: Index
  vec_dim :: "nat option"
  ext_enabled :: bool
  ext_loaded :: "string option"
  owns :: bool
  conn_closed :: bool

datatype open_error = OpenRuntimeError string | OpenOperationalError | OpenMismatch index_error

definition load_extension :: "string option \<Rightarrow> (string \<Rightarrow> bool) \<Rightarrow> okf_conn \<Rightarrow> (open_error + unit) \<times> okf_conn" where
  "load_extension lib loads c =
     (case lib of
        None \<Rightarrow> (Inl (OpenRuntimeError ''sqlite-vec is required for the OKF index''), c)
      | Some ext \<Rightarrow>
          (case find loads [ext, ext @ ''.dylib'', ext @ ''.so''] of
             Some p \<Rightarrow> (Inr (), c\<lparr>ext_loaded := Some p, ext_enabled := False\<rparr>)
           | None \<Rightarrow> (Inl (OpenRuntimeError ''sqlite-vec shared library not found''), c\<lparr>ext_enabled := False\<rparr>)))"

definition init_vector_column :: "(nat \<Rightarrow> bool) \<Rightarrow> nat \<Rightarrow> okf_conn \<Rightarrow> (open_error + unit) \<times> okf_conn" where
  "init_vector_column vec0 d c =
     (case vec_dim c of
        Some k \<Rightarrow> (Inr (), c)
      | None \<Rightarrow> if vec0 d then (Inr (), c\<lparr>vec_dim := Some d\<rparr>) else (Inl OpenOperationalError, c))"

definition index_init ::
    "(nat \<Rightarrow> bool) \<Rightarrow> string option \<Rightarrow> (string \<Rightarrow> bool) \<Rightarrow> string \<Rightarrow> nat \<Rightarrow> okf_conn \<Rightarrow> (open_error + unit) \<times> okf_conn" where
  "index_init vec0 lib loads nm d c =
     (let (r1, c1) = load_extension lib loads c
      in case r1 of
           Inl e \<Rightarrow> (Inl e, c1)
         | Inr _ \<Rightarrow>
             (let (r2, c2) = init_vector_column vec0 d c1
              in case r2 of
                   Inl e \<Rightarrow> (Inl e, c2)
                 | Inr _ \<Rightarrow>
                     (case open_db nm d (conn_db c2) of
                        Inl e \<Rightarrow> (Inl (OpenMismatch e), c2)
                      | Inr ix \<Rightarrow> (Inr (), c2\<lparr>conn_db := ix\<rparr>))))"

definition index_close :: "okf_conn \<Rightarrow> okf_conn" where
  "index_close c = (if owns c then c\<lparr>conn_closed := True\<rparr> else c)"

text \<open>
  However opening ends, extensions may not be loaded afterwards if they might not before; no row changes; and if it
  succeeds, the extension is one of the three candidates, the vector table is there, with the embedder's dimension
  if it was made now, and the embedder is the recorded one.
\<close>

lemma index_init_spec:
  assumes "index_init vec0 lib loads nm d c = (r, c')"
  shows "ext_enabled c' \<longrightarrow> ext_enabled c"
    and "irows (conn_db c') = irows (conn_db c) \<and> fts (conn_db c') = fts (conn_db c) \<and> vecs (conn_db c') = vecs (conn_db c)"
    and "r = Inr () \<Longrightarrow> index_meta (conn_db c') = Some (nm, d)
      \<and> vec_dim c' = (case vec_dim c of None \<Rightarrow> Some d | Some k \<Rightarrow> Some k)
      \<and> (\<exists>ext p. lib = Some ext \<and> ext_loaded c' = Some p \<and> loads p \<and> p \<in> {ext, ext @ ''.dylib'', ext @ ''.so''})"
  using assms
  by (auto simp: index_init_def load_extension_def init_vector_column_def open_db_def Let_def
      split: option.splits if_splits prod.splits)

lemma index_init_mismatch:
  assumes "index_meta (conn_db c) = Some (nm', d')" "(nm', d') \<noteq> (nm, d)" "vec_dim c = Some k"
    and "lib = Some ext" "loads ext"
  shows "fst (index_init vec0 lib loads nm d c) = Inl (OpenMismatch (EmbeddingMismatch nm' d' nm d))"
  using assms by (auto simp: index_init_def load_extension_def init_vector_column_def open_db_def)

lemma borrowed_connection_stays_open: "\<not> owns c \<Longrightarrow> index_close c = c"
  by (simp add: index_close_def)

end
