(* ===== verification/PyParser.thy ===== *)
theory PyParser
  imports Layers
begin

text \<open>
  The Python parser (\<open>parsers/python_parser.py\<close>).

  A syntax tree is a datatype with the nodes the visitors tell apart; every other node is \<open>AstNode\<close>
  with its kind and its child nodes in field order, which is what \<open>generic_visit\<close> visits.  Reading a
  file, \<open>ast.parse\<close>, \<open>ast.unparse\<close> (\<open>None\<close> when it raises) and \<open>ast.get_docstring\<close> are parameters.
  The scope stack has its top at the head; an entity that is filled when its scope closes is named by
  its position in \<open>entities\<close>.  The main result is that the visitor is equivalent to a recursion over the
  tree that keeps no stack.
\<close>

section \<open>Syntax trees\<close>

datatype node_kind =
    KIf | KWhile | KFor | KAsyncFor | KExceptHandler | KBoolOp nat
  | KListComp | KSetComp | KDictComp | KGeneratorExp | KYield | KYieldFrom | KLambda | KOther

datatype 'a arguments =
  Arguments (posonlyargs: "(string \<times> 'a option) list") (regular_args: "(string \<times> 'a option) list")
    (vararg: "(string \<times> 'a option) option") (kwonlyargs: "(string \<times> 'a option) list")
    (kw_defaults: "'a option list") (kwarg: "(string \<times> 'a option) option") (defaults: "'a list")

datatype ast =
    Name string
  | Attribute ast string
  | Call ast "ast list" "(string option \<times> ast) list"
  | Import int "int option" "(string \<times> string option) list"
  | ImportFrom int "int option" "string option" "(string \<times> string option) list" int
  | FunctionDef bool string int "int option" "ast arguments" "ast option" "ast list" "ast list"
  | ClassDef string int "int option" "ast list" "(string option \<times> ast) list" "ast list" "ast list"
  | AstNode node_kind "ast list"

section \<open>Complexity, labels, yields\<close>

fun node_cost :: "node_kind \<Rightarrow> nat" where
  "node_cost KIf = 1" | "node_cost KWhile = 1" | "node_cost KFor = 1" | "node_cost KAsyncFor = 1"
| "node_cost KExceptHandler = 1" | "node_cost (KBoolOp n) = n - 1"
| "node_cost KListComp = 1" | "node_cost KSetComp = 1" | "node_cost KDictComp = 1" | "node_cost KGeneratorExp = 1"
| "node_cost k = 0"

definition opt_sum :: "nat option \<Rightarrow> nat" where
  "opt_sum x = (case x of None \<Rightarrow> 0 | Some n \<Rightarrow> n)"

definition arg_sum :: "(string \<times> nat option) list \<Rightarrow> nat" where
  "arg_sum xs = sum_list (map (opt_sum \<circ> snd) xs)"

definition vararg_sum :: "(string \<times> nat option) option \<Rightarrow> nat" where
  "vararg_sum x = (case x of None \<Rightarrow> 0 | Some (_, n) \<Rightarrow> opt_sum n)"

definition arguments_sum :: "nat arguments \<Rightarrow> nat" where
  "arguments_sum a =
     arg_sum (posonlyargs a) + arg_sum (regular_args a) + vararg_sum (vararg a) + arg_sum (kwonlyargs a)
     + sum_list (map opt_sum (kw_defaults a)) + vararg_sum (kwarg a) + sum_list (defaults a)"

text \<open>The sum over \<open>ast.walk\<close>: the node and all that is below it.\<close>

primrec walk_cost :: "ast \<Rightarrow> nat" where
  "walk_cost (Name x) = 0"
| "walk_cost (Attribute e x) = walk_cost e"
| "walk_cost (Call f as ks) = walk_cost f + sum_list (map walk_cost as) + sum_list (map snd (map (map_prod id walk_cost) ks))"
| "walk_cost (Import l le ns) = 0"
| "walk_cost (ImportFrom l le m ns lv) = 0"
| "walk_cost (FunctionDef async n l le args rets decs body) =
     arguments_sum (map_arguments walk_cost args) + opt_sum (map_option walk_cost rets)
     + sum_list (map walk_cost decs) + sum_list (map walk_cost body)"
| "walk_cost (ClassDef n l le bs ks decs body) =
     sum_list (map walk_cost bs) + sum_list (map snd (map (map_prod id walk_cost) ks))
     + sum_list (map walk_cost decs) + sum_list (map walk_cost body)"
| "walk_cost (AstNode k cs) = node_cost k + sum_list (map walk_cost cs)"

definition estimate_complexity :: "ast \<Rightarrow> string" where
  "estimate_complexity n =
     (let c = 1 + walk_cost n
      in if c \<le> 1 then ''O(1)'' else if c \<le> 3 then ''O(n)'' else if c \<le> 6 then ''O(n log n)''
         else if c \<le> 10 then ''O(n^2)'' else ''O(n^3)'')"

fun decorator_label :: "(ast \<Rightarrow> string option) \<Rightarrow> ast \<Rightarrow> string option" where
  "decorator_label unparse (Name x) = Some x"
| "decorator_label unparse (Attribute e x) =
     (case decorator_label unparse e of None \<Rightarrow> Some x | Some h \<Rightarrow> Some (h @ ''.'' @ x))"
| "decorator_label unparse e = unparse e"

text \<open>\<open>_YieldSearcher\<close>: whether visiting a node sets \<open>found\<close>.\<close>

fun yields :: "ast \<Rightarrow> bool" where
  "yields (Name x) = False"
| "yields (Attribute e x) = yields e"
| "yields (Call f as ks) = (yields f \<or> list_ex yields as \<or> list_ex (\<lambda>(k, e). yields e) ks)"
| "yields (Import l le ns) = False"
| "yields (ImportFrom l le m ns lv) = False"
| "yields (FunctionDef async n l le args rets decs body) = False"
| "yields (ClassDef n l le bs ks decs body) = False"
| "yields (AstNode k cs) =
     (k = KYield \<or> k = KYieldFrom \<or> k \<noteq> KLambda \<and> k \<noteq> KGeneratorExp \<and> list_ex yields cs)"

definition contains_direct_yield :: "ast list \<Rightarrow> bool" where
  "contains_direct_yield body \<longleftrightarrow> list_ex yields body"

section \<open>Signatures\<close>

definition defaults_for_positional ::
    "(string \<times> ast option) list \<Rightarrow> (string \<times> ast option) list \<Rightarrow> ast list \<Rightarrow> (string, ast) dict" where
  "defaults_for_positional posonly regular ds =
     (let combined = posonly @ regular; offset = int (length combined) - int (length ds)
      in fold (\<lambda>i m. if 0 \<le> offset + int i \<and> offset + int i < int (length combined)
                     then dict_set (fst (combined ! nat (offset + int i))) (ds ! i) m else m) [0..<length ds] [])"

definition render_arg ::
    "(ast \<Rightarrow> string option) \<Rightarrow> string \<Rightarrow> string \<times> ast option \<Rightarrow> ast option \<Rightarrow> string" where
  "render_arg unparse star a d =
     (let rendered = star @ fst a;
          rendered' = (case Option.bind (snd a) unparse of None \<Rightarrow> rendered | Some ann \<Rightarrow> rendered @ '': '' @ ann)
      in case Option.bind d unparse of None \<Rightarrow> rendered' | Some t \<Rightarrow> rendered' @ '' = '' @ t)"

definition render_parameters_with_defaults :: "(ast \<Rightarrow> string option) \<Rightarrow> ast arguments \<Rightarrow> string list" where
  "render_parameters_with_defaults unparse a =
     (let pos_defaults = defaults_for_positional (posonlyargs a) (regular_args a) (defaults a);
          kw = fold (\<lambda>(x, d). dict_set (fst x) d) (zip (kwonlyargs a) (kw_defaults a)) []
      in map (\<lambda>x. render_arg unparse [] x (dict_get pos_defaults (fst x))) (posonlyargs a)
       @ (if posonlyargs a = [] then [] else [''/''])
       @ map (\<lambda>x. render_arg unparse [] x (dict_get pos_defaults (fst x))) (regular_args a)
       @ (case vararg a of Some x \<Rightarrow> [render_arg unparse ''*'' x None]
                         | None \<Rightarrow> if kwonlyargs a = [] then [] else [''*''])
       @ map (\<lambda>x. render_arg unparse [] x (Option.bind (dict_get kw (fst x)) id)) (kwonlyargs a)
       @ (case kwarg a of Some x \<Rightarrow> [render_arg unparse ''**'' x None] | None \<Rightarrow> []))"

definition some_texts :: "('a \<Rightarrow> string option) \<Rightarrow> 'a list \<Rightarrow> string list" where
  "some_texts f xs = concat (map (\<lambda>x. case f x of None \<Rightarrow> [] | Some t \<Rightarrow> [t]) xs)"

definition extract_bases ::
    "(ast \<Rightarrow> string option) \<Rightarrow> ast list \<Rightarrow> (string option \<times> ast) list \<Rightarrow> string list" where
  "extract_bases unparse bs ks =
     some_texts unparse bs
     @ some_texts (\<lambda>(k, e). map_option (\<lambda>t. (case k of None \<Rightarrow> [] | Some [] \<Rightarrow> [] | Some x \<Rightarrow> x @ ''='') @ t) (unparse e)) ks"

definition extract_decorators :: "(ast \<Rightarrow> string option) \<Rightarrow> ast list \<Rightarrow> string list" where
  "extract_decorators unparse decs = some_texts (decorator_label unparse) decs"

section \<open>The visitor\<close>

text \<open>\<open>target\<close> is the position of the frame's entity; \<open>is_callable\<close> tells the kind \<open>function\<close> from \<open>class\<close>.\<close>

record scope_frame =
  is_callable :: bool
  frame_name :: string
  frame_target :: nat
  frame_calls :: "string list"
  frame_references :: "string list"

record visitor =
  entities :: "ParsedEntity list"
  scope_stack :: "scope_frame list"

definition append_new :: "string \<Rightarrow> string list \<Rightarrow> string list" where
  "append_new x xs = (if x \<in> set xs then xs else xs @ [x])"

fun update_callable :: "(scope_frame \<Rightarrow> scope_frame) \<Rightarrow> scope_frame list \<Rightarrow> scope_frame list" where
  "update_callable g [] = []"
| "update_callable g (f # fs) = (if is_callable f then g f # fs else f # update_callable g fs)"

fun update_enclosing :: "(scope_frame \<Rightarrow> scope_frame) \<Rightarrow> scope_frame list \<Rightarrow> scope_frame list" where
  "update_enclosing g [] = []"
| "update_enclosing g (f # fs) = g f # fs"

definition record_call_target :: "string \<Rightarrow> visitor \<Rightarrow> visitor" where
  "record_call_target x v =
     (if x = [] then v
      else v\<lparr>scope_stack := update_callable (\<lambda>f. f\<lparr>frame_calls := append_new x (frame_calls f)\<rparr>) (scope_stack v)\<rparr>)"

definition add_reference :: "string \<Rightarrow> visitor \<Rightarrow> visitor" where
  "add_reference x v =
     (if x = [] then v
      else v\<lparr>scope_stack := update_enclosing (\<lambda>f. f\<lparr>frame_references := append_new x (frame_references f)\<rparr>)
               (scope_stack v)\<rparr>)"

definition first_part :: "string \<Rightarrow> string" where
  "first_part s = takeWhile (\<lambda>c. c \<noteq> CHR ''.'') s"

definition line_end_of :: "int \<Rightarrow> int option \<Rightarrow> int" where
  "line_end_of l le = (case le of None \<Rightarrow> l | Some n \<Rightarrow> n)"

definition asname_or :: "string option \<Rightarrow> string \<Rightarrow> string" where
  "asname_or a n = (case a of None \<Rightarrow> n | Some [] \<Rightarrow> n | Some s \<Rightarrow> s)"

definition alias_list :: "string option \<Rightarrow> string list" where
  "alias_list a = (case a of None \<Rightarrow> [] | Some [] \<Rightarrow> [] | Some s \<Rightarrow> [s])"

definition import_entity :: "string \<Rightarrow> int \<Rightarrow> int option \<Rightarrow> string \<times> string option \<Rightarrow> ParsedEntity" where
  "import_entity file l le a =
     (new_entity (asname_or (snd a) (fst a)) ''import'' file)\<lparr>pe_line_start := l, pe_line_end := line_end_of l le,
        import_source := Some (fst a), import_names := [fst a], import_aliases := alias_list (snd a)\<rparr>"

definition import_from_entity ::
    "string \<Rightarrow> int \<Rightarrow> int option \<Rightarrow> string \<Rightarrow> int \<Rightarrow> string \<times> string option \<Rightarrow> ParsedEntity" where
  "import_from_entity file l le m lv a =
     (new_entity (asname_or (snd a) (fst a)) ''import'' file)\<lparr>pe_line_start := l, pe_line_end := line_end_of l le,
        import_source := Some m, import_names := [fst a], is_from_import := True,
        import_aliases := alias_list (snd a), import_level := lv\<rparr>"

definition class_entity ::
    "(ast \<Rightarrow> string option) \<Rightarrow> string \<Rightarrow> string option \<Rightarrow> string option \<Rightarrow> string \<Rightarrow> int \<Rightarrow> int option
       \<Rightarrow> ast list \<Rightarrow> (string option \<times> ast) list \<Rightarrow> ast list \<Rightarrow> ParsedEntity" where
  "class_entity unparse file par doc n l le bs ks decs =
     (new_entity n ''class'' file)\<lparr>pe_line_start := l, pe_line_end := line_end_of l le, parent := par,
        bases := extract_bases unparse bs ks, decorators := extract_decorators unparse decs, docstring := doc\<rparr>"

definition function_entity ::
    "(ast \<Rightarrow> string option) \<Rightarrow> string \<Rightarrow> string option \<Rightarrow> bool \<Rightarrow> string option \<Rightarrow> bool \<Rightarrow> string \<Rightarrow> int \<Rightarrow> int option
       \<Rightarrow> ast arguments \<Rightarrow> ast option \<Rightarrow> ast list \<Rightarrow> ast list \<Rightarrow> ParsedEntity" where
  "function_entity unparse file par is_method doc async n l le args rets decs body =
     (new_entity n (if is_method then ''method'' else ''function'') file)\<lparr>pe_line_start := l,
        pe_line_end := line_end_of l le, parent := par,
        pe_parameters := render_parameters_with_defaults unparse args, return_type := Option.bind rets unparse,
        is_async := async, is_generator := contains_direct_yield body,
        decorators := extract_decorators unparse decs, docstring := doc\<rparr>"

definition parent_name :: "visitor \<Rightarrow> string option" where
  "parent_name v = (case scope_stack v of [] \<Rightarrow> None | f # fs \<Rightarrow> Some (frame_name f))"

definition parent_is_class :: "visitor \<Rightarrow> bool" where
  "parent_is_class v \<longleftrightarrow> (case scope_stack v of [] \<Rightarrow> False | f # fs \<Rightarrow> \<not> is_callable f)"

text \<open>\<open>entities.append\<close> and a new frame on the stack; and the \<open>finally\<close> block when it is popped.\<close>

definition open_scope :: "bool \<Rightarrow> string \<Rightarrow> ParsedEntity \<Rightarrow> visitor \<Rightarrow> visitor" where
  "open_scope callable n e v =
     v\<lparr>entities := entities v @ [e],
       scope_stack := \<lparr>is_callable = callable, frame_name = n, frame_target = length (entities v),
                       frame_calls = [], frame_references = []\<rparr> # scope_stack v\<rparr>"

definition populate_entity :: "scope_frame \<Rightarrow> ParsedEntity \<Rightarrow> ParsedEntity" where
  "populate_entity f e = e\<lparr>calls := frame_calls f, references := frame_references f\<rparr>"

definition close_scope :: "visitor \<Rightarrow> visitor" where
  "close_scope v =
     (case scope_stack v of
        [] \<Rightarrow> v
      | f # fs \<Rightarrow> v\<lparr>entities := (entities v)[frame_target f := populate_entity f (entities v ! frame_target f)],
                    scope_stack := fs\<rparr>)"

fun visit :: "(ast \<Rightarrow> string option) \<Rightarrow> (ast \<Rightarrow> string option) \<Rightarrow> string \<Rightarrow> ast \<Rightarrow> visitor \<Rightarrow> visitor"
  and visit_all :: "(ast \<Rightarrow> string option) \<Rightarrow> (ast \<Rightarrow> string option) \<Rightarrow> string \<Rightarrow> ast list \<Rightarrow> visitor \<Rightarrow> visitor"
  and visit_keywords ::
    "(ast \<Rightarrow> string option) \<Rightarrow> (ast \<Rightarrow> string option) \<Rightarrow> string \<Rightarrow> (string option \<times> ast) list \<Rightarrow> visitor \<Rightarrow> visitor"
where
  "visit unparse get_docstring file (Name x) v = add_reference x v"
| "visit unparse get_docstring file (Attribute e x) v = add_reference x (visit unparse get_docstring file e v)"
| "visit unparse get_docstring file (Call f as ks) v =
     visit_keywords unparse get_docstring file ks (visit_all unparse get_docstring file as
       (case f of
          Name x \<Rightarrow> add_reference x (record_call_target x v)
        | Attribute e x \<Rightarrow> visit unparse get_docstring file e (add_reference x (record_call_target x v))
        | _ \<Rightarrow> (case unparse f of None \<Rightarrow> v | Some t \<Rightarrow> record_call_target t v)))"
| "visit unparse get_docstring file (Import l le ns) v =
     fold (\<lambda>a v. add_reference (first_part (fst a)) (v\<lparr>entities := entities v @ [import_entity file l le a]\<rparr>)) ns v"
| "visit unparse get_docstring file (ImportFrom l le m ns lv) v =
     (let m' = (case m of None \<Rightarrow> [] | Some s \<Rightarrow> s);
          v' = fold (\<lambda>a v. v\<lparr>entities := entities v @ [import_from_entity file l le m' lv a]\<rparr>) ns v
      in if m' = [] then v' else add_reference (first_part m') v')"
| "visit unparse get_docstring file (FunctionDef async n l le args rets decs body) v =
     close_scope (visit_all unparse get_docstring file body
       (open_scope True n (function_entity unparse file (parent_name v) (parent_is_class v)
          (get_docstring (FunctionDef async n l le args rets decs body)) async n l le args rets decs body) v))"
| "visit unparse get_docstring file (ClassDef n l le bs ks decs body) v =
     close_scope (visit_all unparse get_docstring file body
       (open_scope False n (class_entity unparse file (parent_name v)
          (get_docstring (ClassDef n l le bs ks decs body)) n l le bs ks decs) v))"
| "visit unparse get_docstring file (AstNode k cs) v = visit_all unparse get_docstring file cs v"
| "visit_all unparse get_docstring file [] v = v"
| "visit_all unparse get_docstring file (n # ns) v =
     visit_all unparse get_docstring file ns (visit unparse get_docstring file n v)"
| "visit_keywords unparse get_docstring file [] v = v"
| "visit_keywords unparse get_docstring file ((k, e) # ks) v =
     visit_keywords unparse get_docstring file ks (visit unparse get_docstring file e v)"

definition parse_file ::
    "(string \<Rightarrow> string + ast list) \<Rightarrow> (ast \<Rightarrow> string option) \<Rightarrow> (ast \<Rightarrow> string option) \<Rightarrow> (string \<Rightarrow> string + string) \<Rightarrow> string
       \<Rightarrow> string + ParsedEntity list" where
  "parse_file ast_parse unparse get_docstring read_text file =
     (case read_text file of
        Inl e \<Rightarrow> Inl e
      | Inr s \<Rightarrow>
          (case ast_parse s of
             Inl e \<Rightarrow> Inl e
           | Inr body \<Rightarrow> Inr (entities (visit_all unparse get_docstring file body \<lparr>entities = [], scope_stack = []\<rparr>))))"

section \<open>A recursion without a stack\<close>

definition nonempty :: "string \<Rightarrow> string list" where
  "nonempty x = (if x = [] then [] else [x])"

text \<open>What a node refers to and calls in the scope it stands in, in the order of the visit.\<close>

fun own_references :: "ast \<Rightarrow> string list" where
  "own_references (Name x) = nonempty x"
| "own_references (Attribute e x) = own_references e @ nonempty x"
| "own_references (Call f as ks) =
     (case f of Name x \<Rightarrow> nonempty x | Attribute e x \<Rightarrow> nonempty x @ own_references e | _ \<Rightarrow> [])
     @ concat (map own_references as) @ concat (map (\<lambda>(k, e). own_references e) ks)"
| "own_references (Import l le ns) = concat (map (\<lambda>a. nonempty (first_part (fst a))) ns)"
| "own_references (ImportFrom l le m ns lv) =
     (case m of None \<Rightarrow> [] | Some [] \<Rightarrow> [] | Some s \<Rightarrow> nonempty (first_part s))"
| "own_references (FunctionDef async n l le args rets decs body) = []"
| "own_references (ClassDef n l le bs ks decs body) = []"
| "own_references (AstNode k cs) = concat (map own_references cs)"

text \<open>The body of a class is part of the function around it as far as calls are concerned.\<close>

fun own_calls :: "(ast \<Rightarrow> string option) \<Rightarrow> ast \<Rightarrow> string list" where
  "own_calls unparse (Name x) = []"
| "own_calls unparse (Attribute e x) = own_calls unparse e"
| "own_calls unparse (Call f as ks) =
     (case f of
        Name x \<Rightarrow> nonempty x
      | Attribute e x \<Rightarrow> nonempty x @ own_calls unparse e
      | _ \<Rightarrow> (case unparse f of None \<Rightarrow> [] | Some t \<Rightarrow> nonempty t))
     @ concat (map (own_calls unparse) as) @ concat (map (\<lambda>(k, e). own_calls unparse e) ks)"
| "own_calls unparse (Import l le ns) = []"
| "own_calls unparse (ImportFrom l le m ns lv) = []"
| "own_calls unparse (FunctionDef async n l le args rets decs body) = []"
| "own_calls unparse (ClassDef n l le bs ks decs body) = concat (map (own_calls unparse) body)"
| "own_calls unparse (AstNode k cs) = concat (map (own_calls unparse) cs)"

definition first_occurrences :: "string list \<Rightarrow> string list" where
  "first_occurrences xs = rev (remdups (rev xs))"

text \<open>The entities of a node in a scope: the name of the enclosing definition and whether it is a function.\<close>

fun entities_of ::
    "(ast \<Rightarrow> string option) \<Rightarrow> (ast \<Rightarrow> string option) \<Rightarrow> string \<Rightarrow> (string \<times> bool) option \<Rightarrow> ast \<Rightarrow> ParsedEntity list" where
  "entities_of unparse get_docstring file sc (Name x) = []"
| "entities_of unparse get_docstring file sc (Attribute e x) = entities_of unparse get_docstring file sc e"
| "entities_of unparse get_docstring file sc (Call f as ks) =
     (case f of Attribute e x \<Rightarrow> entities_of unparse get_docstring file sc e | _ \<Rightarrow> [])
     @ concat (map (entities_of unparse get_docstring file sc) as)
     @ concat (map (\<lambda>(k, e). entities_of unparse get_docstring file sc e) ks)"
| "entities_of unparse get_docstring file sc (Import l le ns) = map (import_entity file l le) ns"
| "entities_of unparse get_docstring file sc (ImportFrom l le m ns lv) =
     map (import_from_entity file l le (case m of None \<Rightarrow> [] | Some s \<Rightarrow> s) lv) ns"
| "entities_of unparse get_docstring file sc (FunctionDef async n l le args rets decs body) =
     (function_entity unparse file (map_option fst sc) (sc \<noteq> None \<and> \<not> snd (the sc))
        (get_docstring (FunctionDef async n l le args rets decs body)) async n l le args rets decs body)
       \<lparr>calls := first_occurrences (concat (map (own_calls unparse) body)),
        references := first_occurrences (concat (map own_references body))\<rparr>
     # concat (map (entities_of unparse get_docstring file (Some (n, True))) body)"
| "entities_of unparse get_docstring file sc (ClassDef n l le bs ks decs body) =
     (class_entity unparse file (map_option fst sc) (get_docstring (ClassDef n l le bs ks decs body)) n l le bs ks decs)
       \<lparr>calls := [], references := first_occurrences (concat (map own_references body))\<rparr>
     # concat (map (entities_of unparse get_docstring file (Some (n, False))) body)"
| "entities_of unparse get_docstring file sc (AstNode k cs) =
     concat (map (entities_of unparse get_docstring file sc) cs)"

section \<open>The visitor is equivalent to the recursion\<close>

definition add_calls :: "string list \<Rightarrow> scope_frame list \<Rightarrow> scope_frame list" where
  "add_calls cs = update_callable (\<lambda>f. f\<lparr>frame_calls := fold append_new cs (frame_calls f)\<rparr>)"

definition add_refs :: "string list \<Rightarrow> scope_frame list \<Rightarrow> scope_frame list" where
  "add_refs rs = update_enclosing (\<lambda>f. f\<lparr>frame_references := fold append_new rs (frame_references f)\<rparr>)"

definition effect :: "ParsedEntity list \<Rightarrow> string list \<Rightarrow> string list \<Rightarrow> visitor \<Rightarrow> visitor" where
  "effect es cs rs v = v\<lparr>entities := entities v @ es, scope_stack := add_refs rs (add_calls cs (scope_stack v))\<rparr>"

definition scope_of :: "visitor \<Rightarrow> (string \<times> bool) option" where
  "scope_of v = (case scope_stack v of [] \<Rightarrow> None | f # fs \<Rightarrow> Some (frame_name f, is_callable f))"

lemma add_calls_simps [simp]:
  "add_calls cs [] = []"
  "add_calls cs (f # fs) =
     (if is_callable f then f\<lparr>frame_calls := fold append_new cs (frame_calls f)\<rparr> # fs else f # add_calls cs fs)"
  by (simp_all add: add_calls_def)

lemma add_refs_simps [simp]:
  "add_refs rs [] = []"
  "add_refs rs (f # fs) = f\<lparr>frame_references := fold append_new rs (frame_references f)\<rparr> # fs"
  by (simp_all add: add_refs_def)

lemma add_calls_append: "add_calls ds (add_calls cs st) = add_calls (cs @ ds) st"
  by (induction st) auto

lemma add_refs_append: "add_refs ss (add_refs rs st) = add_refs (rs @ ss) st"
  by (cases st) auto

lemma add_calls_refs: "add_calls cs (add_refs rs st) = add_refs rs (add_calls cs st)"
  by (cases st) auto

lemma add_nothing [simp]: "add_calls [] st = st" "add_refs [] st = st"
proof -
  show "add_calls [] st = st" by (induction st) auto
  show "add_refs [] st = st" by (cases st) auto
qed

lemma effect_effect [simp]: "effect es2 cs2 rs2 (effect es1 cs1 rs1 v) = effect (es1 @ es2) (cs1 @ cs2) (rs1 @ rs2) v"
  by (simp add: effect_def add_calls_append add_refs_append add_calls_refs)

lemma effect_nothing [simp]: "effect [] [] [] v = v"
  by (simp add: effect_def)

lemma scope_of_effect [simp]: "scope_of (effect es cs rs v) = scope_of v"
  by (cases "scope_stack v") (auto simp: scope_of_def effect_def)

lemma record_call_effect: "record_call_target x v = effect [] (nonempty x) [] v"
  by (cases "x = []") (simp_all add: record_call_target_def nonempty_def, simp add: effect_def add_calls_def)

lemma add_reference_effect: "add_reference x v = effect [] [] (nonempty x) v"
  by (cases "x = []") (simp_all add: add_reference_def nonempty_def, simp add: effect_def add_refs_def)

lemma append_entity_effect: "v\<lparr>entities := entities v @ es\<rparr> = effect es [] [] v"
  by (simp add: effect_def)

lemma imports_effect:
  "fold (\<lambda>a v. effect [] [] (nonempty (g a)) (v\<lparr>entities := entities v @ [f a]\<rparr>)) ns v =
     effect (map f ns) [] (concat (map (\<lambda>a. nonempty (g a)) ns)) v"
  by (induction ns arbitrary: v) (simp_all add: add_reference_effect append_entity_effect)

lemma import_froms_effect:
  "fold (\<lambda>a v. v\<lparr>entities := entities v @ [f a]\<rparr>) ns v = effect (map f ns) [] [] v"
  by (induction ns arbitrary: v) (simp_all add: append_entity_effect)

lemma fold_append_new: "fold append_new xs [] = first_occurrences xs"
proof (induction xs rule: rev_induct)
  case (snoc x xs)
  then show ?case by (simp add: first_occurrences_def append_new_def)
qed (simp add: first_occurrences_def)

lemma parent_of_scope: "parent_name v = map_option fst (scope_of v)"
  "parent_is_class v \<longleftrightarrow> scope_of v \<noteq> None \<and> \<not> snd (the (scope_of v))"
  by (auto simp: parent_name_def parent_is_class_def scope_of_def split: list.split)

lemma scope_of_open: "scope_of (open_scope b n e v) = Some (n, b)"
  by (simp add: scope_of_def open_scope_def)

text \<open>A scope is closed after the effects of its body: its entity is filled, the rest reaches the outer frames.\<close>

lemma close_after_body:
  "close_scope (effect es cs rs (open_scope b n e v)) =
     effect (e\<lparr>calls := (if b then first_occurrences cs else []), references := first_occurrences rs\<rparr> # es)
       (if b then [] else cs) [] v"
  by (simp add: close_scope_def effect_def open_scope_def populate_entity_def fold_append_new)

definition visit_spec where
  "visit_spec unparse get_docstring file n v =
     effect (entities_of unparse get_docstring file (scope_of v) n) (own_calls unparse n) (own_references n) v"

lemma visit_effects:
  "visit unparse get_docstring file n v = visit_spec unparse get_docstring file n v"
  "visit_all unparse get_docstring file ns v =
     effect (concat (map (entities_of unparse get_docstring file (scope_of v)) ns))
       (concat (map (own_calls unparse) ns)) (concat (map own_references ns)) v"
  "visit_keywords unparse get_docstring file ks v =
     effect (concat (map (\<lambda>(k, e). entities_of unparse get_docstring file (scope_of v) e) ks))
       (concat (map (\<lambda>(k, e). own_calls unparse e) ks)) (concat (map (\<lambda>(k, e). own_references e) ks)) v"
proof (induction unparse get_docstring "file" n v and unparse get_docstring "file" ns v
    and unparse get_docstring "file" ks v rule: visit_visit_all_visit_keywords.induct)
  case (3 unparse get_docstring p f as ks v)
  then show ?case
    by (cases f) (simp_all add: visit_spec_def record_call_effect add_reference_effect split: option.split)
qed (simp_all add: visit_spec_def add_reference_effect imports_effect import_froms_effect close_after_body
    scope_of_open parent_of_scope Let_def split: option.split list.split)

text \<open>
  C8: Parsing is equivalent to a recursion over the tree without a stack: a function gets the calls of
  its body (classes in it included, nested functions not), each function or class the references made
  directly in its body, both without repetition in the order of the source.
\<close>

theorem parse_file_equiv:
  "parse_file ast_parse unparse get_docstring read_text file =
     (case read_text file of
        Inl e \<Rightarrow> Inl e
      | Inr s \<Rightarrow>
          (case ast_parse s of
             Inl e \<Rightarrow> Inl e
           | Inr body \<Rightarrow> Inr (concat (map (entities_of unparse get_docstring file None) body))))"
  by (simp add: parse_file_def visit_effects effect_def scope_of_def split: sum.split)

text \<open>No class ever gets a call, and what a call of a call's result calls is not recorded.\<close>

lemma classes_have_no_calls:
  "e \<in> set (entities_of unparse get_docstring file sc n) \<Longrightarrow> entity_type e = ''class'' \<Longrightarrow> calls e = []"
proof (induction unparse get_docstring "file" sc n rule: entities_of.induct)
  case (3 unparse get_docstring p sc f as ks)
  then show ?case by (cases f) (fastforce split: prod.splits)+
qed (auto simp: import_entity_def import_from_entity_def new_entity_def function_entity_def split: if_splits)

lemma inner_call_is_lost:
  "own_calls (\<lambda>_. Some ''f()'') (Call (Call (Name ''f'') [] []) [] []) = [''f()'']"
  by (simp add: nonempty_def)

section \<open>Defaults of positional parameters\<close>

lemma defaults_step:
  assumes "distinct (map fst cs)" "length ds \<le> length cs" "m \<le> length ds" "k < length cs"
  shows "dict_get (fold (\<lambda>i t. if 0 \<le> int (length cs) - int (length ds) + int i
                              \<and> int (length cs) - int (length ds) + int i < int (length cs)
                     then dict_set (fst (cs ! nat (int (length cs) - int (length ds) + int i))) (ds ! i) t else t)
            [0..<m] []) (fst (cs ! k))
       = (if length cs - length ds \<le> k \<and> k < length cs - length ds + m then Some (ds ! (k - (length cs - length ds))) else None)"
  using assms(3)
proof (induction m)
  case (Suc m)
  let ?o = "length cs - length ds"
  have i: "nat (int (length cs) - int (length ds) + int m) = ?o + m" "?o + m < length cs"
    using assms(2) Suc.prems by linarith+
  have "fst (cs ! (?o + m)) = fst (cs ! k) \<longleftrightarrow> ?o + m = k"
    using assms(1,4) i(2) nth_eq_iff_index_eq [of "map fst cs" "?o + m" k] by simp
  with Suc i assms(2) show ?case by auto
qed simp

text \<open>
  Defaults belong to the last positional parameters: of \<open>n\<close> positional parameters with \<open>d\<close>
  defaults, parameter \<open>k\<close> is rendered with default \<open>k - (n - d)\<close> from \<open>n - d\<close> on and without one before.
\<close>

theorem positional_defaults_aligned:
  assumes "distinct (map fst (po @ re))" "length ds \<le> length (po @ re)" "k < length (po @ re)"
  shows "dict_get (defaults_for_positional po re ds) (fst ((po @ re) ! k)) =
    (if length (po @ re) - length ds \<le> k then Some (ds ! (k - (length (po @ re) - length ds))) else None)"
  using defaults_step [OF assms(1,2) order.refl assms(3)] assms(2,3)
  unfolding defaults_for_positional_def Let_def by auto

lemma positional_defaults_aligned_witness:
  "dict_get (defaults_for_positional [(''a'', None)] [(''b'', None)] [Name ''None'']) ''b'' = Some (Name ''None'')"
  using positional_defaults_aligned [of "[(''a'', None)]" "[(''b'', None)]" "[Name ''None'']" 1] by simp

section \<open>Complexity\<close>

lemma estimate_cases:
  "estimate_complexity n \<in> {''O(1)'', ''O(n)'', ''O(n log n)'', ''O(n^2)'', ''O(n^3)''}"
  by (simp add: estimate_complexity_def Let_def)

end
