(* ===== verification/FlowAgent.thy ===== *)
theory FlowAgent
  imports NxList
begin

text \<open>
  The flow analysis (\<open>analysis/flow_analysis_agent.py\<close>): entry points, execution paths, dead code and
  bottlenecks of the call graph.

  What it asks of NetworkX beyond \<open>networkx\<close> are the fields of \<open>nx_data\<close>: edge and node attributes and
  unweighted paths; \<open>nx_data_documented\<close> is what their documentation says.  Where the code makes a
  list of a set, \<open>iter\<close> is the set's iteration order.
\<close>

section \<open>Attributes and paths\<close>

record 'g nx_data =
  nx_edge_data :: "'g \<Rightarrow> string \<Rightarrow> string \<Rightarrow> (string, json) dict"
  nx_node_data :: "'g \<Rightarrow> string \<Rightarrow> (string, json) dict"
  nx_path :: "'g \<Rightarrow> string \<Rightarrow> string \<Rightarrow> nx_error + string list"
  nx_has_path :: "'g \<Rightarrow> string \<Rightarrow> string \<Rightarrow> bool"

definition path_of :: "(string \<times> string) set \<Rightarrow> string \<Rightarrow> string \<Rightarrow> string list \<Rightarrow> bool" where
  "path_of E s t p \<longleftrightarrow> p \<noteq> [] \<and> hd p = s \<and> last p = t \<and> successively (\<lambda>a b. (a, b) \<in> E) p"

definition nx_data_documented :: "'g networkx \<Rightarrow> 'g nx_data \<Rightarrow> bool" where
  "nx_data_documented nx nd \<longleftrightarrow>
     (\<forall>g s t p. nx_path nd g s t = Inr p \<longrightarrow> path_of (nx_pairs nx g) s t p) \<and>
     (\<forall>g s t. s \<in> set (nx_nodes nx g) \<and> t \<in> set (nx_nodes nx g) \<longrightarrow>
        (nx_has_path nd g s t \<longleftrightarrow> (s, t) \<in> (nx_pairs nx g)\<^sup>*))"

text \<open>The library of \<open>NxList\<close> with attributes it does not have and paths of one edge only.\<close>

definition list_nd :: "list_graph nx_data" where
  "list_nd = \<lparr>nx_edge_data = \<lambda>g u v. [], nx_node_data = \<lambda>g n. [],
     nx_path = \<lambda>g s t. if (s, t) \<in> set (snd g) then Inr [s, t] else Inl NetworkXNoPath,
     nx_has_path = \<lambda>g s t. t \<in> set (reach_list (snd g) s)\<rparr>"

lemma list_nd_documented: "nx_data_documented list_nx list_nd"
  by (auto simp: nx_data_documented_def list_nd_def list_nx_def nx_pairs_def path_of_def reach_list_eq split: if_splits)

definition weight_of :: "(string, json) dict \<Rightarrow> rat" where
  "weight_of d = (case dict_get d ''weight'' of Some (JFloat w) \<Rightarrow> w | _ \<Rightarrow> 1)"

definition pairwise :: "'a list \<Rightarrow> ('a \<times> 'a) list" where
  "pairwise p = zip p (tl p)"

definition path_weight :: "'g nx_data \<Rightarrow> 'g \<Rightarrow> string list \<Rightarrow> rat" where
  "path_weight nd g p = sum_list (map (\<lambda>(u, v). weight_of (nx_edge_data nd g u v)) (pairwise p))"

section \<open>Reports\<close>

record ExecutionPath =
  ep_path :: "string list"
  ep_length :: nat
  ep_total_weight :: rat

record DeadCodeNode =
  dc_node_id :: string
  dc_node_name :: string
  dc_node_type :: string
  dc_language :: string
  dc_source_file :: "string option"

record BottleneckNode =
  bn_node_id :: string
  bn_node_name :: string
  bn_fan_in :: nat
  bn_fan_out :: nat
  bn_score :: nat
  bn_impact :: string

record FlowAnalysisReport =
  entry_points :: "string list"
  execution_paths :: "ExecutionPath list"
  longest_path_length :: nat
  dead_code :: "DeadCodeNode list"
  bottlenecks :: "BottleneckNode list"
  unreachable_from_any_entry :: "string list"
  total_reachable :: nat
  total_unreachable :: nat
  graph_is_dag :: bool
  strongly_connected_components :: nat

definition empty_flow_report :: FlowAnalysisReport where
  "empty_flow_report = \<lparr>entry_points = [], execution_paths = [], longest_path_length = 0, dead_code = [],
     bottlenecks = [], unreachable_from_any_entry = [], total_reachable = 0, total_unreachable = 0,
     graph_is_dag = True, strongly_connected_components = 0\<rparr>"

definition MAX_FALLBACK_ENTRY_POINTS :: nat where "MAX_FALLBACK_ENTRY_POINTS = 5"
definition MAX_EXECUTION_PATHS :: nat where "MAX_EXECUTION_PATHS = 100"
definition MIN_BOTTLENECK_SCORE :: nat where "MIN_BOTTLENECK_SCORE = 8"
definition BOTTLENECK_HIGH_FAN_IN :: nat where "BOTTLENECK_HIGH_FAN_IN = 10"
definition BOTTLENECK_HIGH_FAN_OUT :: nat where "BOTTLENECK_HIGH_FAN_OUT = 10"
definition BOTTLENECK_CRITICAL_FAN_OUT :: nat where "BOTTLENECK_CRITICAL_FAN_OUT = 5"

section \<open>The agent\<close>

text \<open>\<open>max(sccs, key=len)\<close>: the first of the longest.\<close>

fun longest_of :: "'a list \<Rightarrow> 'a list list \<Rightarrow> 'a list" where
  "longest_of best [] = best"
| "longest_of best (x # xs) = longest_of (if length best < length x then x else best) xs"

definition find_entry_points :: "'g networkx \<Rightarrow> 'g \<Rightarrow> string list" where
  "find_entry_points nx g =
     (let eps = filter (\<lambda>n. nx_in_degree nx g n = 0) (nx_nodes nx g)
      in if eps \<noteq> [] then eps
         else case nx_sccs nx g of [] \<Rightarrow> [] | c # cs \<Rightarrow> take MAX_FALLBACK_ENTRY_POINTS (longest_of c cs))"

text \<open>\<open>NetworkXNoPath\<close> and \<open>NodeNotFound\<close> are skipped, any other error ends the analysis.\<close>

fun paths_to :: "'g nx_data \<Rightarrow> 'g \<Rightarrow> string \<Rightarrow> string list \<Rightarrow> nx_error + ExecutionPath list" where
  "paths_to nd g ep [] = Inr []"
| "paths_to nd g ep (t # ts) =
     (case nx_path nd g ep t of
        Inl e \<Rightarrow> if e = NetworkXNoPath \<or> e = NodeNotFound then paths_to nd g ep ts else Inl e
      | Inr p \<Rightarrow>
          (case paths_to nd g ep ts of
             Inl e \<Rightarrow> Inl e
           | Inr ps \<Rightarrow> Inr (\<lparr>ep_path = p, ep_length = length p, ep_total_weight = path_weight nd g p\<rparr> # ps)))"

fun paths_from :: "'g networkx \<Rightarrow> 'g nx_data \<Rightarrow> 'g \<Rightarrow> string list \<Rightarrow> nx_error + ExecutionPath list" where
  "paths_from nx nd g [] = Inr []"
| "paths_from nx nd g (ep # eps) =
     (if ep \<notin> set (nx_nodes nx g) then paths_from nx nd g eps
      else case paths_to nd g ep (nx_descendants nx g ep) of
             Inl e \<Rightarrow> Inl e
           | Inr ps \<Rightarrow> (case paths_from nx nd g eps of Inl e \<Rightarrow> Inl e | Inr qs \<Rightarrow> Inr (ps @ qs)))"

definition find_execution_paths ::
    "'g networkx \<Rightarrow> 'g nx_data \<Rightarrow> 'g \<Rightarrow> string list \<Rightarrow> nx_error + ExecutionPath list" where
  "find_execution_paths nx nd g eps =
     (case paths_from nx nd g eps of
        Inl e \<Rightarrow> Inl e
      | Inr ps \<Rightarrow> Inr (take MAX_EXECUTION_PATHS (sort_key (\<lambda>p. - ep_total_weight p) ps)))"

definition dead_node :: "SoftwareGraph \<Rightarrow> string \<Rightarrow> DeadCodeNode" where
  "dead_node sg i =
     (case find_node i sg of
        Some n \<Rightarrow> \<lparr>dc_node_id = node_id n, dc_node_name = node_name n, dc_node_type = node_type_value (node_type n),
                   dc_language = language n, dc_source_file = map_option loc_file_path (source_location n)\<rparr>
      | None \<Rightarrow> \<lparr>dc_node_id = i, dc_node_name = i, dc_node_type = ''unknown'', dc_language = ''unknown'',
                 dc_source_file = None\<rparr>)"

text \<open>The answer of \<open>find_dead_nodes\<close> on the call layer, as the list its iteration gives.\<close>

definition dead_ids ::
    "'g networkx \<Rightarrow> (string list \<Rightarrow> string list) \<Rightarrow> 'g \<Rightarrow> string list \<Rightarrow> 'g GraphIndex \<Rightarrow> string list" where
  "dead_ids nx iter g eps gi =
     iter (filter (\<lambda>n. n \<in> fst (find_dead_nodes nx eps (Some LCall) gi)) (nx_nodes nx g))"

definition find_dead_code ::
    "'g networkx \<Rightarrow> (string list \<Rightarrow> string list) \<Rightarrow> 'g \<Rightarrow> string list \<Rightarrow> 'g GraphIndex \<Rightarrow> DeadCodeNode list" where
  "find_dead_code nx iter g eps gi = map (dead_node (gi_sg gi)) (dead_ids nx iter g eps gi)"

definition impact_of :: "nat \<Rightarrow> nat \<Rightarrow> string" where
  "impact_of fi fo =
     (if BOTTLENECK_HIGH_FAN_IN < fi \<and> BOTTLENECK_CRITICAL_FAN_OUT < fo
      then ''Critical: high fan-in and fan-out indicate a central hub''
      else if BOTTLENECK_HIGH_FAN_IN < fi then ''High fan-in: many components depend on this node''
      else if BOTTLENECK_HIGH_FAN_OUT < fo then ''High fan-out: this node depends on many others''
      else ''Moderate bottleneck'')"

definition attr_name :: "'g nx_data \<Rightarrow> 'g \<Rightarrow> string \<Rightarrow> string" where
  "attr_name nd g i = (case dict_get (nx_node_data nd g i) ''name'' of Some (JStr s) \<Rightarrow> s | _ \<Rightarrow> i)"

definition find_bottlenecks :: "'g networkx \<Rightarrow> 'g nx_data \<Rightarrow> 'g \<Rightarrow> BottleneckNode list" where
  "find_bottlenecks nx nd g =
     sort_key (\<lambda>b. - int (bn_score b))
       (map (\<lambda>i. let fi = nx_in_degree nx g i; fo = nx_out_degree nx g i
                 in \<lparr>bn_node_id = i, bn_node_name = attr_name nd g i, bn_fan_in = fi, bn_fan_out = fo,
                     bn_score = fi + fo, bn_impact = impact_of fi fo\<rparr>)
          (filter (\<lambda>i. MIN_BOTTLENECK_SCORE \<le> nx_in_degree nx g i + nx_out_degree nx g i) (nx_nodes nx g)))"

definition reachable_union :: "'g networkx \<Rightarrow> 'g \<Rightarrow> string list \<Rightarrow> 'g GraphIndex \<Rightarrow> string set" where
  "reachable_union nx g eps gi =
     fold (\<lambda>ep acc. if ep \<in> set (nx_nodes nx g)
                    then insert ep (acc \<union> set (fst (reachable_from nx ep (Some LCall) gi))) else acc) eps {}"

definition analyze_flow ::
    "'g networkx \<Rightarrow> 'g nx_data \<Rightarrow> (string list \<Rightarrow> string list) \<Rightarrow> 'g GraphIndex \<Rightarrow> nx_error + FlowAnalysisReport" where
  "analyze_flow nx nd iter gi =
     (case get_graph LCall gi of
        None \<Rightarrow> Inr empty_flow_report
      | Some g \<Rightarrow>
          (let eps = find_entry_points nx g; unreachable = dead_ids nx iter g eps gi
           in case find_execution_paths nx nd g eps of
                Inl e \<Rightarrow> Inl e
              | Inr ps \<Rightarrow>
                  Inr \<lparr>entry_points = eps, execution_paths = ps,
                       longest_path_length = fold max (map (\<lambda>p. length (ep_path p)) ps) 0,
                       dead_code = find_dead_code nx iter g eps gi, bottlenecks = find_bottlenecks nx nd g,
                       unreachable_from_any_entry = unreachable,
                       total_reachable = card (reachable_union nx g eps gi), total_unreachable = length unreachable,
                       graph_is_dag = nx_is_dag nx g, strongly_connected_components = length (nx_sccs nx g)\<rparr>))"

section \<open>Reachable and dead nodes\<close>

lemma index_graph:
  assumes "get_graph LCall gi = Some g"
  shows "fst (query nx none f (Some LCall) gi) = f g"
  using assms by (simp add: query_def graph_for_def get_graph_def)

text \<open>What the entry points reach, themselves included.\<close>

definition live_from :: "'g networkx \<Rightarrow> 'g \<Rightarrow> string list \<Rightarrow> string set" where
  "live_from nx g eps = {m. \<exists>ep\<in>set eps. ep \<in> set (nx_nodes nx g) \<and> (ep, m) \<in> (nx_pairs nx g)\<^sup>*}"

lemma live_from_nodes:
  assumes "nx_documented nx"
  shows "live_from nx g eps \<subseteq> set (nx_nodes nx g)"
proof -
  have "(ep, m) \<in> (nx_pairs nx g)\<^sup>* \<Longrightarrow> ep \<in> set (nx_nodes nx g) \<Longrightarrow> m \<in> set (nx_nodes nx g)" for ep m
    by (erule rtrancl_induct) (use nx_documentedD(17) [OF assms, of g] in auto)
  then show ?thesis by (auto simp: live_from_def)
qed

lemma reachable_union_eq:
  assumes "nx_documented nx" "get_graph LCall gi = Some g"
  shows "reachable_union nx g eps gi = live_from nx g eps"
proof -
  let ?f = "\<lambda>ep acc. if ep \<in> set (nx_nodes nx g)
                    then insert ep (acc \<union> set (fst (reachable_from nx ep (Some LCall) gi))) else acc"
  have "fold ?f eps acc = acc \<union> live_from nx g eps" for acc
  proof (induction eps arbitrary: acc)
    case (Cons ep eps)
    have "?f ep acc = acc \<union> live_from nx g [ep]"
      using nx_documentedD(12) [OF assms(1), of ep g]
      by (auto simp: reachable_from_def index_graph [OF assms(2)] live_from_def)
    with Cons.IH [of "?f ep acc"] show ?case by (auto simp: live_from_def)
  qed (simp add: live_from_def)
  then show ?thesis by (simp add: reachable_union_def)
qed

lemma dead_nodes_eq:
  assumes "nx_documented nx" "get_graph LCall gi = Some g"
  shows "fst (find_dead_nodes nx eps (Some LCall) gi) = set (nx_nodes nx g) - live_from nx g eps"
proof -
  have "reachable_set nx g eps {} = live_from nx g eps"
    by (simp add: reachable_set_eq [OF assms(1)] live_from_def)
  then show ?thesis by (simp add: find_dead_nodes_def index_graph [OF assms(2)])
qed

lemma set_dead_ids:
  assumes "nx_documented nx" "get_graph LCall gi = Some g" "set_iteration iter"
  shows "set (dead_ids nx iter g eps gi) = set (nx_nodes nx g) - live_from nx g eps"
    and "distinct (dead_ids nx iter g eps gi)"
  using set_iterationD [OF assms(3)] dead_nodes_eq [OF assms(1,2)] by (auto simp: dead_ids_def)

text \<open>
  The report accounts for every node of the call graph once: the reached and the unreachable ones
  add up to all nodes, the unreachable ones are those no entry point leads to, and exactly they are
  listed as dead code.
\<close>

theorem flow_report_partition:
  assumes "nx_documented nx" "set_iteration iter" "get_graph LCall gi = Some g"
    and "analyze_flow nx nd iter gi = Inr r"
  shows "total_reachable r + total_unreachable r = length (nx_nodes nx g)
    \<and> set (unreachable_from_any_entry r) =
        {n \<in> set (nx_nodes nx g).
           \<forall>ep\<in>set (entry_points r) \<inter> set (nx_nodes nx g). (ep, n) \<notin> (nx_pairs nx g)\<^sup>*}
    \<and> map dc_node_id (dead_code r) = unreachable_from_any_entry r"
proof -
  let ?eps = "find_entry_points nx g"
  have r: "entry_points r = ?eps" "total_reachable r = card (live_from nx g ?eps)"
    "unreachable_from_any_entry r = dead_ids nx iter g ?eps gi" "dead_code r = find_dead_code nx iter g ?eps gi"
    "total_unreachable r = length (dead_ids nx iter g ?eps gi)"
    using assms(4) by (auto simp: analyze_flow_def assms(3) Let_def reachable_union_eq [OF assms(1,3)] split: sum.splits)
  note dead = set_dead_ids [OF assms(1,3,2), of ?eps]
  have nodes: "card (set (nx_nodes nx g)) = length (nx_nodes nx g)"
    using nx_documentedD(9) [OF assms(1), of g] by (rule distinct_card)
  have "length (dead_ids nx iter g ?eps gi) = card (set (nx_nodes nx g) - live_from nx g ?eps)"
    using distinct_card [OF dead(2)] dead(1) by simp
  also have "\<dots> = length (nx_nodes nx g) - card (live_from nx g ?eps)"
    using live_from_nodes [OF assms(1), of g ?eps] by (simp add: card_Diff_subset finite_subset nodes)
  finally have "total_reachable r + total_unreachable r = length (nx_nodes nx g)"
    using card_mono [OF _ live_from_nodes [OF assms(1)], of g ?eps] by (simp add: r nodes)
  moreover have "dc_node_id (dead_node sg i) = i" for sg i
    by (auto simp: dead_node_def find_node_def dest: find_in_layers_Some split: option.split)
  then have "map dc_node_id (dead_code r) = unreachable_from_any_entry r"
    by (simp add: r find_dead_code_def comp_def)
  moreover have "set (unreachable_from_any_entry r) = {n \<in> set (nx_nodes nx g).
      \<forall>ep\<in>set (entry_points r) \<inter> set (nx_nodes nx g). (ep, n) \<notin> (nx_pairs nx g)\<^sup>*}"
    by (auto simp: r dead(1) live_from_def)
  ultimately show ?thesis by blast
qed

lemma source_above:
  assumes "finite E" "acyclic E"
  shows "\<exists>m. (m, n) \<in> E\<^sup>* \<and> (\<forall>a. (a, m) \<notin> E)"
proof (induction n rule: wf_induct [OF finite_acyclic_wf [OF assms]])
  case (1 n)
  show ?case
  proof (cases "\<exists>a. (a, n) \<in> E")
    case True
    then obtain a where "(a, n) \<in> E" by blast
    with 1 obtain m where "(m, a) \<in> E\<^sup>*" "\<forall>b. (b, m) \<notin> E" by blast
    with \<open>(a, n) \<in> E\<close> show ?thesis by (meson rtrancl.rtrancl_into_rtrancl)
  qed blast
qed

text \<open>
  C38: On a call graph without cycles the analysis never finds dead code: every node that nothing calls
  counts as an entry point, and each node is called, directly or not, from such a node.
\<close>

theorem acyclic_has_no_dead_code:
  assumes "nx_documented nx" "set_iteration iter" "get_graph LCall gi = Some g" "acyclic (nx_pairs nx g)"
    and "analyze_flow nx nd iter gi = Inr r"
  shows "dead_code r = [] \<and> total_unreachable r = 0"
proof -
  let ?E = "nx_pairs nx g" and ?eps = "find_entry_points nx g"
  note sub = nx_documentedD(17) [OF assms(1), of g]
  have fin: "finite ?E" using sub by (rule finite_subset) simp
  have "n \<in> live_from nx g ?eps" if n: "n \<in> set (nx_nodes nx g)" for n
  proof -
    obtain m where m: "(m, n) \<in> ?E\<^sup>*" "\<And>a. (a, m) \<notin> ?E" using source_above [OF fin assms(4)] by blast
    have "m \<in> set (nx_nodes nx g)" using m(1) n sub by (auto elim: converse_rtranclE)
    moreover have "nx_in_degree nx g m = 0" using m(2) by (simp add: nx_documentedD(14) [OF assms(1)])
    ultimately have "m \<in> set ?eps" by (auto simp: find_entry_points_def Let_def filter_empty_conv)
    with m(1) \<open>m \<in> set (nx_nodes nx g)\<close> show ?thesis by (auto simp: live_from_def)
  qed
  then have "set (nx_nodes nx g) - live_from nx g ?eps = {}" by blast
  then have "set (dead_ids nx iter g ?eps gi) = {}" by (simp only: set_dead_ids(1) [OF assms(1,3,2)])
  then have "dead_ids nx iter g ?eps gi = []" by simp
  then show ?thesis
    using assms(5) by (auto simp: analyze_flow_def assms(3) Let_def find_dead_code_def split: sum.splits)
qed

section \<open>Examples\<close>

text \<open>\<open>main\<close> calls \<open>run\<close>; nothing calls \<open>old\<close>.\<close>

definition flow_graph :: SoftwareGraph where
  "flow_graph = \<lparr>repository = \<lparr>repo_name = ''r'', root_path = ''/r'', languages = [], frameworks = [],
       build_systems = [], architecture_style = ''x'', total_files = 1, total_lines = 1, extra = []\<rparr>,
     layers = [(LCall, \<lparr>layer = LCall, nodes = [new_node ''main'' ''main'', new_node ''run'' ''run'', new_node ''old'' ''old''],
       edges = [new_edge ''main'' ''run'' ECall], graph_metadata = []\<rparr>)]\<rparr>"

definition flow_index :: "list_graph GraphIndex" where
  "flow_index = mk_index list_nx flow_graph"

definition flow_digraph :: list_graph where
  "flow_digraph = ([''main'', ''run'', ''old'', ''main'', ''run''], [(''main'', ''run'')])"

lemma flow_index_graph: "get_graph LCall flow_index = Some flow_digraph"
  by code_simp

lemma flow_report_exists:
  "case analyze_flow list_nx list_nd remdups flow_index of Inl e \<Rightarrow> False | Inr r \<Rightarrow> entry_points r = [''old'', ''main'']"
  by code_simp

lemma flow_report_partition_witness:
  "\<exists>r. analyze_flow list_nx list_nd remdups flow_index = Inr r
     \<and> total_reachable r + total_unreachable r = length (nx_nodes list_nx flow_digraph)"
proof -
  obtain r where r: "analyze_flow list_nx list_nd remdups flow_index = Inr r"
    using flow_report_exists by (auto split: sum.splits)
  from flow_report_partition [OF list_nx_documented set_iteration_remdups flow_index_graph this] r
  show ?thesis by blast
qed

lemma acyclic_has_no_dead_code_witness:
  "\<exists>r. analyze_flow list_nx list_nd remdups flow_index = Inr r \<and> entry_points r = [''old'', ''main''] \<and> dead_code r = []"
proof -
  obtain r where r: "analyze_flow list_nx list_nd remdups flow_index = Inr r" "entry_points r = [''old'', ''main'']"
    using flow_report_exists by (auto split: sum.splits)
  have "acyclic (nx_pairs list_nx flow_digraph)"
    by (auto simp: nx_pairs_def list_nx_def flow_digraph_def acyclic_insert acyclic_def elim: converse_tranclE)
  from acyclic_has_no_dead_code [OF list_nx_documented set_iteration_remdups flow_index_graph this r(1)] r
  show ?thesis by blast
qed

text \<open>The limits of what is reported.\<close>

lemma execution_paths_bound:
  "find_execution_paths nx nd g eps = Inr ps \<Longrightarrow>
     length ps \<le> MAX_EXECUTION_PATHS \<and> sorted_wrt (\<lambda>p q. ep_total_weight q \<le> ep_total_weight p) ps"
  using sorted_sort_key [of "\<lambda>p. - ep_total_weight p"]
  by (auto simp: find_execution_paths_def sorted_map intro!: sorted_wrt_take split: sum.splits)

lemma bottlenecks_spec:
  "b \<in> set (find_bottlenecks nx nd g) \<longleftrightarrow>
     (\<exists>i\<in>set (nx_nodes nx g). let fi = nx_in_degree nx g i; fo = nx_out_degree nx g i
        in 8 \<le> fi + fo \<and> b = \<lparr>bn_node_id = i, bn_node_name = attr_name nd g i, bn_fan_in = fi, bn_fan_out = fo,
             bn_score = fi + fo, bn_impact = impact_of fi fo\<rparr>)"
  by (auto simp: find_bottlenecks_def Let_def MIN_BOTTLENECK_SCORE_def)

end
