(* ===== verification/PyRegex.thy ===== *)
theory PyRegex
  imports Prelude
begin

text \<open>
  Python's regular expressions, as far as the code uses them: a backtracking matcher that lists the ways
  to match in the order in which \<open>re\<close> tries them, so that the first one is the match.  A position is
  the character before it, for \<open>\b\<close>, and the rest of the text.  Every repeated part of the patterns
  used takes up text, so a repetition goes round at most as often as there are characters left.
\<close>

type_synonym position = "char option \<times> string"

datatype char_class =
  AnyChar
| Space
| Letter
| Digit
| Word
| Chars string
| Except string
| Fold char
| Union char_class char_class

definition is_letter :: "char \<Rightarrow> bool" where
  "is_letter c \<longleftrightarrow> (let n = of_char c :: nat in 65 \<le> n \<and> n \<le> 90 \<or> 97 \<le> n \<and> n \<le> 122)"

definition is_word_char :: "char \<Rightarrow> bool" where
  "is_word_char c \<longleftrightarrow> (let n = of_char c :: nat in
     48 \<le> n \<and> n \<le> 57 \<or> 65 \<le> n \<and> n \<le> 90 \<or> n = 95 \<or> 97 \<le> n \<and> n \<le> 122 \<or> n \<in> {170, 178, 179, 181, 185, 186}
     \<or> 188 \<le> n \<and> n \<le> 190 \<or> 192 \<le> n \<and> n \<le> 214 \<or> 216 \<le> n \<and> n \<le> 246 \<or> 248 \<le> n)"

text \<open>\<open>Fold x\<close>: the character \<open>x\<close>, small or capital.\<close>

primrec in_class :: "char_class \<Rightarrow> char \<Rightarrow> bool" where
  "in_class AnyChar c \<longleftrightarrow> True"
| "in_class Space c \<longleftrightarrow> py_isspace c"
| "in_class Letter c \<longleftrightarrow> is_letter c"
| "in_class Digit c \<longleftrightarrow> is_digit c"
| "in_class Word c \<longleftrightarrow> is_word_char c"
| "in_class (Chars s) c \<longleftrightarrow> c \<in> set s"
| "in_class (Except s) c \<longleftrightarrow> c \<notin> set s"
| "in_class (Fold x) c \<longleftrightarrow> py_lower_char c = x"
| "in_class (Union f g) c \<longleftrightarrow> in_class f c \<or> in_class g c"

datatype regex =
  One char_class
| Nothing
| Boundary
| Seq regex regex
| Alt regex regex
| Star regex
| LazyStar regex
| UpTo nat regex

definition at_boundary :: "position \<Rightarrow> bool" where
  "at_boundary p \<longleftrightarrow>
     (case fst p of None \<Rightarrow> False | Some c \<Rightarrow> is_word_char c) \<noteq> (case snd p of [] \<Rightarrow> False | c # cs \<Rightarrow> is_word_char c)"

fun iterate :: "(position \<Rightarrow> position list) \<Rightarrow> nat \<Rightarrow> position \<Rightarrow> position list" where
  "iterate f 0 p = [p]"
| "iterate f (Suc n) p = concat (map (iterate f n) (f p)) @ [p]"

fun iterate_lazily :: "(position \<Rightarrow> position list) \<Rightarrow> nat \<Rightarrow> position \<Rightarrow> position list" where
  "iterate_lazily f 0 p = [p]"
| "iterate_lazily f (Suc n) p = p # concat (map (iterate_lazily f n) (f p))"

primrec ends :: "regex \<Rightarrow> position \<Rightarrow> position list" where
  "ends (One f) p = (case snd p of [] \<Rightarrow> [] | c # cs \<Rightarrow> if in_class f c then [(Some c, cs)] else [])"
| "ends Nothing p = [p]"
| "ends Boundary p = (if at_boundary p then [p] else [])"
| "ends (Seq r s) p = concat (map (ends s) (ends r p))"
| "ends (Alt r s) p = ends r p @ ends s p"
| "ends (Star r) p = iterate (ends r) (length (snd p)) p"
| "ends (LazyStar r) p = iterate_lazily (ends r) (length (snd p)) p"
| "ends (UpTo n r) p = iterate (ends r) n p"

text \<open>The match at a position, if there is one.\<close>

definition first_end :: "regex \<Rightarrow> position \<Rightarrow> position option" where
  "first_end r p = (case ends r p of [] \<Rightarrow> None | q # qs \<Rightarrow> Some q)"

section \<open>Building patterns\<close>

primrec lit :: "string \<Rightarrow> regex" where
  "lit [] = Nothing"
| "lit (x # xs) = Seq (One (Fold x)) (lit xs)"

definition plus :: "regex \<Rightarrow> regex" where
  "plus r = Seq r (Star r)"

primrec times :: "nat \<Rightarrow> regex \<Rightarrow> regex" where
  "times 0 r = Nothing"
| "times (Suc n) r = Seq r (times n r)"

definition at_least :: "nat \<Rightarrow> regex \<Rightarrow> regex" where
  "at_least n r = Seq (times n r) (Star r)"

definition optional :: "regex \<Rightarrow> regex" where
  "optional r = Alt r Nothing"

definition one_of :: "string \<Rightarrow> regex" where
  "one_of cs = One (Chars cs)"

text \<open>A text as it is, capitals and small letters told apart.\<close>

primrec exact :: "string \<Rightarrow> regex" where
  "exact [] = Nothing"
| "exact (x # xs) = Seq (one_of [x]) (exact xs)"

definition spaces :: regex where
  "spaces = Star (One Space)"

section \<open>Matches take up text\<close>

text \<open>A position that can be reached from another: some text further on, with its last character before it.\<close>

definition after :: "position \<Rightarrow> position \<Rightarrow> bool" where
  "after p q \<longleftrightarrow> (\<exists>u. snd p = u @ snd q \<and> (if u = [] then fst q = fst p else fst q = Some (last u)))"

lemma after_refl [simp]: "after p p"
  by (simp add: after_def)

lemma after_trans:
  assumes "after p q" "after q r"
  shows "after p r"
proof -
  obtain u where u: "snd p = u @ snd q" "if u = [] then fst q = fst p else fst q = Some (last u)"
    using assms(1) unfolding after_def by blast
  obtain v where v: "snd q = v @ snd r" "if v = [] then fst r = fst q else fst r = Some (last v)"
    using assms(2) unfolding after_def by blast
  show ?thesis unfolding after_def by (intro exI [of _ "u @ v"]) (use u v in \<open>cases "v = []"; auto\<close>)
qed

text \<open>
  When every turn takes up text, more turns than there are characters left change nothing: the bound
  of \<open>Star\<close> is enough.
\<close>

lemma iterate_enough:
  assumes "\<And>p q. q \<in> set (f p) \<Longrightarrow> length (snd q) < length (snd p)"
    and "length (snd p) \<le> m" "length (snd p) \<le> n"
  shows "iterate f m p = iterate f n p"
  using assms(2,3)
proof (induction m arbitrary: n p)
  case 0
  then have "f p = []" using assms(1) [of _ p] by (cases "f p") auto
  then show ?case by (cases n) auto
next
  case (Suc m)
  show ?case
  proof (cases n)
    case 0
    then have "f p = []" using assms(1) [of _ p] Suc.prems by (cases "f p") auto
    then show ?thesis by (simp add: 0)
  next
    case (Suc k)
    have "iterate f m q = iterate f k q" if "q \<in> set (f p)" for q
      using assms(1) [OF that] Suc.prems Suc by (intro Suc.IH) auto
    then have "map (iterate f m) (f p) = map (iterate f k) (f p)" by simp
    then show ?thesis by (simp add: Suc del: map_eq_conv)
  qed
qed

lemma iterate_after:
  assumes "\<And>p q. q \<in> set (f p) \<Longrightarrow> after p q" "q \<in> set (iterate f n p)"
  shows "after p q"
  using assms(2)
proof (induction n arbitrary: p)
  case (Suc n)
  then consider p' where "p' \<in> set (f p)" "q \<in> set (iterate f n p')" | "q = p" by auto
  then show ?case by cases (use Suc.IH assms(1) after_trans in blast, simp)
qed simp

lemma iterate_lazily_after:
  assumes "\<And>p q. q \<in> set (f p) \<Longrightarrow> after p q" "q \<in> set (iterate_lazily f n p)"
  shows "after p q"
  using assms(2)
proof (induction n arbitrary: p)
  case (Suc n)
  then consider p' where "p' \<in> set (f p)" "q \<in> set (iterate_lazily f n p')" | "q = p" by auto
  then show ?case by cases (use Suc.IH assms(1) after_trans in blast, simp)
qed simp

lemma ends_after: "q \<in> set (ends r p) \<Longrightarrow> after p q"
proof (induction r arbitrary: p q)
  case (One f)
  then obtain c cs where "snd p = c # cs" "q = (Some c, cs)" by (cases "snd p") (auto split: if_splits)
  then show ?case by (auto simp: after_def intro!: exI [of _ "[c]"])
next
  case (Seq r s)
  from Seq.prems obtain p' where "p' \<in> set (ends r p)" "q \<in> set (ends s p')" by auto
  then show ?case using Seq.IH after_trans by blast
next
  case (Star r)
  from iterate_after [OF Star.IH] Star.prems show ?case by simp
next
  case (LazyStar r)
  from iterate_lazily_after [OF LazyStar.IH] LazyStar.prems show ?case by simp
next
  case (UpTo n r)
  from iterate_after [OF UpTo.IH] UpTo.prems show ?case by simp
qed (auto split: if_splits)

lemma first_end_in_ends: "first_end r p = Some q \<Longrightarrow> q \<in> set (ends r p)"
  by (auto simp: first_end_def split: list.splits)

lemma first_end_after: "first_end r p = Some q \<Longrightarrow> after p q"
  by (rule ends_after) (rule first_end_in_ends)

lemma after_length: "after p q \<Longrightarrow> length (snd q) \<le> length (snd p)"
  by (auto simp: after_def)

section \<open>The first match\<close>

lemma first_end_Nothing [simp]: "first_end Nothing p = Some p"
  by (simp add: first_end_def)

lemma first_end_Boundary [simp]: "first_end Boundary p = (if at_boundary p then Some p else None)"
  by (simp add: first_end_def)

lemma first_end_One [simp]:
  "first_end (One f) (b, []) = None"
  "first_end (One f) (b, c # cs) = (if in_class f c then Some (Some c, cs) else None)"
  by (simp_all add: first_end_def)

lemma first_end_Alt: "first_end (Alt r s) p = (case first_end r p of None \<Rightarrow> first_end s p | Some q \<Rightarrow> Some q)"
  by (simp add: first_end_def split: list.split)

lemma first_end_Seq:
  "first_end r p = Some q \<Longrightarrow> first_end s q = Some q' \<Longrightarrow> first_end (Seq r s) p = Some q'"
  by (cases q; cases q') (auto simp: first_end_def split: list.splits)

lemma first_end_Seq_None: "first_end r p = None \<Longrightarrow> first_end (Seq r s) p = None"
  by (auto simp: first_end_def split: list.splits)

text \<open>A greedy repetition of one character takes all it can.\<close>

lemma iterate_nonempty [simp]: "iterate f n p \<noteq> []"
  by (cases n) simp_all

lemma iterate_One_step:
  "hd (iterate (ends (One f)) (Suc n) (b, c # cs)) =
     (if in_class f c then hd (iterate (ends (One f)) n (Some c, cs)) else (b, c # cs))"
  by simp

lemma iterate_One_stop: "v = [] \<or> \<not> in_class f (hd v) \<or> n = 0 \<Longrightarrow> hd (iterate (ends (One f)) n (b, v)) = (b, v)"
  by (cases n; cases v) auto

lemma iterate_One:
  "list_all (in_class f) u \<Longrightarrow> length u \<le> n \<Longrightarrow> v = [] \<or> \<not> in_class f (hd v) \<or> length u = n \<Longrightarrow>
     hd (iterate (ends (One f)) n (b, u @ v)) = (if u = [] then b else Some (last u), v)"
proof (induction u arbitrary: b n)
  case Nil
  then have "v = [] \<or> \<not> in_class f (hd v) \<or> n = 0" by auto
  from iterate_One_stop [of v f n b, OF this] show ?case by (simp only: append_Nil if_True simp_thms)
next
  case (Cons c u)
  from Cons.prems(2) obtain m where m: "n = Suc m" by (cases n) auto
  then have "hd (iterate (ends (One f)) m (Some c, u @ v)) = (if u = [] then Some c else Some (last u), v)"
    using Cons.prems by (intro Cons.IH) auto
  moreover have "in_class f c" using Cons.prems(1) by simp
  ultimately have "hd (iterate (ends (One f)) n (b, (c # u) @ v)) = (if u = [] then Some c else Some (last u), v)"
    by (simp only: m append_Cons iterate_One_step if_True)
  then show ?case by (simp only:) simp
qed

lemma first_end_iterate:
  "first_end (Star r) p = Some (hd (iterate (ends r) (length (snd p)) p))"
  "first_end (UpTo n r) p = Some (hd (iterate (ends r) n p))"
proof -
  have "xs \<noteq> [] \<Longrightarrow> (case xs of [] \<Rightarrow> None | x # ys \<Rightarrow> Some x) = Some (hd xs)" for xs :: "position list"
    by (cases xs) auto
  from this [OF iterate_nonempty] show
    "first_end (Star r) p = Some (hd (iterate (ends r) (length (snd p)) p))"
    "first_end (UpTo n r) p = Some (hd (iterate (ends r) n p))"
    by (simp_all only: first_end_def ends.simps)
qed

lemma first_end_Star_One:
  "list_all (in_class f) u \<Longrightarrow> v = [] \<or> \<not> in_class f (hd v) \<Longrightarrow>
     first_end (Star (One f)) (b, u @ v) = Some (if u = [] then b else Some (last u), v)"
  by (simp only: first_end_iterate snd_conv) (subst iterate_One, auto)

lemma first_end_UpTo_One:
  "list_all (in_class f) u \<Longrightarrow> length u \<le> n \<Longrightarrow> v = [] \<or> \<not> in_class f (hd v) \<or> length u = n \<Longrightarrow>
     first_end (UpTo n (One f)) (b, u @ v) = Some (if u = [] then b else Some (last u), v)"
  by (simp only: first_end_iterate) (subst iterate_One, auto)

section \<open>Substitution\<close>

text \<open>
  \<open>pattern.sub(repl, text)\<close> for an alternation of named groups: the first group that matches at the first
  place that has a match is replaced, and the search goes on behind it.  The groups used match no empty
  text; such a match would be passed over.
\<close>

fun match_groups :: "('a \<times> regex) list \<Rightarrow> position \<Rightarrow> ('a \<times> position) option" where
  "match_groups [] p = None"
| "match_groups ((g, r) # gs) p =
     (case first_end r p of None \<Rightarrow> match_groups gs p | Some q \<Rightarrow> Some (g, q))"

function re_sub :: "('a \<times> regex) list \<Rightarrow> ('a \<Rightarrow> string \<Rightarrow> string) \<Rightarrow> position \<Rightarrow> string" where
  "re_sub gs repl (b, []) = []"
| "re_sub gs repl (b, c # cs) =
     (case match_groups gs (b, c # cs) of
        None \<Rightarrow> c # re_sub gs repl (Some c, cs)
      | Some (g, q) \<Rightarrow>
          if length (snd q) < Suc (length cs)
          then repl g (take (Suc (length cs) - length (snd q)) (c # cs)) @ re_sub gs repl q
          else c # re_sub gs repl (Some c, cs))"
  by pat_completeness auto
termination by (relation "measure (\<lambda>(gs, repl, p). length (snd p))") auto

lemma match_groups_after: "match_groups gs p = Some (g, q) \<Longrightarrow> after p q"
  by (induction gs) (auto split: option.splits dest: first_end_after)

text \<open>Text without a match is left as it is.\<close>

fun no_match :: "('a \<times> regex) list \<Rightarrow> char option \<Rightarrow> string \<Rightarrow> bool" where
  "no_match gs b [] \<longleftrightarrow> True"
| "no_match gs b (c # cs) \<longleftrightarrow> match_groups gs (b, c # cs) = None \<and> no_match gs (Some c) cs"

lemma re_sub_no_match: "no_match gs b s \<Longrightarrow> re_sub gs repl (b, s) = s"
  by (induction s arbitrary: b) auto

lemma re_sub_match:
  assumes "match_groups gs (b, s) = Some (g, (b', s'))" "length s' < length s"
  shows "re_sub gs repl (b, s) = repl g (take (length s - length s') s) @ re_sub gs repl (b', s')"
  using assms by (cases s) auto

lemma ends_none: "ends r p = [] \<Longrightarrow> first_end r p = None"
  by (simp add: first_end_def)

section \<open>Searching\<close>

text \<open>\<open>pattern.search\<close>: the text of the first match and the position behind it.\<close>

function re_search :: "regex \<Rightarrow> position \<Rightarrow> (string \<times> position) option" where
  "re_search r (b, s) =
     (case first_end r (b, s) of
        Some q \<Rightarrow> Some (take (length s - length (snd q)) s, q)
      | None \<Rightarrow> (case s of [] \<Rightarrow> None | c # cs \<Rightarrow> re_search r (Some c, cs)))"
  by pat_completeness auto
termination by (relation "measure (\<lambda>(r, p). length (snd p))") auto

text \<open>\<open>pattern.finditer\<close>, for a pattern that matches no empty text.\<close>

function re_finditer :: "regex \<Rightarrow> position \<Rightarrow> string list" where
  "re_finditer r p =
     (case re_search r p of
        None \<Rightarrow> []
      | Some (m, q) \<Rightarrow> if length (snd q) < length (snd p) then m # re_finditer r q else [])"
  by pat_completeness auto
termination by (relation "measure (\<lambda>(r, p). length (snd p))") auto

declare re_search.simps [simp del] re_finditer.simps [simp del]

end
