(* ===== verification/SecurityAgent.thy ===== *)
theory SecurityAgent
  imports FlowAgent PyRegex "HOL-Library.Multiset"
begin

text \<open>
  The security analysis (\<open>analysis/security_agent.py\<close>): flows of sensitive data, edges across trust
  boundaries, suspicious nodes and the risk score.

  A graph is false as a condition when it has no nodes.  Texts that NetworkX hands back as
  \<open>edge_type\<close> are what \<open>GraphIndex\<close> stored.  Scores are natural numbers, as the weights are.
\<close>

section \<open>Reports\<close>

datatype VulnerabilityType =
    UNSANITIZED_INPUT | SQL_INJECTION | TRUST_BOUNDARY_CROSSING | UNVALIDATED_DEPENDENCY
  | SENSITIVE_DATA_EXPOSURE | INSUFFICIENT_AUTH

fun boundary_value :: "SecurityBoundary \<Rightarrow> string" where
  "boundary_value SbNone = ''none''"
| "boundary_value SbAuthenticated = ''authenticated''"
| "boundary_value SbAuthorized = ''authorized''"
| "boundary_value SbAdmin = ''admin''"
| "boundary_value SbInternal = ''internal''"
| "boundary_value SbExternal = ''external''"
| "boundary_value SbSandboxed = ''sandboxed''"

record SensitiveDataFlow =
  sf_source_node :: string
  sf_target_node :: string
  sf_path :: "string list"
  sf_source_boundary :: string
  sf_target_boundary :: string
  sf_crosses_boundary :: bool
  sf_edge_types :: "string list"

record TrustBoundaryCrossing =
  bc_source_id :: string
  bc_target_id :: string
  bc_source_boundary :: string
  bc_target_boundary :: string
  bc_edge_type :: string
  bc_risk_level :: string
  bc_description :: string

record Vulnerability =
  vulnerability_type :: VulnerabilityType
  vu_node_id :: string
  vu_node_name :: string
  severity :: string
  vu_description :: string
  affected_data_flow :: "string list"
  recommendation :: string

record SecurityReport =
  sensitive_data_flows :: "SensitiveDataFlow list"
  trust_boundary_crossings :: "TrustBoundaryCrossing list"
  vulnerabilities :: "Vulnerability list"
  nodes_by_boundary :: "(string, nat) dict"
  total_nodes_analyzed :: nat
  boundary_crossing_count :: nat
  risk_score :: nat

definition empty_security_report :: SecurityReport where
  "empty_security_report = \<lparr>sensitive_data_flows = [], trust_boundary_crossings = [], vulnerabilities = [],
     nodes_by_boundary = [], total_nodes_analyzed = 0, boundary_crossing_count = 0, risk_score = 0\<rparr>"

section \<open>Words\<close>

definition MAX_SENSITIVE_FLOWS :: nat where "MAX_SENSITIVE_FLOWS = 50"
definition BOUNDARY_CROSSING_WEIGHT :: nat where "BOUNDARY_CROSSING_WEIGHT = 2"

definition SQL_PATTERNS :: "string list" where
  "SQL_PATTERNS = [''query'', ''execute'', ''select'', ''insert'', ''update'', ''delete'', ''sql'', ''cursor'']"

definition SANITIZE_PATTERNS :: "string list" where
  "SANITIZE_PATTERNS = [''sanitize'', ''escape'', ''validate'', ''clean'', ''encode'', ''parameterize'']"

definition SENSITIVE_KEYWORDS :: "string list" where
  "SENSITIVE_KEYWORDS = [''password'', ''token'', ''secret'', ''key'', ''credential'', ''ssn'', ''email'', ''auth'']"

definition INPUT_KEYWORDS :: "string list" where
  "INPUT_KEYWORDS = [''receive'', ''parse'', ''read'', ''input'', ''request'', ''param'']"

definition UNSAFE_OUTPUT_KEYWORDS :: "string list" where
  "UNSAFE_OUTPUT_KEYWORDS = [''html'', ''response'', ''exec'', ''query'', ''system'']"

definition risk_rank :: "string \<Rightarrow> nat" where
  "risk_rank l = (if l = ''high'' then 3 else if l = ''medium'' then 2 else if l = ''low'' then 1 else 0)"

definition severity_rank :: "string \<Rightarrow> nat" where
  "severity_rank l = (if l = ''high'' then 10 else if l = ''medium'' then 5 else if l = ''low'' then 1 else 0)"

definition contains_any :: "string list \<Rightarrow> string \<Rightarrow> bool" where
  "contains_any ps s \<longleftrightarrow> list_ex (\<lambda>p. py_contains p s) ps"

text \<open>\<open>\b(?:password|secret|token|key)\b\<close>, ignoring case: the word, with no word character on either side.\<close>

fun word_search :: "string list \<Rightarrow> bool \<Rightarrow> string \<Rightarrow> bool" where
  "word_search ws boundary [] = False"
| "word_search ws boundary (c # cs) =
     (boundary \<and> list_ex (\<lambda>w. py_startswith (c # cs) w \<and>
         (let r = drop (length w) (c # cs) in r = [] \<or> \<not> is_word_char (hd r))) ws
      \<or> word_search ws (\<not> is_word_char c) cs)"

definition name_matches_sensitive :: "string \<Rightarrow> bool" where
  "name_matches_sensitive n = word_search [''password'', ''secret'', ''token'', ''key''] True (py_lower n)"

section \<open>Checks of a node\<close>

definition has_sanitization :: "SGIRNode \<Rightarrow> bool" where
  "has_sanitization n \<longleftrightarrow>
     contains_any SANITIZE_PATTERNS (py_lower (node_name n))
     \<or> list_ex (\<lambda>p. contains_any SANITIZE_PATTERNS (py_lower p)) (postconditions n)"

definition is_sql_injection_risk :: "SGIRNode \<Rightarrow> bool" where
  "is_sql_injection_risk n \<longleftrightarrow>
     contains_any SQL_PATTERNS (py_lower (node_name n))
     \<and> list_ex (\<lambda>i. contains_any [''string'', ''raw'', ''text'', ''input''] (py_lower i)) (inputs n)
     \<and> \<not> has_sanitization n"

definition is_unsanitized_input :: "SGIRNode \<Rightarrow> bool" where
  "is_unsanitized_input n \<longleftrightarrow>
     contains_any INPUT_KEYWORDS (py_lower (node_name n))
     \<and> list_ex (\<lambda>o'. contains_any UNSAFE_OUTPUT_KEYWORDS (py_lower o')) (outputs n)
     \<and> \<not> has_sanitization n"

definition is_sensitive_source :: "SGIRNode \<Rightarrow> bool" where
  "is_sensitive_source n \<longleftrightarrow>
     contains_any SENSITIVE_KEYWORDS (py_lower (node_name n))
     \<or> security_boundary n \<in> {SbAuthenticated, SbAuthorized, SbAdmin}"

section \<open>Boundaries\<close>

definition build_boundary_map :: "SoftwareGraph \<Rightarrow> (string, SecurityBoundary) dict" where
  "build_boundary_map sg =
     fold (\<lambda>(l, g) m. fold (\<lambda>n. dict_setdefault (node_id n) (security_boundary n)) (nodes g) m) (layers sg) []"

definition count_by_boundary :: "(string, SecurityBoundary) dict \<Rightarrow> (string, nat) dict" where
  "count_by_boundary m =
     fold (\<lambda>(i, b) d. dict_set (boundary_value b)
             ((case dict_get d (boundary_value b) of None \<Rightarrow> 0 | Some k \<Rightarrow> k) + 1) d) m []"

definition boundary_of :: "(string, SecurityBoundary) dict \<Rightarrow> string \<Rightarrow> SecurityBoundary" where
  "boundary_of m i = (case dict_get m i of None \<Rightarrow> SbNone | Some b \<Rightarrow> b)"

definition edge_type_text :: "string \<Rightarrow> (string, json) dict \<Rightarrow> string" where
  "edge_type_text dflt d = (case dict_get d ''edge_type'' of Some (JStr s) \<Rightarrow> s | _ \<Rightarrow> dflt)"

definition crossing_risk :: "SecurityBoundary \<Rightarrow> SecurityBoundary \<Rightarrow> string" where
  "crossing_risk s t =
     (if (s = SbNone \<or> s = SbExternal) \<and> t \<in> {SbAuthenticated, SbAuthorized, SbAdmin} then ''high''
      else if s = SbAdmin \<and> t \<noteq> SbAdmin then ''high''
      else if s = SbInternal \<and> t = SbExternal then ''medium''
      else ''low'')"

section \<open>The agent\<close>

fun flows_to ::
    "'g nx_data \<Rightarrow> 'g \<Rightarrow> (string, SecurityBoundary) dict \<Rightarrow> string \<Rightarrow> string list \<Rightarrow> nx_error + SensitiveDataFlow list" where
  "flows_to nd g m s [] = Inr []"
| "flows_to nd g m s (t # ts) =
     (case nx_path nd g s t of
        Inl e \<Rightarrow> if e = NetworkXNoPath \<or> e = NodeNotFound then flows_to nd g m s ts else Inl e
      | Inr p \<Rightarrow>
          (let sb = boundary_value (boundary_of m s); tb = boundary_value (boundary_of m t)
           in case flows_to nd g m s ts of
                Inl e \<Rightarrow> Inl e
              | Inr fs \<Rightarrow> Inr (\<lparr>sf_source_node = s, sf_target_node = t, sf_path = p, sf_source_boundary = sb,
                    sf_target_boundary = tb, sf_crosses_boundary = (sb \<noteq> tb \<and> sb \<noteq> ''none''),
                    sf_edge_types = fold (\<lambda>x xs. if x \<in> set xs then xs else xs @ [x])
                      (map (\<lambda>(u, v). edge_type_text [] (nx_edge_data nd g u v)) (pairwise p)) []\<rparr> # fs)))"

fun flows_from ::
    "'g networkx \<Rightarrow> 'g nx_data \<Rightarrow> SoftwareGraph \<Rightarrow> 'g \<Rightarrow> (string, SecurityBoundary) dict \<Rightarrow> string list
       \<Rightarrow> nx_error + SensitiveDataFlow list" where
  "flows_from nx nd sg g m [] = Inr []"
| "flows_from nx nd sg g m (s # ss) =
     (case find_node s sg of
        None \<Rightarrow> flows_from nx nd sg g m ss
      | Some n \<Rightarrow>
          if \<not> is_sensitive_source n then flows_from nx nd sg g m ss
          else case flows_to nd g m s (nx_descendants nx g s) of
                 Inl e \<Rightarrow> Inl e
               | Inr fs \<Rightarrow> (case flows_from nx nd sg g m ss of Inl e \<Rightarrow> Inl e | Inr gs \<Rightarrow> Inr (fs @ gs)))"

definition trace_sensitive_data_flows ::
    "'g networkx \<Rightarrow> 'g nx_data \<Rightarrow> SoftwareGraph \<Rightarrow> 'g option \<Rightarrow> (string, SecurityBoundary) dict
       \<Rightarrow> nx_error + SensitiveDataFlow list" where
  "trace_sensitive_data_flows nx nd sg data_flow m =
     (case data_flow of
        None \<Rightarrow> Inr []
      | Some g \<Rightarrow>
          (case flows_from nx nd sg g m (filter (\<lambda>n. nx_in_degree nx g n = 0) (nx_nodes nx g)) of
             Inl e \<Rightarrow> Inl e | Inr fs \<Rightarrow> Inr (take MAX_SENSITIVE_FLOWS fs)))"

definition crossing_of ::
    "'g nx_data \<Rightarrow> 'g \<Rightarrow> (string, SecurityBoundary) dict \<Rightarrow> string \<times> string \<Rightarrow> TrustBoundaryCrossing option" where
  "crossing_of nd g m e =
     (case e of (s, t) \<Rightarrow>
        let sb = boundary_of m s; tb = boundary_of m t
        in if sb = tb \<or> sb = SbNone \<and> tb = SbNone then None
           else Some \<lparr>bc_source_id = s, bc_target_id = t, bc_source_boundary = boundary_value sb,
                  bc_target_boundary = boundary_value tb, bc_edge_type = edge_type_text ''unknown'' (nx_edge_data nd g s t),
                  bc_risk_level = crossing_risk sb tb,
                  bc_description = ''Data flows from '' @ boundary_value sb @ '' to '' @ boundary_value tb @ '' boundary''\<rparr>)"

definition detect_trust_boundary_crossings ::
    "'g networkx \<Rightarrow> 'g nx_data \<Rightarrow> 'g option \<Rightarrow> (string, SecurityBoundary) dict \<Rightarrow> TrustBoundaryCrossing list" where
  "detect_trust_boundary_crossings nx nd security_graph m =
     (case security_graph of
        None \<Rightarrow> []
      | Some g \<Rightarrow> sort_key (\<lambda>c. - int (risk_rank (bc_risk_level c))) (List.map_filter (crossing_of nd g m) (nx_edge_list nx g)))"

definition finding ::
    "VulnerabilityType \<Rightarrow> string \<Rightarrow> string \<Rightarrow> string \<Rightarrow> string \<Rightarrow> string list \<Rightarrow> string \<Rightarrow> Vulnerability" where
  "finding ty i n sev d fl rec = \<lparr>vulnerability_type = ty, vu_node_id = i, vu_node_name = n, severity = sev,
     vu_description = d, affected_data_flow = fl, recommendation = rec\<rparr>"

definition node_text :: "string \<Rightarrow> string \<Rightarrow> string" where
  "node_text n rest = ''Node '' @ [CHR 0x27] @ n @ [CHR 0x27] @ rest"

definition scan_node :: "SoftwareGraph \<Rightarrow> (string, SecurityBoundary) dict \<Rightarrow> string \<Rightarrow> Vulnerability list" where
  "scan_node sg m i =
     (case find_node i sg of
        None \<Rightarrow> []
      | Some n \<Rightarrow>
          (if is_sql_injection_risk n
           then [finding SQL_INJECTION i (node_name n) ''high''
                   (node_text (node_name n) '' may execute SQL with unsanitized input'') [i]
                   ''Use parameterized queries and input validation''] else [])
          @ (if is_unsanitized_input n
             then [finding UNSANITIZED_INPUT i (node_name n) ''medium''
                     (node_text (node_name n) '' accepts input that may not be sanitized'') [i]
                     ''Validate and sanitize all external inputs''] else [])
          @ (if boundary_of m i = SbNone \<and> name_matches_sensitive (node_name n)
             then [finding SENSITIVE_DATA_EXPOSURE i (node_name n) ''high''
                     (node_text (node_name n) '' handles sensitive data without a security boundary'') [i]
                     ''Apply appropriate security boundaries to sensitive data handlers''] else []))"

definition scan_per_node ::
    "'g networkx \<Rightarrow> SoftwareGraph \<Rightarrow> 'g option \<Rightarrow> (string, SecurityBoundary) dict \<Rightarrow> Vulnerability list" where
  "scan_per_node nx sg call_graph m =
     (case call_graph of None \<Rightarrow> [] | Some g \<Rightarrow> concat (map (scan_node sg m) (nx_nodes nx g)))"

definition scan_edge ::
    "SoftwareGraph \<Rightarrow> (string, SecurityBoundary) dict \<Rightarrow> string \<times> string \<Rightarrow> Vulnerability list" where
  "scan_edge sg m e =
     (case e of (s, t) \<Rightarrow>
        if boundary_of m s = SbNone \<and> boundary_of m t \<noteq> SbNone \<and> boundary_of m t \<noteq> SbExternal
        then (case find_node s sg of
                None \<Rightarrow> []
              | Some n \<Rightarrow> if has_sanitization n then []
                  else [finding TRUST_BOUNDARY_CROSSING s (node_name n) ''medium''
                          (''Untrusted node '' @ [CHR 0x27] @ node_name n @ [CHR 0x27] @ '' feeds into ''
                             @ boundary_value (boundary_of m t) @ '' boundary'') [s, t]
                          ''Validate and sanitize data crossing trust boundaries''])
        else [])"

definition scan_per_edge ::
    "'g networkx \<Rightarrow> SoftwareGraph \<Rightarrow> 'g option \<Rightarrow> (string, SecurityBoundary) dict \<Rightarrow> Vulnerability list" where
  "scan_per_edge nx sg data_flow m =
     (case data_flow of None \<Rightarrow> [] | Some g \<Rightarrow> concat (map (scan_edge sg m) (nx_edge_list nx g)))"

definition detect_vulnerabilities ::
    "'g networkx \<Rightarrow> SoftwareGraph \<Rightarrow> 'g option \<Rightarrow> 'g option \<Rightarrow> (string, SecurityBoundary) dict \<Rightarrow> Vulnerability list" where
  "detect_vulnerabilities nx sg call_graph data_flow m =
     sort_key (\<lambda>v. - int (severity_rank (severity v))) (scan_per_node nx sg call_graph m @ scan_per_edge nx sg data_flow m)"

definition compute_risk_score :: "Vulnerability list \<Rightarrow> nat \<Rightarrow> nat" where
  "compute_risk_score vs crossing_count =
     sum_list (map (\<lambda>v. severity_rank (severity v)) vs) + crossing_count * BOUNDARY_CROSSING_WEIGHT"

text \<open>\<open>data_flow_graph or security_graph\<close>, and \<open>if graph\<close>.\<close>

definition graph_true :: "'g networkx \<Rightarrow> 'g option \<Rightarrow> bool" where
  "graph_true nx g \<longleftrightarrow> (case g of None \<Rightarrow> False | Some h \<Rightarrow> nx_nodes nx h \<noteq> [])"

definition analyze_security :: "'g networkx \<Rightarrow> 'g nx_data \<Rightarrow> 'g GraphIndex \<Rightarrow> nx_error + SecurityReport" where
  "analyze_security nx nd gi =
     (let security_graph = get_graph LSecurity gi; data_flow_graph = get_graph LDataFlow gi; call_graph = get_graph LCall gi;
          sg = gi_sg gi; m = build_boundary_map sg
      in if security_graph = None \<and> data_flow_graph = None then Inr empty_security_report
         else case trace_sensitive_data_flows nx nd sg
                     (if graph_true nx data_flow_graph then data_flow_graph else security_graph) m of
                Inl e \<Rightarrow> Inl e
              | Inr flows \<Rightarrow>
                  (let crossings = detect_trust_boundary_crossings nx nd security_graph m;
                       vulns = detect_vulnerabilities nx sg call_graph data_flow_graph m
                   in Inr \<lparr>sensitive_data_flows = flows, trust_boundary_crossings = crossings, vulnerabilities = vulns,
                          nodes_by_boundary = count_by_boundary m,
                          total_nodes_analyzed =
                            (if graph_true nx security_graph then length (nx_nodes nx (the security_graph))
                             else if graph_true nx data_flow_graph then length (nx_nodes nx (the data_flow_graph)) else 0),
                          boundary_crossing_count = length crossings,
                          risk_score = compute_risk_score vulns (length crossings)\<rparr>))"

section \<open>What is reported\<close>

lemma map_filter_concat: "List.map_filter f xs = concat (map (\<lambda>x. case f x of None \<Rightarrow> [] | Some y \<Rightarrow> [y]) xs)"
  by (induction xs) (auto simp: List.map_filter_def split: option.split)

lemma boundary_value_inj: "boundary_value a = boundary_value b \<longleftrightarrow> a = b"
  by (cases a; cases b) simp_all

lemma crossing_of_Some:
  "crossing_of nd g m (s, t) = Some c \<Longrightarrow>
     bc_source_id c = s \<and> bc_target_id c = t \<and> boundary_of m s \<noteq> boundary_of m t
     \<and> bc_risk_level c = crossing_risk (boundary_of m s) (boundary_of m t)"
  by (auto simp: crossing_of_def Let_def split: if_splits)

lemma crossing_of_None: "crossing_of nd g m (s, t) = None \<longleftrightarrow> boundary_of m s = boundary_of m t"
  by (auto simp: crossing_of_def Let_def)

text \<open>
  The reported crossings are exactly the edges of the security graph whose ends have different
  boundaries, each once and with the risk of its pair of boundaries, the riskiest first.
\<close>

theorem crossings_spec:
  assumes "nx_documented nx" "cs = detect_trust_boundary_crossings nx nd (Some g) m"
  shows "distinct (map (\<lambda>c. (bc_source_id c, bc_target_id c)) cs)
    \<and> (\<lambda>c. (bc_source_id c, bc_target_id c)) ` set cs = {(s, t) \<in> nx_pairs nx g. boundary_of m s \<noteq> boundary_of m t}
    \<and> list_all (\<lambda>c. bc_risk_level c = crossing_risk (boundary_of m (bc_source_id c)) (boundary_of m (bc_target_id c))) cs
    \<and> sorted_wrt (\<lambda>a b. risk_rank (bc_risk_level b) \<le> risk_rank (bc_risk_level a)) cs"
proof -
  let ?ends = "\<lambda>c. (bc_source_id c, bc_target_id c)" and ?f = "crossing_of nd g m"
  let ?es = "nx_edge_list nx g"
  have ends: "?f e = Some c \<Longrightarrow> ?ends c = e" for e c by (cases e) (auto dest: crossing_of_Some)
  have some: "(\<exists>c. ?f e = Some c) \<longleftrightarrow> boundary_of m (fst e) \<noteq> boundary_of m (snd e)" for e
    using crossing_of_None [of nd g m "fst e" "snd e"] by auto
  have cs: "cs = sort_key (\<lambda>c. - int (risk_rank (bc_risk_level c))) (List.map_filter ?f ?es)"
    by (simp add: assms(2) detect_trust_boundary_crossings_def)
  have "distinct es \<Longrightarrow> distinct (map ?ends (List.map_filter ?f es))
      \<and> ?ends ` set (List.map_filter ?f es) = {e \<in> set es. \<exists>c. ?f e = Some c}" for es
  proof (induction es)
    case (Cons e es)
    show ?case
    proof (cases "?f e")
      case None
      with Cons show ?thesis by (auto simp: map_filter_concat)
    next
      case (Some c)
      from ends [OF this] have "bc_source_id c = fst e" "bc_target_id c = snd e" by auto
      with Cons Some show ?thesis by (auto simp: map_filter_concat)
    qed
  qed (simp add: map_filter_concat)
  from this [OF nx_documentedD(10) [OF assms(1), of g]]
  have d: "distinct (map ?ends (List.map_filter ?f ?es))"
    and s: "?ends ` set (List.map_filter ?f ?es) = {e \<in> set ?es. \<exists>c. ?f e = Some c}" by simp_all
  have "mset cs = mset (List.map_filter ?f ?es)" by (simp add: cs)
  then have "mset (map ?ends cs) = mset (map ?ends (List.map_filter ?f ?es))" by simp
  with d have "distinct (map ?ends cs)" by (metis mset_eq_imp_distinct_iff)
  moreover have "set cs = set (List.map_filter ?f ?es)" by (simp add: cs)
  then have "?ends ` set cs = {(s, t) \<in> nx_pairs nx g. boundary_of m s \<noteq> boundary_of m t}"
    using s some by (auto simp: nx_pairs_def)
  moreover have "c \<in> set cs \<Longrightarrow> \<exists>e. ?f e = Some c" for c
    by (auto simp: cs map_filter_concat split: option.splits) metis
  then have "list_all (\<lambda>c. bc_risk_level c = crossing_risk (boundary_of m (bc_source_id c)) (boundary_of m (bc_target_id c))) cs"
    by (force simp: list_all_iff dest: crossing_of_Some)
  moreover have "sorted_wrt (\<lambda>a b. risk_rank (bc_risk_level b) \<le> risk_rank (bc_risk_level a)) cs"
    using sorted_sort_key [of "\<lambda>c. - int (risk_rank (bc_risk_level c))" "List.map_filter ?f ?es"]
    by (simp add: cs sorted_map)
  ultimately show ?thesis by blast
qed

lemma severities_of_findings:
  assumes "v \<in> set (detect_vulnerabilities nx sg cg df m)"
  shows "severity v \<in> {''high'', ''medium''}"
proof -
  have "v \<in> set (scan_node sg m i) \<Longrightarrow> severity v \<in> {''high'', ''medium''}" for i
    by (auto simp: scan_node_def finding_def split: if_splits option.splits)
  moreover have "list_all (\<lambda>v. severity v = ''medium'') (scan_edge sg m e)" for e
    by (simp add: scan_edge_def finding_def split: option.split prod.split)
  ultimately show ?thesis
    using assms by (cases cg; cases df)
      (auto simp: detect_vulnerabilities_def scan_per_node_def scan_per_edge_def list_all_iff)
qed

text \<open>
  The score of a report is ten for each finding of high severity, five for each other finding and
  two for each crossing, so it is zero exactly if nothing is reported.
\<close>

theorem risk_score_spec:
  assumes "analyze_security nx nd gi = Inr r"
  shows "risk_score r = 10 * length (filter (\<lambda>v. severity v = ''high'') (vulnerabilities r))
      + 5 * length (filter (\<lambda>v. severity v \<noteq> ''high'') (vulnerabilities r)) + 2 * length (trust_boundary_crossings r)
    \<and> (risk_score r = 0 \<longleftrightarrow> vulnerabilities r = [] \<and> trust_boundary_crossings r = [])"
proof -
  have score: "\<forall>v\<in>set vs. severity v \<in> {''high'', ''medium''} \<Longrightarrow>
      compute_risk_score vs k = 10 * length (filter (\<lambda>v. severity v = ''high'') vs)
        + 5 * length (filter (\<lambda>v. severity v \<noteq> ''high'') vs) + 2 * k" for vs k
    by (induction vs) (auto simp: compute_risk_score_def BOUNDARY_CROSSING_WEIGHT_def severity_rank_def)
  have zero: "filter (\<lambda>v. severity v = x) vs = [] \<and> filter (\<lambda>v. severity v \<noteq> x) vs = [] \<longleftrightarrow> vs = []" for vs x
    by (cases vs) auto
  let ?vs = "detect_vulnerabilities nx (gi_sg gi) (get_graph LCall gi) (get_graph LDataFlow gi) (build_boundary_map (gi_sg gi))"
  have "r = empty_security_report \<or> vulnerabilities r = ?vs
      \<and> risk_score r = compute_risk_score ?vs (length (trust_boundary_crossings r))"
    using assms by (auto simp: analyze_security_def Let_def split: sum.splits if_splits)
  then show ?thesis
  proof
    assume "r = empty_security_report"
    then show ?thesis by (simp add: empty_security_report_def)
  next
    assume v: "vulnerabilities r = ?vs \<and> risk_score r = compute_risk_score ?vs (length (trust_boundary_crossings r))"
    have all: "\<forall>v\<in>set ?vs. severity v \<in> {''high'', ''medium''}" using severities_of_findings by blast
    have "risk_score r = 10 * length (filter (\<lambda>v. severity v = ''high'') ?vs)
        + 5 * length (filter (\<lambda>v. severity v \<noteq> ''high'') ?vs) + 2 * length (trust_boundary_crossings r)"
      using v score [OF all] by (simp only:)
    then show ?thesis using v zero [of "''high''" ?vs] by auto
  qed
qed

section \<open>Examples\<close>

definition web_graph :: SoftwareGraph where
  "web_graph = flow_graph\<lparr>layers := [(LSecurity, \<lparr>layer = LSecurity,
     nodes = [new_node ''form'' ''form'', (new_node ''admin'' ''admin'')\<lparr>security_boundary := SbAdmin\<rparr>],
     edges = [new_edge ''form'' ''admin'' EData], graph_metadata = []\<rparr>)]\<rparr>"

definition web_map :: "(string, SecurityBoundary) dict" where
  "web_map = [(''form'', SbNone), (''admin'', SbAdmin)]"

lemma web_boundary_map: "build_boundary_map web_graph = web_map"
  by code_simp

lemma crossings_spec_witness:
  "\<exists>cs. cs = detect_trust_boundary_crossings list_nx list_nd (Some ([], [(''form'', ''admin'')])) web_map
     \<and> (\<lambda>c. (bc_source_id c, bc_target_id c)) ` set cs = {(''form'', ''admin'')}"
proof -
  let ?g = "([], [(''form'', ''admin'')]) :: list_graph"
  have "{(s, t) \<in> nx_pairs list_nx ?g. boundary_of web_map s \<noteq> boundary_of web_map t} = {(''form'', ''admin'')}"
    by (auto simp: nx_pairs_def list_nx_def web_map_def boundary_of_def)
  with crossings_spec [OF list_nx_documented refl, of list_nd ?g web_map] show ?thesis by simp
qed

lemma risk_score_spec_witness:
  "\<exists>r. analyze_security list_nx list_nd (mk_index list_nx web_graph) = Inr r
     \<and> risk_score r = 2 \<and> length (trust_boundary_crossings r) = 1"
proof -
  have "case analyze_security list_nx list_nd (mk_index list_nx web_graph) of
      Inl e \<Rightarrow> False | Inr r \<Rightarrow> vulnerabilities r = [] \<and> length (trust_boundary_crossings r) = 1"
    by code_simp
  then obtain r where r: "analyze_security list_nx list_nd (mk_index list_nx web_graph) = Inr r"
    "vulnerabilities r = []" "length (trust_boundary_crossings r) = 1" by (auto split: sum.splits)
  from risk_score_spec [OF r(1)] r show ?thesis by simp
qed

text \<open>Every reported flow is a path in the graph, from a sensitive source, and at most fifty are reported.\<close>

lemma flows_to_paths:
  "flows_to nd g m s ts = Inr fs \<Longrightarrow> nx_data_documented nx nd \<Longrightarrow> f \<in> set fs \<Longrightarrow>
     sf_source_node f = s \<and> path_of (nx_pairs nx g) s (sf_target_node f) (sf_path f)"
  by (induction ts arbitrary: fs)
    (auto simp: nx_data_documented_def Let_def split: sum.splits if_splits)

lemma flows_to_source: "flows_to nd g m s ts = Inr fs \<Longrightarrow> f \<in> set fs \<Longrightarrow> sf_source_node f = s"
  by (induction ts arbitrary: fs) (auto simp: Let_def split: sum.splits if_splits)

lemma flows_from_paths:
  "flows_from nx nd sg g m ss = Inr fs \<Longrightarrow> nx_data_documented nx nd \<Longrightarrow> f \<in> set fs \<Longrightarrow>
     path_of (nx_pairs nx g) (sf_source_node f) (sf_target_node f) (sf_path f)
     \<and> (\<exists>n. find_node (sf_source_node f) sg = Some n \<and> is_sensitive_source n)"
  by (induction ss arbitrary: fs) (auto split: sum.splits option.splits if_splits dest: flows_to_paths simp: flows_to_source)

lemma traced_flows_sound:
  assumes "trace_sensitive_data_flows nx nd sg (Some g) m = Inr fs" "nx_data_documented nx nd"
  shows "length fs \<le> MAX_SENSITIVE_FLOWS
    \<and> (\<forall>f\<in>set fs. path_of (nx_pairs nx g) (sf_source_node f) (sf_target_node f) (sf_path f)
         \<and> (\<exists>n. find_node (sf_source_node f) sg = Some n \<and> is_sensitive_source n))"
  using assms by (auto simp: trace_sensitive_data_flows_def split: sum.splits dest!: in_set_takeD flows_from_paths)

text \<open>A flow from a source without a boundary into one is never marked as crossing, though its edge is a high risk.\<close>

lemma untrusted_flow_not_crossing:
  "boundary_of m s = SbNone \<Longrightarrow> flows_to nd g m s ts = Inr fs \<Longrightarrow> f \<in> set fs \<Longrightarrow> \<not> sf_crosses_boundary f"
  by (induction ts arbitrary: fs) (auto simp: Let_def split: sum.splits if_splits)

lemma untrusted_crossing_is_high: "crossing_risk SbNone SbAdmin = ''high''"
  by (simp add: crossing_risk_def)

text \<open>Names that only contain a keyword do not count, as the docs say.\<close>

lemma keyword_needs_word_boundary:
  "\<not> name_matches_sensitive ''api_key''" "\<not> name_matches_sensitive ''monkey''" "name_matches_sensitive ''get-Token''"
  by code_simp+

end
