(* ===== verification/ArchPerfAgents.thy ===== *)
theory ArchPerfAgents
  imports FlowAgent "HOL-Library.Multiset"
begin

text \<open>
  The architecture and the performance analysis (\<open>analysis/architecture_agent.py\<close>,
  \<open>analysis/performance_agent.py\<close>) of the call graph.

  Every query names the call layer, so of the index only the two memoised rankings can change;
  \<open>analyze_architecture\<close> gives the report and the index.  Cost factors and ratios are rationals.
\<close>

section \<open>Architecture\<close>

datatype CouplingSeverity = SevLow | SevMedium | SevHigh | SevCritical

record CouplingFinding =
  cf_node_id :: string
  cf_node_name :: string
  cf_fan_in :: nat
  cf_fan_out :: nat
  total_coupling :: nat
  cf_severity :: CouplingSeverity
  cf_recommendation :: string

record LayeringViolation =
  lv_source_id :: string
  lv_target_id :: string
  lv_source_layer :: string
  lv_target_layer :: string
  lv_edge_type :: string
  lv_description :: string

record ModuleInfo =
  module_id :: nat
  module_nodes :: "string list"
  module_node_count :: nat
  internal_edges :: nat
  external_edges :: nat
  cohesion :: rat

record ArchitectureReport =
  ar_total_nodes :: nat
  ar_total_edges :: nat
  ar_density :: rat
  ar_is_dag :: bool
  coupling_findings :: "CouplingFinding list"
  layering_violations :: "LayeringViolation list"
  modules :: "ModuleInfo list"
  ar_cycles :: "string list list"
  high_coupling_nodes :: "string list"
  orphan_nodes :: "string list"

definition CRITICAL_THRESHOLD :: nat where "CRITICAL_THRESHOLD = 20"
definition HIGH_THRESHOLD :: nat where "HIGH_THRESHOLD = 12"
definition MEDIUM_THRESHOLD :: nat where "MEDIUM_THRESHOLD = 7"
definition FAN_THRESHOLD :: nat where "FAN_THRESHOLD = 10"

definition coupling_severity :: "nat \<Rightarrow> nat \<Rightarrow> CouplingSeverity" where
  "coupling_severity fi fo =
     (let t = fi + fo
      in if CRITICAL_THRESHOLD \<le> t then SevCritical else if HIGH_THRESHOLD \<le> t then SevHigh
         else if MEDIUM_THRESHOLD \<le> t then SevMedium else SevLow)"

definition coupling_recommendation :: "nat \<Rightarrow> nat \<Rightarrow> string" where
  "coupling_recommendation fi fo =
     (if FAN_THRESHOLD < fi
      then ''High fan-in suggests this node is a shared utility; consider extracting into a dedicated module''
      else if FAN_THRESHOLD < fo
      then ''High fan-out suggests this node orchestrates too many concerns; consider decomposition''
      else ''Moderate coupling; review for potential refactoring opportunities'')"

definition call_fan_in :: "'g networkx \<Rightarrow> 'g GraphIndex \<Rightarrow> string \<Rightarrow> nat" where
  "call_fan_in nx gi i = fst (fan_in nx i (Some LCall) gi)"

definition call_fan_out :: "'g networkx \<Rightarrow> 'g GraphIndex \<Rightarrow> string \<Rightarrow> nat" where
  "call_fan_out nx gi i = fst (fan_out nx i (Some LCall) gi)"

definition coupling_finding :: "'g networkx \<Rightarrow> 'g nx_data \<Rightarrow> 'g \<Rightarrow> 'g GraphIndex \<Rightarrow> string \<Rightarrow> CouplingFinding" where
  "coupling_finding nx nd g gi i =
     (let fi = call_fan_in nx gi i; fo = call_fan_out nx gi i
      in \<lparr>cf_node_id = i, cf_node_name = attr_name nd g i, cf_fan_in = fi, cf_fan_out = fo, total_coupling = fi + fo,
          cf_severity = coupling_severity fi fo, cf_recommendation = coupling_recommendation fi fo\<rparr>)"

definition detect_coupling :: "'g networkx \<Rightarrow> 'g nx_data \<Rightarrow> 'g GraphIndex \<Rightarrow> CouplingFinding list" where
  "detect_coupling nx nd gi =
     (case get_graph LCall gi of
        None \<Rightarrow> []
      | Some g \<Rightarrow>
          sort_key (\<lambda>f. - int (total_coupling f))
            (map (coupling_finding nx nd g gi)
              (filter (\<lambda>i. \<not> call_fan_in nx gi i + call_fan_out nx gi i < MEDIUM_THRESHOLD) (nx_nodes nx g))))"

definition build_node_layer_map :: "SoftwareGraph \<Rightarrow> (string, string) dict" where
  "build_node_layer_map sg =
     fold (\<lambda>(l, g) m. fold (\<lambda>n. dict_setdefault (node_id n) (layer_value l)) (nodes g) m) (layers sg) []"

definition violation_of :: "SGIREdge \<Rightarrow> string \<Rightarrow> string \<Rightarrow> LayeringViolation" where
  "violation_of e sn tn =
     \<lparr>lv_source_id = source e, lv_target_id = target e, lv_source_layer = sn, lv_target_layer = tn,
      lv_edge_type = edge_type_value (edge_type e),
      lv_description = ''Cross-layer '' @ edge_type_value (edge_type e) @ '' edge from '' @ sn @ '' to '' @ tn\<rparr>"

definition layering_violation :: "(string, string) dict \<Rightarrow> SGIREdge \<Rightarrow> LayeringViolation list" where
  "layering_violation m e =
     (case (dict_get m (source e), dict_get m (target e)) of
        (Some sn, Some tn) \<Rightarrow>
          if sn \<noteq> tn \<and> edge_type e \<in> {ECall, EData, EImport}
          then [violation_of e sn tn]
          else []
      | _ \<Rightarrow> [])"

definition detect_layering_violations :: "SoftwareGraph \<Rightarrow> LayeringViolation list" where
  "detect_layering_violations sg =
     (let m = build_node_layer_map sg in concat (map (\<lambda>(l, g). concat (map (layering_violation m) (edges g))) (layers sg)))"

definition count_edges :: "((string \<times> string) \<Rightarrow> bool) \<Rightarrow> (string \<times> string) list \<Rightarrow> nat" where
  "count_edges p es = length (filter p es)"

definition module_info :: "(string \<times> string) list \<Rightarrow> nat \<Rightarrow> string list \<Rightarrow> ModuleInfo" where
  "module_info es idx community =
     (let internal = count_edges (\<lambda>(u, v). u \<in> set community \<and> v \<in> set community) es;
          external = count_edges (\<lambda>(u, v). \<not> (u \<in> set community \<and> v \<in> set community)
                                          \<and> (u \<in> set community \<or> v \<in> set community)) es;
          total = internal + external
      in \<lparr>module_id = idx, module_nodes = community, module_node_count = length community,
          internal_edges = internal, external_edges = external,
          cohesion = (if 0 < total then of_nat internal / of_nat total else 0)\<rparr>)"

definition detect_modules :: "'g networkx \<Rightarrow> 'g GraphIndex \<Rightarrow> ModuleInfo list" where
  "detect_modules nx gi =
     (let communities = fst (detect_communities nx (Some LCall) gi)
      in case get_graph LCall gi of
           None \<Rightarrow> []
         | Some g \<Rightarrow> sort_key (\<lambda>m. - cohesion m)
             (map (\<lambda>i. module_info (nx_edge_list nx g) i (communities ! i)) [0..<length communities]))"

definition find_high_coupling_nodes ::
    "'g networkx \<Rightarrow> (string list \<Rightarrow> string list) \<Rightarrow> 'g GraphIndex \<Rightarrow> string list \<times> 'g GraphIndex" where
  "find_high_coupling_nodes nx iter gi =
     (let (high_out, gi1) = high_fan_out_nodes nx (int FAN_THRESHOLD) (Some LCall) gi;
          (high_in, gi2) = high_fan_in_nodes nx (int FAN_THRESHOLD) (Some LCall) gi1
      in (iter (high_out @ high_in), gi2))"

definition find_orphan_nodes :: "'g networkx \<Rightarrow> 'g GraphIndex \<Rightarrow> string list" where
  "find_orphan_nodes nx gi =
     (case get_graph LCall gi of
        None \<Rightarrow> [] | Some g \<Rightarrow> filter (\<lambda>i. nx_in_degree nx g i = 0 \<and> nx_out_degree nx g i = 0) (nx_nodes nx g))"

definition analyze_architecture ::
    "'g networkx \<Rightarrow> 'g nx_data \<Rightarrow> (string list \<Rightarrow> string list) \<Rightarrow> 'g GraphIndex
       \<Rightarrow> (nx_error + ArchitectureReport) \<times> 'g GraphIndex" where
  "analyze_architecture nx nd iter gi =
     (case fst (find_cycles nx (Some LCall) gi) of
        Inl e \<Rightarrow> (Inl e, gi)
      | Inr cs \<Rightarrow>
          (let (high, gi') = find_high_coupling_nodes nx iter gi
           in (Inr \<lparr>ar_total_nodes = sum_list (map (\<lambda>(l, g). length (nx_nodes nx g)) (graphs gi)),
                  ar_total_edges = sum_list (map (\<lambda>(l, g). length (nx_edge_list nx g)) (graphs gi)),
                  ar_density = (case get_graph LCall gi of
                      None \<Rightarrow> 0 | Some g \<Rightarrow> if 1 < length (nx_nodes nx g) then nx_density nx g else 0),
                  ar_is_dag = (case get_graph LCall gi of None \<Rightarrow> True | Some g \<Rightarrow> nx_is_dag nx g),
                  coupling_findings = detect_coupling nx nd gi,
                  layering_violations = detect_layering_violations (gi_sg gi),
                  modules = detect_modules nx gi, ar_cycles = cs, high_coupling_nodes = high,
                  orphan_nodes = find_orphan_nodes nx gi'\<rparr>, gi')))"

section \<open>Performance\<close>

record CriticalPathInfo =
  cp_source :: string
  cp_target :: string
  cp_path :: "string list"
  cp_path_length :: nat
  cp_total_weight :: rat

record ExpensiveComputation =
  ec_node_id :: string
  ec_node_name :: string
  ec_complexity :: string
  ec_fan_in :: nat
  ec_fan_out :: nat
  callers :: "string list"
  cost_score :: rat

record CachingOpportunity =
  co_node_id :: string
  co_node_name :: string
  co_reason :: string
  estimated_speedup :: string
  co_fan_in :: nat

record ParallelizationOpportunity =
  po_node_ids :: "string list"
  po_reason :: string
  potential_speedup :: string

record PerformanceReport =
  critical_paths :: "CriticalPathInfo list"
  expensive_computations :: "ExpensiveComputation list"
  caching_opportunities :: "CachingOpportunity list"
  parallelization_opportunities :: "ParallelizationOpportunity list"
  pr_total_nodes_analyzed :: nat
  high_complexity_nodes :: nat
  complexity_counts :: "(string, nat) dict"

definition EXPENSIVE_COMPLEXITIES :: "string list" where
  "EXPENSIVE_COMPLEXITIES = map complexity_value [Quadratic, Cubic, Exponential]"

fun complexity_cost :: "ComplexityEstimate \<Rightarrow> rat" where
  "complexity_cost Exponential = 100"
| "complexity_cost Cubic = 50"
| "complexity_cost Quadratic = 20"
| "complexity_cost Linearithmic = 3"
| "complexity_cost Linear = 1"
| "complexity_cost Logarithmic = 1 / 2"
| "complexity_cost Constant = 1 / 10"
| "complexity_cost UnknownComplexity = 1"

text \<open>The pairs of the double loop; an error of \<open>critical_path\<close> ends the analysis.\<close>

fun critical_pairs ::
    "'g networkx \<Rightarrow> 'g nx_data \<Rightarrow> 'g \<Rightarrow> 'g GraphIndex \<Rightarrow> (string \<times> string) list \<Rightarrow> nx_error + CriticalPathInfo list" where
  "critical_pairs nx nd g gi [] = Inr []"
| "critical_pairs nx nd g gi ((s, t) # ps) =
     (if s = t then critical_pairs nx nd g gi ps
      else case fst (critical_path nx s t (Some LCall) gi) of
             Inl e \<Rightarrow> Inl e
           | Inr None \<Rightarrow> critical_pairs nx nd g gi ps
           | Inr (Some p) \<Rightarrow>
               if length p < 2 then critical_pairs nx nd g gi ps
               else (case critical_pairs nx nd g gi ps of
                       Inl e \<Rightarrow> Inl e
                     | Inr cs \<Rightarrow> Inr (\<lparr>cp_source = s, cp_target = t, cp_path = p, cp_path_length = length p,
                                       cp_total_weight = path_weight nd g p\<rparr> # cs)))"

definition find_critical_paths ::
    "'g networkx \<Rightarrow> 'g nx_data \<Rightarrow> 'g \<Rightarrow> 'g GraphIndex \<Rightarrow> nx_error + CriticalPathInfo list" where
  "find_critical_paths nx nd g gi =
     (let entries = filter (\<lambda>n. nx_in_degree nx g n = 0) (nx_nodes nx g);
          exits = filter (\<lambda>n. nx_out_degree nx g n = 0) (nx_nodes nx g)
      in case critical_pairs nx nd g gi (List.product (take 10 entries) (take 10 exits)) of
           Inl e \<Rightarrow> Inl e
         | Inr cs \<Rightarrow> Inr (take 20 (sort_key (\<lambda>c. - cp_total_weight c) cs)))"

definition expensive_of :: "'g networkx \<Rightarrow> 'g \<Rightarrow> 'g GraphIndex \<Rightarrow> string \<Rightarrow> ExpensiveComputation list" where
  "expensive_of nx g gi i =
     (case find_node i (gi_sg gi) of
        None \<Rightarrow> []
      | Some n \<Rightarrow>
          if complexity_value (complexity n) \<notin> set EXPENSIVE_COMPLEXITIES then []
          else [\<lparr>ec_node_id = i, ec_node_name = node_name n, ec_complexity = complexity_value (complexity n),
                 ec_fan_in = call_fan_in nx gi i, ec_fan_out = call_fan_out nx gi i, callers = nx_predecessors nx g i,
                 cost_score = complexity_cost (complexity n) * (1 + of_nat (call_fan_in nx gi i) * (1 / 10))\<rparr>])"

definition find_expensive_computations :: "'g networkx \<Rightarrow> 'g \<Rightarrow> 'g GraphIndex \<Rightarrow> ExpensiveComputation list" where
  "find_expensive_computations nx g gi =
     sort_key (\<lambda>e. - cost_score e) (concat (map (expensive_of nx g gi) (nx_nodes nx g)))"

definition is_pure :: "SGIRNode \<Rightarrow> bool" where
  "is_pure n \<longleftrightarrow> side_effects n = [] \<and> failure_modes n = []"

definition caching_of :: "'g networkx \<Rightarrow> 'g GraphIndex \<Rightarrow> string \<Rightarrow> CachingOpportunity list" where
  "caching_of nx gi i =
     (let fi = call_fan_in nx gi i
      in if fi < 3 then []
         else case find_node i (gi_sg gi) of
                None \<Rightarrow> []
              | Some n \<Rightarrow>
                  if is_pure n
                  then [\<lparr>co_node_id = i, co_node_name = node_name n,
                         co_reason = ''Pure function called '' @ show_nat fi @ '' times with no side effects'',
                         estimated_speedup = (if fi < 8 then ''moderate'' else ''significant'') @ '' speedup by caching results'',
                         co_fan_in = fi\<rparr>]
                  else if 5 \<le> fi
                  then [\<lparr>co_node_id = i, co_node_name = node_name n,
                         co_reason = ''High fan-in ('' @ show_nat fi @ '' callers); consider memoizing if inputs are bounded'',
                         estimated_speedup = ''variable depending on input distribution'', co_fan_in = fi\<rparr>]
                  else [])"

definition find_caching_opportunities :: "'g networkx \<Rightarrow> 'g \<Rightarrow> 'g GraphIndex \<Rightarrow> CachingOpportunity list" where
  "find_caching_opportunities nx g gi =
     sort_key (\<lambda>c. - int (co_fan_in c)) (concat (map (caching_of nx gi) (nx_nodes nx g)))"

definition independent_successors :: "'g networkx \<Rightarrow> 'g nx_data \<Rightarrow> 'g \<Rightarrow> string \<Rightarrow> string list" where
  "independent_successors nx nd g i =
     (let ss = nx_successors nx g i
      in filter (\<lambda>s. \<not> list_ex (\<lambda>other. other \<noteq> s \<and> nx_has_path nd g s other) ss) ss)"

definition parallel_of :: "'g networkx \<Rightarrow> 'g nx_data \<Rightarrow> 'g \<Rightarrow> string \<Rightarrow> ParallelizationOpportunity list" where
  "parallel_of nx nd g i =
     (let ind = independent_successors nx nd g i; k = show_nat (length ind)
      in if length (nx_successors nx g i) < 3 \<or> length ind < 3 then []
         else [\<lparr>po_node_ids = i # ind, po_reason = ''Node '' @ i @ '' fans out to '' @ k @ '' independent successors'',
                potential_speedup = ''Up to '' @ k @ ''x parallelism''\<rparr>])"

definition find_parallelization_opportunities :: "'g networkx \<Rightarrow> 'g nx_data \<Rightarrow> 'g \<Rightarrow> ParallelizationOpportunity list" where
  "find_parallelization_opportunities nx nd g = concat (map (parallel_of nx nd g) (nx_nodes nx g))"

definition node_complexity :: "SoftwareGraph \<Rightarrow> string \<Rightarrow> string" where
  "node_complexity sg i = (case find_node i sg of None \<Rightarrow> ''unknown'' | Some n \<Rightarrow> complexity_value (complexity n))"

definition complexity_distribution :: "'g networkx \<Rightarrow> 'g \<Rightarrow> SoftwareGraph \<Rightarrow> (string, nat) dict" where
  "complexity_distribution nx g sg =
     fold (\<lambda>i d. dict_set (node_complexity sg i)
             ((case dict_get d (node_complexity sg i) of None \<Rightarrow> 0 | Some k \<Rightarrow> k) + 1) d) (nx_nodes nx g) []"

definition analyze_performance :: "'g networkx \<Rightarrow> 'g nx_data \<Rightarrow> 'g GraphIndex \<Rightarrow> nx_error + PerformanceReport" where
  "analyze_performance nx nd gi =
     (case get_graph LCall gi of
        None \<Rightarrow> Inr \<lparr>critical_paths = [], expensive_computations = [], caching_opportunities = [],
                  parallelization_opportunities = [], pr_total_nodes_analyzed = 0, high_complexity_nodes = 0,
                  complexity_counts = []\<rparr>
      | Some g \<Rightarrow>
          (case find_critical_paths nx nd g gi of
             Inl e \<Rightarrow> Inl e
           | Inr cps \<Rightarrow>
               (let dist = complexity_distribution nx g (gi_sg gi)
                in Inr \<lparr>critical_paths = cps, expensive_computations = find_expensive_computations nx g gi,
                        caching_opportunities = find_caching_opportunities nx g gi,
                        parallelization_opportunities = find_parallelization_opportunities nx nd g,
                        pr_total_nodes_analyzed = length (nx_nodes nx g),
                        high_complexity_nodes = sum_list (map snd (filter (\<lambda>(c, k). c \<in> set EXPENSIVE_COMPLEXITIES) dist)),
                        complexity_counts = dist\<rparr>)))"

section \<open>Layering\<close>

text \<open>The layer a node counts to is the first one, in the order of the layers, that lists it.\<close>

definition first_layer :: "SoftwareGraph \<Rightarrow> string \<Rightarrow> string option" where
  "first_layer sg i = map_option (layer_value \<circ> fst) (find (\<lambda>(l, g). i \<in> node_id ` set (nodes g)) (layers sg))"

lemma setdefault_nodes:
  "dict_get (fold (\<lambda>n. dict_setdefault (node_id n) v) ns m) i =
     (case dict_get m i of Some w \<Rightarrow> Some w | None \<Rightarrow> if i \<in> node_id ` set ns then Some v else None)"
  by (induction ns arbitrary: m) (auto simp: dict_get_setdefault split: option.splits)

lemma build_node_layer_map_spec: "dict_get (build_node_layer_map sg) i = first_layer sg i"
proof -
  have "dict_get (fold (\<lambda>(l, g) m. fold (\<lambda>n. dict_setdefault (node_id n) (layer_value l)) (nodes g) m) ls m) i =
      (case dict_get m i of Some w \<Rightarrow> Some w
       | None \<Rightarrow> map_option (layer_value \<circ> fst) (find (\<lambda>(l, g). i \<in> node_id ` set (nodes g)) ls))" for ls m
    by (induction ls arbitrary: m) (auto simp: setdefault_nodes split: option.splits)
  from this [of "layers sg" "[]"] show ?thesis by (simp add: build_node_layer_map_def first_layer_def)
qed

lemma layering_violation_spec:
  "v \<in> set (layering_violation (build_node_layer_map sg) e) \<longleftrightarrow>
     edge_type e \<in> {ECall, EData, EImport} \<and>
     (\<exists>sn tn. first_layer sg (source e) = Some sn \<and> first_layer sg (target e) = Some tn \<and> sn \<noteq> tn
        \<and> v = violation_of e sn tn)"
  by (cases "first_layer sg (source e)"; cases "first_layer sg (target e)")
    (auto simp: layering_violation_def build_node_layer_map_spec)

text \<open>
  A layering violation is reported for exactly the call, data and import edges, of any layer, whose two
  ends are listed first in different layers; an end that no layer lists is never one.
\<close>

theorem layering_violations_spec:
  "v \<in> set (detect_layering_violations sg) \<longleftrightarrow>
     (\<exists>l g e sn tn. (l, g) \<in> set (layers sg) \<and> e \<in> set (edges g) \<and> edge_type e \<in> {ECall, EData, EImport}
        \<and> first_layer sg (source e) = Some sn \<and> first_layer sg (target e) = Some tn \<and> sn \<noteq> tn
        \<and> v = violation_of e sn tn)"
proof -
  have "v \<in> set (detect_layering_violations sg) \<longleftrightarrow>
      (\<exists>l g e. (l, g) \<in> set (layers sg) \<and> e \<in> set (edges g)
         \<and> v \<in> set (layering_violation (build_node_layer_map sg) e))"
    unfolding detect_layering_violations_def Let_def by force
  then show ?thesis by (simp only: layering_violation_spec) blast
qed

lemma one_layer_no_violation:
  assumes "layers sg = [(l, g)]"
  shows "detect_layering_violations sg = []"
proof -
  have "first_layer sg i = Some n \<Longrightarrow> n = layer_value l" for i n
    by (auto simp: first_layer_def assms split: if_splits)
  then have "set (layering_violation (build_node_layer_map sg) e) = {}" for e
    by (auto simp only: set_eq_iff layering_violation_spec)
  then show ?thesis by (simp add: detect_layering_violations_def assms)
qed

section \<open>Modules\<close>

lemma count_edges_add:
  "(\<And>e. \<not> (p e \<and> q e)) \<Longrightarrow> count_edges p es + count_edges q es = count_edges (\<lambda>e. p e \<or> q e) es"
  by (induction es) (auto simp: count_edges_def)

lemma module_info_spec:
  "internal_edges (module_info es k c) + external_edges (module_info es k c)
     = count_edges (\<lambda>(u, v). u \<in> set c \<or> v \<in> set c) es"
  "0 \<le> cohesion (module_info es k c) \<and> cohesion (module_info es k c) \<le> 1"
  "cohesion (module_info es k c) = 1 \<longleftrightarrow>
     0 < internal_edges (module_info es k c) \<and> external_edges (module_info es k c) = 0"
proof -
  show "internal_edges (module_info es k c) + external_edges (module_info es k c)
     = count_edges (\<lambda>(u, v). u \<in> set c \<or> v \<in> set c) es"
    unfolding module_info_def Let_def ModuleInfo.simps
    by (subst count_edges_add) (auto intro!: arg_cong [where f = "\<lambda>p. count_edges p es"])
  show "cohesion (module_info es k c) = 1 \<longleftrightarrow>
     0 < internal_edges (module_info es k c) \<and> external_edges (module_info es k c) = 0"
    by (auto simp: module_info_def Let_def divide_eq_1_iff field_simps simp flip: of_nat_add)
qed (auto simp: module_info_def Let_def field_simps)

lemma module_info_id [simp]:
  "module_id (module_info es k c) = k" "module_nodes (module_info es k c) = c"
  by (simp_all add: module_info_def Let_def)

text \<open>
  The modules are the communities of the call graph, each numbered by its place; the internal and the
  external edges of one are together the edges that touch it, its cohesion lies between 0 and 1 and is 1
  just when it has internal edges and no external one, and the most cohesive come first.
\<close>

theorem modules_spec:
  assumes "get_graph LCall gi = Some g"
  shows "mset (map (\<lambda>m. (module_id m, module_nodes m)) (detect_modules nx gi))
           = mset (enumerate 0 (fst (detect_communities nx (Some LCall) gi)))
       \<and> sorted_wrt (\<lambda>m n. cohesion n \<le> cohesion m) (detect_modules nx gi)
       \<and> (\<forall>m\<in>set (detect_modules nx gi).
            internal_edges m + external_edges m
              = count_edges (\<lambda>(u, v). u \<in> set (module_nodes m) \<or> v \<in> set (module_nodes m)) (nx_edge_list nx g)
            \<and> 0 \<le> cohesion m \<and> cohesion m \<le> 1
            \<and> (cohesion m = 1 \<longleftrightarrow> 0 < internal_edges m \<and> external_edges m = 0))"
proof -
  let ?c = "fst (detect_communities nx (Some LCall) gi)"
  let ?ms = "map (\<lambda>i. module_info (nx_edge_list nx g) i (?c ! i)) [0..<length ?c]"
  have eq: "detect_modules nx gi = sort_key (\<lambda>m. - cohesion m) ?ms"
    by (simp add: detect_modules_def assms Let_def)
  have "map (\<lambda>m. (module_id m, module_nodes m)) ?ms = enumerate 0 ?c"
    by (rule nth_equalityI) (simp_all add: nth_enumerate_eq)
  from arg_cong [OF this, of mset]
  have "mset (map (\<lambda>m. (module_id m, module_nodes m)) (detect_modules nx gi)) = mset (enumerate 0 ?c)"
    unfolding eq by (simp only: mset_map mset_sort)
  moreover have "sorted_wrt (\<lambda>m n. cohesion n \<le> cohesion m) (detect_modules nx gi)"
    using sorted_sort_key [of "\<lambda>m. - cohesion m" ?ms] by (simp add: eq sorted_map)
  moreover have "internal_edges m + external_edges m
        = count_edges (\<lambda>(u, v). u \<in> set (module_nodes m) \<or> v \<in> set (module_nodes m)) (nx_edge_list nx g)
      \<and> 0 \<le> cohesion m \<and> cohesion m \<le> 1
      \<and> (cohesion m = 1 \<longleftrightarrow> 0 < internal_edges m \<and> external_edges m = 0)"
    if "m \<in> set (detect_modules nx gi)" for m
  proof -
    from that obtain k c where "m = module_info (nx_edge_list nx g) k c" by (auto simp: eq)
    then show ?thesis by (simp only: module_info_id module_info_spec simp_thms)
  qed
  ultimately show ?thesis by blast
qed

lemma modules_spec_witness:
  "get_graph LCall flow_index = Some flow_digraph
   \<and> sorted_wrt (\<lambda>m n. cohesion n \<le> cohesion m) (detect_modules list_nx flow_index)"
  using modules_spec [OF flow_index_graph, of list_nx] flow_index_graph by (simp only: simp_thms)

section \<open>Coupling\<close>

text \<open>The findings are the nodes with at least seven neighbours, the strongest first; none is of low severity.\<close>

lemma coupling_findings_spec:
  assumes "get_graph LCall gi = Some g"
  shows "sorted_wrt (\<lambda>f h. total_coupling h \<le> total_coupling f) (detect_coupling nx nd gi)"
    and "cf_node_id ` set (detect_coupling nx nd gi)
           = {i \<in> set (nx_nodes nx g). 7 \<le> call_fan_in nx gi i + call_fan_out nx gi i}"
    and "f \<in> set (detect_coupling nx nd gi) \<Longrightarrow> total_coupling f = cf_fan_in f + cf_fan_out f \<and> cf_severity f \<noteq> SevLow"
proof -
  let ?fs = "map (coupling_finding nx nd g gi)
      (filter (\<lambda>i. \<not> call_fan_in nx gi i + call_fan_out nx gi i < MEDIUM_THRESHOLD) (nx_nodes nx g))"
  have eq: "detect_coupling nx nd gi = sort_key (\<lambda>f. - int (total_coupling f)) ?fs"
    by (simp add: detect_coupling_def assms)
  show "sorted_wrt (\<lambda>f h. total_coupling h \<le> total_coupling f) (detect_coupling nx nd gi)"
    using sorted_sort_key [of "\<lambda>f. - int (total_coupling f)" ?fs] by (simp add: eq sorted_map)
  show "cf_node_id ` set (detect_coupling nx nd gi)
           = {i \<in> set (nx_nodes nx g). 7 \<le> call_fan_in nx gi i + call_fan_out nx gi i}"
    by (force simp: eq coupling_finding_def Let_def MEDIUM_THRESHOLD_def)
  show "f \<in> set (detect_coupling nx nd gi) \<Longrightarrow> total_coupling f = cf_fan_in f + cf_fan_out f \<and> cf_severity f \<noteq> SevLow"
    by (auto simp: eq coupling_finding_def Let_def coupling_severity_def not_less split: if_splits)
qed

section \<open>Parallel work\<close>

text \<open>
  What the analysis reports as parallelisable under a node are at least three of its successors, and
  none of them can reach another: in any order of running them no one waits for another.
\<close>

theorem parallel_nodes_independent:
  assumes "nx_documented nx" "nx_data_documented nx nd"
    and "p \<in> set (find_parallelization_opportunities nx nd g)"
  shows "\<exists>i ss. po_node_ids p = i # ss \<and> 3 \<le> length ss \<and> set ss \<subseteq> {s. (i, s) \<in> nx_pairs nx g}
     \<and> (\<forall>s\<in>set ss. \<forall>t\<in>set ss. s \<noteq> t \<longrightarrow> (s, t) \<notin> (nx_pairs nx g)\<^sup>*)"
proof -
  from assms(3) obtain i where i: "p \<in> set (parallel_of nx nd g i)"
    by (auto simp: find_parallelization_opportunities_def)
  let ?ss = "independent_successors nx nd g i"
  have p: "po_node_ids p = i # ?ss" "3 \<le> length ?ss"
    using i by (auto simp: parallel_of_def Let_def split: if_splits)
  have sub: "set ?ss \<subseteq> {s. (i, s) \<in> nx_pairs nx g}"
    by (auto simp: independent_successors_def Let_def nx_documentedD(15) [OF assms(1)])
  then have nodes: "set ?ss \<subseteq> set (nx_nodes nx g)" using nx_documentedD(17) [OF assms(1), of g] by blast
  have "\<not> nx_has_path nd g s t" if "s \<in> set ?ss" "t \<in> set ?ss" "s \<noteq> t" for s t
    using that by (auto simp: independent_successors_def Let_def list_ex_iff)
  then have "(s, t) \<notin> (nx_pairs nx g)\<^sup>*" if "s \<in> set ?ss" "t \<in> set ?ss" "s \<noteq> t" for s t
    using assms(2) nodes that unfolding nx_data_documented_def by blast
  with p sub show ?thesis by blast
qed

definition fan_digraph :: list_graph where
  "fan_digraph = ([], [(''main'', ''b''), (''main'', ''c''), (''main'', ''d'')])"

lemma fan_digraph_independent: "independent_successors list_nx list_nd fan_digraph ''main'' = [''b'', ''c'', ''d'']"
  by code_simp

lemma fan_digraph_successors: "nx_successors list_nx fan_digraph ''main'' = [''b'', ''c'', ''d'']"
  by code_simp

lemma fan_digraph_main: "''main'' \<in> set (nx_nodes list_nx fan_digraph)"
  by code_simp

lemma parallel_nodes_independent_witness:
  "\<exists>p\<in>set (find_parallelization_opportunities list_nx list_nd fan_digraph). po_node_ids p = [''main'', ''b'', ''c'', ''d'']
     \<and> (\<exists>i ss. po_node_ids p = i # ss \<and> 3 \<le> length ss \<and> set ss \<subseteq> {s. (i, s) \<in> nx_pairs list_nx fan_digraph}
        \<and> (\<forall>s\<in>set ss. \<forall>t\<in>set ss. s \<noteq> t \<longrightarrow> (s, t) \<notin> (nx_pairs list_nx fan_digraph)\<^sup>*))"
proof -
  have "\<exists>p. parallel_of list_nx list_nd fan_digraph ''main'' = [p] \<and> po_node_ids p = [''main'', ''b'', ''c'', ''d'']"
    by (simp add: parallel_of_def Let_def fan_digraph_independent fan_digraph_successors)
  then obtain p where p: "p \<in> set (find_parallelization_opportunities list_nx list_nd fan_digraph)"
    "po_node_ids p = [''main'', ''b'', ''c'', ''d'']"
    using fan_digraph_main unfolding find_parallelization_opportunities_def by fastforce
  with parallel_nodes_independent [OF list_nx_documented list_nd_documented p(1)] show ?thesis by blast
qed

section \<open>Complexity counts\<close>

lemma sum_dict_set_count:
  "sum_list (map snd (dict_set k (Suc (case dict_get d k of None \<Rightarrow> 0 | Some n \<Rightarrow> n)) d)) = Suc (sum_list (map snd d))"
  by (induction d) auto

text \<open>The counts of the complexity classes add up to the number of nodes analysed.\<close>

lemma complexity_distribution_total:
  "sum_list (map snd (complexity_distribution nx g sg)) = length (nx_nodes nx g)"
proof -
  have "sum_list (map snd (fold (\<lambda>i d. dict_set (node_complexity sg i)
        (Suc (case dict_get d (node_complexity sg i) of None \<Rightarrow> 0 | Some k \<Rightarrow> k)) d) is d))
      = length is + sum_list (map snd d)" for "is" d
    by (induction "is" arbitrary: d) (simp_all add: sum_dict_set_count)
  from this [of "nx_nodes nx g" "[]"] show ?thesis by (simp add: complexity_distribution_def)
qed

end
