(* ===== verification/Logging.thy ===== *)
theory Logging
  imports PyRegex
begin

text \<open>
  The logging stack (\<open>logging.py\<close>): redaction of texts, keys and values, the processing and the two
  renderings of a record, and the configuration with its one sink.

  Values are what callers bind to a record.  An object that is not a container, a text or a number is
  known by its \<open>str\<close> and \<open>repr\<close>.  Loguru is a list of sinks and the set of level names it knows;
  the current span of OpenTelemetry is a parameter.  Keys are strings.
\<close>

section \<open>Texts\<close>

definition REDACTED :: string where "REDACTED = ''[REDACTED]''"

definition REDACT_KEYS :: "string list" where
  "REDACT_KEYS = [''authorization'', ''bearer'', ''api_key'', ''apikey'', ''api_token'', ''api-token'', ''token'',
     ''access_token'', ''refresh_token'', ''cookie'', ''cookies'', ''set-cookie'', ''password'', ''passwords'', ''passwd'',
     ''pwd'', ''secret'', ''credential'', ''credentials'', ''client_secret'', ''private'']"

definition DROP_KEYS :: "string list" where
  "DROP_KEYS = [''prompt'', ''system_prompt'', ''messages'', ''model_input'', ''model_output'', ''completion'',
     ''source_body'', ''raw_body'', ''body'', ''tool_input'']"

datatype secret_group = GBearerAuth | GAuth | GBearer | GSk | GGhp | GSlack | GPkey | GKv

definition Alnum :: char_class where
  "Alnum = Union Letter Digit"

definition TokenChar :: char_class where
  "TokenChar = Union Alnum (Chars ''._-+/='')"

definition token_text :: regex where
  "token_text = plus (One TokenChar)"

definition colon :: regex where
  "colon = Seq spaces (Seq (one_of '':'') spaces)"

definition private_key :: regex where
  "private_key = Seq (lit ''-----begin '') (Seq (plus (One (Union Letter (Chars '' ''))))
     (Seq (lit ''private key-----'') (Seq (LazyStar (One AnyChar))
       (Seq (lit ''-----end '') (Seq (plus (One (Union Letter (Chars '' '')))) (lit ''private key-----''))))))"

definition secret_name :: regex where
  "secret_name =
     Alt (Seq (lit ''api'') (Seq (optional (one_of ''_-'')) (lit ''key'')))
     (Alt (Seq (lit ''access'') (Seq (optional (one_of ''_-'')) (lit ''token'')))
     (Alt (Seq (lit ''refresh'') (Seq (optional (one_of ''_-'')) (lit ''token'')))
     (Alt (lit ''secret'') (Alt (lit ''password'') (lit ''credential'')))))"

definition key_value :: regex where
  "key_value = Seq Boundary (Seq (Star (Seq (plus (One Alnum)) (one_of ''_''))) (Seq secret_name
     (Seq (Star (Seq (one_of ''_'') (plus (One Alnum)))) (Seq spaces (Seq (one_of ''=:'') (Seq spaces
       (Seq (One TokenChar) (UpTo 199 (One TokenChar)))))))))"

definition SECRET_PATTERN :: "(secret_group \<times> regex) list" where
  "SECRET_PATTERN = [
     (GBearerAuth, Seq (lit ''authorization'') (Seq colon (Seq (lit ''bearer'') (Seq (plus (One Space)) token_text)))),
     (GAuth, Seq (lit ''authorization'') (Seq colon token_text)),
     (GBearer, Seq Boundary (Seq (lit ''bearer'') (Seq (plus (One Space)) token_text))),
     (GSk, Seq Boundary (Seq (lit ''sk-'') (at_least 16 (One Alnum)))),
     (GGhp, Seq Boundary (Seq (lit ''ghp_'') (at_least 20 (One Alnum)))),
     (GSlack, Seq Boundary (Seq (lit ''xox'') (Seq (one_of ''abprABPR'')
        (Seq (lit ''-'') (at_least 10 (One (Union Alnum (Chars ''-'')))))))),
     (GPkey, private_key),
     (GKv, key_value)]"

fun replacement :: "secret_group \<Rightarrow> string \<Rightarrow> string" where
  "replacement GBearerAuth m = ''Authorization: Bearer '' @ REDACTED"
| "replacement GAuth m = ''Authorization: '' @ REDACTED"
| "replacement GBearer m = ''Bearer '' @ REDACTED"
| "replacement GKv m = takeWhile (\<lambda>c. c \<notin> set ''=:'') m @ ''='' @ REDACTED"
| "replacement g m = REDACTED"

definition scrub_text :: "string \<Rightarrow> string" where
  "scrub_text s = re_sub SECRET_PATTERN replacement (None, s)"

section \<open>Keys and values\<close>

text \<open>\<open>re.sub(r"[^a-z0-9]+", "_", key.lower()).strip("_")\<close>\<close>

fun collapse :: "bool \<Rightarrow> string \<Rightarrow> string" where
  "collapse gap [] = []"
| "collapse gap (c # cs) =
     (if in_class Alnum c \<and> py_lower_char c = c then c # collapse False cs
      else if gap then collapse True cs else CHR ''_'' # collapse True cs)"

definition normalized_key :: "string \<Rightarrow> string" where
  "normalized_key k =
     (let s = dropWhile (\<lambda>c. c = CHR ''_'') (collapse False (py_lower k))
      in rev (dropWhile (\<lambda>c. c = CHR ''_'') (rev s)))"

definition py_endswith :: "string \<Rightarrow> string \<Rightarrow> bool" where
  "py_endswith s x = suffix x s"

definition sensitive_key :: "string \<Rightarrow> bool" where
  "sensitive_key k \<longleftrightarrow> (let n = normalized_key k in
     n \<in> set REDACT_KEYS \<or> list_ex (\<lambda>c. py_endswith n (''_'' @ c)) REDACT_KEYS)"

datatype log_value =
  LText string
| LNone
| LBool bool
| LNum string
| LSeq "log_value list"
| LTup "log_value list"
| LMap "(string \<times> log_value) list"
| LOther string string

fun scrub_value :: "log_value \<Rightarrow> log_value" and scrub_entries :: "(string \<times> log_value) list \<Rightarrow> (string \<times> log_value) list" where
  "scrub_value (LMap kvs) = LMap (scrub_entries kvs)"
| "scrub_value (LSeq vs) = LSeq (map scrub_value vs)"
| "scrub_value (LTup vs) = LTup (map scrub_value vs)"
| "scrub_value (LText t) = LText (scrub_text t)"
| "scrub_value v = v"
| "scrub_entries [] = []"
| "scrub_entries ((k, v) # kvs) =
     (if py_lower k \<in> set DROP_KEYS then scrub_entries kvs
      else (k, if sensitive_key k then LText REDACTED else scrub_value v) # scrub_entries kvs)"

section \<open>Records\<close>

record log_exception =
  lx_type :: string
  lx_rendered :: string

record log_record =
  rec_time :: string
  level_name :: string
  logger_name :: "string option"
  message :: string
  rec_extra :: "(string \<times> log_value) list"
  rec_exception :: "log_exception option"

text \<open>The span of OpenTelemetry, when it is installed and the span is valid: the trace id and the cur_span id.\<close>

definition inject_otel :: "(string \<times> string) option \<Rightarrow> log_record \<Rightarrow> log_record" where
  "inject_otel cur_span r =
     (if ''trace_id'' \<in> set (dict_keys (rec_extra r)) then r
      else case cur_span of
             None \<Rightarrow> r
           | Some (t, s) \<Rightarrow> r\<lparr>rec_extra := dict_set ''span_id'' (LText s) (dict_set ''trace_id'' (LText t) (rec_extra r))\<rparr>)"

definition process_record :: "(string \<times> string) option \<Rightarrow> log_record \<Rightarrow> log_record" where
  "process_record cur_span r =
     inject_otel cur_span (r\<lparr>rec_extra := scrub_entries (rec_extra r), message := scrub_text (message r)\<rparr>)"

section \<open>Rendering\<close>

text \<open>\<open>json.dumps(.., default=str, separators=(",", ":"))\<close> with its ASCII escapes.\<close>

fun dumps :: "log_value \<Rightarrow> string" and dumps_entry :: "string \<times> log_value \<Rightarrow> string" where
  "dumps (LText s) = json_text s"
| "dumps LNone = ''null''"
| "dumps (LBool b) = (if b then ''true'' else ''false'')"
| "dumps (LNum n) = n"
| "dumps (LSeq vs) = ''['' @ join_with '','' (map dumps vs) @ '']''"
| "dumps (LTup vs) = ''['' @ join_with '','' (map dumps vs) @ '']''"
| "dumps (LMap kvs) = ''{'' @ join_with '','' (map dumps_entry kvs) @ ''}''"
| "dumps (LOther s r) = json_text s"
| "dumps_entry (k, v) = json_text k @ '':'' @ dumps v"

fun repr_value :: "log_value \<Rightarrow> string" and repr_entry :: "string \<times> log_value \<Rightarrow> string" where
  "repr_value (LText s) = py_repr s"
| "repr_value LNone = ''None''"
| "repr_value (LBool b) = (if b then ''True'' else ''False'')"
| "repr_value (LNum n) = n"
| "repr_value (LSeq vs) = ''['' @ join_with '', '' (map repr_value vs) @ '']''"
| "repr_value (LTup vs) = ''('' @ join_with '', '' (map repr_value vs) @ (if length vs = 1 then '','' else []) @ '')''"
| "repr_value (LMap kvs) = ''{'' @ join_with '', '' (map repr_entry kvs) @ ''}''"
| "repr_value (LOther s r) = r"
| "repr_entry (k, v) = py_repr k @ '': '' @ repr_value v"

record log_state =
  SERVICE :: string
  ENVIRONMENT :: string
  COMPONENT :: string
  CONFIGURED :: bool
  sinks :: "(string \<times> bool \<times> bool \<times> nat option) list"

definition json_payload :: "log_state \<Rightarrow> log_record \<Rightarrow> (string \<times> log_value) list" where
  "json_payload st r =
     [(''ts'', LText (rec_time r)), (''level'', LText (level_name r)), (''message'', LText (message r)),
      (''service'', LText (SERVICE st)), (''environment'', LText (ENVIRONMENT st)), (''component'', LText (COMPONENT st)),
      (''logger'', case logger_name r of None \<Rightarrow> LNone | Some n \<Rightarrow> LText n), (''extra'', LMap (rec_extra r))]
     @ (case rec_exception r of
          None \<Rightarrow> []
        | Some e \<Rightarrow> [(''exception'', LMap [(''type'', LText (lx_type e)), (''traceback'', LText (scrub_text (lx_rendered e)))])])"

definition render_json :: "log_state \<Rightarrow> log_record \<Rightarrow> string" where
  "render_json st r = dumps (LMap (json_payload st r))"

definition py_rstrip :: "string \<Rightarrow> string" where
  "py_rstrip s = rev (dropWhile py_isspace (rev s))"

definition render_pretty :: "log_state \<Rightarrow> log_record \<Rightarrow> string" where
  "render_pretty st r =
     rec_time r @ '' | '' @ level_name r @ replicate (8 - length (level_name r)) CHR '' '' @ '' | ''
     @ (case logger_name r of Some n \<Rightarrow> if n = [] then SERVICE st else n | None \<Rightarrow> SERVICE st) @ '': '' @ message r
     @ (if rec_extra r = [] then []
        else '' '' @ join_with '' '' (map (\<lambda>(k, v). k @ ''='' @ repr_value v) (rec_extra r)))
     @ (case rec_exception r of None \<Rightarrow> [] | Some e \<Rightarrow> [CHR 0x0A] @ py_rstrip (scrub_text (lx_rendered e)))"

definition emit :: "log_state \<Rightarrow> (string \<times> string) option \<Rightarrow> bool \<Rightarrow> log_record \<Rightarrow> string" where
  "emit st cur_span use_json r =
     (let r' = process_record cur_span r in if use_json then render_json st r' else render_pretty st r')"

section \<open>Configuration\<close>

definition resolve_json :: "(string \<Rightarrow> string option) \<Rightarrow> bool \<Rightarrow> bool option \<Rightarrow> bool" where
  "resolve_json env isatty json_logs =
     (case json_logs of
        Some b \<Rightarrow> b
      | None \<Rightarrow> (let v = (case env ''INTELLIQX_LOGS_JSON'' of None \<Rightarrow> [] | Some s \<Rightarrow> s)
                in if v = ''1'' then True else if v = ''0'' then False else \<not> isatty))"

definition upper_ascii :: "string \<Rightarrow> string" where
  "upper_ascii s = map (\<lambda>c. let n = of_char c :: nat in if 97 \<le> n \<and> n \<le> 122 then char_of (n - 32) else c) s"

record log_options =
  opt_level :: string
  json_logs :: "bool option"
  opt_service :: "string option"
  opt_environment :: "string option"
  opt_component :: "string option"
  enqueue :: bool
  opt_sink :: "nat option"

definition default_options :: log_options where
  "default_options = \<lparr>opt_level = ''INFO'', json_logs = None, opt_service = None, opt_environment = None,
     opt_component = None, enqueue = False, opt_sink = None\<rparr>"

text \<open>Loguru raises \<open>ValueError\<close> for a level it does not know, after \<open>remove\<close> has taken the old sink away.\<close>

datatype log_error = UnknownLevel string

definition configure_logging ::
    "(string \<Rightarrow> bool) \<Rightarrow> (string \<Rightarrow> string option) \<Rightarrow> bool \<Rightarrow> log_options \<Rightarrow> log_state \<Rightarrow> (log_error + unit) \<times> log_state" where
  "configure_logging known env isatty opts st =
     (let lv = upper_ascii (opt_level opts);
          st' = st\<lparr>SERVICE := (case opt_service opts of None \<Rightarrow> SERVICE st | Some s \<Rightarrow> s),
                   ENVIRONMENT := (case opt_environment opts of
                       Some e \<Rightarrow> e
                     | None \<Rightarrow> (case env ''INTELLIQX_ENV'' of None \<Rightarrow> ENVIRONMENT st | Some e \<Rightarrow> e)),
                   COMPONENT := (case opt_component opts of None \<Rightarrow> COMPONENT st | Some c \<Rightarrow> c),
                   sinks := []\<rparr>
      in if \<not> known lv then (Inl (UnknownLevel lv), st')
         else (Inr (), st'\<lparr>sinks := [(lv, resolve_json env isatty (json_logs opts), enqueue opts, opt_sink opts)],
                           CONFIGURED := True\<rparr>))"

definition reset_logging :: "log_state \<Rightarrow> log_state" where
  "reset_logging st = st\<lparr>sinks := [], CONFIGURED := False\<rparr>"

definition get_logger ::
    "(string \<Rightarrow> bool) \<Rightarrow> (string \<Rightarrow> string option) \<Rightarrow> bool \<Rightarrow> string option \<Rightarrow> (string \<times> log_value) list \<Rightarrow> log_state
       \<Rightarrow> (log_error + (string \<times> log_value) list) \<times> log_state" where
  "get_logger known env isatty name extra st =
     (let (res, st') = (if \<not> CONFIGURED st then configure_logging known env isatty default_options st else (Inr (), st))
      in case res of
           Inl e \<Rightarrow> (Inl e, st')
         | Inr u \<Rightarrow> (Inr ((''logger'', case name of None \<Rightarrow> LNone | Some n \<Rightarrow> LText n) # extra), st'))"

text \<open>What Loguru starts with: its own sink on standard error, at level \<open>DEBUG\<close>.\<close>

text \<open>
  \<open>bind_context\<close> only delegates: \<open>contextualize\<close> is Loguru's, over the context \<open>c\<close> of the task.  Documented is that
  the fields are bound while the block runs and that the context is then as before, however the block ends.
\<close>

type_synonym log_fields = "(string \<times> log_value) list"

definition bind_context ::
    "(log_fields \<Rightarrow> (log_fields \<Rightarrow> 'r \<times> log_fields) \<Rightarrow> log_fields \<Rightarrow> 'r \<times> log_fields)
      \<Rightarrow> log_fields \<Rightarrow> (log_fields \<Rightarrow> 'r \<times> log_fields) \<Rightarrow> log_fields \<Rightarrow> 'r \<times> log_fields" where
  "bind_context contextualize fs block c = contextualize fs block c"

definition contextualize_documented ::
    "(log_fields \<Rightarrow> (log_fields \<Rightarrow> 'r \<times> log_fields) \<Rightarrow> log_fields \<Rightarrow> 'r \<times> log_fields) \<Rightarrow> bool" where
  "contextualize_documented contextualize \<longleftrightarrow>
     (\<forall>fs block c. contextualize fs block c = (fst (block (fold (\<lambda>(k, v). dict_set k v) fs c)), c))"

definition initial_log_state :: log_state where
  "initial_log_state = \<lparr>SERVICE = ''intelliqx'', ENVIRONMENT = ''development'', COMPONENT = ''core'', CONFIGURED = False,
     sinks = [(''DEBUG'', False, False, None)]\<rparr>"

section \<open>No secret under a sensitive key\<close>

text \<open>The entries of a value at any depth.\<close>

inductive entry_in :: "string \<Rightarrow> log_value \<Rightarrow> log_value \<Rightarrow> bool" where
  entry_here: "(k, x) \<in> set kvs \<Longrightarrow> entry_in k x (LMap kvs)"
| entry_map: "(k', v) \<in> set kvs \<Longrightarrow> entry_in k x v \<Longrightarrow> entry_in k x (LMap kvs)"
| entry_seq: "v \<in> set vs \<Longrightarrow> entry_in k x v \<Longrightarrow> entry_in k x (LSeq vs)"
| entry_tup: "v \<in> set vs \<Longrightarrow> entry_in k x v \<Longrightarrow> entry_in k x (LTup vs)"

inductive_cases entry_in_cases [elim!]:
  "entry_in k x (LText t)" "entry_in k x LNone" "entry_in k x (LBool b)" "entry_in k x (LNum n)"
  "entry_in k x (LOther s r)"

inductive_simps entry_in_simps:
  "entry_in k x (LMap kvs)" "entry_in k x (LSeq vs)" "entry_in k x (LTup vs)"

definition safe_entry :: "string \<Rightarrow> log_value \<Rightarrow> bool" where
  "safe_entry k x \<longleftrightarrow> py_lower k \<notin> set DROP_KEYS \<and> (sensitive_key k \<longrightarrow> x = LText REDACTED)"

lemma scrubbed_entries_safe:
  "entry_in k x (scrub_value v) \<Longrightarrow> safe_entry k x"
  "entry_in k x (LMap (scrub_entries kvs)) \<Longrightarrow> safe_entry k x"
proof (induction v and kvs rule: scrub_value_scrub_entries.induct)
  case (7 k' v kvs)
  show ?case
  proof (cases "py_lower k' \<in> set DROP_KEYS")
    case True
    with 7 show ?thesis by simp
  next
    case False
    let ?v = "if sensitive_key k' then LText REDACTED else scrub_value v"
    from 7(4) False consider "k = k'" "x = ?v" | "entry_in k x ?v" | "entry_in k x (LMap (scrub_entries kvs))"
      by (auto simp: entry_in_simps)
    then show ?thesis
    proof cases
      case 1
      with False show ?thesis by (simp add: safe_entry_def)
    next
      case 2
      with False 7 show ?thesis by (auto split: if_splits)
    next
      case 3
      with False 7 show ?thesis by simp
    qed
  qed
qed (auto simp: entry_in_simps)

lemma otel_keys_plain: "\<not> sensitive_key ''trace_id''" "\<not> sensitive_key ''span_id''"
  "py_lower ''trace_id'' \<notin> set DROP_KEYS" "py_lower ''span_id'' \<notin> set DROP_KEYS"
  by code_simp+

lemma dict_set_entries: "set (dict_set k v m) \<subseteq> insert (k, v) (set m)"
  by (induction m) auto

lemma entry_in_dict_set:
  "entry_in k x (LMap (dict_set k' (LText t) kvs)) \<Longrightarrow> k = k' \<or> entry_in k x (LMap kvs)"
  using dict_set_entries [of k' "LText t" kvs] by (fastforce simp: entry_in_simps)

text \<open>
  C20: Whatever is bound to a record, what reaches the renderer has no entry, at any depth, under a key that
  is to be dropped, and every entry under a sensitive key holds the placeholder and nothing else.
\<close>

theorem no_secret_under_sensitive_key:
  assumes "entry_in k x (LMap (rec_extra (process_record cur_span r)))"
  shows "py_lower k \<notin> set DROP_KEYS \<and> (sensitive_key k \<longrightarrow> x = LText REDACTED)"
proof -
  let ?e = "scrub_entries (rec_extra r)"
  have "k = ''trace_id'' \<or> k = ''span_id'' \<or> entry_in k x (LMap ?e)"
    using assms by (auto simp: process_record_def inject_otel_def split: if_splits option.splits dest!: entry_in_dict_set)
  then consider "k = ''trace_id''" | "k = ''span_id''" | "entry_in k x (LMap ?e)" by blast
  then show ?thesis
    using otel_keys_plain scrubbed_entries_safe(2) [of k x "rec_extra r"] by cases (auto simp: safe_entry_def)
qed

definition login_record :: log_record where
  "login_record = \<lparr>rec_time = ''t'', level_name = ''INFO'', logger_name = None, message = ''login'',
     rec_extra = [(''body'', LText ''x''), (''user'', LMap [(''API-Key'', LText ''k1'')])], rec_exception = None\<rparr>"

lemma no_secret_under_sensitive_key_witness:
  "rec_extra (process_record None login_record) = [(''user'', LMap [(''API-Key'', LText REDACTED)])]
   \<and> entry_in ''API-Key'' (LText REDACTED) (LMap (rec_extra (process_record None login_record)))
   \<and> py_lower ''API-Key'' \<notin> set DROP_KEYS"
proof -
  have e: "rec_extra (process_record None login_record) = [(''user'', LMap [(''API-Key'', LText REDACTED)])]"
    by code_simp
  have "entry_in ''API-Key'' (LText REDACTED) (LMap (rec_extra (process_record None login_record)))"
    unfolding e by (rule entry_map [of "''user''"]) (auto intro: entry_here)
  with no_secret_under_sensitive_key [OF this] e show ?thesis by blast
qed

section \<open>What the text patterns do\<close>

lemma lit_match:
  "map py_lower_char u = s \<Longrightarrow> first_end (lit s) (b, u @ v) = Some (if u = [] then b else Some (last u), v)"
proof (induction s arbitrary: u b)
  case (Cons x xs)
  then obtain c u' where u: "u = c # u'" "py_lower_char c = x" "map py_lower_char u' = xs" by auto
  from Cons.IH [OF u(3), of "Some c"] u(1,2) show ?case
    by (auto intro!: first_end_Seq [where q = "(Some c, u' @ v)"])
qed simp

lemma lower_words: "map py_lower_char ''Authorization'' = ''authorization''" "map py_lower_char ''Bearer'' = ''bearer''"
  "map py_lower_char ''password'' = ''password''"
  by code_simp+

lemma token_text_all:
  assumes "list_all (in_class TokenChar) u" "u \<noteq> []" "v = [] \<or> \<not> in_class TokenChar (hd v)"
  shows "first_end token_text (b, u @ v) = Some (Some (last u), v)"
proof (cases u)
  case (Cons c cs)
  with assms have star: "first_end (Star (One TokenChar)) (Some c, cs @ v) = Some (if cs = [] then Some c else Some (last cs), v)"
    by (intro first_end_Star_One) auto
  have one: "first_end (One TokenChar) (b, u @ v) = Some (Some c, cs @ v)" using assms(1) Cons by simp
  from first_end_Seq [OF one star] show ?thesis using Cons by (auto simp: token_text_def plus_def)
qed (use assms in simp)

lemma spaces_all:
  "list_all py_isspace u \<Longrightarrow> v = [] \<or> \<not> py_isspace (hd v) \<Longrightarrow>
     first_end spaces (b, u @ v) = Some (if u = [] then b else Some (last u), v)"
  unfolding spaces_def by (rule first_end_Star_One) (auto simp: list_all_iff)

lemma token_char_no_space: "in_class TokenChar c \<Longrightarrow> \<not> py_isspace c"
  by (auto simp: TokenChar_def Alnum_def is_letter_def is_digit_def py_isspace_def Let_def)

lemma token_hd: "list_all (in_class TokenChar) tok \<Longrightarrow> tok \<noteq> [] \<Longrightarrow> \<not> py_isspace (hd tok)"
  by (cases tok) (auto simp: token_char_no_space)

lemma colon_match:
  assumes "list_all py_isspace s1" "list_all py_isspace s2" "v \<noteq> []" "\<not> py_isspace (hd v)"
  shows "first_end colon (b, s1 @ '':'' @ s2 @ v) = Some (if s2 = [] then Some CHR '':'' else Some (last s2), v)"
proof -
  have 1: "first_end spaces (b, s1 @ '':'' @ s2 @ v) = Some (if s1 = [] then b else Some (last s1), '':'' @ s2 @ v)"
    using assms(1) by (intro spaces_all) (simp_all add: py_isspace_def)
  have 2: "first_end (one_of '':'') (q, '':'' @ s2 @ v) = Some (Some CHR '':'', s2 @ v)" for q
    by (simp add: one_of_def)
  have 3: "first_end spaces (Some CHR '':'', s2 @ v) = Some (if s2 = [] then Some CHR '':'' else Some (last s2), v)"
    using assms(2-4) by (intro spaces_all) simp_all
  show ?thesis unfolding colon_def by (rule first_end_Seq [OF 1 first_end_Seq [OF 2 3]])
qed

lemma colon_one_space:
  "v \<noteq> [] \<Longrightarrow> \<not> py_isspace (hd v) \<Longrightarrow> first_end colon (b, CHR '':'' # CHR '' '' # v) = Some (Some CHR '' '', v)"
  using colon_match [of "[]" "'' ''" v b] by (simp add: py_isspace_def)

lemma plus_spaces:
  assumes "list_all py_isspace u" "u \<noteq> []" "v = [] \<or> \<not> py_isspace (hd v)"
  shows "first_end (plus (One Space)) (b, u @ v) = Some (Some (last u), v)"
proof (cases u)
  case (Cons c cs)
  have one: "first_end (One Space) (b, u @ v) = Some (Some c, cs @ v)" using assms(1) Cons by simp
  have star: "first_end (Star (One Space)) (Some c, cs @ v) = Some (if cs = [] then Some c else Some (last cs), v)"
    using spaces_all [of cs v "Some c"] assms Cons by (simp add: spaces_def)
  from first_end_Seq [OF one star] show ?thesis using Cons by (auto simp: plus_def)
qed (use assms in simp)

lemma word_not_space: "map py_lower_char w = c # cs \<Longrightarrow> \<not> py_isspace c \<Longrightarrow> w \<noteq> [] \<and> \<not> py_isspace (hd w)"
  by (cases w) (auto simp: py_lower_char_def py_isspace_def Let_def)

text \<open>
  C23: In a text that begins with an authorization header of the bearer scheme, in any capitalisation and with
  any white space around the colon and before the token, all of the token that the pattern knows (letters, digits and
  \<open>. _ - + / =\<close>) is replaced, up to the first other character; what follows is scrubbed on its own.
  A token may also have the character \<open>~\<close> (RFC 6750): it ends the match, and the rest of the token stays
  (\<open>tilde_part_stays\<close>).
\<close>

theorem bearer_token_redacted:
  assumes "map py_lower_char h = ''authorization''" "map py_lower_char w = ''bearer''"
    and "list_all py_isspace s1" "list_all py_isspace s2" "list_all py_isspace s3" "s3 \<noteq> []"
    and "list_all (in_class TokenChar) tok" "tok \<noteq> []" "rest = [] \<or> \<not> in_class TokenChar (hd rest)"
  shows "scrub_text (h @ s1 @ '':'' @ s2 @ w @ s3 @ tok @ rest) =
    ''Authorization: Bearer '' @ REDACTED @ re_sub SECRET_PATTERN replacement (Some (last tok), rest)"
proof -
  let ?s = "h @ s1 @ '':'' @ s2 @ w @ s3 @ tok @ rest"
  have w: "w \<noteq> [] \<and> \<not> py_isspace (hd w)" using assms(2) by (rule word_not_space) (simp add: py_isspace_def)
  have h: "h \<noteq> []" using assms(1) by auto
  have 1: "first_end (lit ''authorization'') (None, ?s) = Some (if h = [] then None else Some (last h), s1 @ '':'' @ s2 @ w @ s3 @ tok @ rest)"
    by (rule lit_match [OF assms(1)])
  have 2: "first_end colon (q, s1 @ '':'' @ s2 @ w @ s3 @ tok @ rest)
      = Some (if s2 = [] then Some CHR '':'' else Some (last s2), w @ s3 @ tok @ rest)" for q
    using w by (intro colon_match assms(3,4)) simp_all
  have 3: "first_end (lit ''bearer'') (q, w @ s3 @ tok @ rest) = Some (if w = [] then q else Some (last w), s3 @ tok @ rest)" for q
    by (rule lit_match [OF assms(2)])
  have 4: "first_end (plus (One Space)) (q, s3 @ tok @ rest) = Some (Some (last s3), tok @ rest)" for q
    using token_hd [OF assms(7,8)] assms(8) by (intro plus_spaces assms(5,6)) simp
  have 5: "first_end token_text (q, tok @ rest) = Some (Some (last tok), rest)" for q
    by (rule token_text_all [OF assms(7-9)])
  have "match_groups SECRET_PATTERN (None, ?s) = Some (GBearerAuth, (Some (last tok), rest))"
    unfolding SECRET_PATTERN_def match_groups.simps
    using first_end_Seq [OF 1 first_end_Seq [OF 2 first_end_Seq [OF 3 first_end_Seq [OF 4 5]]]] by (simp only: option.case)
  then have "re_sub SECRET_PATTERN replacement (None, ?s)
      = replacement GBearerAuth (take (length ?s - length rest) ?s) @ re_sub SECRET_PATTERN replacement (Some (last tok), rest)"
    by (rule re_sub_match) simp
  then show ?thesis by (simp only: scrub_text_def replacement.simps append_assoc)
qed

lemma bearer_token_redacted_witness:
  "scrub_text ''AUTHORIZATION : bearer  ey.J-9, user=x'' = ''Authorization: Bearer [REDACTED], user=x''"
proof -
  have words: "map py_lower_char ''AUTHORIZATION'' = ''authorization''" "map py_lower_char ''bearer'' = ''bearer''"
    by code_simp+
  have tok: "list_all (in_class TokenChar) ''ey.J-9''" by code_simp
  have rest: "'', user=x'' = [] \<or> \<not> in_class TokenChar (hd '', user=x'')" by code_simp
  have tail: "re_sub SECRET_PATTERN replacement (Some (last ''ey.J-9''), '', user=x'') = '', user=x''"
    by (rule re_sub_no_match) code_simp
  from bearer_token_redacted [OF words, of "'' ''" "'' ''" "''  ''" "''ey.J-9''" "'', user=x''"] tok rest
  have "scrub_text (''AUTHORIZATION'' @ '' '' @ '':'' @ '' '' @ ''bearer'' @ ''  '' @ ''ey.J-9'' @ '', user=x'')
      = ''Authorization: Bearer '' @ REDACTED @ re_sub SECRET_PATTERN replacement (Some (last ''ey.J-9''), '', user=x'')"
    by (simp add: py_isspace_def del: re_sub.simps append.simps)
  then show ?thesis unfolding tail by (simp add: REDACTED_def)
qed

lemma tilde_part_stays:
  "scrub_text ''Authorization: Bearer abc~SECRETPART'' = ''Authorization: Bearer [REDACTED]~SECRETPART''"
  by code_simp

section \<open>Two leaks\<close>

lemma lower_char_cases:
  "py_lower_char CHR ''A'' = CHR ''a''" "py_lower_char CHR ''B'' = CHR ''b''"
  "map py_lower_char ''uthorization :asicpw'' = ''uthorization :asicpw''"
  by code_simp+

lemma bearer_auth_needs_bearer:
  "ends (Seq (lit ''authorization'') (Seq colon (Seq (lit ''bearer'') r))) (None, ''Authorization: Basic '' @ cred) = []"
  using lower_char_cases by (simp add: colon_def spaces_def one_of_def py_isspace_def)

text \<open>
  Of an authorization header with another scheme only the name of the scheme is replaced: the credentials
  behind it stay in the log, unless some other pattern matches them.
\<close>

theorem basic_credentials_stay:
  assumes "no_match SECRET_PATTERN (Some CHR ''c'') ('' '' @ cred)"
  shows "scrub_text (''Authorization: Basic '' @ cred) = ''Authorization: '' @ REDACTED @ '' '' @ cred"
proof -
  let ?s = "''Authorization: Basic '' @ cred"
  have 1: "first_end (lit ''authorization'') (None, ?s) = Some (Some CHR ''n'', '': Basic '' @ cred)"
    using lit_match [OF lower_words(1), of None "'': Basic '' @ cred"] by (simp del: lit.simps)
  have 2: "first_end colon (Some CHR ''n'', '': Basic '' @ cred) = Some (Some CHR '' '', ''Basic '' @ cred)"
    using colon_one_space [of "''Basic '' @ cred" "Some CHR ''n''"] by (simp add: py_isspace_def)
  have 3: "first_end token_text (Some CHR '' '', ''Basic '' @ cred) = Some (Some CHR ''c'', '' '' @ cred)"
    using token_text_all [of "''Basic''" "'' '' @ cred" "Some CHR '' ''"]
    by (simp add: TokenChar_def Alnum_def is_letter_def is_digit_def)
  have "match_groups SECRET_PATTERN (None, ?s) = Some (GAuth, (Some CHR ''c'', '' '' @ cred))"
    unfolding SECRET_PATTERN_def match_groups.simps
    using ends_none [OF bearer_auth_needs_bearer] first_end_Seq [OF 1 first_end_Seq [OF 2 3]] by (simp only: option.case)
  then have "re_sub SECRET_PATTERN replacement (None, ?s)
      = replacement GAuth (take (length ?s - length ('' '' @ cred)) ?s)
        @ re_sub SECRET_PATTERN replacement (Some CHR ''c'', '' '' @ cred)"
    by (rule re_sub_match) simp
  then show ?thesis by (simp only: scrub_text_def replacement.simps re_sub_no_match [OF assms] append_assoc)
qed

lemma basic_credentials_stay_witness:
  "scrub_text ''Authorization: Basic dXNlcjpwdw'' = ''Authorization: [REDACTED] dXNlcjpwdw''"
proof -
  have "no_match SECRET_PATTERN (Some CHR ''c'') ('' '' @ ''dXNlcjpwdw'')" by code_simp
  from basic_credentials_stay [OF this] show ?thesis by (simp add: REDACTED_def)
qed

lemma Star_stays: "ends r p = [] \<Longrightarrow> first_end (Star r) p = Some p"
  by (cases "length (snd p)") (simp_all add: first_end_def)

lemma password_name:
  "ends (Seq (plus (One Alnum)) (one_of ''_'')) (None, ''password='' @ v) = []"
  "ends secret_name (None, ''password='' @ v) = [(Some CHR ''d'', ''='' @ v)]"
  "ends (Seq (one_of ''_'') r) (b, ''='' @ v) = []"
  using lower_words(3)
  by (simp_all add: plus_def one_of_def Alnum_def is_letter_def is_digit_def secret_name_def optional_def)

lemma password_only_kv: "match_groups (butlast SECRET_PATTERN) (None, ''password='' @ v) = None"
  by (simp add: SECRET_PATTERN_def first_end_def private_key_def py_lower_char_def Let_def)

lemma password_kv_match:
  assumes "list_all (in_class TokenChar) v" "200 \<le> length v"
  shows "first_end key_value (None, ''password='' @ v) = Some (Some (v ! 199), drop 200 v)"
proof -
  obtain c cs where v: "v = c # cs" using assms(2) by (cases v) auto
  have hd: "\<not> py_isspace (hd v)" using token_hd [OF assms(1)] v by simp
  have 0: "first_end Boundary (None, ''password='' @ v) = Some (None, ''password='' @ v)"
    by (simp add: at_boundary_def is_word_char_def)
  have 2: "first_end secret_name (None, ''password='' @ v) = Some (Some CHR ''d'', ''='' @ v)"
    by (simp only: first_end_def password_name(2) list.case)
  have 4: "first_end spaces (Some CHR ''d'', ''='' @ v) = Some (Some CHR ''d'', ''='' @ v)"
    using spaces_all [of "[]" "''='' @ v" "Some CHR ''d''"] by (simp add: py_isspace_def)
  have 5: "first_end (one_of ''=:'') (Some CHR ''d'', ''='' @ v) = Some (Some CHR ''='', v)"
    by (simp add: one_of_def)
  have 6: "first_end spaces (Some CHR ''='', v) = Some (Some CHR ''='', v)"
    using spaces_all [of "[]" v "Some CHR ''=''"] hd by simp
  have 7: "first_end (One TokenChar) (Some CHR ''='', v) = Some (Some c, cs)" using assms(1) v by simp
  have len: "length (take 199 cs) = 199" using assms(2) v by simp
  then have ne: "take 199 cs \<noteq> []" by (cases "take 199 cs") auto
  have "last (take 199 cs) = v ! 199"
    using ne assms(2) by (simp add: last_conv_nth v)
  moreover have "list_all (in_class TokenChar) (take 199 cs)"
    using assms(1) v by (auto simp: list_all_iff dest: in_set_takeD)
  moreover have "drop 200 v = drop 199 cs" by (simp add: v)
  ultimately have 8: "first_end (UpTo 199 (One TokenChar)) (Some c, cs) = Some (Some (v ! 199), drop 200 v)"
    using first_end_UpTo_One [of TokenChar "take 199 cs" 199 "drop 199 cs" "Some c"] len ne
    by (simp only: append_take_drop_id if_False simp_thms le_refl)
  show ?thesis
    unfolding key_value_def
    by (rule first_end_Seq [OF 0], rule first_end_Seq [OF Star_stays [OF password_name(1)]],
        rule first_end_Seq [OF 2], rule first_end_Seq [OF Star_stays [OF password_name(3)]],
        rule first_end_Seq [OF 4], rule first_end_Seq [OF 5], rule first_end_Seq [OF 6], rule first_end_Seq [OF 7 8])
qed

lemma match_groups_append:
  "match_groups (gs @ hs) p = (case match_groups gs p of None \<Rightarrow> match_groups hs p | Some m \<Rightarrow> Some m)"
  by (induction gs p rule: match_groups.induct) (auto split: option.split)

text \<open>
  A secret that is longer than the two hundred characters the pattern takes is cut: what follows them
  stays in the log.
\<close>

theorem long_secret_tail_stays:
  assumes "list_all (in_class TokenChar) v" "200 \<le> length v"
    and "no_match SECRET_PATTERN (Some (v ! 199)) (drop 200 v)"
  shows "scrub_text (''password='' @ v) = ''password='' @ REDACTED @ drop 200 v"
proof -
  let ?s = "''password='' @ v"
  have "SECRET_PATTERN = butlast SECRET_PATTERN @ [(GKv, key_value)]" by (simp add: SECRET_PATTERN_def)
  then have "match_groups SECRET_PATTERN (None, ?s) = Some (GKv, (Some (v ! 199), drop 200 v))"
    using match_groups_append [of "butlast SECRET_PATTERN" "[(GKv, key_value)]" "(None, ?s)"]
    by (simp only: password_only_kv password_kv_match [OF assms(1,2)] match_groups.simps option.case)
  then have "re_sub SECRET_PATTERN replacement (None, ?s)
      = replacement GKv (take (length ?s - length (drop 200 v)) ?s)
        @ re_sub SECRET_PATTERN replacement (Some (v ! 199), drop 200 v)"
    by (rule re_sub_match) simp
  moreover have "length ?s - length (drop 200 v) = 209" using assms(2) by simp
  ultimately show ?thesis
    by (simp add: scrub_text_def re_sub_no_match [OF assms(3)])
qed

lemma long_secret_tail_stays_witness:
  "scrub_text (''password='' @ replicate 200 CHR ''a'' @ ''tail'') = ''password=[REDACTED]tail''"
proof -
  let ?v = "replicate 200 CHR ''a'' @ ''tail''"
  have 1: "list_all (in_class TokenChar) ?v" by (simp add: list_all_iff TokenChar_def Alnum_def is_letter_def)
  have 2: "200 \<le> length ?v" by simp
  have 3: "?v ! 199 = CHR ''a''" "drop 200 ?v = ''tail''" by (simp_all add: nth_append)
  have 4: "no_match SECRET_PATTERN (Some CHR ''a'') ''tail''" by code_simp
  from long_secret_tail_stays [OF 1 2] show ?thesis by (simp only: 3 4 REDACTED_def) simp
qed

text \<open>Objects are rendered by \<open>default=str\<close> after the scrubbing, so their text is not scrubbed.\<close>

lemma objects_not_scrubbed:
  "dumps (scrub_value (LOther ''password=hunter2'' r)) = json_text ''password=hunter2''"
  "scrub_text ''password=hunter2'' = ''password=[REDACTED]''"
  by simp code_simp

section \<open>One sink\<close>

datatype log_op = OpConfigure log_options | OpReset | OpGet "string option" "(string \<times> log_value) list"

fun log_step :: "(string \<Rightarrow> bool) \<Rightarrow> (string \<Rightarrow> string option) \<Rightarrow> bool \<Rightarrow> log_op \<Rightarrow> log_state \<Rightarrow> log_state" where
  "log_step known env isatty (OpConfigure opts) st = snd (configure_logging known env isatty opts st)"
| "log_step known env isatty OpReset st = reset_logging st"
| "log_step known env isatty (OpGet n ex) st = snd (get_logger known env isatty n ex st)"

lemma get_logger_state:
  "snd (get_logger known env isatty n ex st) =
     (if CONFIGURED st then st else snd (configure_logging known env isatty default_options st))"
  by (auto simp: get_logger_def split: prod.splits sum.splits)

definition op_level_known :: "(string \<Rightarrow> bool) \<Rightarrow> log_op \<Rightarrow> bool" where
  "op_level_known known op \<longleftrightarrow> (case op of OpConfigure opts \<Rightarrow> known (upper_ascii (opt_level opts)) | _ \<Rightarrow> True)"

text \<open>
  Whatever is configured, reset and asked for a logger, in any order, there is never more than one
  sink, and as long as every level asked for is known there is one whenever the module counts as configured.
\<close>

theorem at_most_one_sink:
  assumes "st = fold (log_step known env isatty) ops initial_log_state"
  shows "length (sinks st) \<le> 1
    \<and> (known ''INFO'' \<and> list_all (op_level_known known) ops \<longrightarrow> CONFIGURED st \<longrightarrow> length (sinks st) = 1)"
proof -
  have info: "upper_ascii (opt_level default_options) = ''INFO''" by code_simp
  have one: "length (sinks s) \<le> 1 \<Longrightarrow> length (sinks (log_step known env isatty op s)) \<le> 1" for op s
    by (cases op) (auto simp: configure_logging_def Let_def reset_logging_def get_logger_state)
  have conf: "CONFIGURED s \<longrightarrow> length (sinks s) = 1 \<Longrightarrow> known ''INFO'' \<Longrightarrow> op_level_known known op \<Longrightarrow>
      CONFIGURED (log_step known env isatty op s) \<longrightarrow> length (sinks (log_step known env isatty op s)) = 1" for op s
    by (cases op) (auto simp: configure_logging_def Let_def reset_logging_def get_logger_state op_level_known_def info)
  have "length (sinks s) \<le> 1 \<Longrightarrow> length (sinks (fold (log_step known env isatty) ops s)) \<le> 1" for s
    by (induction ops arbitrary: s) (simp_all add: one [unfolded One_nat_def])
  moreover have "CONFIGURED s \<longrightarrow> length (sinks s) = 1 \<Longrightarrow> known ''INFO'' \<Longrightarrow> list_all (op_level_known known) ops \<Longrightarrow>
      CONFIGURED (fold (log_step known env isatty) ops s) \<longrightarrow> length (sinks (fold (log_step known env isatty) ops s)) = 1" for s
  proof (induction ops arbitrary: s)
    case (Cons op ops)
    from conf [of s op] Cons show ?case by simp
  qed simp
  ultimately show ?thesis by (simp add: assms initial_log_state_def)
qed

lemma at_most_one_sink_witness:
  "\<exists>st. st = fold (log_step (\<lambda>l. l = ''INFO'') (\<lambda>n. None) True)
          [OpGet None [], OpConfigure default_options, OpReset, OpGet None []] initial_log_state
     \<and> CONFIGURED st \<and> length (sinks st) = 1"
proof -
  let ?ops = "[OpGet None [], OpConfigure default_options, OpReset, OpGet None []]"
  let ?k = "\<lambda>l. l = ''INFO''" and ?e = "\<lambda>n. None :: string option"
  have "list_all (op_level_known ?k) ?ops" by code_simp
  moreover have "CONFIGURED (fold (log_step ?k ?e True) ?ops initial_log_state)" by code_simp
  ultimately show ?thesis using at_most_one_sink [OF refl, of ?k ?e True ?ops] by blast
qed

text \<open>
  After a failed reconfiguration there is no sink, the module still counts as configured, and
  \<open>get_logger\<close> does not bring the sink back.
\<close>

lemma failed_configure_silences:
  assumes "CONFIGURED st" "\<not> known (upper_ascii (opt_level opts))"
  shows "\<exists>st'. configure_logging known env isatty opts st = (Inl (UnknownLevel (upper_ascii (opt_level opts))), st')
     \<and> sinks st' = [] \<and> sinks (snd (get_logger known env isatty n ex st')) = []"
  using assms by (simp add: configure_logging_def Let_def get_logger_state)

section \<open>Bound context\<close>

text \<open>What a block logs has only the fields bound for it and those of the surrounding context, which is back afterwards.\<close>

lemma bind_context_frame:
  assumes "contextualize_documented contextualize"
  shows "snd (bind_context contextualize fs block c) = c"
    and "fst (bind_context contextualize fs (\<lambda>c'. (process_record otel (r\<lparr>rec_extra := c'\<rparr>), c')) c)
      = process_record otel (r\<lparr>rec_extra := fold (\<lambda>(k, v). dict_set k v) fs c\<rparr>)"
  using assms by (simp_all add: bind_context_def contextualize_documented_def)

end
