(* ===== verification/PyBackend.thy ===== *)
theory PyBackend
  imports SgirModels
begin

text \<open>
  Generating Python from a software graph (\<open>backends/python_backend.py\<close>): the lookup tables that the
  helper builds in one pass, the text of functions, methods, classes and data models, and the files.
  The dict of files is in the order of insertion.
\<close>

section \<open>The helper\<close>

record GenerateHelper =
  nodes_by_type :: "(NodeType, SGIRNode list) dict"
  node_by_id :: "(string, SGIRNode) dict"
  children_of_parent :: "(string, SGIRNode list) dict"
  parents_of_child :: "(string, SGIRNode list) dict"
  import_edges :: "SGIREdge list"

definition dict_list :: "('k, 'v list) dict \<Rightarrow> 'k \<Rightarrow> 'v list" where
  "dict_list d k = (case dict_get d k of None \<Rightarrow> [] | Some xs \<Rightarrow> xs)"

definition dict_append :: "'k \<Rightarrow> 'v \<Rightarrow> ('k, 'v list) dict \<Rightarrow> ('k, 'v list) dict" where
  "dict_append k x d = dict_set k (dict_list d k @ [x]) d"

definition all_edges :: "SoftwareGraph \<Rightarrow> SGIREdge list" where
  "all_edges sg = concat (map (edges \<circ> snd) (layers sg))"

definition index_node :: "SGIRNode \<Rightarrow> GenerateHelper \<Rightarrow> GenerateHelper" where
  "index_node n h = h\<lparr>nodes_by_type := dict_append (node_type n) n (nodes_by_type h),
     node_by_id := dict_set (node_id n) n (node_by_id h)\<rparr>"

definition link_nodes :: "SGIREdge \<Rightarrow> GenerateHelper \<Rightarrow> GenerateHelper" where
  "link_nodes e h =
     (case dict_get (node_by_id h) (source e) of
        None \<Rightarrow> h
      | Some s \<Rightarrow>
          (case dict_get (node_by_id h) (target e) of
             None \<Rightarrow> h
           | Some t \<Rightarrow> h\<lparr>children_of_parent := dict_append (source e) t (children_of_parent h),
                        parents_of_child := dict_append (target e) s (parents_of_child h)\<rparr>))"

definition index_edge :: "SGIREdge \<Rightarrow> GenerateHelper \<Rightarrow> GenerateHelper" where
  "index_edge e h =
     (let h' = link_nodes e h
      in if edge_type_value (edge_type e) = ''import'' then h'\<lparr>import_edges := import_edges h' @ [e]\<rparr> else h')"

definition empty_helper :: GenerateHelper where
  "empty_helper = \<lparr>nodes_by_type = [], node_by_id = [], children_of_parent = [], parents_of_child = [], import_edges = []\<rparr>"

definition build_helper :: "SoftwareGraph \<Rightarrow> GenerateHelper" where
  "build_helper sg = fold index_edge (all_edges sg) (fold index_node (all_nodes sg) empty_helper)"

definition helper_find :: "GenerateHelper \<Rightarrow> string \<Rightarrow> SGIRNode option" where
  "helper_find h i = dict_get (node_by_id h) i"

definition children_of :: "GenerateHelper \<Rightarrow> SGIRNode \<Rightarrow> SGIRNode list \<Rightarrow> SGIRNode list" where
  "children_of h p cands =
     (let ids = map node_id (dict_list (children_of_parent h) (node_id p)) in filter (\<lambda>c. node_id c \<in> set ids) cands)"

definition is_child_of :: "GenerateHelper \<Rightarrow> SGIRNode \<Rightarrow> SGIRNode \<Rightarrow> bool" where
  "is_child_of h c p \<longleftrightarrow> list_ex (\<lambda>q. node_id q = node_id p) (dict_list (parents_of_child h) (node_id c))"

definition parents_of :: "GenerateHelper \<Rightarrow> SGIRNode \<Rightarrow> SGIRNode list" where
  "parents_of h c = dict_list (parents_of_child h) (node_id c)"

definition is_under_modules :: "GenerateHelper \<Rightarrow> SGIRNode \<Rightarrow> SGIRNode list \<Rightarrow> bool" where
  "is_under_modules h n ms \<longleftrightarrow>
     list_ex (\<lambda>p. node_id p \<in> set (map node_id ms)) (parents_of h n)
     \<or> (case source_location n of
           None \<Rightarrow> False
         | Some l \<Rightarrow> loc_file_path l \<noteq> [] \<and>
             list_ex (\<lambda>m. case source_location m of None \<Rightarrow> False | Some k \<Rightarrow> loc_file_path k = loc_file_path l) ms)"

section \<open>Text\<close>

definition newline_char :: char where "newline_char = CHR 0x0A"

text \<open>\<open>str.splitlines(True)\<close>: the lines with their ends; \<open>CR LF\<close> is one end.\<close>

definition line_break :: "char \<Rightarrow> bool" where
  "line_break c \<longleftrightarrow> (let n = of_char c :: nat in 10 \<le> n \<and> n \<le> 13 \<or> 28 \<le> n \<and> n \<le> 30 \<or> n = 133)"

fun split_keepends :: "string \<Rightarrow> string \<Rightarrow> string list" where
  "split_keepends acc [] = (if acc = [] then [] else [acc])"
| "split_keepends acc (c # cs) =
     (if c = CHR 0x0D \<and> cs \<noteq> [] \<and> hd cs = CHR 0x0A then split_keepends (acc @ [c]) cs
      else if line_break c then (acc @ [c]) # split_keepends [] cs
      else split_keepends (acc @ [c]) cs)"

definition indent_line :: "string \<Rightarrow> string" where
  "indent_line l = (if py_strip l = [] then l else ''    '' @ l)"

definition indent :: "string \<Rightarrow> string" where
  "indent s = concat (map indent_line (split_keepends [] s))"

definition replace_chars :: "string \<Rightarrow> char \<Rightarrow> string \<Rightarrow> string" where
  "replace_chars cs r s = map (\<lambda>c. if c \<in> set cs then r else c) s"

definition safe_name :: "string \<Rightarrow> string" where
  "safe_name n = replace_chars ''-. '' CHR ''_'' n"

fun split_colon :: "string \<Rightarrow> string \<Rightarrow> string list" where
  "split_colon acc [] = [acc]"
| "split_colon acc (c # cs) = (if c = CHR '':'' then acc # split_colon [] cs else split_colon (acc @ [c]) cs)"

definition doc_text :: "string \<Rightarrow> string" where
  "doc_text p = replicate 3 CHR 0x22 @ p @ replicate 3 CHR 0x22"

definition lines_of :: "string list \<Rightarrow> string" where
  "lines_of ls = join_with [newline_char] ls"

definition sections_of :: "string list \<Rightarrow> string" where
  "sections_of ss = join_with [newline_char, newline_char] ss"

section \<open>Definitions in the generated code\<close>

definition param_text :: "string \<Rightarrow> string" where
  "param_text inp =
     (case split_colon [] inp of
        [] \<Rightarrow> []
      | [a] \<Rightarrow> safe_name (py_strip a)
      | a # b # ps \<Rightarrow> safe_name (py_strip a) @ '': '' @ py_strip b)"

definition inputs_to_params :: "SGIRNode \<Rightarrow> string" where
  "inputs_to_params n =
     join_with '', '' ((if node_type n = NMethod then [''self''] else []) @ map param_text (inputs n))"

definition inputs_to_fields :: "SGIRNode \<Rightarrow> string list" where
  "inputs_to_fields n = map param_text (inputs n)"

definition outputs_to_return_type :: "SGIRNode \<Rightarrow> string" where
  "outputs_to_return_type n =
     (case outputs n of
        [] \<Rightarrow> []
      | [t] \<Rightarrow> '' -> '' @ py_strip t
      | ts \<Rightarrow> '' -> tuple['' @ join_with '', '' (map py_strip ts) @ '']'')"

definition generate_body :: "SGIRNode \<Rightarrow> string" where
  "generate_body n = indent (lines_of (if purpose n \<noteq> [] then [doc_text (purpose n)] else [''pass'']))"

definition generate_function :: "SGIRNode \<Rightarrow> string" where
  "generate_function n =
     ''def '' @ safe_name (node_name n) @ ''('' @ inputs_to_params n @ '')'' @ outputs_to_return_type n @ '':''
     @ [newline_char] @ generate_body n"

definition generate_method :: "SGIRNode \<Rightarrow> string" where
  "generate_method n = indent (generate_function n)"

definition generate_datamodel :: "SGIRNode \<Rightarrow> string" where
  "generate_datamodel n =
     lines_of ([''class '' @ safe_name (node_name n) @ '':''] @ (if purpose n \<noteq> [] then [indent (doc_text (purpose n))] else [])
       @ [indent ''pass''])"

definition get_inheritance :: "SGIRNode \<Rightarrow> GenerateHelper \<Rightarrow> string list" where
  "get_inheritance c h = map (\<lambda>s. safe_name (node_name s)) (filter (\<lambda>s. node_type s = NClass) (parents_of h c))"

definition generate_class :: "SGIRNode \<Rightarrow> SGIRNode list \<Rightarrow> SoftwareGraph \<Rightarrow> string" where
  "generate_class c all_methods sg =
     (let h = build_helper sg; bases = get_inheritance c h; ms = children_of h c all_methods
      in lines_of ([''class '' @ safe_name (node_name c)
             @ (if bases = [] then [] else ''('' @ join_with '', '' bases @ '')'') @ '':'']
           @ (if purpose c \<noteq> [] then [indent (doc_text (purpose c))] else [])
           @ (if ms = [] then [indent ''pass''] else concat (map (\<lambda>m. [[], generate_method m]) ms))))"

section \<open>Imports\<close>

definition import_line :: "GenerateHelper \<Rightarrow> SGIREdge \<Rightarrow> string list \<times> string list \<Rightarrow> string list \<times> string list" where
  "import_line h e acc =
     (case (helper_find h (source e), acc) of
        (None, _) \<Rightarrow> acc
      | (Some n, (seen, imports)) \<Rightarrow>
          if node_name n \<in> set seen then acc else (node_name n # seen, imports @ [''import '' @ node_name n]))"

definition collect_imports :: "SoftwareGraph \<Rightarrow> string list" where
  "collect_imports sg = (let h = build_helper sg in snd (fold (import_line h) (import_edges h) ([], [])))"

definition collect_imports_for_node :: "SGIRNode \<Rightarrow> string list" where
  "collect_imports_for_node n = map (\<lambda>d. ''import '' @ d) (external_dependencies n)"

section \<open>Files\<close>

definition definition_sections ::
    "SoftwareGraph \<Rightarrow> SGIRNode list \<Rightarrow> SGIRNode list \<Rightarrow> SGIRNode list \<Rightarrow> SGIRNode list \<Rightarrow> string list" where
  "definition_sections sg classes functions methods datamodels =
     map generate_datamodel datamodels @ map (\<lambda>c. generate_class c methods sg) classes
     @ map generate_function (filter (\<lambda>f. node_type f \<noteq> NMethod) functions)"

definition generate_single_file ::
    "SoftwareGraph \<Rightarrow> SGIRNode list \<Rightarrow> SGIRNode list \<Rightarrow> SGIRNode list \<Rightarrow> SGIRNode list \<Rightarrow> string" where
  "generate_single_file sg classes functions methods datamodels =
     (let imports = collect_imports sg
      in sections_of ((if imports = [] then [] else [lines_of imports])
           @ definition_sections sg classes functions methods datamodels))"

definition generate_module_file ::
    "SoftwareGraph \<Rightarrow> SGIRNode \<Rightarrow> SGIRNode list \<Rightarrow> SGIRNode list \<Rightarrow> SGIRNode list \<Rightarrow> SGIRNode list \<Rightarrow> string" where
  "generate_module_file sg m classes functions methods datamodels =
     (let imports = collect_imports_for_node m;
          sections = (if purpose m = [] then [] else [doc_text (purpose m)])
            @ (if imports = [] then [] else [lines_of imports])
            @ definition_sections sg classes functions methods datamodels
      in sections_of (if sections = [] then [''pass''] else sections))"

definition generate_package_init :: "SGIRNode \<Rightarrow> string" where
  "generate_package_init p = (if purpose p = [] then [] else doc_text (purpose p))"

definition node_to_file_path :: "SGIRNode \<Rightarrow> string" where
  "node_to_file_path n =
     (case source_location n of
        Some l \<Rightarrow> loc_file_path l
      | None \<Rightarrow> py_lower (replace_chars ''-'' CHR ''_'' (replace_chars ''.'' CHR ''/'' (node_name n))) @ ''.py'')"

definition node_to_dir_path :: "SGIRNode \<Rightarrow> string" where
  "node_to_dir_path n =
     (case source_location n of
        Some l \<Rightarrow> rev (dropWhile (\<lambda>c. c = CHR ''/'') (rev (loc_file_path l)))
      | None \<Rightarrow> py_lower (replace_chars ''-'' CHR ''_'' (replace_chars ''.'' CHR ''/'' (node_name n))))"

definition repository_file :: "SoftwareGraph \<Rightarrow> string" where
  "repository_file sg = py_lower (replace_chars '' '' CHR ''_'' (repo_name (repository sg))) @ ''.py''"

definition module_file :: "SoftwareGraph \<Rightarrow> GenerateHelper \<Rightarrow> SGIRNode \<Rightarrow> string" where
  "module_file sg h m =
     (let ty = (\<lambda>t. children_of h m (dict_list (nodes_by_type h) t))
      in generate_module_file sg m (ty NClass) (ty NFunction) (ty NMethod) (ty NDatamodel))"

definition package_step :: "SGIRNode \<Rightarrow> (string, string) dict \<Rightarrow> (string, string) dict" where
  "package_step p fs =
     (let path = node_to_dir_path p @ ''/__init__.py''
      in if path \<in> set (dict_keys fs) then fs else dict_set path (generate_package_init p) fs)"

definition orphans_of :: "GenerateHelper \<Rightarrow> SGIRNode list" where
  "orphans_of h =
     filter (\<lambda>n. \<not> is_under_modules h n (dict_list (nodes_by_type h) NModule))
       (dict_list (nodes_by_type h) NClass @ dict_list (nodes_by_type h) NFunction @ dict_list (nodes_by_type h) NDatamodel)"

definition generate :: "SoftwareGraph \<Rightarrow> (string, string) dict" where
  "generate sg =
     (let h = build_helper sg; ty = dict_list (nodes_by_type h)
      in if ty NModule = [] \<and> ty NPackage = []
         then [(repository_file sg, generate_single_file sg (ty NClass) (ty NFunction) (ty NMethod) (ty NDatamodel))]
         else (let fs = fold (\<lambda>m. dict_set (node_to_file_path m) (module_file sg h m)) (ty NModule) [];
                   fs' = fold package_step (ty NPackage) fs; orphans = orphans_of h
               in if orphans \<noteq> [] \<and> repository_file sg \<notin> set (dict_keys fs')
                  then dict_set (repository_file sg) (generate_single_file sg orphans [] [] []) fs' else fs'))"

section \<open>The registry of backends\<close>

definition get_backend :: "string \<Rightarrow> string + (SoftwareGraph \<Rightarrow> (string, string) dict)" where
  "get_backend lang =
     (if py_strip (py_lower lang) = ''python'' then Inr generate
      else Inl (''Unknown language '' @ py_repr lang @ ''. Available: python''))"

section \<open>The tables of the helper\<close>

lemma dict_list_append [simp]:
  "dict_list (dict_append k x d) k' = (if k = k' then dict_list d k @ [x] else dict_list d k')"
  by (simp add: dict_list_def dict_append_def)

lemma dict_list_empty [simp]: "dict_list [] k = []"
  by (simp add: dict_list_def)

definition known_ids :: "SoftwareGraph \<Rightarrow> string set" where
  "known_ids sg = node_id ` set (all_nodes sg)"

lemma find_append: "find P (xs @ ys) = (case find P xs of Some x \<Rightarrow> Some x | None \<Rightarrow> find P ys)"
  by (induction xs) auto

lemma find_id:
  assumes "find (\<lambda>n. node_id n = i) ns = Some n"
  shows "node_id n = i" "n \<in> set ns"
  using assms by (induction ns) (auto split: if_splits)

lemma fold_index_node:
  "dict_list (nodes_by_type (fold index_node ns h)) t = dict_list (nodes_by_type h) t @ filter (\<lambda>n. node_type n = t) ns"
  "parents_of_child (fold index_node ns h) = parents_of_child h"
  "children_of_parent (fold index_node ns h) = children_of_parent h"
  "dict_get (node_by_id (fold index_node ns h)) i =
     (case find (\<lambda>n. node_id n = i) (rev ns) of Some n \<Rightarrow> Some n | None \<Rightarrow> dict_get (node_by_id h) i)"
  by (induction ns arbitrary: h) (auto simp: index_node_def find_append split: option.splits)

lemma link_nodes_step:
  "node_by_id (link_nodes e h) = node_by_id h"
  "nodes_by_type (link_nodes e h) = nodes_by_type h"
  "dict_list (parents_of_child (link_nodes e h)) c = dict_list (parents_of_child h) c
     @ (case dict_get (node_by_id h) (source e) of None \<Rightarrow> [] | Some s \<Rightarrow>
          if dict_get (node_by_id h) (target e) \<noteq> None \<and> target e = c then [s] else [])"
  "dict_list (children_of_parent (link_nodes e h)) p = dict_list (children_of_parent h) p
     @ (case dict_get (node_by_id h) (target e) of None \<Rightarrow> [] | Some t \<Rightarrow>
          if dict_get (node_by_id h) (source e) \<noteq> None \<and> source e = p then [t] else [])"
  by (auto simp: link_nodes_def split: option.split)

lemma index_edge_step:
  "node_by_id (index_edge e h) = node_by_id (link_nodes e h)"
  "nodes_by_type (index_edge e h) = nodes_by_type (link_nodes e h)"
  "parents_of_child (index_edge e h) = parents_of_child (link_nodes e h)"
  "children_of_parent (index_edge e h) = children_of_parent (link_nodes e h)"
  by (simp_all add: index_edge_def Let_def del: edge_type_value.simps)

lemma fold_index_edge_keeps [simp]:
  "node_by_id (fold index_edge es h) = node_by_id h" "nodes_by_type (fold index_edge es h) = nodes_by_type h"
  by (induction es arbitrary: h) (simp_all add: index_edge_step link_nodes_step)

lemma fold_index_edge:
  "q \<in> set (dict_list (parents_of_child (fold index_edge es h)) c) \<longleftrightarrow>
     q \<in> set (dict_list (parents_of_child h) c)
     \<or> (\<exists>e\<in>set es. target e = c \<and> dict_get (node_by_id h) (source e) = Some q \<and> dict_get (node_by_id h) c \<noteq> None)"
  "q \<in> set (dict_list (children_of_parent (fold index_edge es h)) p) \<longleftrightarrow>
     q \<in> set (dict_list (children_of_parent h) p)
     \<or> (\<exists>e\<in>set es. source e = p \<and> dict_get (node_by_id h) (target e) = Some q \<and> dict_get (node_by_id h) p \<noteq> None)"
proof (induction es arbitrary: h)
  case (Cons e es)
  {
    case 1
    show ?case
      by (cases "dict_get (node_by_id h) (source e)"; cases "dict_get (node_by_id h) (target e)")
        (auto simp: Cons.IH index_edge_step link_nodes_step)
  next
    case 2
    show ?case
      by (cases "dict_get (node_by_id h) (source e)"; cases "dict_get (node_by_id h) (target e)")
        (auto simp: Cons.IH index_edge_step link_nodes_step)
  }
qed auto

lemma build_helper_types [simp]:
  "dict_list (nodes_by_type (build_helper sg)) t = filter (\<lambda>n. node_type n = t) (all_nodes sg)"
  by (simp add: build_helper_def fold_index_node empty_helper_def)

lemma build_helper_find:
  "dict_get (node_by_id (build_helper sg)) i = find (\<lambda>n. node_id n = i) (rev (all_nodes sg))"
  by (simp add: build_helper_def fold_index_node empty_helper_def split: option.split)

lemma build_helper_known:
  "(\<exists>n. dict_get (node_by_id (build_helper sg)) i = Some n) \<longleftrightarrow> i \<in> known_ids sg"
  "dict_get (node_by_id (build_helper sg)) i = Some n \<Longrightarrow> node_id n = i"
proof -
  show "(\<exists>n. dict_get (node_by_id (build_helper sg)) i = Some n) \<longleftrightarrow> i \<in> known_ids sg"
    using find_None_iff [of "\<lambda>n. node_id n = i" "rev (all_nodes sg)"]
    by (auto simp: build_helper_find known_ids_def)
  show "dict_get (node_by_id (build_helper sg)) i = Some n \<Longrightarrow> node_id n = i"
    unfolding build_helper_find by (rule find_id)
qed

text \<open>The relation the tables stand for: an edge of any layer whose two ends are nodes of the graph.\<close>

definition edge_between :: "SoftwareGraph \<Rightarrow> string \<Rightarrow> string \<Rightarrow> bool" where
  "edge_between sg p c \<longleftrightarrow>
     (\<exists>e\<in>set (all_edges sg). source e = p \<and> target e = c) \<and> p \<in> known_ids sg \<and> c \<in> known_ids sg"

lemma parents_ids: "node_id ` set (parents_of (build_helper sg) c) = {p. edge_between sg p (node_id c)}"
proof -
  let ?d = "node_by_id (build_helper sg)"
  have d: "node_by_id (fold index_node (all_nodes sg) empty_helper) = ?d" by (simp add: build_helper_def)
  have "q \<in> set (parents_of (build_helper sg) c) \<longleftrightarrow>
      (\<exists>e\<in>set (all_edges sg). target e = node_id c \<and> dict_get ?d (source e) = Some q \<and> dict_get ?d (node_id c) \<noteq> None)" for q
    unfolding parents_of_def build_helper_def fold_index_edge fold_index_node(2) d [unfolded build_helper_def]
    by (simp add: empty_helper_def)
  then show ?thesis
    unfolding edge_between_def using build_helper_known [of sg] by (auto simp: image_iff) (metis option.distinct(1))+
qed

lemma is_child_of_equiv: "is_child_of (build_helper sg) c p \<longleftrightarrow> edge_between sg (node_id p) (node_id c)"
proof -
  have "is_child_of (build_helper sg) c p \<longleftrightarrow> node_id p \<in> node_id ` set (parents_of (build_helper sg) c)"
    by (auto simp: is_child_of_def parents_of_def list_ex_iff image_iff) metis
  then show ?thesis by (simp add: parents_ids)
qed

lemma children_of_equiv:
  "children_of (build_helper sg) p cands = filter (\<lambda>c. edge_between sg (node_id p) (node_id c)) cands"
proof -
  let ?h = "build_helper sg" and ?d = "node_by_id (build_helper sg)"
  have d: "node_by_id (fold index_node (all_nodes sg) empty_helper) = ?d" by (simp add: build_helper_def)
  have "t \<in> set (dict_list (children_of_parent ?h) (node_id p)) \<longleftrightarrow>
      (\<exists>e\<in>set (all_edges sg). source e = node_id p \<and> dict_get ?d (target e) = Some t \<and> dict_get ?d (node_id p) \<noteq> None)" for t
    unfolding build_helper_def fold_index_edge fold_index_node(3) d [unfolded build_helper_def]
    by (simp add: empty_helper_def)
  then have "node_id ` set (dict_list (children_of_parent ?h) (node_id p)) = {i. edge_between sg (node_id p) i}"
    unfolding edge_between_def using build_helper_known [of sg] by (auto simp: image_iff) (metis option.distinct(1))+
  then show ?thesis by (auto simp: children_of_def Let_def intro!: filter_cong)
qed

text \<open>
  C25: The tables built in one pass answer as a search through all edges would: a node is a child of another
  exactly if some edge of some layer goes from the one id to the other and both are nodes of the graph, and
  \<open>children_of\<close> keeps exactly the candidates of which that holds.
\<close>

theorem helper_equiv:
  "(is_child_of (build_helper sg) c p \<longleftrightarrow> edge_between sg (node_id p) (node_id c))
   \<and> children_of (build_helper sg) p cands = filter (\<lambda>c. edge_between sg (node_id p) (node_id c)) cands"
  using is_child_of_equiv children_of_equiv by blast

text \<open>The two methods of the backend that build the tables for one question.\<close>

definition classify_nodes :: "SoftwareGraph \<Rightarrow> (NodeType, SGIRNode list) dict" where
  "classify_nodes sg = nodes_by_type (build_helper sg)"

definition graph_child_of :: "SGIRNode \<Rightarrow> SGIRNode \<Rightarrow> SoftwareGraph \<Rightarrow> bool" where
  "graph_child_of c p sg = is_child_of (build_helper sg) c p"

lemma graph_child_of_spec: "graph_child_of c p sg \<longleftrightarrow> edge_between sg (node_id p) (node_id c)"
  by (simp add: graph_child_of_def is_child_of_equiv)

section \<open>Which files\<close>

lemma fold_dict_set_keys:
  "set (dict_keys (fold (\<lambda>m. dict_set (f m) (g m)) ms d)) = f ` set ms \<union> set (dict_keys d)"
  "distinct (dict_keys d) \<Longrightarrow> distinct (dict_keys (fold (\<lambda>m. dict_set (f m) (g m)) ms d))"
  by (induction ms arbitrary: d) (auto simp: dict_keys_def)

lemma fold_package_step_keys:
  "set (dict_keys (fold package_step ps d)) = (\<lambda>p. node_to_dir_path p @ ''/__init__.py'') ` set ps \<union> set (dict_keys d)"
  "distinct (dict_keys d) \<Longrightarrow> distinct (dict_keys (fold package_step ps d))"
  by (induction ps arbitrary: d) (auto simp: package_step_def Let_def dict_keys_def)

abbreviation nodes_of_type :: "SoftwareGraph \<Rightarrow> NodeType \<Rightarrow> SGIRNode list" where
  "nodes_of_type sg t \<equiv> filter (\<lambda>n. node_type n = t) (all_nodes sg)"

text \<open>
  Each generated file has its own name; without modules and packages there is the one file named after
  the repository, otherwise one per module, an initial file per package and, if some code belongs to no
  module, the repository's file.
\<close>

theorem generated_file_names:
  "distinct (dict_keys (generate sg))
   \<and> set (dict_keys (generate sg)) =
       (if nodes_of_type sg NModule = [] \<and> nodes_of_type sg NPackage = [] then {repository_file sg}
        else node_to_file_path ` set (nodes_of_type sg NModule)
          \<union> (\<lambda>p. node_to_dir_path p @ ''/__init__.py'') ` set (nodes_of_type sg NPackage)
          \<union> (if orphans_of (build_helper sg) = [] then {} else {repository_file sg}))"
proof (cases "nodes_of_type sg NModule = [] \<and> nodes_of_type sg NPackage = []")
  case True
  then show ?thesis by (simp add: generate_def Let_def dict_keys_def)
next
  case False
  define h where "h = build_helper sg"
  define fs where "fs = fold package_step (nodes_of_type sg NPackage)
      (fold (\<lambda>m. dict_set (node_to_file_path m) (module_file sg h m)) (nodes_of_type sg NModule) [])"
  have fs: "set (dict_keys fs) = node_to_file_path ` set (nodes_of_type sg NModule)
      \<union> (\<lambda>p. node_to_dir_path p @ ''/__init__.py'') ` set (nodes_of_type sg NPackage)" "distinct (dict_keys fs)"
    unfolding fs_def fold_package_step_keys fold_dict_set_keys
    by (auto simp: dict_keys_def intro!: fold_package_step_keys(2) [unfolded dict_keys_def]
        fold_dict_set_keys(2) [unfolded dict_keys_def])
  have types: "dict_list (nodes_by_type h) t = nodes_of_type sg t" for t by (simp add: h_def)
  have "generate sg = (if orphans_of h \<noteq> [] \<and> repository_file sg \<notin> set (dict_keys fs)
      then dict_set (repository_file sg) (generate_single_file sg (orphans_of h) [] [] []) fs else fs)"
    using False by (simp only: generate_def Let_def h_def [symmetric] types fs_def [symmetric] if_False simp_thms)
  then show ?thesis using fs False by (auto simp: dict_keys_def h_def)
qed

section \<open>What is lost\<close>

text \<open>
  A class, function or data model whose file is the file of some module, but which no edge links to
  a module, is generated nowhere: it is in no module's file, since it is no module's child, and it is no
  orphan, since its module has the same path.
\<close>

theorem unlinked_code_is_lost:
  assumes "m \<in> set (nodes_of_type sg NModule)" "source_location m = Some k"
    and "source_location n = Some l" "loc_file_path l = loc_file_path k" "loc_file_path k \<noteq> []"
    and "\<And>m'. m' \<in> set (nodes_of_type sg NModule) \<Longrightarrow> \<not> edge_between sg (node_id m') (node_id n)"
  shows "(\<forall>m'\<in>set (nodes_of_type sg NModule). n \<notin> set (children_of (build_helper sg) m' cands))
    \<and> n \<notin> set (orphans_of (build_helper sg))"
proof
  show "\<forall>m'\<in>set (nodes_of_type sg NModule). n \<notin> set (children_of (build_helper sg) m' cands)"
    using assms(6) by (simp add: children_of_equiv)
  have "is_under_modules (build_helper sg) n (nodes_of_type sg NModule)"
    using assms(1-5) unfolding is_under_modules_def by (auto simp: list_ex_iff intro!: bexI [of _ m])
  then show "n \<notin> set (orphans_of (build_helper sg))" by (simp add: orphans_of_def)
qed

text \<open>One module and a function in its file, without an edge between them: the module's file has no code.\<close>

definition module_at :: "string \<Rightarrow> SGIRNode" where
  "module_at path = (new_node path path)\<lparr>node_type := NModule, source_location := Some \<lparr>loc_file_path = path,
     line_start = 1, line_end = 1, column_start = 0, column_end = 0\<rparr>\<rparr>"

definition function_at :: "string \<Rightarrow> string \<Rightarrow> SGIRNode" where
  "function_at path n = (module_at path)\<lparr>node_id := path @ ''::'' @ n, node_name := n, node_type := NFunction\<rparr>"

definition lost_graph :: SoftwareGraph where
  "lost_graph = \<lparr>repository = \<lparr>repo_name = ''r'', root_path = ''/r'', languages = [], frameworks = [],
       build_systems = [], architecture_style = ''x'', total_files = 1, total_lines = 1, extra = []\<rparr>,
     layers = [(LCall, \<lparr>layer = LCall, nodes = [module_at ''a.py'', function_at ''a.py'' ''run''], edges = [],
       graph_metadata = []\<rparr>)]\<rparr>"

lemma unlinked_code_is_lost_witness:
  "generate lost_graph = [(''a.py'', ''pass'')]
   \<and> function_at ''a.py'' ''run'' \<in> set (all_nodes lost_graph)
   \<and> function_at ''a.py'' ''run'' \<notin> set (orphans_of (build_helper lost_graph))"
proof -
  have m: "nodes_of_type lost_graph NModule = [module_at ''a.py'']" by code_simp
  have e: "all_edges lost_graph = []" by code_simp
  have gen: "generate lost_graph = [(''a.py'', ''pass'')]" by code_simp
  have "module_at ''a.py'' \<in> set (nodes_of_type lost_graph NModule)" by (simp only: m list.set insertI1)
  from unlinked_code_is_lost [OF this, of _ "function_at ''a.py'' ''run''" _ "[]"]
  have "function_at ''a.py'' ''run'' \<notin> set (orphans_of (build_helper lost_graph))"
    by (simp add: module_at_def function_at_def edge_between_def e)
  moreover have "function_at ''a.py'' ''run'' \<in> set (all_nodes lost_graph)"
    by (simp add: all_nodes_def lost_graph_def)
  ultimately show ?thesis using gen by blast
qed

text \<open>A function of a file without a module becomes a class.\<close>

lemma orphan_function_becomes_class:
  "generate (lost_graph\<lparr>layers := [(LCall, \<lparr>layer = LCall, nodes = [module_at ''a.py'', function_at ''b.py'' ''run''],
      edges = [], graph_metadata = []\<rparr>)]\<rparr>)
   = [(''a.py'', ''pass''), (''r.py'', ''class run:'' @ [newline_char] @ ''    pass'')]"
  by code_simp

end
