(* ===== verification/Operations.thy ===== *)
theory Operations
  imports OptPipeline GraphBuild PyBackend PyParser OkfIndex
begin

text \<open>
  The entry points of the SGIR pipeline (\<open>operations.py\<close>) and the scanner (\<open>repository.py\<close>).

  A directory is the files it lists and its subdirectories, in the order of \<open>os.walk\<close>, without symbolic
  links; a file has the size and the number of lines that \<open>stat\<close> and reading it give, if they do, and the
  text the parser reads (with line ends translated, as \<open>read_text\<close> does), or the error.  The dicts that carry models over a JSON boundary are the models.
  Building and optimising are \<open>build_software_graph\<close> and \<open>optimize_graph\<close> of the theories imported here.
\<close>

section \<open>Walking a directory\<close>

record fs_file =
  fs_name :: string
  fs_size :: "nat option"
  fs_lines :: "nat option"
  fs_text :: "string + string"

datatype fs_dir = FsDir (dir_files: "fs_file list") (subdirs: "(string \<times> fs_dir) list")

text \<open>\<open>os.walk\<close> from the top, not entering the directories that are skipped.\<close>

fun walk_dir :: "(string \<Rightarrow> bool) \<Rightarrow> string \<Rightarrow> fs_dir \<Rightarrow> (string \<times> fs_file list) list"
  and walk_subdirs :: "(string \<Rightarrow> bool) \<Rightarrow> string \<Rightarrow> (string \<times> fs_dir) list \<Rightarrow> (string \<times> fs_file list) list" where
  "walk_dir skip path (FsDir fs ds) = (path, fs) # walk_subdirs skip path ds"
| "walk_subdirs skip path [] = []"
| "walk_subdirs skip path ((n, d) # ds) =
     (if skip n then [] else walk_dir skip (path @ ''/'' @ n) d) @ walk_subdirs skip path ds"

text \<open>\<open>Path.suffix\<close>: from the last dot, unless the name begins or ends with it.\<close>

definition path_suffix :: "string \<Rightarrow> string" where
  "path_suffix n =
     (let ext = takeWhile (\<lambda>c. c \<noteq> CHR ''.'') (rev n); stem = dropWhile (\<lambda>c. c \<noteq> CHR ''.'') (rev n)
      in if ext = [] \<or> length stem \<le> 1 then [] else CHR ''.'' # rev ext)"

definition PYTHON_EXTENSIONS :: "string list" where
  "PYTHON_EXTENSIONS = [''.py'', ''.pyi'']"

definition is_python_file :: "string \<Rightarrow> bool" where
  "is_python_file n \<longleftrightarrow> py_lower (path_suffix n) \<in> set PYTHON_EXTENSIONS"

definition get_language_for_file :: "string \<Rightarrow> string" where
  "get_language_for_file n = (if is_python_file n then ''python'' else ''unknown'')"

section \<open>The scanner\<close>

definition BUILD_SYSTEM_FILES :: "(string, string) dict" where
  "BUILD_SYSTEM_FILES = [(''pyproject.toml'', ''python''), (''setup.py'', ''python''), (''setup.cfg'', ''python'')]"

definition DIRECTORIES_TO_SKIP :: "string list" where
  "DIRECTORIES_TO_SKIP = [''.git'', ''.hg'', ''.svn'', ''__pycache__'', ''node_modules'', ''vendor'', ''dist'', ''build'', ''.venv'',
     ''venv'', ''.mypy_cache'', ''.pytest_cache'', ''.ruff_cache'', ''target'', ''coverage'', ''.tox'', ''.eggs'']"

definition scan_skips :: "string \<Rightarrow> bool" where
  "scan_skips n \<longleftrightarrow> n \<in> set DIRECTORIES_TO_SKIP \<or> suffix ''.egg-info'' n"

definition line_count :: "fs_file \<Rightarrow> nat" where
  "line_count f =
     (case fs_size f of
        None \<Rightarrow> 0
      | Some sz \<Rightarrow> if sz < 1000000 then (case fs_lines f of None \<Rightarrow> 0 | Some k \<Rightarrow> k) else 0)"

definition count_file :: "fs_file \<Rightarrow> nat \<times> nat \<Rightarrow> nat \<times> nat" where
  "count_file f acc = (if \<not> is_python_file (fs_name f) then acc else (fst acc + 1, snd acc + line_count f))"

definition note_build_system :: "fs_file \<Rightarrow> string list \<Rightarrow> string list" where
  "note_build_system f bs =
     (case dict_get BUILD_SYSTEM_FILES (fs_name f) of
        None \<Rightarrow> bs | Some b \<Rightarrow> if b \<in> set bs then bs else bs @ [b])"

definition collect_repository_metadata :: "string \<Rightarrow> string \<Rightarrow> fs_dir option \<Rightarrow> string + RepositoryMetadata" where
  "collect_repository_metadata rootdir rootname dir =
     (case dir of
        None \<Rightarrow> Inl (''Not a directory: '' @ rootdir)
      | Some d \<Rightarrow>
          (let visits = walk_dir scan_skips rootdir d;
               (k, ls) = fold (\<lambda>(p, fs). fold count_file fs) visits (0, 0);
               bs = fold (\<lambda>(p, fs). fold note_build_system fs) visits []
           in Inr \<lparr>repo_name = rootname, root_path = rootdir, languages = [''python''], frameworks = [], build_systems = bs,
                   architecture_style = ''unknown'', total_files = int k, total_lines = int ls, extra = []\<rparr>))"

section \<open>Parsing a repository\<close>

definition PYTHON_DIRECTORIES_TO_SKIP :: "string list" where
  "PYTHON_DIRECTORIES_TO_SKIP = [''.git'', ''__pycache__'', ''node_modules'', ''vendor'', ''.venv'', ''venv'', ''.mypy_cache'',
     ''.pytest_cache'', ''.ruff_cache'', ''target'', ''dist'', ''build'']"

definition parse_skips :: "string \<Rightarrow> bool" where
  "parse_skips n \<longleftrightarrow> n \<in> set PYTHON_DIRECTORIES_TO_SKIP"

type_synonym parse_result = "ParsedEntity list \<times> (string \<times> string) list"

definition parse_one ::
    "(string \<Rightarrow> string + ast list) \<Rightarrow> (ast \<Rightarrow> string option) \<Rightarrow> (ast \<Rightarrow> string option) \<Rightarrow> string \<Rightarrow> fs_file
       \<Rightarrow> parse_result \<Rightarrow> parse_result" where
  "parse_one ast_parse unparse get_docstring path f acc =
     (if \<not> is_python_file (fs_name f) then acc
      else let fp = path @ ''/'' @ fs_name f
           in case parse_file ast_parse unparse get_docstring (\<lambda>p. fs_text f) fp of
                Inl e \<Rightarrow> (fst acc, snd acc @ [(fp, e)])
              | Inr es \<Rightarrow> (fst acc @ es, snd acc))"

definition parse_repository ::
    "(string \<Rightarrow> string + ast list) \<Rightarrow> (ast \<Rightarrow> string option) \<Rightarrow> (ast \<Rightarrow> string option) \<Rightarrow> string \<Rightarrow> fs_dir option
       \<Rightarrow> parse_result" where
  "parse_repository ast_parse unparse get_docstring rootdir dir =
     (case dir of
        None \<Rightarrow> ([], [(rootdir, ''not a directory'')])
      | Some d \<Rightarrow> fold (\<lambda>(p, fs). fold (parse_one ast_parse unparse get_docstring p) fs) (walk_dir parse_skips rootdir d) ([], []))"

section \<open>Generating and ingesting\<close>

definition generate_code :: "SoftwareGraph \<Rightarrow> string \<Rightarrow> string + (string, string) dict" where
  "generate_code sg target_language =
     (case get_backend target_language of Inl e \<Rightarrow> Inl e | Inr backend \<Rightarrow> Inr (backend sg))"

definition code_id :: "ParsedEntity \<Rightarrow> string" where
  "code_id e = ''code::'' @ pe_file_path e @ ''::'' @ entity_type e @ ''::'' @ pe_name e"

definition parent_text :: "ParsedEntity \<Rightarrow> string" where
  "parent_text e = (case parent e of None \<Rightarrow> [] | Some p \<Rightarrow> p)"

definition ingest_frontmatter :: "(json \<Rightarrow> string option) \<Rightarrow> ParsedEntity \<Rightarrow> okf_error + OKFFrontmatter" where
  "ingest_frontmatter parse_time e =
     mk_frontmatter parse_time
       [(''type'', JStr (''code.'' @ entity_type e)), (''title'', JStr (pe_name e)),
        (''description'', JStr (entity_type e @ '' '' @ pe_name e @ '' in '' @ pe_file_path e)),
        (''tags'', JArr (map JStr (filter (\<lambda>t. t \<noteq> []) [pe_file_path e, entity_type e, parent_text e])))]
       [(''source'', JStr ''ast-graph''), (''file_path'', JStr (pe_file_path e)), (''line_start'', JInt (pe_line_start e)),
        (''line_end'', JInt (pe_line_end e)), (''parent'', JStr (parent_text e)), (''language'', JStr (pe_language e)),
        (''is_async'', JBool (is_async e)), (''is_generator'', JBool (is_generator e))]"

definition ingest_body :: "ParsedEntity \<Rightarrow> string" where
  "ingest_body e =
     (let nl = CHR 0x0A; bt = CHR 0x60; fence = replicate 3 bt
      in ''# '' @ pe_name e @ [nl, nl] @ [bt] @ entity_type e @ [bt] @ '' declared in '' @ [bt] @ pe_file_path e @ [bt]
         @ '' at lines '' @ show_int (pe_line_start e) @ ''-'' @ show_int (pe_line_end e) @ ''.'' @ [nl, nl] @ fence @ [nl]
         @ py_list_repr (pe_parameters e) @ [nl] @ fence)"

definition ingest_concept :: "(json \<Rightarrow> string option) \<Rightarrow> ParsedEntity \<Rightarrow> okf_error + OKFConcept" where
  "ingest_concept parse_time e =
     (case ingest_frontmatter parse_time e of
        Inl err \<Rightarrow> Inl err
      | Inr fm \<Rightarrow> Inr \<lparr>concept_id = code_id e, source_path = None, frontmatter = fm, concept_body = ingest_body e,
                      sections = [], concept_links = [], citations = []\<rparr>)"

fun ingest_graph ::
    "(string \<Rightarrow> rat list) \<Rightarrow> (json \<Rightarrow> string option) \<Rightarrow> ParsedEntity list \<Rightarrow> nat \<Rightarrow> Index \<Rightarrow> (index_error + nat) \<times> Index" where
  "ingest_graph embedding parse_time [] written ix = (Inr written, ix)"
| "ingest_graph embedding parse_time (e # es) written ix =
     (case ingest_concept parse_time e of
        Inl err \<Rightarrow> (Inl (PayloadError err), ix)
      | Inr c \<Rightarrow>
          (case index_write embedding ix c of
             Inl err \<Rightarrow> (Inl err, ix)
           | Inr ix' \<Rightarrow> ingest_graph embedding parse_time es (Suc written) ix'))"

section \<open>What is scanned and parsed\<close>

definition python_files :: "(string \<Rightarrow> bool) \<Rightarrow> string \<Rightarrow> fs_dir \<Rightarrow> (string \<times> fs_file) list" where
  "python_files skip rootdir d =
     concat (map (\<lambda>(p, fs). map (\<lambda>f. (p @ ''/'' @ fs_name f, f)) (filter (\<lambda>f. is_python_file (fs_name f)) fs)) (walk_dir skip rootdir d))"

lemma fold_count_file:
  "fold count_file fs acc =
     (fst acc + length (filter (\<lambda>f. is_python_file (fs_name f)) fs),
      snd acc + sum_list (map line_count (filter (\<lambda>f. is_python_file (fs_name f)) fs)))"
  by (induction fs arbitrary: acc) (auto simp: count_file_def)

lemma fold_count_visits:
  "fst (fold (\<lambda>(p, fs). fold count_file fs) visits acc) =
     fst acc + length (concat (map (\<lambda>(p, fs). map (\<lambda>f. (p @ ''/'' @ fs_name f, f)) (filter (\<lambda>f. is_python_file (fs_name f)) fs)) visits))"
  by (induction visits arbitrary: acc) (auto simp: fold_count_file)

lemma walk_dir_mono:
  "(\<forall>n. skip2 n \<longrightarrow> skip1 n) \<Longrightarrow> subseq (walk_dir skip1 path d) (walk_dir skip2 path d)"
  "(\<forall>n. skip2 n \<longrightarrow> skip1 n) \<Longrightarrow> subseq (walk_subdirs skip1 path ds) (walk_subdirs skip2 path ds)"
  by (induction skip2 path d and skip2 path ds rule: walk_dir_walk_subdirs.induct)
    (auto intro: list_emb_append_mono)

lemma python_files_mono:
  assumes "\<forall>n. skip2 n \<longrightarrow> skip1 n"
  shows "length (python_files skip1 path d) \<le> length (python_files skip2 path d)"
proof -
  have "subseq vs ws \<Longrightarrow> length (concat (map f vs)) \<le> length (concat (map f ws))"
    for vs ws :: "(string \<times> fs_file list) list" and f :: "string \<times> fs_file list \<Rightarrow> (string \<times> fs_file) list"
    by (induction vs ws rule: list_emb.induct) auto
  from this [OF walk_dir_mono(1) [OF assms]] show ?thesis by (simp add: python_files_def)
qed

lemma scan_skips_more: "\<forall>n. parse_skips n \<longrightarrow> scan_skips n"
  by (auto simp: parse_skips_def scan_skips_def PYTHON_DIRECTORIES_TO_SKIP_def DIRECTORIES_TO_SKIP_def)

text \<open>
  The scanner counts each Python file below the root that is in no skipped directory, and the parser
  visits at least as many: it skips fewer directories.
\<close>

theorem scanned_files_are_parsed:
  assumes "collect_repository_metadata rootdir rootname (Some d) = Inr r"
  shows "total_files r = int (length (python_files scan_skips rootdir d))
    \<and> total_files r \<le> int (length (python_files parse_skips rootdir d))"
proof -
  have "total_files r = int (length (python_files scan_skips rootdir d))"
    using assms fold_count_visits [of "walk_dir scan_skips rootdir d" "(0, 0)"]
    by (auto simp: collect_repository_metadata_def python_files_def Let_def split: prod.splits)
  then show ?thesis using python_files_mono [OF scan_skips_more, of rootdir d] by simp
qed

definition demo_file :: "string \<Rightarrow> fs_file" where
  "demo_file n = \<lparr>fs_name = n, fs_size = None, fs_lines = Some 2, fs_text = Inr ''x = 1''\<rparr>"

definition demo_dir :: fs_dir where
  "demo_dir = FsDir [demo_file ''setup.py'', demo_file ''.py''] [(''.tox'', FsDir [demo_file ''a.py''] []), (''venv'', FsDir [demo_file ''b.py''] [])]"

lemma scanned_files_are_parsed_witness:
  "\<exists>r. collect_repository_metadata ''/r'' ''r'' (Some demo_dir) = Inr r \<and> total_files r = 1 \<and> build_systems r = [''python'']
     \<and> total_files r \<le> int (length (python_files parse_skips ''/r'' demo_dir))
     \<and> map fst (python_files parse_skips ''/r'' demo_dir) = [''/r/setup.py'', ''/r/.tox/a.py'']"
proof -
  have "case collect_repository_metadata ''/r'' ''r'' (Some demo_dir) of
      Inl e \<Rightarrow> False | Inr r \<Rightarrow> total_files r = 1 \<and> build_systems r = [''python'']"
    by code_simp
  then obtain r where r: "collect_repository_metadata ''/r'' ''r'' (Some demo_dir) = Inr r"
    "total_files r = 1" "build_systems r = [''python'']" by (auto split: sum.splits)
  have "map fst (python_files parse_skips ''/r'' demo_dir) = [''/r/setup.py'', ''/r/.tox/a.py'']" by code_simp
  with r conjunct2 [OF scanned_files_are_parsed [OF r(1)]] show ?thesis by (intro exI [of _ r] conjI)
qed

text \<open>
  Parsing a repository accounts for every Python file it visits: the result is the entities of the
  files that parse, in the order of the walk, and one error for each file that does not.
\<close>

theorem parse_repository_spec:
  "parse_repository ast_parse unparse get_docstring rootdir (Some d) =
     (let parse = (\<lambda>(fp, f). parse_file ast_parse unparse get_docstring (\<lambda>p. fs_text f) fp);
          fs = python_files parse_skips rootdir d
      in (concat (map (\<lambda>x. case parse x of Inl e \<Rightarrow> [] | Inr es \<Rightarrow> es) fs),
          concat (map (\<lambda>x. case parse x of Inl e \<Rightarrow> [(fst x, e)] | Inr es \<Rightarrow> []) fs)))"
proof -
  let ?parse = "\<lambda>(fp, f). parse_file ast_parse unparse get_docstring (\<lambda>p. fs_text f) fp"
  let ?ok = "\<lambda>x. case ?parse x of Inl e \<Rightarrow> [] | Inr es \<Rightarrow> es" and ?bad = "\<lambda>x. case ?parse x of Inl e \<Rightarrow> [(fst x, e)] | Inr es \<Rightarrow> []"
  let ?at = "\<lambda>p fs. map (\<lambda>f. (p @ ''/'' @ fs_name f, f)) (filter (\<lambda>f. is_python_file (fs_name f)) fs)"
  have one: "fold (parse_one ast_parse unparse get_docstring p) fs acc =
      (fst acc @ concat (map ?ok (?at p fs)), snd acc @ concat (map ?bad (?at p fs)))" for p fs acc
    by (induction fs arbitrary: acc) (auto simp: parse_one_def Let_def split: sum.splits)
  have "fold (\<lambda>(p, fs). fold (parse_one ast_parse unparse get_docstring p) fs) vs acc =
      (fst acc @ concat (map ?ok (concat (map (\<lambda>(p, fs). ?at p fs) vs))),
       snd acc @ concat (map ?bad (concat (map (\<lambda>(p, fs). ?at p fs) vs))))" for vs acc
    by (induction vs arbitrary: acc) (auto simp: one)
  from this [of "walk_dir parse_skips rootdir d" "([], [])"]
  show ?thesis by (simp add: parse_repository_def python_files_def Let_def)
qed

section \<open>What is ingested\<close>

lemma ingest_concept_id: "ingest_concept parse_time e = Inr c \<Longrightarrow> concept_id c = code_id e"
  by (auto simp: ingest_concept_def split: sum.splits)

lemma index_write_rows:
  "index_write embedding ix c = Inr ix' \<Longrightarrow>
     map row_concept (irows ix') = filter (\<lambda>i. i \<noteq> concept_id c) (map row_concept (irows ix)) @ [concept_id c]"
  by (auto simp: index_write_def Let_def row_of_def filter_map comp_def split: option.splits if_splits)

text \<open>
  C26: Ingesting entities into an index reports how many concepts were written; the rows of the index then
  are those it had and one for each different file, kind and name, however many entities share them.
  The row of an entity is \<open>code::<file>::<kind>::<name>\<close>; the docstring of \<open>ingest_graph\<close> says
  \<open>graph::<file>::<kind>::<name>\<close>, or the entity's own id, which a \<open>ParsedEntity\<close> does not have.
\<close>

theorem ingested_rows:
  assumes "ingest_graph embedding parse_time es k ix = (Inr n, ix')" "distinct (map row_concept (irows ix))"
  shows "n = k + length es \<and> distinct (map row_concept (irows ix'))
    \<and> row_concept ` set (irows ix') = row_concept ` set (irows ix) \<union> code_id ` set es"
  using assms
proof (induction es arbitrary: k ix)
  case (Cons e es)
  from Cons.prems(1) obtain c ix1 where s: "ingest_concept parse_time e = Inr c" "index_write embedding ix c = Inr ix1"
    "ingest_graph embedding parse_time es (Suc k) ix1 = (Inr n, ix')" by (auto split: sum.splits)
  note rows = index_write_rows [OF s(2)] and id = ingest_concept_id [OF s(1)]
  have d: "distinct (map row_concept (irows ix1))"
    unfolding rows using Cons.prems(2) by simp
  have "row_concept ` set (irows ix1) = insert (code_id e) (row_concept ` set (irows ix))"
    using arg_cong [OF rows, of set] by (auto simp: id)
  with Cons.IH [OF s(3) d] show ?case by auto
qed simp

definition twin_entities :: "ParsedEntity list" where
  "twin_entities = [(new_entity ''run'' ''method'' ''a.py'')\<lparr>parent := Some ''A''\<rparr>,
     (new_entity ''run'' ''method'' ''a.py'')\<lparr>parent := Some ''B''\<rparr>]"

lemma case_InrE: "(case x of (Inr n, y) \<Rightarrow> P n y | _ \<Rightarrow> False) \<Longrightarrow> \<exists>n y. x = (Inr n, y) \<and> P n y"
  by (auto split: prod.splits sum.splits)

lemma ingested_rows_witness:
  "\<exists>ix'. ingest_graph (\<lambda>t. [0]) (\<lambda>j. None) twin_entities 0 (empty_index ''m'' 1) = (Inr 2, ix')
     \<and> row_concept ` set (irows ix') = {''code::a.py::method::run''} \<and> length (irows ix') = 1"
proof -
  have "case ingest_graph (\<lambda>t. [0]) (\<lambda>j. None) twin_entities 0 (empty_index ''m'' 1) of
      (Inr n, ix') \<Rightarrow> n = 2 \<and> length (irows ix') = 1 | _ \<Rightarrow> False"
    by code_simp
  from case_InrE [OF this] obtain ix' where
    r: "ingest_graph (\<lambda>t. [0]) (\<lambda>j. None) twin_entities 0 (empty_index ''m'' 1) = (Inr 2, ix')" "length (irows ix') = 1"
    by blast
  have "code_id ` set twin_entities = {''code::a.py::method::run''}"
    by (auto simp: code_id_def twin_entities_def new_entity_def)
  moreover have "irows (empty_index ''m'' 1) = []" by (simp add: empty_index_def)
  ultimately have "row_concept ` set (irows ix') = {''code::a.py::method::run''}"
    using ingested_rows [OF r(1)] by (simp only: list.map list.set distinct.simps image_empty Un_empty_left simp_thms)
  with r show ?thesis by blast
qed

section \<open>From a program to a program\<close>

text \<open>A file that imports \<open>os\<close> and defines the function \<open>run\<close>.\<close>

definition importing_entities :: "ParsedEntity list" where
  "importing_entities =
     [(new_entity ''os'' ''import'' ''a.py'')\<lparr>import_names := [''os'']\<rparr>, new_entity ''run'' ''function'' ''a.py'']"

text \<open>
  Two examples of the whole way through the graph to generated code (the reasons are
  \<open>PyBackend.unlinked_code_is_lost\<close> and \<open>PyBackend.orphan_function_becomes_class\<close>): in a file that imports
  something a function is lost altogether, and without an import it comes back as a class, once for each
  of the five layers that have a node for it.
\<close>

lemma generated_code_loses_functions:
  "(case build_software_graph AUTH_PATTERNS demo_repo importing_entities of
      Inl e \<Rightarrow> False
    | Inr sg \<Rightarrow> generate_code sg ''python'' = Inr [(''a.py'', ''pass''), (''os.py'', ''pass''), (''demo/__init__.py'', [])])
   \<and> (case build_software_graph AUTH_PATTERNS demo_repo [new_entity ''run'' ''function'' ''a.py''] of
        Inl e \<Rightarrow> False
      | Inr sg \<Rightarrow> (case generate_code sg ''python'' of
           Inl e \<Rightarrow> False
         | Inr fs \<Rightarrow> dict_get fs ''demo.py''
             = Some (sections_of (replicate 5 (''class run:'' @ [newline_char] @ ''    pass'')))))"
  by (rule conjI; code_simp)

end
