(* ===== verification/Agents.thy ===== *)
theory Agents
  imports Compute CoreModels "HOL-Library.Char_ord" "HOL-Library.List_Lexorder"
begin

text \<open>
  The agents: the role table and the agents built from it (\<open>agents/ai/roles.py\<close>,
  \<open>intelliqx_ai/runtime.py\<close>), the agent registry (\<open>intelliqx_agents/registry.py\<close>, \<open>base.py\<close>) and the
  wiring of the catalog into the registry and the compute runtime (\<open>agents/__init__.py\<close>).

  A factory is a closure; Python compares closures by identity, so a factory carries a number that is
  drawn when it is made.  An output model is known by its class name.  Pydantic AI is the parameter
  \<open>agent_run\<close>: what running an agent on a prompt gives, in the bound run context.
\<close>

section \<open>Roles\<close>

record RoleSpec =
  role_name :: string
  role_category :: string
  instructions :: string
  output_model :: "string option"

definition mk_role :: "string \<Rightarrow> string \<Rightarrow> string \<Rightarrow> string option \<Rightarrow> RoleSpec" where
  "mk_role n c i m = \<lparr>role_name = n, role_category = c, instructions = i, output_model = m\<rparr>"

definition CATEGORIES :: "string list" where
  "CATEGORIES = [''coordination'', ''intelligence'', ''execution'', ''governance'']"

definition ROLE_TABLE :: "RoleSpec list" where
  "ROLE_TABLE = [
     mk_role ''planner'' ''coordination''
       ''You are the IntelliqX planner. Given a goal, produce a deterministic step-by-step plan using only the named agents.'' (Some ''PlanResult''),
     mk_role ''orchestrator'' ''coordination''
       ''IntelliqX orchestrator. Always emit one terminal result.'' (Some ''Done''),
     mk_role ''knowledge_rag'' ''coordination''
       ''Return the best matching knowledge snippets as a JSON {hits: [{id, text}]} object.'' (Some ''RetrievalResult''),
     mk_role ''tool_manager'' ''coordination''
       ''Return the tool execution result.'' None,
     mk_role ''smoke'' ''coordination''
       ''Echo the input and return one short string.'' None,
     mk_role ''requirements_intel'' ''intelligence''
       ''Extract requirements as a JSON {items: [{id, text}]} object.'' (Some ''RequirementList''),
     mk_role ''code_intel'' ''intelligence''
       ''Return the list of files affected by the change.'' (Some ''Impact''),
     mk_role ''risk_assessment'' ''intelligence''
       ''Score the proposed change 0..1 and explain in one sentence.'' (Some ''Risk''),
     mk_role ''test_design'' ''intelligence''
       ''Return test cases as a JSON {cases: [{name, steps:[...]}]} object.'' (Some ''TestCaseList''),
     mk_role ''test_data'' ''intelligence''
       ''Return a JSON dataset string for the test plan.'' None,
     mk_role ''coverage_analysis'' ''intelligence''
       ''Return coverage percent 0..100 and the list of gap names.'' (Some ''Coverage''),
     mk_role ''critic'' ''intelligence''
       ''List every schema violation or hallucination in the input.'' (Some ''Critique''),
     mk_role ''learning'' ''intelligence''
       ''Persist feedback and return one short summary.'' None,
     mk_role ''prompt_management'' ''intelligence''
       ''Return the selected prompt version id.'' None,
     mk_role ''environment'' ''execution''
       ''Start the system under test and return the base URL.'' None,
     mk_role ''design_intel'' ''execution''
       ''Return a concise DOM snapshot of the running page.'' None,
     mk_role ''execution'' ''execution''
       ''Run the test plan and return {passed, failed, outcome}.'' (Some ''ExecutionResult''),
     mk_role ''self_healing'' ''execution''
       ''Return the recovered selector and a 0..1 confidence score.'' (Some ''SelfHealingPlan''),
     mk_role ''failure_analysis'' ''execution''
       ''Return a one-line failure category.'' None,
     mk_role ''visual_regression'' ''execution''
       (''Return '' @ [CHR 0x27] @ ''match'' @ [CHR 0x27] @ '' or '' @ [CHR 0x27] @ ''mismatch'' @ [CHR 0x27] @ ''.'') None,
     mk_role ''accessibility'' ''execution''
       ''Return the list of WCAG issues as JSON.'' None,
     mk_role ''performance'' ''execution''
       ''Return p50/p95/p99 latencies as JSON.'' None,
     mk_role ''security'' ''execution''
       ''Return the list of security findings as JSON.'' None,
     mk_role ''cost_optimization'' ''execution''
       ''Return the recommended cost-saving changes as JSON.'' None,
     mk_role ''observability'' ''governance''
       ''Return the SLO summary as JSON.'' None,
     mk_role ''reporting'' ''governance''
       ''Return the markdown run report.'' None,
     mk_role ''governance_compliance'' ''governance''
       ''Return the approval decision and audit record ids.'' None,
     mk_role ''release_readiness'' ''governance''
       ''Return {recommendation, confidence, outcome}.'' (Some ''ReleaseDecision'')]"

type_synonym factory = "nat \<times> RoleSpec"

record AgentRole =
  rl_name :: string
  rl_category :: string
  rl_description :: string
  rl_output_type :: string
  rl_factory :: factory

definition output_type_of :: "RoleSpec \<Rightarrow> string" where
  "output_type_of s = (case output_model s of None \<Rightarrow> ''str'' | Some m \<Rightarrow> m)"

definition build_factory :: "nat \<Rightarrow> RoleSpec \<Rightarrow> factory" where
  "build_factory n s = (n, s)"

definition role_of :: "nat \<Rightarrow> RoleSpec \<Rightarrow> AgentRole" where
  "role_of n s = \<lparr>rl_name = role_name s, rl_category = role_category s, rl_description = instructions s,
     rl_output_type = output_type_of s, rl_factory = build_factory n s\<rparr>"

fun build_roles :: "RoleSpec list \<Rightarrow> nat \<Rightarrow> string + AgentRole list" where
  "build_roles [] n = Inr []"
| "build_roles (s # ss) n =
     (if role_category s \<notin> set CATEGORIES then Inl (''Unknown role category: '' @ py_repr (role_category s))
      else case build_roles ss (Suc n) of Inl e \<Rightarrow> Inl e | Inr rs \<Rightarrow> Inr (role_of n s # rs))"

section \<open>Building an agent\<close>

record AgentConfig =
  cfg_model :: "string option"

record built_agent =
  ba_name :: string
  ba_model :: string
  ba_output_type :: string
  ba_instructions :: string
  ba_base_url :: "string option"
  ba_api_key :: string

definition DEFAULT_MODEL :: string where "DEFAULT_MODEL = ''openai:gpt-4o-mini''"
definition BASE_URL_ENV :: string where "BASE_URL_ENV = ''INTELLIQX_OPENAI_BASE_URL''"
definition API_KEY_ENV :: string where "API_KEY_ENV = ''INTELLIQX_OPENAI_API_KEY''"
definition MODEL_ENV :: string where "MODEL_ENV = ''INTELLIQX_MODEL''"

definition read_api_key :: "(string \<Rightarrow> string option) \<Rightarrow> exn + string" where
  "read_api_key env =
     (case env API_KEY_ENV of
        Some (c # cs) \<Rightarrow> Inr (c # cs)
      | _ \<Rightarrow> Inl (OtherException ''RuntimeError'' (API_KEY_ENV @ '' is required to build a Pydantic AI agent. ''
               @ ''Set the environment variable or pass a TestModel in tests.'')))"

text \<open>A model given by its name, or none; the model instances that tests pass are not modelled.\<close>

definition build_agent ::
    "(string \<Rightarrow> string option) \<Rightarrow> string \<Rightarrow> string \<Rightarrow> string \<Rightarrow> AgentConfig option \<Rightarrow> exn + built_agent" where
  "build_agent env name output_type instr cfg =
     (let model = (case cfg of
            Some c \<Rightarrow> (case cfg_model c of
                Some m \<Rightarrow> m | None \<Rightarrow> (case env MODEL_ENV of None \<Rightarrow> DEFAULT_MODEL | Some m \<Rightarrow> m))
          | None \<Rightarrow> (case env MODEL_ENV of None \<Rightarrow> DEFAULT_MODEL | Some m \<Rightarrow> m))
      in case read_api_key env of
           Inl e \<Rightarrow> Inl e
         | Inr k \<Rightarrow> Inr \<lparr>ba_name = name, ba_model = model, ba_output_type = output_type, ba_instructions = instr,
                        ba_base_url = env BASE_URL_ENV, ba_api_key = k\<rparr>)"

definition build_agent_for_role :: "(string \<Rightarrow> string option) \<Rightarrow> RoleSpec \<Rightarrow> exn + built_agent" where
  "build_agent_for_role env s = build_agent env (role_name s) (output_type_of s) (instructions s) None"

section \<open>The registry\<close>

record AgentMeta =
  am_name :: string
  am_category :: AgentCategory
  am_version :: string
  am_description :: string
  am_capabilities :: "AgentCapability list"

record AgentRegistry =
  factories :: "(string, factory) dict"
  metas :: "(string, AgentMeta option) dict"

definition new_registry :: AgentRegistry where
  "new_registry = \<lparr>factories = [], metas = []\<rparr>"

definition register_factory :: "string \<Rightarrow> factory \<Rightarrow> AgentMeta option \<Rightarrow> AgentRegistry \<Rightarrow> AgentRegistry" where
  "register_factory n f m r = r\<lparr>factories := dict_set n f (factories r), metas := dict_set n m (metas r)\<rparr>"

datatype agents_error = NotRegistered string | RuntimeErr string | ValueErr string

definition registry_create ::
    "(string \<Rightarrow> string option) \<Rightarrow> string \<Rightarrow> AgentRegistry \<Rightarrow> agents_error + (exn + built_agent)" where
  "registry_create env n r =
     (case dict_get (factories r) n of
        None \<Rightarrow> Inl (NotRegistered (''Agent not registered: '' @ py_repr n))
      | Some f \<Rightarrow> Inr (build_agent_for_role env (snd f)))"

definition registry_list :: "AgentRegistry \<Rightarrow> string list" where
  "registry_list r = sort (dict_keys (factories r))"

definition get_meta :: "string \<Rightarrow> AgentRegistry \<Rightarrow> AgentMeta option" where
  "get_meta n r = (case dict_get (metas r) n of None \<Rightarrow> None | Some m \<Rightarrow> m)"

definition category_of :: "string \<Rightarrow> AgentCategory option" where
  "category_of v = find (\<lambda>c. category_value c = v) [Coordination, Intelligence, Execution, Governance]"

definition meta_for :: "AgentRole \<Rightarrow> agents_error + AgentMeta" where
  "meta_for r =
     (case category_of (rl_category r) of
        None \<Rightarrow> Inl (ValueErr (''Role '' @ py_repr (rl_name r) @ '' has unknown category '' @ py_repr (rl_category r)))
      | Some c \<Rightarrow> Inr \<lparr>am_name = rl_name r, am_category = c, am_version = ''1.0.0'', am_description = rl_description r,
                      am_capabilities = []\<rparr>)"

section \<open>The catalog\<close>

record agents_state =
  cached_catalog :: "AgentRole list option"
  singleton :: "AgentRegistry option"
  next_ident :: nat

definition reset_catalog :: "agents_state \<Rightarrow> agents_state" where
  "reset_catalog st = st\<lparr>cached_catalog := None\<rparr>"

definition reset_agent_registry :: "agents_state \<Rightarrow> agents_state" where
  "reset_agent_registry st = st\<lparr>singleton := None\<rparr>"

definition get_agent_registry :: "agents_state \<Rightarrow> AgentRegistry \<times> agents_state" where
  "get_agent_registry st =
     (case singleton st of
        None \<Rightarrow> (new_registry, st\<lparr>singleton := Some new_registry\<rparr>) | Some r \<Rightarrow> (r, st))"

definition register_agent :: "string \<Rightarrow> factory \<Rightarrow> AgentMeta option \<Rightarrow> agents_state \<Rightarrow> agents_state" where
  "register_agent n f m st =
     (let (r, st') = get_agent_registry st in st'\<lparr>singleton := Some (register_factory n f m r)\<rparr>)"

definition build_catalog :: "agents_state \<Rightarrow> (agents_error + AgentRole list) \<times> agents_state" where
  "build_catalog st =
     (case cached_catalog st of
        Some c \<Rightarrow> (Inr c, st)
      | None \<Rightarrow>
          (case build_roles ROLE_TABLE (next_ident st) of
             Inl e \<Rightarrow> (Inl (ValueErr e), st)
           | Inr c \<Rightarrow> (Inr c, st\<lparr>cached_catalog := Some c, next_ident := next_ident st + length ROLE_TABLE\<rparr>)))"

definition register_role :: "AgentRole \<Rightarrow> AgentRegistry \<Rightarrow> agents_error + AgentRegistry" where
  "register_role role r =
     (if (case dict_get (factories r) (rl_name role) of None \<Rightarrow> False | Some f \<Rightarrow> fst f \<noteq> fst (rl_factory role))
      then Inl (RuntimeErr (''register_all would replace the factory for '' @ py_repr (rl_name role)
                  @ '' with a different callable; refusing to clobber prior state.''))
      else case meta_for role of
             Inl e \<Rightarrow> Inl e
           | Inr m \<Rightarrow> Inr (register_factory (rl_name role) (rl_factory role) (Some m) r))"

text \<open>What was registered before an error stays registered.\<close>

fun register_roles :: "AgentRole list \<Rightarrow> AgentRegistry \<Rightarrow> (agents_error + unit) \<times> AgentRegistry" where
  "register_roles [] r = (Inr (), r)"
| "register_roles (role # rs) r =
     (case register_role role r of Inl e \<Rightarrow> (Inl e, r) | Inr r' \<Rightarrow> register_roles rs r')"

definition py_sorted_list :: "string list \<Rightarrow> string" where
  "py_sorted_list xs = ''['' @ join_with '', '' (map py_repr (sort xs)) @ '']''"

definition register_all :: "agents_state \<Rightarrow> (agents_error + unit) \<times> agents_state" where
  "register_all st =
     (let (reg, st1) = get_agent_registry st; (res, st2) = build_catalog st1
      in case res of
           Inl e \<Rightarrow> (Inl e, st2)
         | Inr cat \<Rightarrow>
             (let unknown = filter (\<lambda>n. n \<notin> rl_name ` set cat) (dict_keys (factories reg))
              in if unknown \<noteq> []
                 then (Inl (RuntimeErr (''register_all would drop existing registrations not in the ''
                              @ ''catalog; refusing. Unknown names: '' @ py_sorted_list unknown)), st2)
                 else (let (r, reg') = register_roles cat reg in (r, st2\<lparr>singleton := Some reg'\<rparr>))))"

section \<open>Handlers in the compute runtime\<close>

text \<open>\<open>json.dumps(input, sort_keys=True)\<close>; the text of a float is a parameter.\<close>

fun dumps_sorted :: "(rat \<Rightarrow> string) \<Rightarrow> json \<Rightarrow> string"
  and dumps_entries :: "(rat \<Rightarrow> string) \<Rightarrow> (string \<times> json) list \<Rightarrow> (string \<times> string) list" where
  "dumps_sorted show_float JNull = ''null''"
| "dumps_sorted show_float (JBool b) = (if b then ''true'' else ''false'')"
| "dumps_sorted show_float (JInt i) = show_int i"
| "dumps_sorted show_float (JFloat q) = show_float q"
| "dumps_sorted show_float (JStr s) = json_text s"
| "dumps_sorted show_float (JArr js) = ''['' @ join_with '', '' (map (dumps_sorted show_float) js) @ '']''"
| "dumps_sorted show_float (JObj kvs) =
     ''{'' @ join_with '', '' (map (\<lambda>(k, t). json_text k @ '': '' @ t) (sort_key fst (dumps_entries show_float kvs))) @ ''}''"
| "dumps_entries show_float [] = []"
| "dumps_entries show_float ((k, v) # kvs) = (k, dumps_sorted show_float v) # dumps_entries show_float kvs"

datatype agent_output = ModelOutput "(string \<times> json) list" | TextOutput string | OtherOutput json

fun serialise_agent_output :: "agent_output \<Rightarrow> json" where
  "serialise_agent_output (ModelOutput kvs) = JObj kvs"
| "serialise_agent_output (TextOutput s) = JObj [(''result'', JStr s)]"
| "serialise_agent_output (OtherOutput j) = JObj [(''result'', j)]"

type_synonym agent_runner =
  "built_agent \<Rightarrow> string \<Rightarrow> RunContext option \<Rightarrow> (rat option \<times> (exn + agent_output)) \<times> RunContext option"

definition handle_role ::
    "(string \<Rightarrow> string option) \<Rightarrow> (rat \<Rightarrow> string) \<Rightarrow> agent_runner \<Rightarrow> RoleSpec \<Rightarrow> agent_callable" where
  "handle_role env show_float agent_run s req cur =
     (case build_agent_for_role env s of
        Inl e \<Rightarrow> (\<lparr>run_time = Some 0, ends_with = Inl e\<rparr>, cur)
      | Inr ag \<Rightarrow>
          (let ((t, res), cur') = bind_run (run_context_of req) (agent_run ag (dumps_sorted show_float (req_input req))) cur
           in (\<lparr>run_time = t, ends_with = (case res of Inl e \<Rightarrow> Inl e | Inr out \<Rightarrow> Inr (serialise_agent_output out))\<rparr>, cur')))"

definition register_compute_handlers ::
    "(string \<Rightarrow> string option) \<Rightarrow> (rat \<Rightarrow> string) \<Rightarrow> agent_runner \<Rightarrow> AgentRole list \<Rightarrow> runtime \<Rightarrow> runtime" where
  "register_compute_handlers env show_float agent_run cat rt =
     fold (\<lambda>role. register (rl_name role) (handle_role env show_float agent_run (snd (rl_factory role)))) cat rt"

section \<open>The role table\<close>

lemma role_table_names: "distinct (map role_name ROLE_TABLE)"
  by code_simp

lemma role_table_categories: "list_all (\<lambda>s. role_category s \<in> set CATEGORIES) ROLE_TABLE"
  by code_simp

lemma build_roles_ok:
  "list_all (\<lambda>s. role_category s \<in> set CATEGORIES) ss \<Longrightarrow>
     build_roles ss n = Inr (map (\<lambda>(i, s). role_of i s) (enumerate n ss))"
  by (induction ss arbitrary: n) simp_all

definition catalog_from :: "nat \<Rightarrow> AgentRole list" where
  "catalog_from n = map (\<lambda>(i, s). role_of i s) (enumerate n ROLE_TABLE)"

lemma build_roles_table: "build_roles ROLE_TABLE n = Inr (catalog_from n)"
  by (simp add: build_roles_ok role_table_categories catalog_from_def)

lemma catalog_names: "map rl_name (catalog_from n) = map role_name ROLE_TABLE"
proof -
  have "map rl_name (map (\<lambda>(i, s). role_of i s) (enumerate n ss)) = map role_name ss" for ss
    by (induction ss arbitrary: n) (simp_all add: role_of_def)
  then show ?thesis by (simp only: catalog_from_def)
qed

section \<open>Registering the catalog\<close>

lemma dict_set_present: "dict_get m k = Some v \<Longrightarrow> dict_set k v m = m"
  by (induction m) auto

lemma register_role_ok:
  "register_role role r = Inr r' \<Longrightarrow>
     \<exists>m. meta_for role = Inr m \<and> r' = register_factory (rl_name role) (rl_factory role) (Some m) r"
  by (auto simp: register_role_def split: if_splits sum.splits)

definition registered :: "AgentRegistry \<Rightarrow> AgentRole \<Rightarrow> bool" where
  "registered r role \<longleftrightarrow> dict_get (factories r) (rl_name role) = Some (rl_factory role)
     \<and> (\<exists>m. meta_for role = Inr m \<and> dict_get (metas r) (rl_name role) = Some (Some m))"

lemma registered_other:
  "registered r role \<Longrightarrow> n \<noteq> rl_name role \<Longrightarrow> registered (register_factory n f m r) role"
  by (auto simp: registered_def register_factory_def)

lemma register_roles_other:
  "register_roles rs r = (Inr (), r') \<Longrightarrow> registered r role \<Longrightarrow> rl_name role \<notin> rl_name ` set rs \<Longrightarrow> registered r' role"
proof (induction rs arbitrary: r)
  case (Cons a rs)
  from Cons.prems(1) obtain r1 where r1: "register_role a r = Inr r1" "register_roles rs r1 = (Inr (), r')"
    by (auto split: sum.splits)
  from register_role_ok [OF r1(1)] obtain m where "r1 = register_factory (rl_name a) (rl_factory a) (Some m) r" by blast
  moreover have "rl_name a \<noteq> rl_name role" using Cons.prems(3) by auto
  ultimately have "registered r1 role" using registered_other [OF Cons.prems(2)] by simp
  with Cons.IH [OF r1(2)] Cons.prems(3) show ?case by simp
qed simp

lemma register_roles_registered:
  "register_roles rs r = (Inr (), r') \<Longrightarrow> distinct (map rl_name rs) \<Longrightarrow> role \<in> set rs \<Longrightarrow> registered r' role"
proof (induction rs arbitrary: r)
  case (Cons a rs)
  from Cons.prems(1) obtain r1 where r1: "register_role a r = Inr r1" "register_roles rs r1 = (Inr (), r')"
    by (auto split: sum.splits)
  show ?case
  proof (cases "role = a")
    case True
    have "registered r1 a" using register_role_ok [OF r1(1)] by (auto simp: registered_def register_factory_def)
    with register_roles_other [OF r1(2)] Cons.prems(2) True show ?thesis by auto
  qed (use Cons.IH [OF r1(2)] Cons.prems in auto)
qed simp

lemma dict_keys_alt: "set (dict_keys (dict_set k v m)) = insert k (set (dict_keys m))"
  by (simp add: dict_keys_def)

lemma register_roles_keys:
  "register_roles rs r = (Inr (), r') \<Longrightarrow> set (dict_keys (factories r')) = set (dict_keys (factories r)) \<union> rl_name ` set rs"
proof (induction rs arbitrary: r)
  case (Cons a rs)
  from Cons.prems(1) obtain r1 where r1: "register_role a r = Inr r1" "register_roles rs r1 = (Inr (), r')"
    by (auto split: sum.splits)
  have "set (dict_keys (factories r1)) = insert (rl_name a) (set (dict_keys (factories r)))"
    using register_role_ok [OF r1(1)] by (auto simp: register_factory_def dict_keys_alt)
  with Cons.IH [OF r1(2)] show ?case by simp
qed simp

lemma register_registered: "registered r role \<Longrightarrow> register_role role r = Inr r"
  by (auto simp: registered_def register_role_def register_factory_def dict_set_present)

lemma register_roles_again: "list_all (registered r) rs \<Longrightarrow> register_roles rs r = (Inr (), r)"
  by (induction rs) (auto simp: register_registered)

definition catalog_distinct :: "agents_state \<Rightarrow> bool" where
  "catalog_distinct st \<longleftrightarrow> (case cached_catalog st of None \<Rightarrow> True | Some c \<Rightarrow> distinct (map rl_name c))"

lemma register_all_success:
  assumes "register_all st = (Inr (), st')" "catalog_distinct st"
  obtains c reg where "cached_catalog st' = Some c" "singleton st' = Some reg" "distinct (map rl_name c)"
    "list_all (registered reg) c" "set (dict_keys (factories reg)) = rl_name ` set c"
proof -
  obtain reg0 st1 where g: "get_agent_registry st = (reg0, st1)" by (cases "get_agent_registry st")
  have st1: "cached_catalog st1 = cached_catalog st"
    using g by (auto simp: get_agent_registry_def split: option.splits)
  obtain c st2 where b: "build_catalog st1 = (Inr c, st2)" "cached_catalog st2 = Some c" "distinct (map rl_name c)"
    using assms(2) st1 role_table_names
    by (cases "cached_catalog st") (auto simp: build_catalog_def build_roles_table catalog_distinct_def catalog_names)
  from assms(1) g b obtain reg where r: "register_roles c reg0 = (Inr (), reg)" "st' = st2\<lparr>singleton := Some reg\<rparr>"
    "filter (\<lambda>n. n \<notin> rl_name ` set c) (dict_keys (factories reg0)) = []"
    by (auto simp: register_all_def Let_def split: if_splits prod.splits)
  have "list_all (registered reg) c" using register_roles_registered [OF r(1) b(3)] by (simp add: list_all_iff)
  moreover have "set (dict_keys (factories reg)) = rl_name ` set c"
    using register_roles_keys [OF r(1)] r(3) by (auto simp: filter_empty_conv)
  ultimately show ?thesis using that b r(2) by simp
qed

text \<open>
  When registering the catalog succeeds, every role has its own factory in the registry, the registry
  lists exactly the roles, and registering again changes nothing.
\<close>

theorem register_all_idempotent:
  assumes "register_all st = (Inr (), st')" "catalog_distinct st"
  shows "register_all st' = (Inr (), st') \<and> (\<exists>c reg. cached_catalog st' = Some c \<and> singleton st' = Some reg
    \<and> (\<forall>role\<in>set c. dict_get (factories reg) (rl_name role) = Some (rl_factory role))
    \<and> set (registry_list reg) = rl_name ` set c)"
proof -
  obtain c reg where s: "cached_catalog st' = Some c" "singleton st' = Some reg" "distinct (map rl_name c)"
    "list_all (registered reg) c" "set (dict_keys (factories reg)) = rl_name ` set c"
    using register_all_success [OF assms] by blast
  have "filter (\<lambda>n. n \<notin> rl_name ` set c) (dict_keys (factories reg)) = []" using s(5) by (auto simp: filter_empty_conv)
  then have "register_all st' = (Inr (), st')"
    using s register_roles_again [OF s(4)]
    by (simp add: register_all_def get_agent_registry_def build_catalog_def Let_def)
  with s show ?thesis by (auto simp: list_all_iff registered_def registry_list_def)
qed

definition initial_agents :: agents_state where
  "initial_agents = \<lparr>cached_catalog = None, singleton = None, next_ident = 0\<rparr>"

lemma meta_for_ok:
  "rl_category role \<in> set CATEGORIES \<Longrightarrow> \<exists>m. meta_for role = Inr m"
  by (auto simp: meta_for_def category_of_def CATEGORIES_def)

lemma register_roles_new:
  "list_all (\<lambda>role. rl_category role \<in> set CATEGORIES) rs \<Longrightarrow> distinct (map rl_name rs)
     \<Longrightarrow> rl_name ` set rs \<inter> set (dict_keys (factories r)) = {} \<Longrightarrow> \<exists>r'. register_roles rs r = (Inr (), r')"
proof (induction rs arbitrary: r)
  case (Cons a rs)
  obtain m where m: "meta_for a = Inr m" using meta_for_ok [of a] Cons.prems(1) by auto
  have "dict_get (factories r) (rl_name a) = None"
    using Cons.prems(3) by (auto simp: map_of_eq_None_iff dict_keys_def)
  then have step: "register_role a r = Inr (register_factory (rl_name a) (rl_factory a) (Some m) r)"
    by (simp add: register_role_def m)
  have "rl_name ` set rs \<inter> set (dict_keys (factories (register_factory (rl_name a) (rl_factory a) (Some m) r))) = {}"
    using Cons.prems(2,3) by (auto simp: register_factory_def dict_keys_alt)
  with Cons.IH [of "register_factory (rl_name a) (rl_factory a) (Some m) r"] Cons.prems(1,2) step show ?case by simp
qed simp

lemma catalog_categories: "list_all (\<lambda>role. rl_category role \<in> set CATEGORIES) (catalog_from n)"
proof -
  have "list_all (\<lambda>s. role_category s \<in> set CATEGORIES) ss \<Longrightarrow>
      list_all (\<lambda>role. rl_category role \<in> set CATEGORIES) (map (\<lambda>(i, s). role_of i s) (enumerate n ss))" for ss
    by (induction ss arbitrary: n) (simp_all add: role_of_def)
  from this [OF role_table_categories] show ?thesis unfolding catalog_from_def .
qed

text \<open>From a fresh process, registering the catalog succeeds.\<close>

lemma register_all_fresh: "\<exists>st'. register_all initial_agents = (Inr (), st')"
proof -
  have "\<exists>r'. register_roles (catalog_from 0) new_registry = (Inr (), r')"
    by (rule register_roles_new [OF catalog_categories])
      (simp_all only: catalog_names role_table_names new_registry_def, simp add: dict_keys_def)
  then show ?thesis
    by (auto simp: register_all_def initial_agents_def get_agent_registry_def build_catalog_def build_roles_table Let_def
        new_registry_def dict_keys_def)
qed

lemma register_all_idempotent_witness:
  "\<exists>st'. register_all initial_agents = (Inr (), st') \<and> register_all st' = (Inr (), st')"
proof -
  obtain st' where r: "register_all initial_agents = (Inr (), st')" using register_all_fresh by blast
  have "catalog_distinct initial_agents" by (simp add: catalog_distinct_def initial_agents_def)
  from register_all_idempotent [OF r this] r show ?thesis by blast
qed

text \<open>After \<open>reset_catalog\<close> alone the factories are new closures, so registering again is refused.\<close>

lemma reset_catalog_blocks_register:
  assumes "cached_catalog st = Some (catalog_from n)" "singleton st = Some reg" "n < next_ident st"
    and "dict_get (factories reg) ''planner'' = Some (n, s)" "set (dict_keys (factories reg)) = role_name ` set ROLE_TABLE"
  shows "\<exists>msg. fst (register_all (reset_catalog st)) = Inl (RuntimeErr msg)"
proof -
  let ?c = "catalog_from (next_ident st)"
  obtain rs where c: "?c = role_of (next_ident st) (hd ROLE_TABLE) # rs"
    by (auto simp: catalog_from_def ROLE_TABLE_def)
  have name: "rl_name (role_of (next_ident st) (hd ROLE_TABLE)) = ''planner''"
    by (simp add: role_of_def ROLE_TABLE_def mk_role_def)
  have "rl_name ` set ?c = role_name ` set ROLE_TABLE"
    using arg_cong [OF catalog_names, of set "next_ident st"] by simp
  then have none: "filter (\<lambda>n. n \<notin> rl_name ` set ?c) (dict_keys (factories reg)) = []"
    using assms(5) by (auto simp: filter_empty_conv)
  have "\<exists>msg. register_role (role_of (next_ident st) (hd ROLE_TABLE)) reg = Inl (RuntimeErr msg)"
    using assms(3,4) by (simp add: register_role_def name) (simp add: role_of_def build_factory_def)
  then obtain msg where "fst (register_roles ?c reg) = Inl (RuntimeErr msg)" by (auto simp: c)
  then show ?thesis
    using none by (auto simp: register_all_def reset_catalog_def get_agent_registry_def assms(2) build_catalog_def
        build_roles_table Let_def split: prod.splits)
qed

section \<open>The catalog in the compute runtime\<close>

lemma fold_register_other:
  "n \<notin> rl_name ` set rs \<Longrightarrow> dict_get (fold (\<lambda>role. register (rl_name role) (h role)) rs rt) n = dict_get rt n"
  by (induction rs arbitrary: rt) (auto simp: register_def)

lemma fold_register:
  "distinct (map rl_name rs) \<Longrightarrow> role \<in> set rs \<Longrightarrow>
     dict_get (fold (\<lambda>role. register (rl_name role) (h role)) rs rt) (rl_name role) = Some (h role)"
  by (induction rs arbitrary: rt) (auto simp: fold_register_other register_def)

lemma catalog_role:
  assumes "s \<in> set ROLE_TABLE" "role \<in> set (catalog_from n)" "rl_name role = role_name s"
  shows "snd (rl_factory role) = s"
proof -
  obtain i s' where s': "role = role_of i s'" "s' \<in> set ROLE_TABLE"
    using assms(2) by (auto simp: catalog_from_def in_set_enumerate_eq)
  then have "role_name s' = role_name s" using assms(3) by (simp add: role_of_def)
  then have "s' = s" using s'(2) assms(1) role_table_names by (metis distinct_map inj_onD)
  then show ?thesis by (simp add: s'(1) role_of_def build_factory_def)
qed

lemma catalog_handler:
  assumes "s \<in> set ROLE_TABLE"
  shows "dict_get (register_compute_handlers env show_float agent_run (catalog_from n) []) (role_name s)
    = Some (handle_role env show_float agent_run s)"
proof -
  have "role_name s \<in> rl_name ` set (catalog_from n)"
    using assms arg_cong [OF catalog_names, of set n] by simp
  then obtain role where role: "role \<in> set (catalog_from n)" "rl_name role = role_name s" by auto
  have "dict_get (register_compute_handlers env show_float agent_run (catalog_from n) []) (rl_name role)
      = Some (handle_role env show_float agent_run (snd (rl_factory role)))"
    using fold_register [OF _ role(1), of "\<lambda>role. handle_role env show_float agent_run (snd (rl_factory role))" "[]"]
      role_table_names by (simp add: register_compute_handlers_def catalog_names)
  then show ?thesis using catalog_role [OF assms role] role(2) by simp
qed

lemma handle_role_result:
  "ends_with (fst (handle_role env show_float agent_run s req cur)) = Inr out \<Longrightarrow> is_object out"
proof -
  have "is_object (serialise_agent_output v)" for v by (cases v) simp_all
  then show "ends_with (fst (handle_role env show_float agent_run s req cur)) = Inr out \<Longrightarrow> is_object out"
    by (auto simp: handle_role_def bind_run_def split: sum.splits prod.splits)
qed

text \<open>
  C21: Once the catalog is wired into the runtime, invoking any role of the table answers: nothing is raised,
  whatever the agent returns, the caller's run context is restored and the status is never \<open>not_found\<close>;
  without an API key it is \<open>error\<close>.  (Only a cancellation from outside passes through.)
\<close>

theorem catalog_roles_answer:
  assumes "s \<in> set ROLE_TABLE" "req_agent_name req = role_name s" "0 < req_timeout_seconds req"
    and "rt = register_compute_handlers env show_float agent_run (catalog_from n) []"
    and "\<And>ag p c t c'. agent_run ag p c \<noteq> ((t, Inl CancelledError), c')"
  shows "\<exists>r. invoke rt elapsed req cur = (Inr r, cur) \<and> resp_status r \<in> {''ok'', ''timeout'', ''error''}
    \<and> (env API_KEY_ENV = None \<longrightarrow> resp_status r = ''error'')"
proof -
  let ?s = s
  have h: "handler_result rt req
      = Some (wait_for (fst (handle_role env show_float agent_run ?s req (Some (run_context_of req)))) (req_timeout_seconds req))"
    using catalog_handler [OF assms(1)] by (simp add: handler_result_def assms(2,4))
  let ?o = "fst (handle_role env show_float agent_run ?s req (Some (run_context_of req)))"
  have cancel: "ends_with ?o \<noteq> Inl CancelledError"
    using assms(5)
    by (auto simp: handle_role_def build_agent_for_role_def build_agent_def read_api_key_def bind_run_def Let_def
        split: sum.splits prod.splits option.splits list.splits)
  have "returns_objects rt req"
    using handle_role_result [of env show_float agent_run ?s req "Some (run_context_of req)"] cancel
    by (auto simp: returns_objects_def h wait_for_def split: option.splits sum.splits if_splits)
  then obtain r where r: "fst (invoke rt elapsed req cur) = Inr r" using in_process.no_raise by blast
  note resp = invoke_response [OF r]
  have found: "resp_status r \<in> {''ok'', ''timeout'', ''error''}"
    using resp(2,4) h by (auto simp: status_values_def handler_result_def)
  have "resp_status r = ''error''" if "env API_KEY_ENV = None"
  proof -
    have "build_agent_for_role env ?s = Inl (OtherException ''RuntimeError'' (API_KEY_ENV @ '' is required to build a Pydantic AI agent. ''
               @ ''Set the environment variable or pass a TestModel in tests.''))"
      using that by (simp add: build_agent_for_role_def build_agent_def read_api_key_def Let_def)
    then obtain t m where "handler_result rt req = Some (Inl (OtherException t m))"
      using assms(3) by (simp add: h handle_role_def wait_for_def)
    from r [unfolded invoke_result this] show ?thesis by (auto simp: Let_def make_response_obj)
  qed
  then have "env API_KEY_ENV = None \<longrightarrow> resp_status r = ''error''" ..
  moreover have "invoke rt elapsed req cur = (Inr r, cur)"
    using r invoke_context [of rt elapsed req cur] by (cases "invoke rt elapsed req cur") simp
  ultimately show ?thesis using found by (intro exI [of _ r] conjI)
qed

definition echo_agent :: agent_runner where
  "echo_agent ag p c = ((Some 1, Inr (TextOutput p)), c)"

lemma catalog_roles_answer_witness:
  "\<exists>r. invoke (register_compute_handlers (\<lambda>k. None) (\<lambda>q. []) echo_agent (catalog_from 0) []) 1 demo_invocation None = (Inr r, None)
     \<and> resp_status r = ''error''"
proof -
  have s: "mk_role ''smoke'' ''coordination'' ''Echo the input and return one short string.'' None \<in> set ROLE_TABLE"
    by (simp add: ROLE_TABLE_def)
  have "req_agent_name demo_invocation = role_name (mk_role ''smoke'' ''coordination'' ''Echo the input and return one short string.'' None)"
    "0 < req_timeout_seconds demo_invocation"
    by (simp_all add: demo_invocation_def mk_role_def)
  from catalog_roles_answer [OF s this refl, of echo_agent "\<lambda>k. None" "\<lambda>q. []" 0 1 None]
  show ?thesis by (auto simp: echo_agent_def)
qed

end
