(* ===== verification/SelfImprove.thy ===== *)
theory SelfImprove
  imports Logging PyBackend "HOL-Library.List_Lexorder" "HOL-Library.Char_ord"
begin

text \<open>
  The self-improvement script (\<open>scripts/self_improve.py\<close>): the auditors, the fixers that rewrite files,
  and the run of both.  Syntax trees are those of \<open>ast\<close> as far as the auditors look at them; \<open>ast.parse\<close> is the
  parameter \<open>parse\<close>, \<open>None\<close> for a syntax error and else the body of the module.  A file has two texts,
  that of the strict decoding, which may fail, and that of the decoding that ignores errors; both are the
  texts as \<open>read_text\<close> gives them, with line ends already translated to line feeds.
\<close>

section \<open>Syntax trees\<close>

type_synonym import_alias = "string \<times> string option"

datatype py_ast =
  PyImport int "int option" "import_alias list"
| PyImportFrom int "int option" "string option" "import_alias list"
| PyName string bool
| PyAttribute py_ast string
| PyFunction bool string int "int option" "py_ast list" "py_ast list" "py_ast list"
| PyClass string "py_ast list" "py_ast list" "py_ast list"
| PyHandler int "py_ast option" "py_ast list"
| PyPass
| PyAssign "py_ast list" py_ast
| PyAnnAssign py_ast "py_ast list"
| PyExpr py_ast
| PyStr string
| PyNode "py_ast list"

text \<open>
  \<open>iter_child_nodes\<close>, in field order: a function or class has children before its body, the body,
  and children behind it.  The aliases of an import and the contexts of names have no effect and are left out.
\<close>

fun children :: "py_ast \<Rightarrow> py_ast list" where
  "children (PyAttribute v x) = [v]"
| "children (PyFunction async n l le pre body post) = pre @ body @ post"
| "children (PyClass n pre body post) = pre @ body @ post"
| "children (PyHandler l None body) = body"
| "children (PyHandler l (Some t) body) = t # body"
| "children (PyAssign ts v) = ts @ [v]"
| "children (PyAnnAssign t rest) = t # rest"
| "children (PyExpr e) = [e]"
| "children (PyNode cs) = cs"
| "children t = []"

lemma children_smaller: "sum_list (map (Suc \<circ> size) (children t)) \<le> size t"
  by (cases t rule: children.cases) (auto simp: size_list_conv_sum_list sum_list_Suc comp_def)

text \<open>\<open>ast.walk\<close>: a queue, whose first node is taken and its children put at the end.\<close>

function walk :: "py_ast list \<Rightarrow> py_ast list" where
  "walk [] = []"
| "walk (t # ts) = t # walk (ts @ children t)"
  by pat_completeness auto
termination
  by (relation "measure (\<lambda>ts. sum_list (map (Suc \<circ> size) ts))")
    (use children_smaller in \<open>auto simp: add.commute less_Suc_eq_le\<close>)

definition walk_module :: "py_ast list \<Rightarrow> py_ast list" where
  "walk_module body = walk [PyNode body]"



section \<open>Files\<close>

record py_file =
  pf_parts :: "string list"
  strict_text :: "string option"
  lossy_text :: "string option"

definition pf_name :: "py_file \<Rightarrow> string" where
  "pf_name f = (if pf_parts f = [] then [] else last (pf_parts f))"

definition strip_end :: "string \<Rightarrow> string" where
  "strip_end l = rev (dropWhile line_break (rev l))"

text \<open>\<open>splitlines()\<close>\<close>

definition split_lines :: "string \<Rightarrow> string list" where
  "split_lines s = map strip_end (split_keepends [] s)"

definition in_dirs :: "string list \<Rightarrow> py_file \<Rightarrow> bool" where
  "in_dirs ds f \<longleftrightarrow> list_ex (\<lambda>p. p \<in> set (pf_parts f)) ds"

definition numbered :: "string \<Rightarrow> (nat \<times> string) list" where
  "numbered s = (let ls = split_lines s in zip [1..<Suc (length ls)] ls)"

text \<open>Reading and parsing a file; an auditor passes over the files for which this fails.\<close>

definition parsed :: "(string \<Rightarrow> py_ast list option) \<Rightarrow> py_file \<Rightarrow> (string \<times> py_ast list) option" where
  "parsed parse f = Option.bind (strict_text f) (\<lambda>s. map_option (Pair s) (parse s))"

section \<open>Auditors over lines\<close>

definition search_line :: "regex \<Rightarrow> string \<Rightarrow> string option" where
  "search_line r l = map_option fst (re_search r (None, l))"

definition word_name :: regex where
  "word_name = Seq (One (Union Letter (Chars ''_''))) (Star (One Word))"

definition MANGLED :: regex where
  "MANGLED = Seq Boundary (Seq (exact ''self.__'') word_name)"

text \<open>The group \<open>name\<close> of a match of \<open>self.__name\<close>.\<close>

definition mangled_name :: "string \<Rightarrow> string" where
  "mangled_name m = drop (length ''self.__'') m"

definition find_lingering_double_underscore :: "py_file list \<Rightarrow> (string list \<times> nat \<times> string \<times> string) list" where
  "find_lingering_double_underscore fs =
     concat (map (\<lambda>f. case strict_text f of
         None \<Rightarrow> []
       | Some s \<Rightarrow> concat (map (\<lambda>(i, l). case search_line MANGLED l of
             None \<Rightarrow> []
           | Some m \<Rightarrow> if py_endswith (mangled_name m) ''__'' then []
                       else [(pf_parts f, i, py_rstrip l, mangled_name m)]) (numbered s))) fs)"

definition marker :: "string \<Rightarrow> regex" where
  "marker w = Seq (exact ''#'') (Seq spaces (Seq (exact w) (Seq Boundary
     (Seq (optional (Seq spaces (Seq (exact ''('') (Seq (Star (One (Except '')''))) (exact '')'')))))
     (Seq spaces (Seq (optional (exact '':'')) (Star (One AnyChar))))))))"

definition MARKERS :: "(string \<times> regex) list" where
  "MARKERS = map (\<lambda>w. (w, marker w)) [''TODO'', ''FIXME'', ''HACK'', ''XXX'']"

text \<open>The first group that matches at the first place with a match.\<close>

fun search_groups :: "('a \<times> regex) list \<Rightarrow> position \<Rightarrow> 'a option" where
  "search_groups gs (b, []) = map_option fst (match_groups gs (b, []))"
| "search_groups gs (b, c # cs) =
     (case match_groups gs (b, c # cs) of Some (g, q) \<Rightarrow> Some g | None \<Rightarrow> search_groups gs (Some c, cs))"

definition find_todo_fixme_markers :: "py_file list \<Rightarrow> (string list \<times> nat \<times> string \<times> string) list" where
  "find_todo_fixme_markers fs =
     concat (map (\<lambda>f. if in_dirs [''tests'', ''scripts'', ''docs'', ''node_modules'', ''.venv''] f then [] else
       (case lossy_text f of
          None \<Rightarrow> []
        | Some s \<Rightarrow> concat (map (\<lambda>(i, l). case search_groups MARKERS (None, l) of
              None \<Rightarrow> []
            | Some w \<Rightarrow> [(pf_parts f, i, py_rstrip l, w)]) (numbered s)))) fs)"

definition ID_CALL :: regex where
  "ID_CALL = Seq Boundary (Seq (Alt (exact ''id'') (exact ''hash'')) (Seq spaces (Seq (exact ''('')
     (Seq spaces (Seq word_name (Seq spaces (exact '')'')))))))"

definition find_id_based_caches :: "py_file list \<Rightarrow> (string list \<times> nat \<times> string \<times> string) list" where
  "find_id_based_caches fs =
     concat (map (\<lambda>f. if in_dirs [''scripts'', ''tests'', ''docs''] f then [] else
       (case lossy_text f of
          None \<Rightarrow> []
        | Some s \<Rightarrow> concat (map (\<lambda>(i, l).
              if search_line ID_CALL l \<noteq> None \<and> (py_contains ''_cache'' (py_lower l) \<or> py_contains ''_CACHE'' l)
              then [(pf_parts f, i, py_rstrip l, ''id()-based cache'')] else []) (numbered s)))) fs)"

section \<open>Auditors over syntax trees\<close>

definition tree_nodes :: "(string \<Rightarrow> py_ast list option) \<Rightarrow> py_file \<Rightarrow> py_ast list" where
  "tree_nodes parse f = (case parsed parse f of None \<Rightarrow> [] | Some (s, body) \<Rightarrow> walk_module body)"

definition name_used_outside_imports :: "py_ast list \<Rightarrow> string \<Rightarrow> bool" where
  "name_used_outside_imports tree x \<longleftrightarrow>
     list_ex (\<lambda>n. case n of
         PyName y load \<Rightarrow> y = x \<and> load
       | PyAttribute (PyName y load) a \<Rightarrow> y = x \<and> load
       | _ \<Rightarrow> False) (walk_module tree)"

definition noqa_line :: "string list \<Rightarrow> int \<Rightarrow> bool" where
  "noqa_line ls n \<longleftrightarrow> 1 \<le> n \<and> n \<le> int (length ls) \<and> py_contains ''noqa: F401'' (ls ! nat (n - 1))"

text \<open>\<open>alias.asname or alias.name.split(".")[0]\<close>, and without the split for \<open>from\<close> imports.\<close>

definition import_name :: "import_alias \<Rightarrow> string" where
  "import_name a = (case snd a of
       None \<Rightarrow> takeWhile (\<lambda>c. c \<noteq> CHR ''.'') (fst a)
     | Some n \<Rightarrow> if n = [] then takeWhile (\<lambda>c. c \<noteq> CHR ''.'') (fst a) else n)"

definition from_name :: "import_alias \<Rightarrow> string" where
  "from_name a = (case snd a of None \<Rightarrow> fst a | Some n \<Rightarrow> if n = [] then fst a else n)"

definition is_future :: "string option \<Rightarrow> bool" where
  "is_future m \<longleftrightarrow> m = Some ''__future__''"

text \<open>\<open>node.module or '?'\<close>\<close>

definition module_text :: "string option \<Rightarrow> string" where
  "module_text m = (case m of None \<Rightarrow> ''?'' | Some n \<Rightarrow> if n = [] then ''?'' else n)"

fun unused_of :: "py_ast list \<Rightarrow> string list \<Rightarrow> py_ast \<Rightarrow> (int \<times> string \<times> string) list" where
  "unused_of tree ls (PyImport l le as) =
     concat (map (\<lambda>a. let x = import_name a in
       if x = [] \<or> name_used_outside_imports tree x \<or> noqa_line ls l then []
       else [(l, ''unused import: '' @ fst a, x)]) as)"
| "unused_of tree ls (PyImportFrom l le m as) =
     (if is_future m then [] else
      concat (map (\<lambda>a. let x = from_name a in
        if fst a = ''*'' \<or> x = [] \<or> name_used_outside_imports tree x \<or> noqa_line ls l then []
        else [(l, ''unused import: '' @ x @ '' from '' @ module_text m, x)]) as))"
| "unused_of tree ls n = []"

definition find_unused_imports_ast ::
    "(string \<Rightarrow> py_ast list option) \<Rightarrow> py_file list \<Rightarrow> (string list \<times> int \<times> string \<times> string) list" where
  "find_unused_imports_ast parse fs =
     concat (map (\<lambda>f. if pf_name f = ''__init__.py'' then [] else
       (case parsed parse f of
          None \<Rightarrow> []
        | Some (s, tree) \<Rightarrow> map (Pair (pf_parts f)) (concat (map (unused_of tree (split_lines s)) (walk_module tree))))) fs)"

definition long_functions_of :: "nat \<Rightarrow> py_ast \<Rightarrow> (string \<times> int) list" where
  "long_functions_of threshold n =
     (case n of
        PyFunction async name l le pre body post \<Rightarrow>
          (let e = (case le of None \<Rightarrow> l | Some k \<Rightarrow> if k = 0 then l else k); len = e - l + 1
           in if int threshold \<le> len then [(name @ '' ('' @ show_int len @ '' lines)'', l)] else [])
      | _ \<Rightarrow> [])"

definition find_long_functions ::
    "nat \<Rightarrow> (string \<Rightarrow> py_ast list option) \<Rightarrow> py_file list \<Rightarrow> (string list \<times> string \<times> int) list" where
  "find_long_functions threshold parse fs =
     sort_key (\<lambda>(p, t, l). - l)
       (concat (map (\<lambda>f. map (Pair (pf_parts f)) (concat (map (long_functions_of threshold) (tree_nodes parse f)))) fs))"

definition bare_except_of :: "py_ast \<Rightarrow> (int \<times> string) list" where
  "bare_except_of n =
     (case n of
        PyHandler l None body \<Rightarrow>
          (l, ''bare ``except:``'') # (if body = [PyPass] then [(l + 1, ''silent ``except: pass``'')] else [])
      | _ \<Rightarrow> [])"

definition find_bare_except ::
    "(string \<Rightarrow> py_ast list option) \<Rightarrow> py_file list \<Rightarrow> (string list \<times> int \<times> string) list" where
  "find_bare_except parse fs =
     concat (map (\<lambda>f. map (Pair (pf_parts f)) (concat (map bare_except_of (tree_nodes parse f)))) fs)"

text \<open>An assignment to \<open>__all__\<close> in the body of the module.\<close>

definition assigns_all :: "py_ast \<Rightarrow> bool" where
  "assigns_all n \<longleftrightarrow>
     (case n of PyAssign ts v \<Rightarrow> list_ex (\<lambda>t. case t of PyName x load \<Rightarrow> x = ''__all__'' | _ \<Rightarrow> False) ts | _ \<Rightarrow> False)"

definition is_docstring :: "py_ast \<Rightarrow> bool" where
  "is_docstring n \<longleftrightarrow> (case n of PyExpr (PyStr s) \<Rightarrow> True | _ \<Rightarrow> False)"

text \<open>An \<open>__init__.py\<close> outside tests and scripts that has more than a docstring but no \<open>__all__\<close>.\<close>

definition find_missing_all :: "(string \<Rightarrow> py_ast list option) \<Rightarrow> py_file list \<Rightarrow> string list list" where
  "find_missing_all parse fs =
     concat (map (\<lambda>f. if pf_name f \<noteq> ''__init__.py'' \<or> in_dirs [''tests'', ''scripts''] f then [] else
       (case parsed parse f of
          None \<Rightarrow> []
        | Some (s, tree) \<Rightarrow>
            if list_ex assigns_all tree \<or> list_all is_docstring tree then [] else [pf_parts f])) fs)"

text \<open>\<open>ast.get_docstring\<close>: a string first in the body, cleaned by the parameter \<open>cleandoc\<close>.\<close>

definition has_docstring :: "(string \<Rightarrow> string) \<Rightarrow> py_ast list \<Rightarrow> bool" where
  "has_docstring cleandoc body \<longleftrightarrow> (case body of PyExpr (PyStr s) # _ \<Rightarrow> cleandoc s \<noteq> [] | _ \<Rightarrow> False)"

definition undocumented :: "(string \<Rightarrow> string) \<Rightarrow> py_ast \<Rightarrow> (string \<times> int) list" where
  "undocumented cleandoc n =
     (case n of
        PyFunction async name l le pre body post \<Rightarrow>
          if py_startswith name ''_'' \<or> has_docstring cleandoc body then [] else [(name, l)]
      | _ \<Rightarrow> [])"

text \<open>Here an unreadable file is not passed over: its error ends the audit, which is \<open>None\<close>.\<close>

fun find_missing_public_func_docstrings ::
    "(string \<Rightarrow> string) \<Rightarrow> (string \<Rightarrow> py_ast list option) \<Rightarrow> py_file list
      \<Rightarrow> (string list \<times> string \<times> int) list option" where
  "find_missing_public_func_docstrings cleandoc parse [] = Some []"
| "find_missing_public_func_docstrings cleandoc parse (f # fs) =
     (if in_dirs [''tests'', ''scripts'', ''infra''] f then find_missing_public_func_docstrings cleandoc parse fs
      else case lossy_text f of
        None \<Rightarrow> None
      | Some s \<Rightarrow> map_option
          (\<lambda>rest. (case parse s of None \<Rightarrow> []
                   | Some tree \<Rightarrow> map (Pair (pf_parts f)) (concat (map (undocumented cleandoc) tree))) @ rest)
          (find_missing_public_func_docstrings cleandoc parse fs))"

section \<open>Fixers\<close>

text \<open>\<open>write_text\<close>: both readings give the new text (in which no fixer puts a carriage return).  A fixer takes a file and gives it back with its part of the report.\<close>

definition write_file :: "string \<Rightarrow> py_file \<Rightarrow> py_file" where
  "write_file s f = f\<lparr>strict_text := Some s, lossy_text := Some s\<rparr>"

text \<open>\<open>s.replace(old, new, 1)\<close>\<close>

fun replace_first :: "string \<Rightarrow> string \<Rightarrow> string \<Rightarrow> string" where
  "replace_first old new s =
     (if py_startswith s old then new @ drop (length old) s
      else case s of [] \<Rightarrow> [] | c # cs \<Rightarrow> c # replace_first old new cs)"

declare replace_first.simps [simp del]

definition fix_line :: "string \<Rightarrow> string" where
  "fix_line l =
     fold (\<lambda>m u. if py_endswith (mangled_name m) ''__'' then u
                 else replace_first m (''self.'' @ mangled_name m) u) (re_finditer MANGLED (None, l)) l"

definition fix_underscore_file :: "bool \<Rightarrow> py_file \<Rightarrow> nat \<times> py_file" where
  "fix_underscore_file apply_fixes f =
     (case strict_text f of
        None \<Rightarrow> (0, f)
      | Some s \<Rightarrow>
          (let ls = split_keepends [] s;
               changed = length (filter (\<lambda>l. fix_line l \<noteq> l) ls)
           in (changed, if changed \<noteq> 0 \<and> apply_fixes then write_file (concat (map fix_line ls)) f else f)))"

record fix_report =
  fr_count :: nat
  fr_files_touched :: nat
  fr_skipped :: "string list list"
  fr_applied :: bool

definition auto_fix_underscore :: "py_file list \<Rightarrow> bool \<Rightarrow> fix_report \<times> py_file list" where
  "auto_fix_underscore fs apply_fixes =
     (let rs = map (fix_underscore_file apply_fixes) fs
      in (\<lparr>fr_count = sum_list (map fst rs), fr_files_touched = length (filter (\<lambda>r. fst r \<noteq> 0) rs),
           fr_skipped = [], fr_applied = apply_fixes\<rparr>, map snd rs))"

text \<open>The lines from the first to the last of an import that can go, counted from 0.\<close>

fun unused_range :: "py_ast list \<Rightarrow> string list \<Rightarrow> py_ast \<Rightarrow> (int \<times> int) list" where
  "unused_range tree ls (PyImport l le as) =
     (if list_ex (name_used_outside_imports tree) (map import_name as) \<or> noqa_line ls l then []
      else [(l - 1, (case le of None \<Rightarrow> l | Some e \<Rightarrow> e) - 1)])"
| "unused_range tree ls (PyImportFrom l le m as) =
     (if is_future m \<or> list_ex (\<lambda>a. fst a = ''*'') as
         \<or> list_ex (name_used_outside_imports tree) (map from_name as) \<or> noqa_line ls l then []
      else [(l - 1, (case le of None \<Rightarrow> l | Some e \<Rightarrow> e) - 1)])"
| "unused_range tree ls n = []"

definition unused_ranges :: "py_ast list \<Rightarrow> string list \<Rightarrow> (int \<times> int) list" where
  "unused_ranges tree ls = sort_key (\<lambda>r. - fst r) (concat (map (unused_range tree ls) (walk_module tree)))"

definition blank_line :: "string \<Rightarrow> string" where
  "blank_line l = replicate (length l - length (py_lstrip l)) (CHR '' '') @ [CHR 0x0A]"

definition in_range :: "int \<times> int \<Rightarrow> nat \<Rightarrow> bool" where
  "in_range r n \<longleftrightarrow> 0 \<le> fst r \<and> fst r < int n \<and> 0 \<le> snd r \<and> snd r < int n"

text \<open>The lines of one import, from the last to the first, and the first once more: it may be blank.\<close>

definition blank_range :: "int \<times> int \<Rightarrow> string list \<Rightarrow> string list" where
  "blank_range r ls =
     (let b = blank_line (ls ! nat (fst r))
      in (fold (\<lambda>i xs. if py_strip (xs ! i) = [] then xs else xs[i := b])
            (rev [nat (fst r)..<Suc (nat (snd r))]) ls)[nat (fst r) := b])"

definition fix_imports_file ::
    "(string \<Rightarrow> py_ast list option) \<Rightarrow> bool \<Rightarrow> py_file \<Rightarrow> (nat \<times> bool \<times> bool) \<times> py_file" where
  "fix_imports_file parse apply_fixes f =
     (if pf_name f = ''__init__.py'' then ((0, False, False), f)
      else case parsed parse f of
        None \<Rightarrow> ((0, False, False), f)
      | Some (s, tree) \<Rightarrow>
          (let ls = split_keepends [] s;
               rs = filter (\<lambda>r. in_range r (length ls)) (unused_ranges tree (split_lines s));
               new = concat (fold blank_range rs ls)
           in if rs = [] then ((0, False, False), f)
              else if parse new = None then ((length rs, False, True), f)
              else if apply_fixes \<and> new \<noteq> s then ((length rs, True, False), write_file new f)
              else ((length rs, False, False), f)))"

definition auto_fix_unused_imports ::
    "(string \<Rightarrow> py_ast list option) \<Rightarrow> py_file list \<Rightarrow> bool \<Rightarrow> fix_report \<times> py_file list" where
  "auto_fix_unused_imports parse fs apply_fixes =
     (let rs = map (fix_imports_file parse apply_fixes) fs
      in (\<lparr>fr_count = sum_list (map (fst \<circ> fst) rs), fr_files_touched = length (filter (fst \<circ> snd \<circ> fst) rs),
           fr_skipped = map (pf_parts \<circ> snd) (filter (snd \<circ> snd \<circ> fst) rs), fr_applied = apply_fixes\<rparr>, map snd rs))"

definition public_name :: "string \<Rightarrow> bool" where
  "public_name x \<longleftrightarrow> \<not> py_startswith x ''_''"

text \<open>The names a statement of the module's body offers; \<open>async def\<close> is a node of its own kind.\<close>

fun offered_names :: "py_ast \<Rightarrow> string list" where
  "offered_names (PyImportFrom l le m as) = map from_name (filter (\<lambda>a. fst a \<noteq> ''*'') as)"
| "offered_names (PyImport l le as) = map import_name as"
| "offered_names (PyFunction async n l le pre body post) = (if \<not> async \<and> public_name n then [n] else [])"
| "offered_names (PyClass n pre body post) = (if public_name n then [n] else [])"
| "offered_names (PyAssign ts v) =
     concat (map (\<lambda>t. case t of PyName x load \<Rightarrow> if public_name x then [x] else [] | _ \<Rightarrow> []) ts)"
| "offered_names (PyAnnAssign t rest) =
     (case t of PyName x load \<Rightarrow> if public_name x then [x] else [] | _ \<Rightarrow> [])"
| "offered_names n = []"

definition collect_name :: "string \<Rightarrow> string list \<Rightarrow> string list" where
  "collect_name x ns = (if x \<noteq> [] \<and> x \<notin> set ns \<and> x \<noteq> ''annotations'' then ns @ [x] else ns)"

definition public_names :: "py_ast list \<Rightarrow> string list" where
  "public_names tree = fold collect_name (concat (map offered_names tree)) []"

definition all_block :: "string list \<Rightarrow> string" where
  "all_block names =
     join_with [CHR 0x0A] (''__all__ = ['' # map (\<lambda>x. ''    '' @ [CHR 0x22] @ x @ [CHR 0x22] @ '','') (sort names) @ ['']''])
       @ [CHR 0x0A]"

definition fix_all_file :: "(string \<Rightarrow> py_ast list option) \<Rightarrow> bool \<Rightarrow> py_file \<Rightarrow> nat \<times> py_file" where
  "fix_all_file parse apply_fixes f =
     (if pf_name f \<noteq> ''__init__.py'' \<or> in_dirs [''tests'', ''scripts''] f then (0, f)
      else case parsed parse f of
        None \<Rightarrow> (0, f)
      | Some (s, tree) \<Rightarrow>
          if list_ex assigns_all tree \<or> public_names tree = [] then (0, f)
          else (1, if apply_fixes
                   then write_file (py_rstrip s @ replicate 3 (CHR 0x0A) @ all_block (public_names tree)) f else f))"

definition auto_fix_add_all ::
    "(string \<Rightarrow> py_ast list option) \<Rightarrow> py_file list \<Rightarrow> bool \<Rightarrow> fix_report \<times> py_file list" where
  "auto_fix_add_all parse fs apply_fixes =
     (let rs = map (fix_all_file parse apply_fixes) fs; added = sum_list (map fst rs)
      in (\<lparr>fr_count = added, fr_files_touched = (if apply_fixes then added else 0), fr_skipped = [],
           fr_applied = apply_fixes\<rparr>, map snd rs))"

section \<open>The run\<close>

text \<open>The call graph's nodes that call and are not called, at most 25; \<open>iter\<close> is the order of the set of ids.\<close>

definition pipeline_entry_points :: "(string list \<Rightarrow> string list) \<Rightarrow> SGIRGraph option \<Rightarrow> string list" where
  "pipeline_entry_points iter call_layer =
     (case call_layer of
        None \<Rightarrow> []
      | Some g \<Rightarrow> take 25 (filter (\<lambda>i. i \<notin> target ` set (edges g) \<and> i \<in> source ` set (edges g))
          (iter (map node_id (nodes g)))))"

text \<open>The return codes of both programs; the tests run only after a clean check.\<close>

definition run_ruff_and_tests :: "int \<Rightarrow> int \<Rightarrow> bool \<times> bool" where
  "run_ruff_and_tests ruff tests = (if ruff \<noteq> 0 then (False, False) else if tests \<noteq> 0 then (True, False) else (True, True))"

definition audited_files :: "py_file list \<Rightarrow> py_file list" where
  "audited_files fs = filter (\<lambda>f. \<not> in_dirs [''.venv'', ''.git''] f) fs"

record improve_report =
  ir_auditors :: "(string \<times> nat) list"
  ir_auto_fixes :: "(string \<times> fix_report) list"
  ir_ruff_clean :: bool
  ir_tests_pass :: bool
  ir_mode :: string

definition audit_counts ::
    "(string \<Rightarrow> string) \<Rightarrow> (string \<Rightarrow> py_ast list option) \<Rightarrow> py_file list \<Rightarrow> (string \<times> nat) list option" where
  "audit_counts cleandoc parse fs =
     map_option (\<lambda>docs.
       (let bare_exc = find_bare_except parse fs
        in [(''underscore'', length (find_lingering_double_underscore fs)),
            (''unused_imports'', length (find_unused_imports_ast parse fs)),
            (''long_functions'', length (find_long_functions 50 parse fs)),
            (''bare_except'', length (filter (\<lambda>(p, l, t). py_contains ''bare'' t) bare_exc)),
            (''silent_except_pass'', length (filter (\<lambda>(p, l, t). py_contains ''silent'' t) bare_exc)),
            (''missing_all'', length (find_missing_all parse fs)),
            (''todo_fixme'', length (find_todo_fixme_markers fs)),
            (''id_based_caches'', length (find_id_based_caches fs)),
            (''missing_docstrings'', length docs)]))
       (find_missing_public_func_docstrings cleandoc parse fs)"

text \<open>
  Steps 2 to 5 of \<open>main\<close>: the audits of the files as they are, the fixers one after the other, the checks on the result.
  \<open>ruff\<close> and \<open>tests\<close> give the return codes for the files.  \<open>None\<close> is the error of the last auditor.
\<close>

definition self_improve ::
    "(string \<Rightarrow> string) \<Rightarrow> (string \<Rightarrow> py_ast list option) \<Rightarrow> (py_file list \<Rightarrow> int) \<Rightarrow> (py_file list \<Rightarrow> int)
      \<Rightarrow> bool \<Rightarrow> py_file list \<Rightarrow> (improve_report \<times> py_file list \<times> int) option" where
  "self_improve cleandoc parse ruff tests apply_fixes repo =
     (let fs = audited_files repo
      in map_option (\<lambda>counts.
        (let (underscore, fs1) = auto_fix_underscore fs apply_fixes;
             (unused, fs2) = auto_fix_unused_imports parse fs1 apply_fixes;
             (add_all, fs3) = auto_fix_add_all parse fs2 apply_fixes;
             (ruff_ok, tests_ok) = run_ruff_and_tests (ruff fs3) (tests fs3)
         in (\<lparr>ir_auditors = counts,
              ir_auto_fixes = [(''underscore'', underscore), (''unused_imports'', unused), (''add_all'', add_all)],
              ir_ruff_clean = ruff_ok, ir_tests_pass = tests_ok,
              ir_mode = (if apply_fixes then ''APPLIED'' else ''DRY-RUN'')\<rparr>,
             fs3, if ruff_ok \<and> tests_ok then 0 else 2)))
        (audit_counts cleandoc parse fs))"

section \<open>What the fixers do\<close>


lemma concat_split_keepends: "concat (split_keepends acc s) = acc @ s"
  by (induction acc s rule: split_keepends.induct) auto

lemma dry_run_unchanged:
  "snd (fix_underscore_file False f) = f" "snd (fix_imports_file parse False f) = f" "snd (fix_all_file parse False f) = f"
  by (auto simp: fix_underscore_file_def fix_imports_file_def fix_all_file_def Let_def split: option.split)


lemma blank_line_strip [simp]: "py_strip (blank_line l) = []"
  by (simp add: blank_line_def py_strip_def py_lstrip_def py_isspace_def dropWhile_append)









definition audit_file :: "string \<Rightarrow> py_file" where
  "audit_file s = \<lparr>pf_parts = [''lib'', ''a.py''], strict_text = Some s, lossy_text = Some s\<rparr>"

text \<open>A parser for two texts: an import with a call behind it on the line, and the blank line.\<close>

definition shared_line :: string where
  "shared_line = ''import os; run()'' @ [CHR 0x0A]"

definition audit_parse :: "string \<Rightarrow> py_ast list option" where
  "audit_parse s =
     (if s = shared_line then Some [PyImport 1 (Some 1) [(''os'', None)], PyExpr (PyNode [PyName ''run'' True])]
      else if s = [CHR 0x0A] then Some [] else None)"



text \<open>
  The fixer blanks whole lines: a statement that shares its line with an unused import is deleted with
  it, and since the rest still parses the file is written.
\<close>

theorem unused_import_takes_its_line:
  assumes "parse shared_line = Some [PyImport 1 (Some 1) [(''os'', None)], PyExpr (PyNode [PyName ''run'' True])]"
    and "parse [CHR 0x0A] = Some []"
  shows "map strict_text (snd (auto_fix_unused_imports parse [audit_file shared_line] True)) = [Some [CHR 0x0A]]
    \<and> fr_count (fst (auto_fix_unused_imports parse [audit_file shared_line] True)) = 1"
proof -
  let ?tree = "[PyImport 1 (Some 1) [(''os'', None)], PyExpr (PyNode [PyName ''run'' True])]"
  have split: "split_keepends [] shared_line = [shared_line]" by code_simp
  have ranges: "unused_ranges ?tree (split_lines shared_line) = [(0, 0)]" by code_simp
  have blank: "blank_range (0, 0) [shared_line] = [[CHR 0x0A]]" by code_simp
  have ne: "[CHR 0x0A] \<noteq> shared_line" and name: "pf_name (audit_file shared_line) \<noteq> ''__init__.py''"
    by (simp_all add: shared_line_def audit_file_def pf_name_def)
  have "fix_imports_file parse True (audit_file shared_line) = ((1, True, False), write_file [CHR 0x0A] (audit_file shared_line))"
    using assms split ranges blank ne name
    by (simp add: fix_imports_file_def parsed_def audit_file_def in_range_def)
  then show ?thesis by (simp add: auto_fix_unused_imports_def write_file_def)
qed

theorem unused_import_takes_its_line_witness:
  "map strict_text (snd (auto_fix_unused_imports audit_parse [audit_file shared_line] True)) = [Some [CHR 0x0A]]"
  using unused_import_takes_its_line [of audit_parse] by (simp add: audit_parse_def shared_line_def)

text \<open>
  The underscore fixer replaces the first occurrence of the matched text, which need not be the match:
  here the call of the protocol method loses its underscores, and the attribute keeps them.
\<close>

theorem underscore_fix_hits_dunder:
  "fix_line ''self.__init__(self.__init)'' = ''self.init__(self.__init)''
    \<and> fix_line ''myself.__x + self.__x'' = ''myself.x + self.__x''"
proof
  show "fix_line ''self.__init__(self.__init)'' = ''self.init__(self.__init)''" by code_simp
  show "fix_line ''myself.__x + self.__x'' = ''myself.x + self.__x''" by code_simp
qed

lemma long_functions_by_position:
  "find_long_functions 2 (\<lambda>s. Some [PyFunction False ''long'' 1 (Some 90) [] [PyPass] [],
      PyFunction False ''short'' 91 (Some 92) [] [PyPass] []]) [audit_file []]
    = [([''lib'', ''a.py''], ''short (2 lines)'', 91), ([''lib'', ''a.py''], ''long (90 lines)'', 1)]"
  by code_simp

section \<open>The derived list of public names\<close>

lemma fold_collect_name:
  "distinct ns \<Longrightarrow> distinct (fold collect_name xs ns) \<and>
     set (fold collect_name xs ns) = set ns \<union> {x \<in> set xs. x \<noteq> [] \<and> x \<noteq> ''annotations''}"
proof (induction xs arbitrary: ns)
  case (Cons x xs)
  have "distinct (collect_name x ns)" using Cons.prems by (simp add: collect_name_def)
  from Cons.IH [OF this] show ?case by (auto simp: collect_name_def split: if_splits)
qed simp

lemma async_not_offered: "offered_names (PyFunction True n l le pre body post) = []"
  by simp

text \<open>
  The names written into \<open>__all__\<close> are, each once, those that some statement of the module's body offers,
  without \<open>annotations\<close>; a module whose functions are all asynchronous gets none.
\<close>

theorem public_names_spec:
  "distinct (public_names tree)
    \<and> set (public_names tree) = {x. (\<exists>n\<in>set tree. x \<in> set (offered_names n)) \<and> x \<noteq> [] \<and> x \<noteq> ''annotations''}
    \<and> public_names [PyFunction True n l le pre body post] = []"
  using fold_collect_name [of "[]" "concat (map offered_names tree)"]
  by (auto simp: public_names_def)

text \<open>After a written \<open>__all__\<close> that parses as an assignment, the fixer leaves the file alone.\<close>

lemma add_all_once:
  assumes "fix_all_file parse True f = (1, f')" "strict_text f' = Some s" "parse s = Some tree" "list_ex assigns_all tree"
  shows "fix_all_file parse True f' = (0, f')"
  using assms by (simp add: fix_all_file_def parsed_def)

lemma dry_run_changes_nothing:
  assumes "self_improve cleandoc parse ruff tests False fs = Some (rep, fs', code)"
  shows "fs' = audited_files fs \<and> ir_mode rep = ''DRY-RUN''
    \<and> code = (if ruff (audited_files fs) = 0 \<and> tests (audited_files fs) = 0 then 0 else 2)"
proof -
  have same: "map (snd \<circ> fix_underscore_file False) gs = gs" "map (snd \<circ> fix_imports_file parse False) gs = gs"
    "map (snd \<circ> fix_all_file parse False) gs = gs" for gs
    by (simp_all add: map_idI dry_run_unchanged)
  show ?thesis
    using assms same
    by (auto simp: self_improve_def auto_fix_underscore_def auto_fix_unused_imports_def auto_fix_add_all_def
        run_ruff_and_tests_def Let_def split: if_splits)
qed

end
