(* ===== verification/SgirRun.thy ===== *)
theory SgirRun
  imports SelfImprove Operations SecurityAgent ArchPerfAgents
begin

text \<open>
  The whole SGIR pipeline in one call: \<open>run_sgir_pipeline\<close> of \<open>scripts/self_improve.py\<close>, which scans, parses,
  builds, analyses, optimises and generates, and collects what goes wrong in a list of errors.

  Every step is the model of the operation it calls, so this is the composition of the graph packages.  A graph goes
  through its JSON text unchanged.  The errors are kept as values instead of their texts; log output is left out.
  \<open>None\<close> would mean that one of the level loops has not ended (they do: \<open>sgir_pipeline_total\<close>).
\<close>

datatype run_error =
  ParseFailed string string
| BuildCrashed build_error
| AgentCrashed string nx_error
| OptimizationCrashed py_error
| CodegenCrashed string
| DeadScanCrashed py_error

record sgir_report =
  sr_errors :: "run_error list"
  sr_warnings :: "run_error list"
  sr_metadata :: RepositoryMetadata
  sr_entity_count :: nat
  sr_layer_counts :: "(string \<times> nat) list"
  sr_node_total :: nat
  sr_analyses :: "string list"
  sr_optimization :: "OptimizationResult option"
  sr_generated_files :: nat
  sr_duplicates :: "(string \<times> string) list"
  sr_branches :: "string list list"
  sr_dead_code_scanned :: bool

definition agent_error :: "string \<Rightarrow> nx_error + 'r \<Rightarrow> run_error list" where
  "agent_error n r = (case r of Inl e \<Rightarrow> [AgentCrashed n e] | Inr x \<Rightarrow> [])"

definition agent_done :: "string \<Rightarrow> nx_error + 'r \<Rightarrow> string list" where
  "agent_done n r = (case r of Inl e \<Rightarrow> [] | Inr x \<Rightarrow> [n])"

text \<open>The four agents, in order, on one index; only the first changes its cache.\<close>

definition run_analyses ::
    "'g networkx \<Rightarrow> 'g nx_data \<Rightarrow> (string list \<Rightarrow> string list) \<Rightarrow> 'g GraphIndex
      \<Rightarrow> (run_error list \<times> string list) \<times> 'g GraphIndex" where
  "run_analyses nx nd iter gi =
     (let (arch, gi') = analyze_architecture nx nd iter gi; flow = analyze_flow nx nd iter gi';
          perf = analyze_performance nx nd gi'; sec = analyze_security nx nd gi'
      in ((agent_error ''architecture'' arch @ agent_error ''flow'' flow @ agent_error ''performance'' perf @ agent_error ''security'' sec,
           agent_done ''architecture'' arch @ agent_done ''flow'' flow @ agent_done ''performance'' perf @ agent_done ''security'' sec), gi'))"

definition call_layer_of :: "SoftwareGraph \<Rightarrow> SGIRGraph option" where
  "call_layer_of sg = dict_get (layers sg) LCall"

text \<open>The roots of the dead-code scan: the entry points, or else up to five nodes.\<close>

definition scan_roots :: "(string list \<Rightarrow> string list) \<Rightarrow> SGIRGraph \<Rightarrow> string list \<Rightarrow> string list" where
  "scan_roots iter g eps = (if eps \<noteq> [] then eps else take 5 (iter (map node_id (nodes g))))"

definition dead_scan ::
    "'g networkx \<Rightarrow> (string list \<Rightarrow> string list) \<Rightarrow> SoftwareGraph \<Rightarrow> string list \<Rightarrow> 'g GraphIndex \<Rightarrow> run_error list \<times> bool" where
  "dead_scan nx iter sg eps gi =
     (case call_layer_of sg of
        None \<Rightarrow> ([], False)
      | Some g \<Rightarrow>
          if edges g = [] \<or> nodes g = [] then ([], False)
          else (case fst (remove_dead_nodes nx (scan_roots iter g eps) sg gi) of
                  Inl e \<Rightarrow> ([DeadScanCrashed e], False) | Inr g' \<Rightarrow> ([], True)))"

definition run_sgir_pipeline ::
    "'g networkx \<Rightarrow> 'g nx_data \<Rightarrow> (string list \<Rightarrow> string list) \<Rightarrow> string list
      \<Rightarrow> (string \<Rightarrow> string + ast list) \<Rightarrow> (ast \<Rightarrow> string option) \<Rightarrow> (ast \<Rightarrow> string option)
      \<Rightarrow> string \<Rightarrow> string \<Rightarrow> fs_dir option \<Rightarrow> (string + sgir_report) option" where
  "run_sgir_pipeline nx nd iter order ast_parse unparse get_docstring rootdir rootname dir =
     (case collect_repository_metadata rootdir rootname dir of
        Inl e \<Rightarrow> Some (Inl e)
      | Inr meta \<Rightarrow>
          (let (es, parse_errors) = parse_repository ast_parse unparse get_docstring rootdir dir;
               errs = map (\<lambda>(p, e). ParseFailed p e) parse_errors;
               blank = \<lparr>sr_errors = errs, sr_warnings = [], sr_metadata = meta, sr_entity_count = length es, sr_layer_counts = [],
                        sr_node_total = 0, sr_analyses = [], sr_optimization = None, sr_generated_files = 0,
                        sr_duplicates = [], sr_branches = [], sr_dead_code_scanned = False\<rparr>
           in case build_software_graph order meta es of
                Inl e \<Rightarrow> Some (Inr (blank\<lparr>sr_errors := errs @ [BuildCrashed e]\<rparr>))
              | Inr sg \<Rightarrow>
                  (let counts = map (\<lambda>(l, g). (layer_value l, length (nodes g))) (layers sg);
                       ((agent_errs, analyses), gi) = run_analyses nx nd iter (mk_index nx sg);
                       eps = pipeline_entry_points iter (call_layer_of sg);
                       code = generate_code sg ''python'';
                       (warns, scanned) = dead_scan nx iter sg eps gi
                   in case (optimize_graph nx iter sg (Some eps) ''python'', parallelize_independent_branches nx sg gi) of
                        (Some opt, Some branches) \<Rightarrow>
                          Some (Inr (blank\<lparr>sr_errors := errs @ agent_errs
                                @ (case opt of Inl e \<Rightarrow> [OptimizationCrashed e] | Inr r \<Rightarrow> [])
                                @ (case code of Inl e \<Rightarrow> [CodegenCrashed e] | Inr files \<Rightarrow> []),
                              sr_warnings := warns, sr_layer_counts := counts, sr_node_total := sum_list (map snd counts),
                              sr_analyses := analyses,
                              sr_optimization := (case opt of Inl e \<Rightarrow> None | Inr r \<Rightarrow> Some r),
                              sr_generated_files := (case code of Inl e \<Rightarrow> 0 | Inr files \<Rightarrow> length files),
                              sr_duplicates := detect_duplicates sg, sr_branches := map sort (take 25 branches),
                              sr_dead_code_scanned := scanned\<rparr>))
                      | _ \<Rightarrow> None)))"

section \<open>The parser estimates no complexity\<close>

lemma entities_of_complexity: "e \<in> set (entities_of unparse get_docstring file sc n) \<Longrightarrow> pe_complexity e = ''unknown''"
proof (induction unparse get_docstring "file" sc n rule: entities_of.induct)
  case (3 unparse get_docstring p sc f as ks)
  then show ?case by (cases f) (fastforce split: prod.splits)+
qed (auto simp: import_entity_def import_from_entity_def new_entity_def function_entity_def class_entity_def)

lemma in_concat_map: "e \<in> set (concat (map g xs)) \<Longrightarrow> \<exists>x. e \<in> set (g x)"
  by auto

lemma repository_complexity:
  assumes "e \<in> set (fst (parse_repository ast_parse unparse get_docstring rootdir dir))"
  shows "pe_complexity e = ''unknown''"
proof (cases dir)
  case None
  then show ?thesis using assms by (simp add: parse_repository_def)
next
  case (Some d)
  let ?parse = "\<lambda>(fp, f :: fs_file). parse_file ast_parse unparse get_docstring (\<lambda>p. fs_text f) fp"
  have in_all: "e \<in> set (concat (map (\<lambda>x. case ?parse x of Inl e \<Rightarrow> [] | Inr es \<Rightarrow> es) (python_files parse_skips rootdir d)))"
    using assms by (simp only: Some parse_repository_spec Let_def fst_conv)
  from in_concat_map [OF in_all] obtain x where "e \<in> set (case ?parse x of Inl e \<Rightarrow> [] | Inr es \<Rightarrow> es)" by (elim exE)
  then obtain es where es: "?parse x = Inr es" "e \<in> set es" by (cases "?parse x") simp_all
  obtain fp f where x: "x = (fp, f)" by (cases x)
  from es(1) have "parse_file ast_parse unparse get_docstring (\<lambda>p. fs_text f) fp = Inr es" by (simp only: x prod.case)
  then obtain body where "es = concat (map (entities_of unparse get_docstring fp None) body)"
    unfolding parse_file_def by (auto simp: visit_effects effect_def scope_of_def split: sum.splits)
  with es(2) show ?thesis using entities_of_complexity by fastforce
qed

text \<open>
  The visitor never uses the complexity estimate: every entity of every repository has the complexity
  \<open>unknown\<close>, which the graph builders read as the unknown complexity.
\<close>

theorem parsed_complexity_unknown:
  assumes "e \<in> set (fst (parse_repository ast_parse unparse get_docstring rootdir dir))"
  shows "pe_complexity e = ''unknown'' \<and> parse_complexity (pe_complexity e) = Inr UnknownComplexity"
  using repository_complexity [OF assms] by (simp add: parse_complexity_def)

theorem parsed_complexity_unknown_witness:
  "\<exists>e. e \<in> set (fst (parse_repository (\<lambda>s. Inr [FunctionDef False ''run'' 1 None (Arguments [] [] None [] [] None []) None [] []])
      (\<lambda>_. None) (\<lambda>_. None) ''/r'' (Some (FsDir [\<lparr>fs_name = ''a.py'', fs_size = None, fs_lines = None, fs_text = Inr []\<rparr>] []))))
    \<and> pe_complexity e = ''unknown''"
proof -
  let ?es = "fst (parse_repository (\<lambda>s. Inr [FunctionDef False ''run'' 1 None (Arguments [] [] None [] [] None []) None [] []])
      (\<lambda>_. None) (\<lambda>_. None) ''/r'' (Some (FsDir [\<lparr>fs_name = ''a.py'', fs_size = None, fs_lines = None, fs_text = Inr []\<rparr>] [])))"
  have "map pe_name ?es = [''run'']" by code_simp
  then have "hd ?es \<in> set ?es" by (cases ?es) simp_all
  from this parsed_complexity_unknown [OF this] show ?thesis by blast
qed

section \<open>The run ends\<close>

lemma agent_error_cases: "x \<in> set (agent_error n r) \<Longrightarrow> \<exists>e. x = AgentCrashed n e"
  by (auto simp: agent_error_def split: sum.splits)

lemma run_analyses_errors: "x \<in> set (fst (fst (run_analyses nx nd iter gi))) \<Longrightarrow> \<exists>n e. x = AgentCrashed n e"
  by (auto simp: run_analyses_def Let_def split: prod.splits dest: agent_error_cases)


lemma dead_scan_ok:
  assumes "wf_sg sg"
  shows "fst (dead_scan nx iter sg eps gi) = []"
proof -
  have "\<exists>g'. fst (remove_dead_nodes nx es sg gi) = Inr g'" for es
    using passes_total(1) [of nx es gi] assms by (auto simp: pass_total_def)
  then have "fst (remove_dead_nodes nx es sg gi) \<noteq> Inl e" for es e by (metis sum.distinct(1))
  then show ?thesis by (simp add: dead_scan_def split: option.split sum.split)
qed

lemma python_backend: "generate_code sg ''python'' = Inr (generate sg)"
proof -
  have "py_strip (py_lower ''python'') = ''python''" by code_simp
  then show ?thesis by (simp add: generate_code_def get_backend_def)
qed

lemma optimize_total:
  assumes "nx_documented nx" "nx_cycles_documented nx" "wf_sg sg"
  shows "\<exists>r. optimize_graph nx iter sg eps lang = Some (Inr r) \<and> before_graph r = sg \<and> wf_sg (after_graph r)"
  using run_total [OF assms(1,2), of "\<lparr>pl_graph = sg, pl_entry_points = (case eps of None \<Rightarrow> [] | Some e \<Rightarrow> e), pl_target_language = lang\<rparr>" iter]
    assms(3) unfolding optimize_graph_def by auto

lemma sgir_run_ok:
  assumes "nx_documented nx" "nx_cycles_documented nx"
  shows "\<exists>rep r. run_sgir_pipeline nx nd iter order ast_parse unparse get_docstring rootdir rootname (Some d) = Some (Inr rep)
    \<and> sr_optimization rep = Some r \<and> wf_sg (before_graph r) \<and> wf_sg (after_graph r)
    \<and> sr_generated_files rep = length (generate (before_graph r))
    \<and> sr_warnings rep = []
    \<and> sr_entity_count rep = length (fst (parse_repository ast_parse unparse get_docstring rootdir (Some d)))
    \<and> (\<forall>x\<in>set (sr_errors rep). (\<exists>p e. x = ParseFailed p e) \<or> (\<exists>n e. x = AgentCrashed n e))"
proof -
  obtain meta where meta: "collect_repository_metadata rootdir rootname (Some d) = Inr meta"
    by (cases "fold (\<lambda>(p, fs). fold count_file fs) (walk_dir scan_skips rootdir d) (0, 0)") (simp add: collect_repository_metadata_def)
  obtain es perr where parsed: "parse_repository ast_parse unparse get_docstring rootdir (Some d) = (es, perr)"
    by (cases "parse_repository ast_parse unparse get_docstring rootdir (Some d)")
  have "pe_complexity e = ''unknown''" if "e \<in> set es" for e
    using repository_complexity that parsed by (metis fst_conv)
  then have "\<forall>e\<in>set es. callable_type e \<longrightarrow> (\<exists>c. parse_complexity (pe_complexity e) = Inr c)"
    by (simp add: parse_complexity_def)
  then obtain sg where sg: "build_software_graph order meta es = Inr sg" "wf_sg sg"
    using build_software_graph_ok [of es order meta] by blast
  obtain errs names gi where an: "run_analyses nx nd iter (mk_index nx sg) = ((errs, names), gi)"
    by (metis surj_pair)
  let ?eps = "pipeline_entry_points iter (call_layer_of sg)"
  obtain scanned where scan: "dead_scan nx iter sg ?eps gi = ([], scanned)"
    using dead_scan_ok [OF sg(2), of nx iter ?eps gi] by (metis prod.collapse)
  obtain r where r: "optimize_graph nx iter sg (Some ?eps) ''python'' = Some (Inr r)" "before_graph r = sg" "wf_sg (after_graph r)"
    using optimize_total [OF assms sg(2)] by blast
  obtain bs where bs: "parallelize_independent_branches nx sg gi = Some bs"
    using branches_total [OF assms(1)] by (metis not_None_eq)
  have agents: "\<exists>n e. x = AgentCrashed n e" if "x \<in> set errs" for x
    using run_analyses_errors [of x nx nd iter "mk_index nx sg"] that by (simp add: an)
  show ?thesis
    using agents sg(2) r(2,3)
    by (auto simp: run_sgir_pipeline_def meta parsed sg(1) an scan r(1) bs python_backend Let_def)
qed

text \<open>
  C12: on every directory, whatever its files hold, the whole pipeline ends with a report: its graph is
  built, optimised and generated, and the only errors in it are the files that did not parse and the
  analyses that the graph library refused.
\<close>

theorem sgir_pipeline_total:
  assumes "nx_documented nx" "nx_cycles_documented nx"
  shows "\<exists>rep r. run_sgir_pipeline nx nd iter order ast_parse unparse get_docstring rootdir rootname (Some d) = Some (Inr rep)
    \<and> sr_optimization rep = Some r \<and> wf_sg (before_graph r) \<and> wf_sg (after_graph r)
    \<and> sr_generated_files rep = length (generate (before_graph r))
    \<and> sr_warnings rep = []
    \<and> sr_entity_count rep = length (fst (parse_repository ast_parse unparse get_docstring rootdir (Some d)))
    \<and> (\<forall>x\<in>set (sr_errors rep). (\<exists>p e. x = ParseFailed p e) \<or> (\<exists>n e. x = AgentCrashed n e))"
  by (rule sgir_run_ok [OF assms])

theorem sgir_pipeline_total_witness:
  "\<exists>rep. run_sgir_pipeline list_nx list_nd remdups AUTH_PATTERNS (\<lambda>s. Inl ''invalid syntax'') (\<lambda>_. None) (\<lambda>_. None) ''/r'' ''r''
      (Some (FsDir [\<lparr>fs_name = ''a.py'', fs_size = None, fs_lines = None, fs_text = Inr []\<rparr>] [])) = Some (Inr rep)
    \<and> sr_warnings rep = []"
  using sgir_pipeline_total [OF list_nx_documented list_nx_cycles_documented] by blast

section \<open>The script\<close>

text \<open>
  \<open>main\<close>: first the pipeline, whose error ends the script, and then the audits, fixers and checks.  The report holds
  the parts of both; it is the last thing written.
\<close>

record script_report =
  pipeline_part :: sgir_report
  improve_part :: improve_report
  duplicate_pair_count :: nat
  parallel_branch_count :: nat

datatype script_error = PipelineFailed string | AuditFailed

definition script_main ::
    "(string + sgir_report) option \<Rightarrow> (string \<Rightarrow> string) \<Rightarrow> (string \<Rightarrow> py_ast list option) \<Rightarrow> (py_file list \<Rightarrow> int) \<Rightarrow> (py_file list \<Rightarrow> int)
      \<Rightarrow> bool \<Rightarrow> py_file list \<Rightarrow> (script_error + script_report \<times> py_file list \<times> int) option" where
  "script_main pipeline cleandoc parse ruff tests apply_fixes repo =
     (case pipeline of
        None \<Rightarrow> None
      | Some (Inl e) \<Rightarrow> Some (Inl (PipelineFailed e))
      | Some (Inr rep) \<Rightarrow>
          (case self_improve cleandoc parse ruff tests apply_fixes repo of
             None \<Rightarrow> Some (Inl AuditFailed)
           | Some (imp, fs, code) \<Rightarrow>
               Some (Inr (\<lparr>pipeline_part = rep, improve_part = imp, duplicate_pair_count = length (sr_duplicates rep),
                          parallel_branch_count = length (sr_branches rep)\<rparr>, fs, code))))"

lemma self_improve_ok:
  assumes "find_missing_public_func_docstrings cleandoc parse (audited_files repo) \<noteq> None"
  shows "\<exists>imp fs code. self_improve cleandoc parse ruff tests apply_fixes repo = Some (imp, fs, code)"
proof -
  have "self_improve cleandoc parse ruff tests apply_fixes repo \<noteq> None"
    using assms by (simp add: self_improve_def audit_counts_def Let_def)
  then show ?thesis by (metis not_None_eq prod_cases3)
qed

text \<open>
  On every directory the dry run of the script ends, changes no file, and exits with 0 exactly if both checks
  pass: files that did not parse and analyses that crashed are in its report and have no influence on the code.
\<close>

theorem dry_run_total:
  assumes "nx_documented nx" "nx_cycles_documented nx"
    and "find_missing_public_func_docstrings cleandoc parse (audited_files repo) \<noteq> None"
  shows "\<exists>rep. script_main (run_sgir_pipeline nx nd iter order ast_parse unparse get_docstring rootdir rootname (Some d))
        cleandoc parse ruff tests False repo
      = Some (Inr (rep, audited_files repo, if ruff (audited_files repo) = 0 \<and> tests (audited_files repo) = 0 then 0 else 2))
    \<and> sr_warnings (pipeline_part rep) = [] \<and> ir_mode (improve_part rep) = ''DRY-RUN''"
proof -
  obtain rep where rep: "run_sgir_pipeline nx nd iter order ast_parse unparse get_docstring rootdir rootname (Some d) = Some (Inr rep)"
    "sr_warnings rep = []"
    using sgir_run_ok [OF assms(1,2)] by blast
  obtain imp fs code where imp: "self_improve cleandoc parse ruff tests False repo = Some (imp, fs, code)"
    using self_improve_ok [OF assms(3)] by blast
  from dry_run_changes_nothing [OF imp] show ?thesis by (simp add: script_main_def rep imp)
qed

theorem dry_run_total_witness:
  "\<exists>rep. script_main (run_sgir_pipeline list_nx list_nd remdups AUTH_PATTERNS (\<lambda>s. Inl ''invalid syntax'') (\<lambda>_. None) (\<lambda>_. None) ''/r'' ''r''
        (Some (FsDir [\<lparr>fs_name = ''a.py'', fs_size = None, fs_lines = None, fs_text = Inr []\<rparr>] [])))
      id audit_parse (\<lambda>fs. 0) (\<lambda>fs. 1) False [audit_file shared_line] = Some (Inr (rep, [audit_file shared_line], 2))"
proof -
  have docs: "find_missing_public_func_docstrings id audit_parse (audited_files [audit_file shared_line]) \<noteq> None" by code_simp
  have same: "audited_files [audit_file shared_line] = [audit_file shared_line]" by code_simp
  from dry_run_total [OF list_nx_documented list_nx_cycles_documented docs, where ruff = "\<lambda>fs. 0" and tests = "\<lambda>fs. 1",
      unfolded same]
  show ?thesis by (simp only: one_neq_zero simp_thms if_False) blast
qed

end
