(* ===== verification/ParsedGraphs.thy ===== *)
theory ParsedGraphs
  imports SgirRun
begin

text \<open>
  The graphs of parsed repositories: since the parser leaves every complexity unknown, so do all eight
  builders (\<open>optimization/layers/*.py\<close>), and the pass \<open>reduce_complexity\<close> of the optimizer never changes such a graph.
\<close>

section \<open>Nodes of unknown complexity\<close>

definition plain_node :: "SGIRNode \<Rightarrow> bool" where
  "plain_node n \<longleftrightarrow> complexity n = UnknownComplexity"

definition plain_acc :: "layer_acc \<Rightarrow> bool" where
  "plain_acc a \<longleftrightarrow> list_all plain_node (acc_nodes a)"

definition plain_sgir :: "SGIRGraph \<Rightarrow> bool" where
  "plain_sgir g \<longleftrightarrow> list_all plain_node (nodes g)"

named_theorems plain_intros "steps of a builder that add nodes of unknown complexity only"

lemma plain_empty [plain_intros]: "plain_acc empty_acc"
  by (simp add: plain_acc_def empty_acc_def)

lemma plain_push_node [plain_intros]: "plain_node n \<Longrightarrow> plain_acc a \<Longrightarrow> plain_acc (push_node n a)"
  by (simp add: plain_acc_def push_node_def)

lemma plain_add_node [plain_intros]: "plain_node n \<Longrightarrow> plain_acc a \<Longrightarrow> plain_acc (add_node_once n a)"
  by (simp add: add_node_once_def plain_push_node)

lemma plain_push_edge [plain_intros]: "plain_acc a \<Longrightarrow> plain_acc (push_edge s t ty lab a)"
  by (simp add: plain_acc_def push_edge_def)

lemma plain_fold [plain_intros]: "(\<And>x b. x \<in> set xs \<Longrightarrow> plain_acc b \<Longrightarrow> plain_acc (f x b)) \<Longrightarrow> plain_acc a \<Longrightarrow> plain_acc (fold f xs a)"
  by (induction xs arbitrary: a) auto

lemma plain_base [simp]: "plain_node (base_node ty e)" "plain_node (with_signature e n) \<longleftrightarrow> plain_node n"
  by (simp_all add: plain_node_def base_node_def new_node_def with_signature_def)

lemma plain_nodes [simp]:
  "plain_node (import_source_node e)" "plain_node (import_target_node e imp)" "plain_node (repo_node k ty r)"
  "plain_node (class_node e)" "plain_node (resource_node s)" "plain_node (concern_node s)" "plain_node (sensitive_node s)"
  "plain_node (security_node order e)" "plain_node (build_system_node s)" "plain_node (config_node e)" "plain_node (endpoint_node e)"
  by (simp_all add: plain_node_def import_source_node_def import_target_node_def repo_node_def class_node_def base_node_def new_node_def
      resource_node_def concern_node_def sensitive_node_def security_node_def build_system_node_def config_node_def endpoint_node_def)

lemma plain_with_complexity: "pe_complexity e = ''unknown'' \<Longrightarrow> with_complexity e n = Inr m \<Longrightarrow> plain_node m"
  by (auto simp: with_complexity_def parse_complexity_def plain_node_def split: if_splits)

lemma plain_entity_nodes:
  assumes "\<And>e n. e \<in> set es \<Longrightarrow> mk e = Inr n \<Longrightarrow> plain_node n" "plain_acc a" "entity_nodes p mk es a = Inr a'"
  shows "plain_acc a'"
  using assms
proof (induction es arbitrary: a)
  case (Cons e es)
  then show ?case by (auto split: if_splits sum.splits intro: plain_push_node)
qed simp

lemma plain_layer_graph: "plain_sgir (layer_graph l a ex) = plain_acc a"
  by (simp add: plain_sgir_def plain_acc_def layer_graph_def)

section \<open>The builders\<close>

lemma plain_steps [plain_intros]:
  "plain_acc a \<Longrightarrow> plain_acc (call_edges es e a)" "plain_acc a \<Longrightarrow> plain_acc (data_edges e a)"
  "plain_acc a \<Longrightarrow> plain_acc (contains_edges es e a)" "plain_acc a \<Longrightarrow> plain_acc (route_edges es e a)"
  "plain_acc a \<Longrightarrow> plain_acc (inherit_edges es e a)" "plain_acc a \<Longrightarrow> plain_acc (class_methods_step es cm a)"
  by (auto simp: call_edges_def call_edge_def data_edges_def data_edge_def contains_edges_def contains_edge_def
      route_edges_def route_edge_def inherit_edges_def inherit_edge_def class_methods_step_def lifecycle_step_def
      next_edge_def event_step_def event_edge_def Let_def split: option.split intro!: plain_intros)

lemma plain_update [simp]: "plain_node (n\<lparr>side_effects := s, resource_usage := u\<rparr>) \<longleftrightarrow> plain_node n"
  by (simp add: plain_node_def)

lemma plain_resource_step [plain_intros]: "plain_acc a \<Longrightarrow> plain_acc (resource_step e a)"
  by (auto simp: resource_step_def resource_edge_def Let_def intro!: plain_fold plain_push_edge plain_add_node plain_push_node)

lemma plain_security_step [plain_intros]: "plain_acc a \<Longrightarrow> plain_acc (security_step order e a)"
  by (auto simp: security_step_def concern_edge_def sensitive_edge_def intro!: plain_fold plain_push_edge plain_add_node)

lemma plain_deploy_node [plain_intros]: "plain_node n \<Longrightarrow> plain_acc a \<Longrightarrow> plain_acc (deploy_node repo lab n a)"
  by (auto simp: deploy_node_def Let_def split: option.split intro!: plain_intros)

lemma plain_deploy_repo [plain_intros]: "plain_acc (deploy_repo repo)"
  by (auto simp: deploy_repo_def split: option.split intro!: plain_intros)

lemma plain_endpoint_step [plain_intros]: "plain_acc a \<Longrightarrow> plain_acc (endpoint_step repo e a)"
  by (simp add: endpoint_step_def plain_deploy_node)

lemma plain_pair_fold:
  "(\<And>x b m. plain_acc b \<Longrightarrow> plain_acc (fst (f x (b, m)))) \<Longrightarrow> plain_acc (fst am) \<Longrightarrow> plain_acc (fst (fold f xs am))"
  by (induction xs arbitrary: am) (auto, metis prod.collapse)

lemma plain_import_steps: "plain_acc a \<Longrightarrow> plain_acc (fst (import_steps e (a, mods)))"
proof -
  have noted: "plain_node n \<Longrightarrow> plain_acc b \<Longrightarrow> plain_acc (fst (note_module n (b, m)))" for n b m
    by (simp add: note_module_def plain_push_node)
  have step: "plain_acc b \<Longrightarrow> plain_acc (fst (import_step e i (b, m)))" for i b m
    using noted [of "import_target_node e i"] noted [of "import_source_node e" b m]
    by (auto simp: import_step_def split: prod.splits intro!: plain_push_edge) (metis fst_conv plain_nodes(1,2) prod.collapse)
  assume "plain_acc a"
  with plain_pair_fold [of "import_step e", OF step] show ?thesis by (simp add: import_steps_def)
qed

lemma plain_class_step: "plain_acc a \<Longrightarrow> plain_acc (fst (class_step e (a, cm)))"
  by (simp add: class_step_def plain_add_node)


lemma fold_import_steps_plain: "plain_acc (fst (fold import_steps es (empty_acc, [])))"
  by (rule plain_pair_fold) (simp_all add: plain_import_steps plain_empty)

lemma fold_class_steps_plain: "plain_acc (fst (fold class_step es (empty_acc, [])))"
  by (rule plain_pair_fold) (simp_all add: plain_class_step plain_empty)

lemma builder_plain:
  assumes "\<forall>e\<in>set (pd_entities pd). pe_complexity e = ''unknown''" "(l, b) \<in> set (create_default_registry order)" "b pd ex = Inr g"
  shows "plain_sgir g"
proof -
  have mk: "plain_node n" if "e \<in> set (pd_entities pd)" "with_complexity e m = Inr n" for e m n
    using plain_with_complexity assms(1) that by blast
  have call: "plain_acc a" if "entity_nodes callable_type call_node (pd_entities pd) empty_acc = Inr a" for a
    by (rule plain_entity_nodes [OF _ plain_empty that]) (auto simp: call_node_def intro: mk)
  have data: "plain_acc a" if "entity_nodes function_type data_flow_node (pd_entities pd) empty_acc = Inr a" for a
    by (rule plain_entity_nodes [OF _ plain_empty that]) (auto simp: data_flow_node_def intro: mk)
  have control: "plain_acc a" if "entity_nodes callable_type control_node (pd_entities pd) empty_acc = Inr a" for a
    by (rule plain_entity_nodes [OF _ plain_empty that]) (auto simp: control_node_def intro: mk)
  consider "b = call_graph_build" | "b = data_flow_build" | "b = control_flow_build" | "b = dependency_build"
    | "b = state_transition_build" | "b = resource_build" | "b = security_build order" | "b = deployment_build"
    using assms(2) by (auto simp: default_registry_alt)
  then show ?thesis
  proof cases
    case 1
    with assms(3) call show ?thesis
      by (auto simp: call_graph_build_def Let_def plain_layer_graph split: sum.splits intro!: plain_intros)
  next
    case 2
    with assms(3) data show ?thesis
      by (auto simp: data_flow_build_def plain_layer_graph split: sum.splits intro!: plain_intros)
  next
    case 3
    with assms(3) control show ?thesis
      by (auto simp: control_flow_build_def Let_def plain_layer_graph split: sum.splits intro!: plain_intros)
  next
    case 4
    obtain a mods where am: "fold import_steps (pd_entities pd) (empty_acc, []) = (a, mods)" by (metis surj_pair)
    then have "plain_acc a" using fold_import_steps_plain [of "pd_entities pd"] by simp
    with assms(3) 4 am show ?thesis
      by (auto simp: dependency_build_def repo_edges_def Let_def plain_layer_graph split: option.splits intro!: plain_intros)
  next
    case 5
    obtain a cm where am: "fold class_step (pd_entities pd) (empty_acc, []) = (a, cm)" by (metis surj_pair)
    then have "plain_acc a" using fold_class_steps_plain [of "pd_entities pd"] by simp
    with assms(3) 5 am show ?thesis
      by (auto simp: state_transition_build_def Let_def plain_layer_graph intro!: plain_intros)
  next
    case 6
    with assms(3) show ?thesis by (auto simp: resource_build_def plain_layer_graph intro!: plain_intros)
  next
    case 7
    with assms(3) show ?thesis by (auto simp: security_build_def plain_layer_graph intro!: plain_intros)
  next
    case 8
    with assms(3) show ?thesis by (auto simp: deployment_build_def Let_def plain_layer_graph intro!: plain_intros)
  qed
qed

section \<open>The whole graph\<close>

lemma values_dict_set: "snd ` set (dict_set k v m) \<subseteq> insert v (snd ` set m)"
  by (induction m) auto

lemma build_loop_plain:
  assumes "\<And>l b ex g. (l, b) \<in> set r \<Longrightarrow> b pd ex = Inr g \<Longrightarrow> plain_sgir g" "\<forall>g\<in>snd ` set ls. plain_sgir g"
    and "build_loop r pd ls = Inr ls'"
  shows "\<forall>g\<in>snd ` set ls'. plain_sgir g"
  using assms
proof (induction r arbitrary: ls)
  case (Cons x r)
  obtain l b where x: "x = (l, b)" by (cases x)
  with Cons.prems(3) obtain g where g: "b pd (dict_get ls l) = Inr g" "build_loop r pd (dict_set l g ls) = Inr ls'"
    by (auto split: sum.splits)
  have "plain_sgir g" using Cons.prems(1) g(1) x by auto
  then have "\<forall>g\<in>snd ` set (dict_set l g ls). plain_sgir g"
    using Cons.prems(2) values_dict_set [of l g ls] by (metis insertE subsetD)
  from Cons.IH [OF _ this g(2)] Cons.prems(1) show ?case by auto
qed simp

lemma layers_of_add_layer: "layers (add_layer g sg) = dict_set (layer g) g (layers sg)"
  by (simp add: add_layer_def)

lemma fold_add_layer_plain:
  "\<forall>g\<in>set gs. plain_sgir g \<Longrightarrow> \<forall>g\<in>snd ` set (layers sg). plain_sgir g \<Longrightarrow>
     \<forall>g\<in>snd ` set (layers (fold add_layer gs sg)). plain_sgir g"
proof (induction gs arbitrary: sg)
  case (Cons g gs)
  have "\<forall>h\<in>snd ` set (layers (add_layer g sg)). plain_sgir h"
  proof
    fix h assume "h \<in> snd ` set (layers (add_layer g sg))"
    then have "h \<in> snd ` set (dict_set (layer g) g (layers sg))" by (simp only: layers_of_add_layer)
    from subsetD [OF values_dict_set this] have "h = g \<or> h \<in> snd ` set (layers sg)" by (simp only: insert_iff)
    moreover have "plain_sgir g" using Cons.prems(1) by simp
    ultimately show "plain_sgir h" using Cons.prems(2) by blast
  qed
  from Cons.IH [OF _ this] Cons.prems(1) show ?case by simp
qed simp

lemma reduce_body_plain: "plain_sgir g \<Longrightarrow> reduce_body g = Inr None"
proof -
  assume "plain_sgir g"
  then have "\<not> must_split n" if "n \<in> set (nodes g)" for n
    using that by (auto simp: plain_sgir_def plain_node_def must_split_def list_all_iff)
  then have "fold (\<lambda>n. if must_split n then dict_set (node_id n) (map node_id (split_node n DEFAULT_SPLIT_PARTS)) else (\<lambda>d. d)) (nodes g) [] = []"
    by (intro fold_invariant [where Q = "\<lambda>n. \<not> must_split n" and P = "\<lambda>d. d = []"]) auto
  then show ?thesis by (simp add: reduce_body_def splits_of_def)
qed

lemma layer_loop_idle:
  assumes "\<And>g. g \<in> snd ` set ls \<Longrightarrow> body g = Inr None"
  shows "layer_loop body ks ls = Inr ls"
proof (induction ks)
  case (Cons k ks)
  show ?case
  proof (cases "dict_get ls k")
    case (Some g)
    then have "g \<in> snd ` set ls" by (force dest: map_of_SomeD)
    with Some Cons assms show ?thesis by simp
  qed (use Cons in simp)
qed simp

lemma build_software_graph_plain:
  assumes "\<forall>e\<in>set es. pe_complexity e = ''unknown''" "build_software_graph order repo es = Inr sg"
  shows "\<forall>g\<in>snd ` set (layers sg). plain_sgir g"
proof -
  let ?pd = "\<lparr>pd_entities = es, pd_repository = Some repo\<rparr>"
  obtain ls where ls: "build_loop (create_default_registry order) ?pd [] = Inr ls"
    "sg = fold add_layer (map snd ls) \<lparr>repository = repo, layers = []\<rparr>"
    using assms(2) by (auto simp: build_software_graph_def build_all_def split: sum.splits)
  have "\<forall>g\<in>snd ` set ls. plain_sgir g"
    by (rule build_loop_plain [OF _ _ ls(1)]) (use builder_plain [of ?pd _ _ order] assms(1) in auto)
  then show ?thesis
    unfolding ls(2) by (intro fold_add_layer_plain) auto
qed

text \<open>
  C24: the graph of a parsed repository has no node of known complexity, in no layer: the optimizer's pass
  that splits complex nodes returns it unchanged.
\<close>

theorem reduce_complexity_idle:
  assumes "build_software_graph order repo (fst (parse_repository ast_parse unparse get_docstring rootdir dir)) = Inr sg"
  shows "reduce_complexity sg = Inr sg \<and> (\<forall>g\<in>snd ` set (layers sg). \<forall>n\<in>set (nodes g). complexity n = UnknownComplexity)"
proof -
  have "\<forall>e\<in>set (fst (parse_repository ast_parse unparse get_docstring rootdir dir)). pe_complexity e = ''unknown''"
    using repository_complexity by blast
  from build_software_graph_plain [OF this assms] have plain: "\<forall>g\<in>snd ` set (layers sg). plain_sgir g" .
  then have "layer_loop reduce_body (dict_keys (layers sg)) (layers sg) = Inr (layers sg)"
    using reduce_body_plain by (intro layer_loop_idle) blast
  moreover have "\<forall>g\<in>snd ` set (layers sg). \<forall>n\<in>set (nodes g). complexity n = UnknownComplexity"
    using plain by (auto simp: plain_sgir_def plain_node_def list_all_iff)
  ultimately show ?thesis by (simp add: reduce_complexity_def for_layers_def)
qed

definition demo_parse :: "ParsedEntity list" where
  "demo_parse = fst (parse_repository (\<lambda>s. Inr [FunctionDef False ''run'' 1 None (Arguments [] [] None [] [] None []) None [] []])
     (\<lambda>_. None) (\<lambda>_. None) ''/r'' (Some (FsDir [\<lparr>fs_name = ''a.py'', fs_size = None, fs_lines = None, fs_text = Inr []\<rparr>] [])))"

lemma demo_parse_names: "map pe_name demo_parse = [''run'']"
  by code_simp

theorem reduce_complexity_idle_witness:
  "\<exists>sg. build_software_graph AUTH_PATTERNS demo_repo demo_parse = Inr sg \<and> map pe_name demo_parse = [''run''] \<and> reduce_complexity sg = Inr sg"
proof -
  have "\<forall>e\<in>set demo_parse. callable_type e \<longrightarrow> (\<exists>c. parse_complexity (pe_complexity e) = Inr c)"
    unfolding demo_parse_def by (auto simp: repository_complexity parse_complexity_def)
  then obtain sg where sg: "build_software_graph AUTH_PATTERNS demo_repo demo_parse = Inr sg"
    using build_software_graph_ok [of demo_parse AUTH_PATTERNS demo_repo] by blast
  have "reduce_complexity sg = Inr sg" by (rule reduce_complexity_idle [OF sg [unfolded demo_parse_def], THEN conjunct1])
  with sg demo_parse_names show ?thesis by (intro exI [of _ sg] conjI)
qed

end
