(* ===== verification/KgQuery.thy ===== *)
theory KgQuery
  imports KnowledgeGraph
begin

text \<open>
  Queries on the knowledge graph (\<open>intelliqx_kg/graph.py\<close>: \<open>register_views\<close>, \<open>query\<close>, \<open>neighbors\<close>) and the
  singleton.  DuckDB's evaluation of a text of SQL with its parameters on the two views is the parameter \<open>exec\<close>;
  it gives the rows and the column names, or no names, or an error.
\<close>

section \<open>Views\<close>

datatype view = EmptyView "string list" | TableView "arrow_row list"

definition register_views :: "(json \<Rightarrow> string) \<Rightarrow> KnowledgeGraph \<Rightarrow> view \<times> view" where
  "register_views dumps g =
     (if nodes_table g \<noteq> [] then TableView (map (node_row dumps) (nodes_table g))
      else EmptyView [''id'', ''type'', ''tenant_id'', ''attrs'', ''embedding_ref''],
      if edges_table g \<noteq> [] then TableView (map (edge_row dumps) (edges_table g))
      else EmptyView [''src'', ''dst'', ''type'', ''tenant_id'', ''weight'', ''attrs''])"

text \<open>The columns of a table made from a list of rows are the keys of the first row.\<close>

fun view_columns :: "view \<Rightarrow> string list" where
  "view_columns (EmptyView cs) = cs"
| "view_columns (TableView rs) = (case rs of [] \<Rightarrow> [] | r # _ \<Rightarrow> map fst r)"

fun view_rows :: "view \<Rightarrow> arrow_row list" where
  "view_rows (EmptyView cs) = []"
| "view_rows (TableView rs) = rs"

text \<open>Both views have the documented columns, empty or not, and one row per node or edge, flushed or not.\<close>

lemma register_views_spec:
  "view_columns (fst (register_views dumps g)) = [''id'', ''type'', ''tenant_id'', ''attrs'', ''embedding_ref'']"
  "view_columns (snd (register_views dumps g)) = [''src'', ''dst'', ''type'', ''tenant_id'', ''weight'', ''attrs'']"
  "view_rows (fst (register_views dumps g)) = map (node_row dumps) (nodes_table g)"
  "view_rows (snd (register_views dumps g)) = map (edge_row dumps) (edges_table g)"
  by (cases "nodes_table g"; cases "edges_table g"; simp add: register_views_def node_row_def edge_row_def)+

section \<open>Queries\<close>

type_synonym 'e duckdb = "string \<Rightarrow> json list \<Rightarrow> view \<times> view \<Rightarrow> 'e + json list list \<times> string list option"

record KGQueryResult =
  kg_rows :: "(string, json) dict list"
  kg_columns :: "string list"
  kg_row_count :: nat

definition row_dict :: "string list \<Rightarrow> json list \<Rightarrow> (string, json) dict" where
  "row_dict cols r = fold (\<lambda>(c, v). dict_set c v) (zip cols r) []"

definition query ::
    "'e duckdb \<Rightarrow> (json \<Rightarrow> string) \<Rightarrow> string \<Rightarrow> json list \<Rightarrow> KnowledgeGraph \<Rightarrow> 'e + KGQueryResult" where
  "query exec dumps sql params g =
     (case exec sql params (register_views dumps g) of
        Inl e \<Rightarrow> Inl e
      | Inr (result, description) \<Rightarrow>
          (let cols = (case description of None \<Rightarrow> [] | Some cs \<Rightarrow> cs); rows = map (row_dict cols) result
           in Inr \<lparr>kg_rows = rows, kg_columns = cols, kg_row_count = length rows\<rparr>))"

definition build_edge_filter :: "string option \<Rightarrow> string option \<Rightarrow> string \<times> json list" where
  "build_edge_filter tenant edge_type =
     (let cond = (case tenant of None \<Rightarrow> [] | Some t \<Rightarrow> [''e.tenant_id = ?''])
               @ (case edge_type of None \<Rightarrow> [] | Some t \<Rightarrow> [''e.type = ?'']);
          params = (case tenant of None \<Rightarrow> [] | Some t \<Rightarrow> [JStr t]) @ (case edge_type of None \<Rightarrow> [] | Some t \<Rightarrow> [JStr t])
      in (if cond \<noteq> [] then join_with '' AND '' cond else ''1=1'', params))"

definition base_select :: "string \<Rightarrow> string \<Rightarrow> string \<Rightarrow> string" where
  "base_select cond_sql join_on endpoint_clause =
     ''SELECT DISTINCT n.id, n.type, n.tenant_id, n.attrs FROM kg_edges e JOIN kg_nodes n ON '' @ join_on
       @ '' WHERE '' @ endpoint_clause @ '' AND '' @ cond_sql @ '' LIMIT 1000''"

text \<open>The text and the parameters for a direction; every other word than \<open>out\<close> and \<open>in\<close> is both.\<close>

definition neighbors_sql :: "string \<Rightarrow> string option \<Rightarrow> string option \<Rightarrow> string \<Rightarrow> string \<times> json list" where
  "neighbors_sql node_id tenant edge_type direction =
     (let (cond_sql, params) = build_edge_filter tenant edge_type;
          sql_out = base_select cond_sql ''e.dst = n.id'' ''e.src = ?'';
          sql_in = base_select cond_sql ''e.src = n.id'' ''e.dst = ?'';
          full_params = JStr node_id # params
      in if direction = ''out'' then (sql_out, full_params)
         else if direction = ''in'' then (sql_in, full_params)
         else (sql_out @ '' UNION '' @ sql_in, full_params @ full_params))"

definition neighbors ::
    "'e duckdb \<Rightarrow> (json \<Rightarrow> string) \<Rightarrow> string \<Rightarrow> string option \<Rightarrow> string option \<Rightarrow> string \<Rightarrow> KnowledgeGraph
      \<Rightarrow> 'e + KGQueryResult" where
  "neighbors exec dumps node_id tenant edge_type direction g =
     (let (sql, params) = neighbors_sql node_id tenant edge_type direction in query exec dumps sql params g)"

section \<open>The text has a placeholder for each parameter, and no value\<close>

definition placeholders :: "string \<Rightarrow> nat" where
  "placeholders s = count_list s (CHR ''?'')"

text \<open>
  C27: The SQL of a neighbour query depends only on the direction and on which filters are given: no id,
  tenant or type gets into the text, and it has as many placeholders as there are parameters.
\<close>

theorem neighbors_sql_bound:
  "placeholders (fst (neighbors_sql node_id tenant edge_type direction)) = length (snd (neighbors_sql node_id tenant edge_type direction))
    \<and> fst (neighbors_sql node_id tenant edge_type direction) =
      fst (neighbors_sql [] (map_option (\<lambda>_. []) tenant) (map_option (\<lambda>_. []) edge_type) direction)
    \<and> set (snd (neighbors_sql node_id tenant edge_type direction)) = {JStr node_id} \<union> JStr ` set_option tenant \<union> JStr ` set_option edge_type"
  by (cases tenant; cases edge_type; cases "direction = ''out''"; cases "direction = ''in''")
    (auto simp: neighbors_sql_def build_edge_filter_def base_select_def placeholders_def Let_def)

section \<open>Rows as dicts\<close>

lemma row_dict_distinct:
  assumes "distinct cols" "length cols = length r"
  shows "row_dict cols r = zip cols r"
proof -
  have "fold (\<lambda>(c, v). dict_set c v) xs m = m @ xs" if "distinct (map fst m @ map fst xs)"
    for xs m :: "(string, json) dict"
    using that
  proof (induction xs arbitrary: m)
    case (Cons x xs)
    obtain c v where x: "x = (c, v)" by (cases x)
    from Cons.prems x have "dict_set c v m = m @ [(c, v)]" by (intro dict_set_new) auto
    with Cons x show ?case by (simp add: disjoint_iff)
  qed simp
  from this [of "[]" "zip cols r"] assms show ?thesis by (simp add: row_dict_def)
qed

text \<open>
  A query that succeeds gives as many rows as it counts; with different column names each row holds
  its values under them, in order.
\<close>

theorem query_rows:
  assumes "query exec dumps sql params g = Inr res"
  shows "kg_row_count res = length (kg_rows res)
    \<and> (\<exists>result description. exec sql params (register_views dumps g) = Inr (result, description)
        \<and> length (kg_rows res) = length result
        \<and> (distinct (kg_columns res) \<and> list_all (\<lambda>r. length r = length (kg_columns res)) result
            \<longrightarrow> kg_rows res = map (zip (kg_columns res)) result))"
  using assms
  by (auto simp: query_def Let_def row_dict_distinct list_all_iff split: sum.splits)

lemma row_dict_repeated: "row_dict [c, c] [v, w] = [(c, w)]"
  by (simp add: row_dict_def)

definition demo_duckdb :: "string duckdb" where
  "demo_duckdb sql params vs =
     (if sql = ''SELECT id, type FROM kg_nodes''
      then Inr (map (\<lambda>r. map snd (take 2 r)) (view_rows (fst vs)), Some [''id'', ''type'']) else Inl ''Parser Error'')"

theorem query_rows_witness:
  "\<exists>res. query demo_duckdb (\<lambda>_. ''{}'') ''SELECT id, type FROM kg_nodes'' []
      (kg_step (\<lambda>_. ''{}'') (\<lambda>k rows. []) (AddNodes [demo_node]) (kg_init ''c'' mem_init)) = Inr res
    \<and> kg_row_count res = length (kg_rows res)"
proof -
  have "\<exists>res. query demo_duckdb (\<lambda>_. ''{}'') ''SELECT id, type FROM kg_nodes'' []
      (kg_step (\<lambda>_. ''{}'') (\<lambda>k rows. []) (AddNodes [demo_node]) (kg_init ''c'' mem_init)) = Inr res"
    by (simp add: query_def demo_duckdb_def Let_def)
  then show ?thesis using query_rows by blast
qed

section \<open>The singleton\<close>

definition get_kg :: "mem_store \<Rightarrow> KnowledgeGraph option \<Rightarrow> KnowledgeGraph \<times> KnowledgeGraph option" where
  "get_kg default_storage single =
     (case single of None \<Rightarrow> (let g = kg_init ''default'' default_storage in (g, Some g)) | Some g \<Rightarrow> (g, Some g))"

definition set_kg :: "KnowledgeGraph option \<Rightarrow> KnowledgeGraph option \<Rightarrow> KnowledgeGraph option" where
  "set_kg g single = g"

text \<open>\<open>reset_kg\<close> also empties the graph that was the singleton, for all who hold it.\<close>

definition reset_kg :: "KnowledgeGraph option \<Rightarrow> KnowledgeGraph option \<times> KnowledgeGraph option" where
  "reset_kg single = (map_option kg_reset single, None)"

lemma get_kg_after:
  "fst (get_kg st (set_kg (Some g) single)) = g"
  "fst (get_kg st (snd (reset_kg single))) = kg_init ''default'' st"
  "snd (get_kg st (snd (get_kg st single))) = snd (get_kg st single)"
  by (auto simp: get_kg_def set_kg_def reset_kg_def Let_def split: option.split)

end
