(* ===== verification/Backends.thy ===== *)
theory Backends
  imports KvStore ObjectStore Events Metrics Compute Tools "HOL-Library.List_Lexorder" "HOL-Library.Char_ord"
begin

text \<open>
  How the stores, the event bus, the compute runtime and the metrics are reached: a registry of factories and a
  singleton per package (\<open>intelliqx_storage/store.py\<close>, \<open>intelliqx_state/store.py\<close>, \<open>intelliqx_events/bus.py\<close>,
  \<open>intelliqx_compute/runtime.py\<close>, \<open>intelliqx_observability/metrics.py\<close>, \<open>intelliqx_tools/manager.py\<close>).

  A registry is a dict from names to factories.  The singleton is \<open>None\<close> until the first use.  \<open>env\<close> is the
  environment.  A call gives the instance, or the text of the \<open>RuntimeError\<close>, and the singleton afterwards.
  The contract \<open>singleton_access\<close> says that a first success is final; all three packages that select their
  backend by name satisfy it.
\<close>

type_synonym 'f factories = "(string, 'f) dict"

definition register_backend :: "string \<Rightarrow> 'f \<Rightarrow> 'f factories \<Rightarrow> 'f factories" where
  "register_backend name f r = dict_set name f r"

definition list_backends :: "'f factories \<Rightarrow> string list" where
  "list_backends r = sort (dict_keys r)"

definition getenv :: "(string \<Rightarrow> string option) \<Rightarrow> string \<Rightarrow> string \<Rightarrow> string" where
  "getenv env k d = (case env k of None \<Rightarrow> d | Some v \<Rightarrow> v)"

definition not_registered :: "string \<Rightarrow> string \<Rightarrow> 'f factories \<Rightarrow> string" where
  "not_registered kind name r =
     kind @ '' backend '' @ py_repr name @ '' not registered. Available backends: ''
       @ join_with '', '' (list_backends r) @ ''.''"

lemma set_list_backends: "set (list_backends (register_backend name f r)) = insert name (set (list_backends r))"
  by (simp add: list_backends_def register_backend_def dict_keys_def set_keys_dict_set)

section \<open>Object stores\<close>

datatype any_store = MemoryStore mem_store | FileStore string

text \<open>A factory gets the part of the specification behind the colon, if there is a colon.\<close>

type_synonym storage_factory = "string option \<Rightarrow> string + any_store"

fun memory_store_factory :: storage_factory where
  "memory_store_factory None = Inr (MemoryStore mem_init)"
| "memory_store_factory (Some a) = Inl ''InMemoryObjectStore.__init__() takes 1 positional argument but 2 were given''"

fun file_store_factory :: storage_factory where
  "file_store_factory None = Inl ''LocalFileSystemObjectStore.__init__() missing 1 required positional argument: root''"
| "file_store_factory (Some root_dir) = Inr (FileStore root_dir)"

definition STORAGE_BACKENDS :: "storage_factory factories" where
  "STORAGE_BACKENDS = register_backend ''fs'' file_store_factory [(''memory'', memory_store_factory)]"

definition storage_spec :: "string \<Rightarrow> string \<times> string option" where
  "storage_spec spec =
     (let backend_name = takeWhile (\<lambda>x. x \<noteq> CHR '':'') spec
      in (backend_name, if CHR '':'' \<in> set spec then Some (drop (Suc (length backend_name)) spec) else None))"

definition get_object_store ::
    "(string \<Rightarrow> string option) \<times> storage_factory factories \<Rightarrow> any_store option \<Rightarrow> (string + any_store) \<times> any_store option" where
  "get_object_store c single =
     (case single of
        Some s \<Rightarrow> (Inr s, single)
      | None \<Rightarrow>
          (let (backend_name, argument) = storage_spec (getenv (fst c) ''INTELLIQX_OBJECT_STORE'' ''memory'')
           in case dict_get (snd c) backend_name of
                None \<Rightarrow> (Inl (not_registered ''Storage'' backend_name (snd c)), None)
              | Some f \<Rightarrow> (case f argument of Inl e \<Rightarrow> (Inl e, None) | Inr s \<Rightarrow> (Inr s, Some s))))"

definition reset_object_store :: "any_store option \<Rightarrow> any_store option" where
  "reset_object_store single = None"

definition set_object_store :: "any_store \<Rightarrow> any_store option \<Rightarrow> any_store option" where
  "set_object_store s single = Some s"

section \<open>State stores\<close>

definition STATE_BACKENDS :: "kv_state factories" where
  "STATE_BACKENDS = [(''memory'', kv_init)]"

definition get_state_store ::
    "(string \<Rightarrow> string option) \<times> kv_state factories \<Rightarrow> kv_state option \<Rightarrow> (string + kv_state) \<times> kv_state option" where
  "get_state_store c single =
     (case single of
        Some s \<Rightarrow> (Inr s, single)
      | None \<Rightarrow>
          (let backend = getenv (fst c) ''INTELLIQX_STATE_BACKEND'' ''memory''
           in case dict_get (snd c) backend of
                None \<Rightarrow> (Inl (not_registered ''State'' backend (snd c)
                               @ '' Use INTELLIQX_STATE_BACKEND=memory for tests/dev.''), None)
              | Some s \<Rightarrow> (Inr s, Some s)))"

text \<open>The reset also empties the store itself, for all who hold it: it is the first component.\<close>

definition reset_state_store :: "kv_state option \<Rightarrow> kv_state option \<times> kv_state option" where
  "reset_state_store single = (map_option kv_reset single, None)"

section \<open>Event buses\<close>

definition EVENT_BUSES :: "('c, 'e) InMemoryEventBus factories" where
  "EVENT_BUSES = [(''memory'', bus_init)]"

definition get_event_bus ::
    "string option \<times> (string \<Rightarrow> string option) \<times> ('c, 'e) InMemoryEventBus factories
      \<Rightarrow> ('c, 'e) InMemoryEventBus option \<Rightarrow> (string + ('c, 'e) InMemoryEventBus) \<times> ('c, 'e) InMemoryEventBus option" where
  "get_event_bus c single =
     (case single of
        Some b \<Rightarrow> (Inr b, single)
      | None \<Rightarrow>
          (let (backend, env, r) = c;
               backend_name = (case backend of
                   None \<Rightarrow> getenv env ''INTELLIQX_EVENT_BUS_BACKEND'' ''memory''
                 | Some n \<Rightarrow> if n = [] then getenv env ''INTELLIQX_EVENT_BUS_BACKEND'' ''memory'' else n)
           in case dict_get r backend_name of
                None \<Rightarrow> (Inl (not_registered ''Event bus'' backend_name r), None)
              | Some b \<Rightarrow> (Inr b, Some b)))"

definition reset_event_bus ::
    "('c, 'e) InMemoryEventBus option \<Rightarrow> ('c, 'e) InMemoryEventBus option \<times> ('c, 'e) InMemoryEventBus option" where
  "reset_event_bus single = (map_option bus_reset single, None)"

section \<open>The compute runtime and the metrics\<close>

text \<open>\<open>get_compute_runtime\<close> looks at no registry: the factories registered are only listed.\<close>

definition get_compute_runtime :: "'f factories \<Rightarrow> runtime option \<Rightarrow> runtime \<times> runtime option" where
  "get_compute_runtime r single = (case single of None \<Rightarrow> ([], Some []) | Some rt \<Rightarrow> (rt, Some rt))"

definition set_compute_runtime :: "runtime \<Rightarrow> runtime option \<Rightarrow> runtime option" where
  "set_compute_runtime rt single = Some rt"

definition reset_compute_runtime :: "runtime option \<Rightarrow> runtime option" where
  "reset_compute_runtime single = None"

definition get_metrics :: "MetricsRegistry \<Rightarrow> MetricsRegistry option \<Rightarrow> MetricsRegistry \<times> MetricsRegistry option" where
  "get_metrics new single = (case single of None \<Rightarrow> (new, Some new) | Some m \<Rightarrow> (m, Some m))"

definition reset_metrics :: "MetricsRegistry option \<Rightarrow> MetricsRegistry option \<times> MetricsRegistry option" where
  "reset_metrics single = (map_option registry_reset single, None)"

definition register_state_backend :: "string \<Rightarrow> kv_state \<Rightarrow> kv_state factories \<Rightarrow> kv_state factories" where
  "register_state_backend = register_backend"

definition list_state_backends :: "kv_state factories \<Rightarrow> string list" where
  "list_state_backends = list_backends"

definition register_event_bus_backend ::
    "string \<Rightarrow> ('c, 'e) InMemoryEventBus \<Rightarrow> ('c, 'e) InMemoryEventBus factories \<Rightarrow> ('c, 'e) InMemoryEventBus factories" where
  "register_event_bus_backend = register_backend"

definition list_event_bus_backends :: "('c, 'e) InMemoryEventBus factories \<Rightarrow> string list" where
  "list_event_bus_backends = list_backends"

definition register_compute_runtime :: "string \<Rightarrow> 'f \<Rightarrow> 'f factories \<Rightarrow> 'f factories" where
  "register_compute_runtime = register_backend"

definition list_compute_runtimes :: "'f factories \<Rightarrow> string list" where
  "list_compute_runtimes = list_backends"

section \<open>The tool manager\<close>

definition new_tool_manager :: "tool_registry option \<Rightarrow> ToolManager" where
  "new_tool_manager r = \<lparr>registry = (case r of None \<Rightarrow> [] | Some reg \<Rightarrow> reg), handlers = [], rate_limiter = []\<rparr>"

definition get_tool_manager :: "ToolManager option \<Rightarrow> ToolManager \<times> ToolManager option" where
  "get_tool_manager single =
     (case single of None \<Rightarrow> (let m = new_tool_manager None in (m, Some m)) | Some m \<Rightarrow> (m, Some m))"

definition set_tool_manager :: "ToolManager \<Rightarrow> ToolManager option \<Rightarrow> ToolManager option" where
  "set_tool_manager m single = Some m"

definition reset_tool_manager :: "ToolManager option \<Rightarrow> ToolManager option" where
  "reset_tool_manager single = None"

text \<open>\<open>RateLimiter.wrap\<close>: a token, then the call; \<open>None\<close> is still waiting after \<open>fuel\<close> turns.\<close>

definition rate_limited_call ::
    "nat \<Rightarrow> (nat \<Rightarrow> rat \<times> rat) \<Rightarrow> string \<Rightarrow> int \<Rightarrow> ('a \<Rightarrow> exn + json) \<Rightarrow> 'a \<Rightarrow> buckets \<Rightarrow> ((exn + json) \<times> buckets) option" where
  "rate_limited_call fuel clock key rate fn args bs =
     map_option (\<lambda>(k, bs'). (fn args, bs')) (acquire fuel 0 clock key rate bs)"

text \<open>A fresh manager keeps the invariant of \<open>register_tool\<close>, and knows no tool.\<close>

lemma fresh_tool_manager:
  "manager_ok (fst (get_tool_manager (reset_tool_manager single)))"
  "tool_invoke fuel clock name p (fst (get_tool_manager None)) =
     Some (Inr \<lparr>tir_tool = name, tir_status = ''not_found'', tir_output = JNull, tir_error = Some (''No handler for '' @ py_repr name)\<rparr>,
           fst (get_tool_manager None))"
  by (auto simp: get_tool_manager_def reset_tool_manager_def new_tool_manager_def tool_invoke_def Let_def)

section \<open>A first success is final\<close>

locale singleton_access =
  fixes get :: "'c \<Rightarrow> 's option \<Rightarrow> ('e + 's) \<times> 's option"
  assumes cached: "get c (Some s) = (Inr s, Some s)"
    and kept: "fst (get c None) = Inr s \<Longrightarrow> snd (get c None) = Some s"
    and failed: "fst (get c None) = Inl e \<Longrightarrow> snd (get c None) = None"
begin

lemma success_final:
  assumes "fst (get c x) = Inr s"
  shows "get c' (snd (get c x)) = (Inr s, Some s)"
  using assms kept cached by (cases x) auto

lemma failure_leaves_none: "fst (get c x) = Inl e \<Longrightarrow> x = None \<and> snd (get c x) = None"
  using cached failed by (cases x) auto

text \<open>Whatever the settings of the later calls are, all give the instance of the first success.\<close>

lemma fold_get:
  assumes "fst (get c x) = Inr s"
  shows "fold (\<lambda>c y. snd (get c y)) cs (snd (get c x)) = Some s"
proof -
  have "fold (\<lambda>c y. snd (get c y)) cs (Some s) = Some s" by (induction cs) (simp_all add: cached)
  then show ?thesis using success_final [OF assms, of c] kept cached assms by (cases x) auto
qed

end

interpretation storage_access: singleton_access get_object_store
  by unfold_locales (auto simp: get_object_store_def split: option.splits sum.splits prod.splits)

interpretation state_access: singleton_access get_state_store
  by unfold_locales (auto simp: get_state_store_def Let_def split: option.splits)

interpretation bus_access: singleton_access get_event_bus
  by unfold_locales (auto simp: get_event_bus_def Let_def split: option.splits prod.splits)

text \<open>
  The backend in use never changes by reading settings: after a first successful access, every later
  access, with any environment and registry, gives that store; an access that fails leaves none behind.
\<close>

theorem object_store_fixed_by_first_use:
  "(fst (get_object_store c x) = Inr s \<longrightarrow>
      get_object_store c' (fold (\<lambda>c y. snd (get_object_store c y)) cs (snd (get_object_store c x))) = (Inr s, Some s))
    \<and> (fst (get_object_store c x) = Inl e \<longrightarrow> snd (get_object_store c x) = None)"
  using storage_access.fold_get [of c x s cs] storage_access.cached [of c' s] storage_access.failure_leaves_none [of c x e]
  by auto

theorem object_store_fixed_by_first_use_witness:
  "get_object_store (\<lambda>k. Some ''memory'', [])
     (fold (\<lambda>c y. snd (get_object_store c y)) [(\<lambda>k. None, [])]
       (snd (get_object_store (\<lambda>k. Some ''fs:/data'', STORAGE_BACKENDS) None))) = (Inr (FileStore ''/data''), Some (FileStore ''/data''))"
proof -
  have "fst (get_object_store (\<lambda>k. Some ''fs:/data'', STORAGE_BACKENDS) None) = Inr (FileStore ''/data'')" by code_simp
  then show ?thesis
    using object_store_fixed_by_first_use [of "(\<lambda>k. Some ''fs:/data'', STORAGE_BACKENDS)" None "FileStore ''/data''"] by blast
qed

text \<open>Registering a compute runtime has no effect on the runtime that is used.\<close>

lemma registered_runtime_unused:
  "get_compute_runtime (register_compute_runtime name f r) single = get_compute_runtime r single"
  by (simp add: get_compute_runtime_def)

lemma storage_specifications:
  "fst (get_object_store (\<lambda>k. Some ''memory:'', STORAGE_BACKENDS) None) =
     Inl ''InMemoryObjectStore.__init__() takes 1 positional argument but 2 were given''"
  "fst (get_object_store (\<lambda>k. Some ''s3:b'', STORAGE_BACKENDS) None) =
     Inl (''Storage backend '' @ py_repr ''s3'' @ '' not registered. Available backends: fs, memory.'')"
  by code_simp+

end
