(* ===== verification/Tracing.thy ===== *)
theory Tracing
  imports Compute CoreModels
begin

text \<open>
  Tracing (\<open>intelliqx_observability/tracing.py\<close>), the spans of the compute runtime
  (\<open>intelliqx_compute/runtime.py\<close>), the decorator \<open>traced_agent\<close> (\<open>intelliqx_agents/decorators.py\<close>) and the base
  class's \<open>invoke\<close> (\<open>intelliqx_agents/base.py\<close>).

  The SDK is not in the repository.  A span is the list of the calls that the code makes on it, with the name
  and attributes it is started with; what the SDK makes of them is not modelled.  \<open>py_str\<close> is Python's
  \<open>str\<close> of a value.  A block under a span may return or raise; it may have state, such as the bound run.
\<close>

datatype span_call =
  SetAttribute string json
| AddEvent string "(string, json) dict"
| SetStatusError string
| RecordException exn

record span_log =
  span_name :: string
  span_attrs :: "(string, json) dict"
  span_calls :: "span_call list"

section \<open>The tracer\<close>

definition otel_value :: "(json \<Rightarrow> string) \<Rightarrow> json \<Rightarrow> json" where
  "otel_value py_str v =
     (case v of JStr s \<Rightarrow> v | JInt i \<Rightarrow> v | JFloat x \<Rightarrow> v | JBool b \<Rightarrow> v | _ \<Rightarrow> JStr (py_str v))"

definition otel_attrs :: "(json \<Rightarrow> string) \<Rightarrow> (string, json) dict \<Rightarrow> (string, json) dict" where
  "otel_attrs py_str attrs = map (\<lambda>(k, v). (k, otel_value py_str v)) attrs"

definition proxy_set_attribute :: "(json \<Rightarrow> string) \<Rightarrow> string \<Rightarrow> json \<Rightarrow> span_call list \<Rightarrow> span_call list" where
  "proxy_set_attribute py_str k v cs = cs @ [SetAttribute k (otel_value py_str v)]"

definition proxy_add_event ::
    "(json \<Rightarrow> string) \<Rightarrow> string \<Rightarrow> (string, json) dict \<Rightarrow> span_call list \<Rightarrow> span_call list" where
  "proxy_add_event py_str n attrs cs = cs @ [AddEvent n (otel_attrs py_str attrs)]"

definition proxy_set_status_error :: "string \<Rightarrow> span_call list \<Rightarrow> span_call list" where
  "proxy_set_status_error m cs = cs @ [SetStatusError m, RecordException (OtherException ''RuntimeError'' m)]"

text \<open>
  \<open>with tracer.span(name, **attrs) as span: body\<close>.  A cancellation is no \<open>Exception\<close>: only the
  \<open>finally\<close> sees it.
\<close>

definition tracer_span ::
    "(json \<Rightarrow> string) \<Rightarrow> string \<Rightarrow> (string, json) dict \<Rightarrow> rat
      \<Rightarrow> (span_call list \<Rightarrow> (exn + 'a) \<times> 's \<times> span_call list) \<Rightarrow> (exn + 'a) \<times> 's \<times> span_log" where
  "tracer_span py_str n attrs elapsed body =
     (let (r, s, cs) = body [];
          cs' = (case r of
                   Inr x \<Rightarrow> cs
                 | Inl CancelledError \<Rightarrow> cs
                 | Inl e \<Rightarrow> cs @ [RecordException e, SetStatusError (exn_str e)])
      in (r, s, \<lparr>span_name = n, span_attrs = otel_attrs py_str attrs,
                 span_calls = cs' @ [SetAttribute ''duration_ms'' (JInt (duration_of elapsed))]\<rparr>))"

definition marked_error :: "span_log \<Rightarrow> bool" where
  "marked_error l \<longleftrightarrow> list_ex (\<lambda>c. case c of SetStatusError m \<Rightarrow> True | _ \<Rightarrow> False) (span_calls l)"

lemma tracer_span_transparent:
  "fst (tracer_span py_str n attrs elapsed body) = fst (body [])"
  "fst (snd (tracer_span py_str n attrs elapsed body)) = fst (snd (body []))"
  by (auto simp: tracer_span_def Let_def split: prod.split)

lemma tracer_span_duration:
  "last (span_calls (snd (snd (tracer_span py_str n attrs elapsed body)))) = SetAttribute ''duration_ms'' (JInt (duration_of elapsed))"
  by (simp add: tracer_span_def Let_def split: prod.split)

text \<open>The endpoint of the exporter, if there is one: an argument that is not empty, or else the environment.\<close>

definition configure_tracing ::
    "(string \<Rightarrow> string option) \<Rightarrow> string \<Rightarrow> string option \<Rightarrow> string \<times> string option" where
  "configure_tracing env service_name otlp_endpoint =
     (let endpoint = (case otlp_endpoint of
            None \<Rightarrow> env ''OTEL_EXPORTER_OTLP_ENDPOINT''
          | Some e \<Rightarrow> if e = [] then env ''OTEL_EXPORTER_OTLP_ENDPOINT'' else Some e)
      in (service_name, case endpoint of None \<Rightarrow> None | Some e \<Rightarrow> if e = [] then None else Some e))"

text \<open>The state: the provider that was set, and whether the singleton exists.\<close>

type_synonym tracing_state = "(string \<times> string option) option \<times> bool"

definition new_tracer :: "(string \<Rightarrow> string option) \<Rightarrow> tracing_state \<Rightarrow> tracing_state" where
  "new_tracer env st =
     (if env ''INTELLIQX_OTEL'' = Some ''1'' then (Some (configure_tracing env ''intelliqx'' None), snd st) else st)"

definition get_tracer :: "(string \<Rightarrow> string option) \<Rightarrow> tracing_state \<Rightarrow> tracing_state" where
  "get_tracer env st = (if snd st then st else (fst (new_tracer env st), True))"

definition reset_tracer :: "tracing_state \<Rightarrow> tracing_state" where
  "reset_tracer st = (fst st, False)"

lemma get_tracer_once: "get_tracer env' (get_tracer env st) = get_tracer env st"
  by (simp add: get_tracer_def)

section \<open>The span of an invocation\<close>

text \<open>The block of \<open>InProcessComputeRuntime.invoke\<close>, with its calls on the span.\<close>

definition invoke_span_body ::
    "(json \<Rightarrow> string) \<Rightarrow> runtime \<Rightarrow> rat \<Rightarrow> InvocationRequest \<Rightarrow> RunContext option \<Rightarrow> span_call list
      \<Rightarrow> (exn + InvocationResponse) \<times> RunContext option \<times> span_call list" where
  "invoke_span_body py_str rt elapsed req cur cs =
     (let a = req_agent_name req; d = duration_of elapsed;
          cs1 = proxy_set_attribute py_str ''agent_name'' (JStr a)
                  (proxy_set_attribute py_str ''tenant_id'' (JStr (req_tenant_id req)) cs)
      in case dict_get rt a of
           None \<Rightarrow> (make_response a (JObj []) 0 ''not_found'' (Some (''No handler registered for agent '' @ py_repr a)), cur, cs1)
         | Some handler \<Rightarrow>
             (let (oc, cur') = handler req cur
              in case wait_for oc (req_timeout_seconds req) of
                   Inl (TimeoutError m) \<Rightarrow>
                     (make_response a (JObj []) d ''timeout'' (Some ''Invocation timed out''), cur', proxy_set_status_error ''timeout'' cs1)
                 | Inl CancelledError \<Rightarrow> (Inl CancelledError, cur', cs1)
                 | Inl e \<Rightarrow>
                     (make_response a (JObj []) d ''error'' (Some (exn_type e @ '': '' @ exn_str e)), cur', proxy_set_status_error ''exception'' cs1)
                 | Inr out \<Rightarrow>
                     (make_response a out d ''ok'' None, cur', proxy_set_attribute py_str ''duration_ms'' (JInt d) cs1)))"

text \<open>\<open>with tracer.span(...) as span, bind_run(run_ctx)\<close>; \<open>whole\<close> is the time the span takes.\<close>

definition traced_invoke ::
    "(json \<Rightarrow> string) \<Rightarrow> runtime \<Rightarrow> rat \<Rightarrow> rat \<Rightarrow> InvocationRequest \<Rightarrow> RunContext option
      \<Rightarrow> (exn + InvocationResponse) \<times> RunContext option \<times> span_log" where
  "traced_invoke py_str rt elapsed whole req cur =
     tracer_span py_str (''agent.'' @ req_agent_name req @ ''.invoke'') [] whole
       (\<lambda>cs. let (r, inner, cs') = invoke_span_body py_str rt elapsed req (Some (run_context_of req)) cs in (r, cur, cs'))"

lemma invoke_span_body_equiv:
  "(fst (invoke_span_body py_str rt elapsed req cur cs), fst (snd (invoke_span_body py_str rt elapsed req cur cs)))
     = invoke_body rt elapsed req cur"
  by (auto simp: invoke_span_body_def invoke_body_def Let_def split: option.split prod.split sum.split exn.split)

lemma traced_invoke_result: "fst (traced_invoke py_str rt elapsed whole req cur) = fst (invoke rt elapsed req cur)"
  using invoke_span_body_equiv [of py_str rt elapsed req "Some (run_context_of req)" "[]"]
  by (auto simp: traced_invoke_def tracer_span_transparent invoke_def bind_run_def split: prod.split)

lemma make_response_cases:
  "make_response a out d st err = Inl (OtherException ''ValidationError'' ''output'') \<or>
   (\<exists>r. make_response a out d st err = Inr r \<and> resp_status r = st)"
  by (cases out) (simp_all add: make_response_def)

text \<open>
  C39: an invocation with its span gives the same answer and bound run as without; the span is named after
  the agent, is marked as an error exactly when the answer is a timeout, an error or an exception other than
  a cancellation (not when the agent is not found), and the last call on it sets the duration.
\<close>

theorem traced_invoke_spec:
  "fst (traced_invoke py_str rt elapsed whole req cur) = fst (invoke rt elapsed req cur)
    \<and> fst (snd (traced_invoke py_str rt elapsed whole req cur)) = snd (invoke rt elapsed req cur)
    \<and> span_name (snd (snd (traced_invoke py_str rt elapsed whole req cur))) = ''agent.'' @ req_agent_name req @ ''.invoke''
    \<and> (marked_error (snd (snd (traced_invoke py_str rt elapsed whole req cur))) \<longleftrightarrow>
        (case fst (invoke rt elapsed req cur) of
           Inr r \<Rightarrow> resp_status r = ''timeout'' \<or> resp_status r = ''error''
         | Inl e \<Rightarrow> e \<noteq> CancelledError))
    \<and> last (span_calls (snd (snd (traced_invoke py_str rt elapsed whole req cur)))) = SetAttribute ''duration_ms'' (JInt (duration_of whole))"
proof (intro conjI)
  let ?t = "traced_invoke py_str rt elapsed whole req cur"
  show res: "fst ?t = fst (invoke rt elapsed req cur)" by (rule traced_invoke_result)
  show "fst (snd ?t) = snd (invoke rt elapsed req cur)"
    by (simp add: traced_invoke_def tracer_span_transparent invoke_context split: prod.split)
  show "span_name (snd (snd ?t)) = ''agent.'' @ req_agent_name req @ ''.invoke''"
    by (simp add: traced_invoke_def tracer_span_def Let_def split: prod.split)
  show "last (span_calls (snd (snd ?t))) = SetAttribute ''duration_ms'' (JInt (duration_of whole))"
    by (simp add: traced_invoke_def tracer_span_duration)
  show "marked_error (snd (snd ?t)) \<longleftrightarrow>
        (case fst (invoke rt elapsed req cur) of
           Inr r \<Rightarrow> resp_status r = ''timeout'' \<or> resp_status r = ''error''
         | Inl e \<Rightarrow> e \<noteq> CancelledError)"
    unfolding res [symmetric]
    by (auto simp: traced_invoke_def tracer_span_def invoke_span_body_def marked_error_def make_response_def
        proxy_set_attribute_def proxy_set_status_error_def Let_def
        split: option.split prod.split sum.split exn.split json.split)
qed

end
