(* ===== verification/AgentBase.thy ===== *)
theory AgentBase
  imports Tracing Agents Service
begin

text \<open>
  The base class of the agents (\<open>intelliqx_agents/base.py\<close>), the decorator \<open>traced_agent\<close>
  (\<open>intelliqx_agents/decorators.py\<close>) and the worker's span (\<open>intelliqx_service/app.py\<close>).

  What a subclass supplies is a record: its input model as the validation of a JSON value, whether it declares an
  output model, \<open>run\<close>, and the dump of an output.  Like a handler, \<open>run\<close> takes time and sees the bound run.
\<close>

record AgentContext =
  act_tenant :: TenantContext
  act_run_id :: string
  act_trace_id :: "string option"

record ('i, 'o) agent_class =
  ag_class_name :: string
  ag_meta :: AgentMeta
  ag_input_model :: "(json \<Rightarrow> exn + 'i) option"
  ag_output_model :: bool
  ag_run :: "AgentContext \<Rightarrow> 'i \<Rightarrow> RunContext option \<Rightarrow> (rat option \<times> (exn + 'o)) \<times> RunContext option"
  ag_dump :: "'o \<Rightarrow> json"

section \<open>invoke\<close>

text \<open>\<open>TenantContext\<close> and \<open>AgentContext\<close> take texts; \<open>None\<close> is allowed for the trace id only.\<close>

definition context_of :: "InvocationRequest \<Rightarrow> exn + AgentContext" where
  "context_of req =
     (let trace = (case metadata_get ''trace_id'' req of
            None \<Rightarrow> Inr None | Some JNull \<Rightarrow> Inr None | Some (JStr s) \<Rightarrow> Inr (Some s)
          | Some _ \<Rightarrow> Inl (OtherException ''ValidationError'' ''trace_id''));
          run = (case metadata_get ''run_id'' req of
            None \<Rightarrow> Inr ''unknown'' | Some (JStr s) \<Rightarrow> Inr s
          | Some _ \<Rightarrow> Inl (OtherException ''ValidationError'' ''run_id''))
      in case trace of
           Inl e \<Rightarrow> Inl e
         | Inr t \<Rightarrow> (case run of
             Inl e \<Rightarrow> Inl e
           | Inr r \<Rightarrow> Inr \<lparr>act_tenant = \<lparr>tc_tenant_id = req_tenant_id req, tc_user_id = None, tc_roles = [], tc_trace_id = t\<rparr>,
                          act_run_id = r, act_trace_id = None\<rparr>))"

definition agent_invoke :: "('i, 'o) agent_class \<Rightarrow> agent_callable" where
  "agent_invoke ag req cur =
     (case ag_input_model ag of
        Some validate \<Rightarrow>
          if ag_output_model ag
          then (case validate (req_input req) of
                  Inl e \<Rightarrow> (\<lparr>run_time = Some 0, ends_with = Inl e\<rparr>, cur)
                | Inr inp \<Rightarrow>
                    (case context_of req of
                       Inl e \<Rightarrow> (\<lparr>run_time = Some 0, ends_with = Inl e\<rparr>, cur)
                     | Inr ctx \<Rightarrow>
                         (let ((t, out), cur') = ag_run ag ctx inp cur
                          in (\<lparr>run_time = t, ends_with = map_sum id (ag_dump ag) out\<rparr>, cur'))))
          else (\<lparr>run_time = Some 0, ends_with =
                  Inl (OtherException ''RuntimeError'' (ag_class_name ag @ '' must declare INPUT_MODEL and OUTPUT_MODEL''))\<rparr>, cur)
      | None \<Rightarrow> (\<lparr>run_time = Some 0, ends_with =
                  Inl (OtherException ''RuntimeError'' (ag_class_name ag @ '' must declare INPUT_MODEL and OUTPUT_MODEL''))\<rparr>, cur))"

definition capability :: "('i, 'o) agent_class \<Rightarrow> AgentCapability" where
  "capability ag =
     \<lparr>cap_name = am_name (ag_meta ag), cap_description = am_description (ag_meta ag), cap_input_schema = [],
      cap_output_schema = [], cost_ceiling_usd = None, latency_sla_ms = None\<rparr>"

section \<open>The decorator and the worker's span\<close>

definition traced_agent ::
    "(json \<Rightarrow> string) \<Rightarrow> string option \<Rightarrow> string \<Rightarrow> rat \<Rightarrow> (AgentContext \<Rightarrow> 'i \<Rightarrow> 's \<Rightarrow> (exn + 'o) \<times> 's)
      \<Rightarrow> AgentContext \<Rightarrow> 'i \<Rightarrow> 's \<Rightarrow> (exn + 'o) \<times> 's \<times> span_log" where
  "traced_agent py_str n qualname elapsed fn ctx inp s =
     (let agent_name = (case n of None \<Rightarrow> qualname | Some x \<Rightarrow> if x = [] then qualname else x)
      in tracer_span py_str (''agent.'' @ agent_name @ ''.run'') [] elapsed
           (\<lambda>cs. let cs1 = proxy_set_attribute py_str ''run_id'' (JStr (act_run_id ctx))
                           (proxy_set_attribute py_str ''tenant_id'' (JStr (tc_tenant_id (act_tenant ctx))) cs);
                     (r, s') = fn ctx inp s
                 in (r, s', cs1)))"

text \<open>Decorating \<open>run\<close> changes neither its result nor its effect.\<close>

lemma traced_agent_transparent:
  "(let (r, s', l) = traced_agent py_str n qualname elapsed fn ctx inp s in (r, s')) = fn ctx inp s"
  by (auto simp: traced_agent_def tracer_span_def Let_def split: prod.split)

definition tag_run_span :: "(json \<Rightarrow> string) \<Rightarrow> claim \<Rightarrow> span_call list \<Rightarrow> span_call list" where
  "tag_run_span py_str c cs =
     (case c of (rid, nm, inp, tenant, attempt) \<Rightarrow>
        proxy_set_attribute py_str ''attempt'' (JInt attempt)
          (proxy_set_attribute py_str ''agent_name'' (JStr nm)
            (proxy_set_attribute py_str ''tenant_id'' (JStr tenant)
              (proxy_set_attribute py_str ''run_id'' (JStr rid) cs))))"

section \<open>An agent under the runtime\<close>

lemma handler_result_agent:
  assumes "dict_get rt (req_agent_name req) = Some (agent_invoke ag)"
  shows "handler_result rt req =
    Some (wait_for (fst (agent_invoke ag req (Some (run_context_of req)))) (req_timeout_seconds req))"
  using assms by (simp add: handler_result_def)

definition service_context :: "string \<Rightarrow> string \<Rightarrow> AgentContext" where
  "service_context rid tenant =
     \<lparr>act_tenant = \<lparr>tc_tenant_id = tenant, tc_user_id = None, tc_roles = [], tc_trace_id = None\<rparr>,
      act_run_id = rid, act_trace_id = None\<rparr>"

lemma service_context: "context_of (build_invocation_request (rid, nm, input, tenant, attempt)) = Inr (service_context rid tenant)"
  by (simp add: context_of_def metadata_get_def build_invocation_request_def service_context_def)

lemma invoke_agent:
  assumes "dict_get rt (req_agent_name req) = Some (agent_invoke ag)" "ag_input_model ag = Some validate" "ag_output_model ag"
    and "context_of req = Inr ctx"
  shows "handler_result rt req = Some (
    case validate (req_input req) of
      Inl e \<Rightarrow> wait_for \<lparr>run_time = Some 0, ends_with = Inl e\<rparr> (req_timeout_seconds req)
    | Inr inp \<Rightarrow> (case fst (ag_run ag ctx inp (Some (run_context_of req))) of
        (t, out) \<Rightarrow> wait_for \<lparr>run_time = t, ends_with = map_sum id (ag_dump ag) out\<rparr> (req_timeout_seconds req)))"
  using assms by (simp add: handler_result_agent agent_invoke_def split: sum.split prod.split)

abbreviation answer :: "string \<Rightarrow> rat \<Rightarrow> string \<Rightarrow> json \<Rightarrow> string option \<Rightarrow> InvocationResponse" where
  "answer nm elapsed st out err \<equiv>
     \<lparr>resp_agent_name = nm, resp_output = out, resp_duration_ms = duration_of elapsed, resp_status = st, resp_error = err\<rparr>"

text \<open>
  C37: a run of the service whose agent is registered through the base class: the agent's \<open>run\<close> gets the
  validated input and a context with the run's id and tenant; its output, dumped, is the answer with status
  \<open>ok\<close> if it comes within 300 seconds; an input that does not validate, or an error of \<open>run\<close>, is an answer
  with status \<open>error\<close> and the exception's text.
\<close>

theorem service_run_reaches_agent:
  assumes "dict_get rt nm = Some (agent_invoke ag)" "ag_input_model ag = Some validate" "ag_output_model ag"
    and "\<And>out. is_object (ag_dump ag out)"
    and req: "req = build_invocation_request (rid, nm, input, tenant, attempt)"
  shows "(\<forall>inp t out cur'. validate input = Inr inp \<and> t < 300 \<and>
        ag_run ag (service_context rid tenant) inp (Some (run_context_of req)) = ((Some t, Inr out), cur') \<longrightarrow>
        fst (invoke rt elapsed req cur) = Inr (answer nm elapsed ''ok'' (ag_dump ag out) None))
    \<and> (\<forall>inp t ty m cur'. validate input = Inr inp \<and> t < 300 \<and>
        ag_run ag (service_context rid tenant) inp (Some (run_context_of req)) = ((Some t, Inl (OtherException ty m)), cur') \<longrightarrow>
        fst (invoke rt elapsed req cur) = Inr (answer nm elapsed ''error'' (JObj []) (Some (ty @ '': '' @ m))))
    \<and> (\<forall>ty m. validate input = Inl (OtherException ty m) \<longrightarrow>
        fst (invoke rt elapsed req cur) = Inr (answer nm elapsed ''error'' (JObj []) (Some (ty @ '': '' @ m))))"
proof -
  have r: "req_agent_name req = nm" "req_input req = input" "req_timeout_seconds req = 300"
    "context_of req = Inr (service_context rid tenant)"
    using service_context [of rid nm input tenant attempt] unfolding req
    by (simp_all add: build_invocation_request_def)
  have "dict_get rt (req_agent_name req) = Some (agent_invoke ag)" using assms(1) r(1) by simp
  note hr = invoke_agent [OF this assms(2,3) r(4)]
  note obj = make_response_obj [OF assms(4)] make_response_obj [OF is_object_JObj]
  show ?thesis by (auto simp: invoke_result hr r wait_for_def Let_def obj)
qed

definition echo_agent :: "(json, json) agent_class" where
  "echo_agent =
     \<lparr>ag_class_name = ''Echo'',
      ag_meta = \<lparr>am_name = ''echo'', am_category = Coordination, am_version = ''0.1.0'', am_description = [], am_capabilities = []\<rparr>,
      ag_input_model = Some (\<lambda>j. case j of JObj [] \<Rightarrow> Inl (OtherException ''ValidationError'' ''field required'') | _ \<Rightarrow> Inr j),
      ag_output_model = True,
      ag_run = (\<lambda>ctx inp cur. ((Some 1, Inr (JStr (act_run_id ctx))), cur)),
      ag_dump = (\<lambda>out. JObj [(''value'', out)])\<rparr>"

theorem service_run_reaches_agent_witness:
  "fst (invoke [(''echo'', agent_invoke echo_agent)] 1
      (build_invocation_request (''r1'', ''echo'', JObj [(''q'', JInt 1)], ''acme'', 0)) None)
    = Inr (answer ''echo'' 1 ''ok'' (JObj [(''value'', JStr ''r1'')]) None)"
proof -
  have dump: "is_object (ag_dump echo_agent out)" for out by (simp add: echo_agent_def)
  have validate: "ag_input_model echo_agent =
      Some (\<lambda>j. case j of JObj [] \<Rightarrow> Inl (OtherException ''ValidationError'' ''field required'') | _ \<Rightarrow> Inr j)"
    by (simp add: echo_agent_def)
  have "ag_output_model echo_agent" by (simp add: echo_agent_def)
  from service_run_reaches_agent [where rt = "[(''echo'', agent_invoke echo_agent)]" and nm = "''echo''" and elapsed = 1
      and rid = "''r1''" and input = "JObj [(''q'', JInt 1)]" and tenant = "''acme''" and attempt = 0 and cur = None,
      OF _ validate this dump refl]
  show ?thesis by (simp add: echo_agent_def service_context_def)
qed

end
