(* ===== verification/AiEmbed.thy ===== *)
theory AiEmbed
  imports Agents OkfIndex
begin

text \<open>
  Embedding over HTTP (\<open>intelliqx_ai/runtime.py\<close>: \<open>OpenAIHTTPEmbeddings\<close>, \<open>build_embedder\<close>) and its adapter
  to the search index (\<open>intelliqx_okf/llm_embed.py\<close>).

  \<open>http\<close> is the exchange: the address, the authorization header and the body give an error or the JSON
  value of a successful response.  Reading \<open>data\<close> and \<open>embedding\<close> out of it is written out; a vector's
  entries are numbers.
\<close>

section \<open>The HTTP model\<close>

type_synonym http = "string \<Rightarrow> string \<Rightarrow> json \<Rightarrow> exn + json"

record OpenAIHTTPEmbeddings =
  he_model_name :: string
  he_base_url :: string
  he_api_key :: string

text \<open>\<open>.rstrip("/")\<close>\<close>

definition rstrip_slash :: "string \<Rightarrow> string" where
  "rstrip_slash s = rev (dropWhile (\<lambda>c. c = CHR ''/'') (rev s))"

definition or_env :: "string option \<Rightarrow> string option \<Rightarrow> string" where
  "or_env x y = (case x of Some (c # cs) \<Rightarrow> c # cs | _ \<Rightarrow> (case y of None \<Rightarrow> [] | Some s \<Rightarrow> s))"

definition new_embeddings ::
    "(string \<Rightarrow> string option) \<Rightarrow> string \<Rightarrow> string option \<Rightarrow> exn + OpenAIHTTPEmbeddings" where
  "new_embeddings env model base =
     (case read_api_key env of
        Inl e \<Rightarrow> Inl e
      | Inr k \<Rightarrow> Inr \<lparr>he_model_name = model, he_base_url = rstrip_slash (or_env base (env BASE_URL_ENV)), he_api_key = k\<rparr>)"

definition build_embedder :: "(string \<Rightarrow> string option) \<Rightarrow> string option \<Rightarrow> exn + OpenAIHTTPEmbeddings" where
  "build_embedder env model =
     new_embeddings env (case model of Some (c # cs) \<Rightarrow> c # cs
        | _ \<Rightarrow> (case env ''INTELLIQX_EMBEDDING_MODEL'' of None \<Rightarrow> ''text-embedding-3-small'' | Some m \<Rightarrow> m)) None"

fun number_of :: "json \<Rightarrow> exn + rat" where
  "number_of (JInt i) = Inr (of_int i)"
| "number_of (JFloat x) = Inr x"
| "number_of j = Inl (OtherException ''TypeError'' ''embedding'')"

fun all_of :: "('a \<Rightarrow> exn + 'b) \<Rightarrow> 'a list \<Rightarrow> exn + 'b list" where
  "all_of f [] = Inr []"
| "all_of f (x # xs) =
     (case f x of Inl e \<Rightarrow> Inl e | Inr y \<Rightarrow> (case all_of f xs of Inl e \<Rightarrow> Inl e | Inr ys \<Rightarrow> Inr (y # ys)))"

definition member :: "string \<Rightarrow> json \<Rightarrow> exn + json" where
  "member k j =
     (case j of
        JObj kvs \<Rightarrow> (case dict_get kvs k of None \<Rightarrow> Inl (OtherException ''KeyError'' (py_repr k)) | Some v \<Rightarrow> Inr v)
      | _ \<Rightarrow> Inl (OtherException ''TypeError'' k))"

fun elements :: "json \<Rightarrow> exn + json list" where
  "elements (JArr js) = Inr js"
| "elements j = Inl (OtherException ''TypeError'' ''not iterable'')"

fun bind_exn :: "exn + 'a \<Rightarrow> ('a \<Rightarrow> exn + 'b) \<Rightarrow> exn + 'b" where
  "bind_exn (Inl e) f = Inl e"
| "bind_exn (Inr x) f = f x"

definition client_post :: "http \<Rightarrow> OpenAIHTTPEmbeddings \<Rightarrow> string \<Rightarrow> json \<Rightarrow> exn + json list" where
  "client_post http m path body =
     (if he_base_url m = [] then Inl (OtherException ''RuntimeError'' (BASE_URL_ENV @ '' is required to call the OpenAI embeddings endpoint.''))
      else bind_exn (http (he_base_url m @ ''/'' @ path) (''Bearer '' @ he_api_key m) body) (\<lambda>response.
           bind_exn (member ''data'' response) (\<lambda>data. bind_exn (elements data) (all_of (member ''embedding'')))))"

text \<open>\<open>[inputs] if isinstance(inputs, str) else list(inputs)\<close>: a text is the left side.\<close>

definition input_texts :: "string + string list \<Rightarrow> string list" where
  "input_texts inputs = (case inputs of Inl s \<Rightarrow> [s] | Inr ss \<Rightarrow> ss)"

definition http_embed :: "http \<Rightarrow> OpenAIHTTPEmbeddings \<Rightarrow> string + string list \<Rightarrow> exn + rat list list" where
  "http_embed http m inputs =
     bind_exn (client_post http m ''embeddings''
         (JObj [(''model'', JStr (he_model_name m)), (''input'', JArr (map JStr (input_texts inputs)))]))
       (all_of (\<lambda>v. bind_exn (elements v) (all_of number_of)))"

definition count_tokens :: "string \<Rightarrow> nat" where
  "count_tokens text = max 1 (length (py_words [] text))"

definition prepare_embed :: "string + string list \<Rightarrow> 'settings \<Rightarrow> string list \<times> 'settings" where
  "prepare_embed inputs settings = (input_texts inputs, settings)"

text \<open>\<open>_parse_int\<close>: blank is the default, and anything else must be an integer.\<close>

definition parse_int_setting :: "string option \<Rightarrow> int \<Rightarrow> exn + int" where
  "parse_int_setting raw dflt =
     (case raw of
        None \<Rightarrow> Inr dflt
      | Some r \<Rightarrow> if py_strip r = [] then Inr dflt
                  else (case py_int r of
                          None \<Rightarrow> Inl (OtherException ''ValueError'' (''expected integer, got '' @ py_repr r))
                        | Some i \<Rightarrow> Inr i))"

section \<open>What is sent\<close>

lemma rstrip_slash_clean: "rstrip_slash s = [] \<or> last (rstrip_slash s) \<noteq> CHR ''/''"
proof (cases "dropWhile (\<lambda>c. c = CHR ''/'') (rev s)")
  case (Cons c cs)
  then have "c \<noteq> CHR ''/''" using hd_dropWhile [of "\<lambda>c. c = CHR ''/''" "rev s"] by auto
  then show ?thesis by (simp add: rstrip_slash_def Cons)
qed (simp add: rstrip_slash_def)

lemma all_of_length: "all_of f xs = Inr ys \<Longrightarrow> length ys = length xs"
  by (induction xs arbitrary: ys) (auto split: sum.splits)

text \<open>
  A response with one object for each text, each with a vector of numbers, gives these vectors; the
  request goes to \<open>embeddings\<close> right below the base address.
\<close>

lemma http_embed_vectors:
  assumes "he_base_url m \<noteq> []"
    and "http (he_base_url m @ ''/embeddings'') (''Bearer '' @ he_api_key m)
       (JObj [(''model'', JStr (he_model_name m)), (''input'', JArr (map JStr (input_texts inputs)))])
     = Inr (JObj [(''data'', JArr (map (\<lambda>v. JObj [(''embedding'', JArr (map JFloat v))]) vs))])"
  shows "http_embed http m inputs = Inr vs"
proof -
  have floats: "all_of number_of (map JFloat v) = Inr v" for v by (induction v) simp_all
  have "all_of (member ''embedding'') (map (\<lambda>v. JObj [(''embedding'', JArr (map JFloat v))]) ws) = Inr (map (\<lambda>v. JArr (map JFloat v)) ws)" for ws
    by (induction ws) (simp_all add: member_def)
  moreover have "all_of (\<lambda>v. bind_exn (elements v) (all_of number_of)) (map (\<lambda>v. JArr (map JFloat v)) ws) = Inr ws" for ws
    by (induction ws) (simp_all add: floats)
  ultimately show ?thesis using assms by (simp add: http_embed_def client_post_def member_def)
qed

section \<open>The adapter\<close>

text \<open>
  A model as the adapter sees it: the attribute \<open>dimensions\<close>, if it has one, and the vectors of a call.
  \<open>OpenAIHTTPEmbeddings\<close> has no such attribute.
\<close>

record embedding_model =
  em_dimensions :: "int option"
  em_embed :: "string \<Rightarrow> exn + rat list list"

record PydaxisAIEmbedder =
  pa_name :: string
  pa_dim :: int
  pa_model :: embedding_model

definition new_adapter :: "embedding_model \<Rightarrow> string \<Rightarrow> PydaxisAIEmbedder" where
  "new_adapter m n =
     \<lparr>pa_name = n, pa_dim = (case em_dimensions m of None \<Rightarrow> 0 | Some d \<Rightarrow> d), pa_model = m\<rparr>"

definition http_model :: "http \<Rightarrow> OpenAIHTTPEmbeddings \<Rightarrow> embedding_model" where
  "http_model http m = \<lparr>em_dimensions = None, em_embed = (\<lambda>t. http_embed http m (Inl t))\<rparr>"

definition from_default :: "(string \<Rightarrow> string option) \<Rightarrow> http \<Rightarrow> exn + PydaxisAIEmbedder" where
  "from_default env http =
     (case build_embedder env None of Inl e \<Rightarrow> Inl e | Inr m \<Rightarrow> Inr (new_adapter (http_model http m) ''pydaxis-ai''))"

text \<open>\<open>list(result.embeddings[0])\<close>\<close>

definition first_vector :: "exn + rat list list \<Rightarrow> exn + rat list" where
  "first_vector r = bind_exn r (\<lambda>vs. case vs of [] \<Rightarrow> Inl (OtherException ''IndexError'' ''list index out of range'') | v # _ \<Rightarrow> Inr v)"

text \<open>
  \<open>embed\<close> by the thread that has an event loop: the coroutine is put into the loop's queue and the
  thread waits for its future.  A loop runs a queued coroutine only when its thread is back in the loop.
\<close>

datatype thread = InLoop | WaitingFor nat | Returned "exn + rat list"

record event_loop =
  el_thread :: thread
  el_ready :: "(nat \<times> (exn + rat list list)) list"
  el_done :: "(nat \<times> (exn + rat list list)) list"

definition call_embed :: "PydaxisAIEmbedder \<Rightarrow> string \<Rightarrow> nat \<Rightarrow> event_loop \<Rightarrow> event_loop" where
  "call_embed p text fut l =
     l\<lparr>el_thread := WaitingFor fut, el_ready := el_ready l @ [(fut, em_embed (pa_model p) text)]\<rparr>"

inductive loop_step :: "event_loop \<Rightarrow> event_loop \<Rightarrow> bool" where
  run_ready: "el_thread l = InLoop \<Longrightarrow> el_ready l = (f, r) # rest \<Longrightarrow>
    loop_step l (l\<lparr>el_ready := rest, el_done := (f, r) # el_done l\<rparr>)"
| future_result: "el_thread l = WaitingFor f \<Longrightarrow> dict_get (el_done l) f = Some r \<Longrightarrow>
    loop_step l (l\<lparr>el_thread := Returned (first_vector r)\<rparr>)"

inductive_cases loop_stepE: "loop_step l l'"

text \<open>Without a running loop the coroutine is run to its end.\<close>

definition embed_without_loop :: "PydaxisAIEmbedder \<Rightarrow> string \<Rightarrow> exn + rat list" where
  "embed_without_loop p text = first_vector (em_embed (pa_model p) text)"

text \<open>
  Calling \<open>embed\<close> in the thread of a running event loop never returns: from the state after the call
  no step is possible, for a future that is not done yet.
\<close>

theorem embed_in_loop_deadlocks:
  assumes "dict_get (el_done l) fut = None" "loop_step\<^sup>*\<^sup>* (call_embed p text fut l) l'"
  shows "l' = call_embed p text fut l \<and> (\<forall>r. el_thread l' \<noteq> Returned r) \<and> (\<nexists>l''. loop_step l' l'')"
proof -
  have stuck: "\<not> loop_step (call_embed p text fut l) l''" for l''
    using assms(1) by (auto simp: call_embed_def elim!: loop_stepE)
  then have "l' = call_embed p text fut l" using assms(2) by (auto elim: converse_rtranclpE)
  then show ?thesis using stuck by (simp add: call_embed_def)
qed

definition demo_loop :: event_loop where
  "demo_loop = \<lparr>el_thread = InLoop, el_ready = [], el_done = []\<rparr>"

definition demo_adapter :: PydaxisAIEmbedder where
  "demo_adapter = new_adapter \<lparr>em_dimensions = Some 2, em_embed = (\<lambda>t. Inr [[1, 0]])\<rparr> ''demo''"

theorem embed_in_loop_deadlocks_witness:
  "embed_without_loop demo_adapter ''text'' = Inr [1, 0]
    \<and> \<not> (\<exists>l''. loop_step (call_embed demo_adapter ''text'' 7 demo_loop) l'')"
proof
  show "embed_without_loop demo_adapter ''text'' = Inr [1, 0]"
    by (simp add: embed_without_loop_def demo_adapter_def new_adapter_def first_vector_def)
  show "\<not> (\<exists>l''. loop_step (call_embed demo_adapter ''text'' 7 demo_loop) l'')"
    using embed_in_loop_deadlocks [of demo_loop 7 demo_adapter "''text''" "call_embed demo_adapter ''text'' 7 demo_loop"]
    by (simp add: demo_loop_def)
qed

text \<open>
  With the default embedder the index has dimension 0, so writing a concept that has any text fails
  for every vector the service answers with, unless it is empty.
\<close>

theorem default_embedder_rejects_writes:
  assumes "from_default env http = Inr p" "open_db (pa_name p) (nat (pa_dim p)) db = Inr ix"
    and "embed_text c \<noteq> []" "embed_without_loop p (embed_text c) = Inr v" "v \<noteq> []"
  shows "index_write (\<lambda>t. case embed_without_loop p t of Inr w \<Rightarrow> w | Inl e \<Rightarrow> []) ix c = Inl (DimensionError 0 (length v))"
proof -
  have "pa_dim p = 0"
    using assms(1) by (auto simp: from_default_def new_adapter_def http_model_def split: sum.splits)
  then have "embed_dim ix = 0" using assms(2) by (auto simp: open_db_def split: option.splits if_splits)
  then show ?thesis using assms(3-5) by (simp add: index_write_def Let_def)
qed

definition demo_env :: "string \<Rightarrow> string option" where
  "demo_env k = (if k = API_KEY_ENV then Some ''key'' else if k = BASE_URL_ENV then Some ''http://host/v1/'' else None)"

definition demo_http :: http where
  "demo_http url auth body =
     (if url = ''http://host/v1/embeddings'' \<and> auth = ''Bearer key''
      then Inr (JObj [(''data'', JArr [JObj [(''embedding'', JArr [JInt 1, JFloat (1 / 2)])]])])
      else Inl (OtherException ''HTTPStatusError'' ''404''))"

theorem default_embedder_rejects_writes_witness:
  "\<exists>p ix. from_default demo_env demo_http = Inr p
    \<and> open_db (pa_name p) (nat (pa_dim p)) (empty_index [] 0) = Inr ix
    \<and> index_write (\<lambda>t. case embed_without_loop p t of Inr w \<Rightarrow> w | Inl e \<Rightarrow> []) ix (demo_concept ''a'' ''red'')
        = Inl (DimensionError 0 2)"
proof -
  define m where "m = \<lparr>he_model_name = ''text-embedding-3-small'', he_base_url = ''http://host/v1'', he_api_key = ''key''\<rparr>"
  define p where "p = new_adapter (http_model demo_http m) ''pydaxis-ai''"
  have "build_embedder demo_env None = Inr m" unfolding m_def by code_simp
  then have p: "from_default demo_env demo_http = Inr p" by (simp add: from_default_def p_def)
  obtain ix where ix: "open_db (pa_name p) (nat (pa_dim p)) (empty_index [] 0) = Inr ix"
    by (simp add: open_db_def empty_index_def)
  have "http_embed demo_http m (Inl (embed_text (demo_concept ''a'' ''red''))) = Inr [[1, 1 / 2]]"
    unfolding m_def by code_simp
  then have v: "embed_without_loop p (embed_text (demo_concept ''a'' ''red'')) = Inr [1, 1 / 2]"
    by (simp add: embed_without_loop_def p_def new_adapter_def http_model_def first_vector_def)
  have t: "embed_text (demo_concept ''a'' ''red'') \<noteq> []" by code_simp
  from default_embedder_rejects_writes [OF p ix t v] p ix show ?thesis by auto
qed

section \<open>Opening the index of the application\<close>

text \<open>\<open>open_index\<close> on a connection it makes: with the embedder given, a name and a dimension, or else the default one.\<close>

definition open_index ::
    "(string \<Rightarrow> string option) \<Rightarrow> http \<Rightarrow> (nat \<Rightarrow> bool) \<Rightarrow> string option \<Rightarrow> (string \<Rightarrow> bool) \<Rightarrow> (string \<times> nat) option \<Rightarrow> Index
      \<Rightarrow> (exn + open_error + unit) \<times> okf_conn" where
  "open_index env http vec0 lib loads embedder db =
     (let c = \<lparr>conn_db = db, vec_dim = None, ext_enabled = False, ext_loaded = None, owns = True, conn_closed = False\<rparr>
      in case embedder of
           Some (nm, d) \<Rightarrow> (let (r, c') = index_init vec0 lib loads nm d c in (Inr r, c'))
         | None \<Rightarrow>
             (case from_default env http of
                Inl e \<Rightarrow> (Inl e, c)
              | Inr p \<Rightarrow> (let (r, c') = index_init vec0 lib loads (pa_name p) (nat (pa_dim p)) c in (Inr r, c'))))"

text \<open>With the default embedder the vector table is declared with dimension 0, if the extension takes it at all.\<close>

lemma open_index_default:
  assumes "open_index env http vec0 lib loads None db = (Inr (Inr ()), c)"
  shows "vec_dim c = Some 0 \<and> embed_dim (conn_db c) = 0 \<and> vec0 0"
  using assms
  by (auto simp: open_index_def from_default_def new_adapter_def http_model_def index_init_def load_extension_def
      init_vector_column_def open_db_def Let_def split: sum.splits prod.splits option.splits if_splits)

lemma open_index_needs_key:
  assumes "env API_KEY_ENV = None"
  shows "\<exists>m. fst (open_index env http vec0 lib loads None db) = Inl (OtherException ''RuntimeError'' m)"
  using assms by (auto simp: open_index_def from_default_def build_embedder_def new_embeddings_def read_api_key_def)

end
