(* ===== verification/JsonCodec.thy ===== *)
theory JsonCodec
  imports ObjectStore "HOL-Library.Monad_Syntax"
begin

text \<open>
  Pydantic models as JSON values.  \<open>model_dump(mode="json")\<close> writes a model as an object with its fields in
  declaration order, an enum as its value; \<open>model_validate\<close> reads one.

  The readers write out what the models rely on: a value of the type of the field is taken as it is, a missing
  field gets its default or is an error, a field that the model does not have is an error (\<open>extra="forbid"\<close>).  The
  conversions from values of other types (a number in a string, say) are the parameter \<open>lax\<close>.  A reader gives
  \<open>None\<close> for pydantic's \<open>ValidationError\<close>.
\<close>

section \<open>Readers\<close>

record lax =
  lax_int :: "json \<Rightarrow> int option"
  lax_float :: "json \<Rightarrow> rat option"
  lax_bool :: "json \<Rightarrow> bool option"
  lax_time :: "json \<Rightarrow> bool"

text \<open>No conversions at all: values of other types are errors.\<close>

definition strict :: lax where
  "strict = \<lparr>lax_int = (\<lambda>_. None), lax_float = (\<lambda>_. None), lax_bool = (\<lambda>_. None), lax_time = (\<lambda>_. False)\<rparr>"

type_synonym 'a reader = "json \<Rightarrow> 'a option"

fun read_str :: "string reader" where
  "read_str (JStr s) = Some s"
| "read_str j = None"

fun read_int :: "lax \<Rightarrow> int reader" where
  "read_int lx (JInt i) = Some i"
| "read_int lx j = lax_int lx j"

fun read_float :: "lax \<Rightarrow> rat reader" where
  "read_float lx (JFloat x) = Some x"
| "read_float lx (JInt i) = Some (of_int i)"
| "read_float lx j = lax_float lx j"

fun read_bool :: "lax \<Rightarrow> bool reader" where
  "read_bool lx (JBool b) = Some b"
| "read_bool lx j = lax_bool lx j"

fun read_opt :: "'a reader \<Rightarrow> 'a option reader" where
  "read_opt r JNull = Some None"
| "read_opt r j = map_option Some (r j)"

fun read_all :: "('a \<Rightarrow> 'b option) \<Rightarrow> 'a list \<Rightarrow> 'b list option" where
  "read_all r [] = Some []"
| "read_all r (x # xs) = do { y \<leftarrow> r x; ys \<leftarrow> read_all r xs; Some (y # ys) }"

fun read_list :: "'a reader \<Rightarrow> 'a list reader" where
  "read_list r (JArr js) = read_all r js"
| "read_list r j = None"

text \<open>\<open>dict[str, Any]\<close>\<close>

fun read_dict :: "(string, json) dict reader" where
  "read_dict (JObj kvs) = Some kvs"
| "read_dict j = None"

definition read_enum :: "('a \<Rightarrow> string) \<Rightarrow> 'a list \<Rightarrow> 'a reader" where
  "read_enum val cs j = (case j of JStr s \<Rightarrow> find (\<lambda>c. val c = s) cs | _ \<Rightarrow> None)"

text \<open>A required field, and a field with a default.\<close>

definition required :: "(string, json) dict \<Rightarrow> string \<Rightarrow> 'a reader \<Rightarrow> 'a option" where
  "required kvs k r = Option.bind (dict_get kvs k) r"

definition with_default :: "'a \<Rightarrow> (string, json) dict \<Rightarrow> string \<Rightarrow> 'a reader \<Rightarrow> 'a option" where
  "with_default d kvs k r = (case dict_get kvs k of None \<Rightarrow> Some d | Some j \<Rightarrow> r j)"

definition only_fields :: "string list \<Rightarrow> (string, json) dict \<Rightarrow> bool" where
  "only_fields ks kvs = list_all (\<lambda>kv. fst kv \<in> set ks) kvs"

text \<open>The object behind a model without extra fields.\<close>

definition read_object :: "string list \<Rightarrow> json \<Rightarrow> (string, json) dict option" where
  "read_object ks j = (case j of JObj kvs \<Rightarrow> if only_fields ks kvs then Some kvs else None | _ \<Rightarrow> None)"

text \<open>A time stamp: the model has no time stamps, but a wrong one is an error all the same.\<close>

definition read_time :: "lax \<Rightarrow> (string, json) dict \<Rightarrow> string \<Rightarrow> unit option" where
  "read_time lx kvs k = (case dict_get kvs k of None \<Rightarrow> Some () | Some j \<Rightarrow> if lax_time lx j then Some () else None)"

fun write_opt :: "('a \<Rightarrow> json) \<Rightarrow> 'a option \<Rightarrow> json" where
  "write_opt w None = JNull"
| "write_opt w (Some x) = w x"

section \<open>Codecs\<close>

text \<open>The contract of a model: what is dumped validates to the same model.\<close>

locale json_codec =
  fixes enc :: "'a \<Rightarrow> json" and dec :: "'a reader"
  assumes dec_enc: "dec (enc x) = Some x"
begin

lemma enc_inject: "enc x = enc y \<Longrightarrow> x = y"
  using dec_enc by (metis option.inject)

lemma read_all_enc: "read_all dec (map enc xs) = Some xs"
  by (induction xs) (simp_all add: dec_enc)

lemma list_codec: "json_codec (\<lambda>xs. JArr (map enc xs)) (read_list dec)"
  by standard (simp add: read_all_enc)

lemma opt_codec: "(\<And>x. enc x \<noteq> JNull) \<Longrightarrow> json_codec (write_opt enc) (read_opt dec)"
proof
  fix v assume ne: "\<And>x. enc x \<noteq> JNull"
  show "read_opt dec (write_opt enc v) = Some v"
  proof (cases v)
    case (Some x)
    then show ?thesis using ne [of x] dec_enc [of x] by (cases "enc x") simp_all
  qed simp
qed

lemma keyed_codec: "read_all (\<lambda>(k, j). map_option (Pair k) (dec j)) (map (\<lambda>(k, x). (k, enc x)) kvs) = Some kvs"
  by (induction kvs) (auto simp: dec_enc)

end

interpretation str: json_codec JStr read_str
  by standard simp

interpretation int: json_codec JInt "read_int lx" for lx
  by standard simp

interpretation float: json_codec JFloat "read_float lx" for lx
  by standard simp

interpretation bool: json_codec JBool "read_bool lx" for lx
  by standard simp

interpretation obj: json_codec JObj read_dict
  by standard simp

interpretation strs: json_codec "\<lambda>xs. JArr (map JStr xs)" "read_list read_str"
  by (rule str.list_codec)

lemma strs_read [simp]: "read_all read_str (map JStr xs) = Some xs"
  by (rule str.read_all_enc)

interpretation opt_str: json_codec "write_opt JStr" "read_opt read_str"
  by (rule str.opt_codec) simp

lemmas codec_simps = str.dec_enc int.dec_enc float.dec_enc bool.dec_enc obj.dec_enc strs.dec_enc opt_str.dec_enc

section \<open>JSON files\<close>

text \<open>
  \<open>path.write_text\<close> and \<open>path.read_text\<close>, which translates line ends, and \<open>mkdir(parents=True)\<close> of the directory
  before the first.
\<close>

definition write_text :: "fs_path \<Rightarrow> string \<Rightarrow> file_system \<Rightarrow> store_error + file_system" where
  "write_text p s fs = write_bytes p s fs"

definition read_text :: "fs_path \<Rightarrow> file_system \<Rightarrow> store_error + string" where
  "read_text p fs = (case read_bytes p fs of Inl e \<Rightarrow> Inl e | Inr s \<Rightarrow> Inr (universal_newlines s))"

definition make_parent :: "fs_path \<Rightarrow> file_system \<Rightarrow> store_error + file_system" where
  "make_parent p fs = mkdir_parents (butlast p) fs"

lemma read_after_write:
  assumes "write_text p s fs = Inr fs'"
  shows "read_text p fs' = Inr (universal_newlines s)"
proof -
  obtain w where w: "resolve_path fs [] p = Found w" "w \<notin> set (dirs fs)" "fs' = fs\<lparr>files := dict_set w s (files fs)\<rparr>"
    using assms by (auto simp: write_text_def write_bytes_def split: lookup.splits if_splits)
  have "resolve_path fs' [] p = Found w" using resolve_set_file [OF w(1,2)] by (simp add: w(3))
  moreover have "dict_get (files fs') w = Some s" by (simp add: w(3))
  ultimately show ?thesis by (simp add: read_text_def read_bytes_def)
qed

text \<open>Where no file is on the way and no directory at the place, the file can be written.\<close>

lemma write_after_make_parent:
  assumes "fs_wf fs" "p \<noteq> []" "''..'' \<notin> set p" "p \<notin> set (dirs fs)"
    and "list_all (\<lambda>q. q \<notin> set (dict_keys (files fs))) (parents p)"
  shows "\<exists>fs1 fs2. make_parent p fs = Inr fs1 \<and> write_text p s fs1 = Inr fs2"
proof -
  have above: "strict_prefix q p \<longleftrightarrow> prefix q (butlast p)" for q by (rule strict_prefix_butlast [OF assms(2)])
  have way: "\<forall>q. prefix q (butlast p) \<longrightarrow> q \<notin> set (dict_keys (files fs))"
    using assms(5) by (simp add: list_all_iff Ball_def parents_set above)
  obtain ds where ds: "mkdir_parents (butlast p) fs = Inr (fs\<lparr>dirs := ds\<rparr>)"
    "set ds = set (dirs fs) \<union> {q. prefix q (butlast p)}"
    using mkdir_parents_plain [OF assms(1) _ way] assms(3) by (blast dest: in_set_butlastD)
  have "resolve_path (fs\<lparr>dirs := ds\<rparr>) [] p = Found p"
    using resolve_plain [OF assms(3), of "[]" "fs\<lparr>dirs := ds\<rparr>"] way ds(2) by (simp add: above)
  moreover have "p \<notin> set ds" using ds(2) assms(4) by (simp add: above [symmetric])
  ultimately show ?thesis using ds(1) by (simp add: make_parent_def write_text_def write_bytes_def)
qed

end
