(* ===== verification/SgirJson.thy ===== *)
theory SgirJson
  imports JsonCodec SecurityAgent OptPasses NxList
begin

text \<open>
  The JSON form of software graphs (\<open>intelliqx_graph/serialization.py\<close> on the models of
       \<open>models.py\<close>).  The time
  stamps that the models have and the records have not are not written; they may be there when a graph is read.
\<close>

section \<open>Enumerations\<close>

definition write_enum :: "('a \<Rightarrow> string) \<Rightarrow> 'a \<Rightarrow> json" where
  "write_enum val x = JStr (val x)"

definition NODE_TYPES :: "NodeType list" where
  "NODE_TYPES = [NFunction, NMethod, NClass, NModule, NPackage, NService, NEndpoint, NEventHandler, NMiddleware,
       NDatamodel,
     NConfig, NInfrastructure, NUnknown]"

definition EDGE_TYPES :: "EdgeType list" where
  "EDGE_TYPES = [ECall, EData, EControl, EDependency, EEvent, ENetwork, EDatabase, EStateTransition, EImport, EInherit,
     EImplement, ECompose]"

definition LAYERS :: "GraphLayer list" where
  "LAYERS = [LCall, LDataFlow, LControlFlow, LDependency, LStateTransition, LResource, LSecurity, LDeployment]"

definition COMPLEXITIES :: "ComplexityEstimate list" where
  "COMPLEXITIES = [Constant, Logarithmic, Linear, Linearithmic, Quadratic, Cubic, Exponential, UnknownComplexity]"

definition BOUNDARIES :: "SecurityBoundary list" where
  "BOUNDARIES = [SbNone, SbAuthenticated, SbAuthorized, SbAdmin, SbInternal, SbExternal, SbSandboxed]"

interpretation node_type: json_codec "write_enum node_type_value" "read_enum node_type_value NODE_TYPES"
  by standard (case_tac x; simp add: write_enum_def read_enum_def NODE_TYPES_def)

interpretation edge_type: json_codec "write_enum edge_type_value" "read_enum edge_type_value EDGE_TYPES"
  by standard (case_tac x; simp add: write_enum_def read_enum_def EDGE_TYPES_def)

interpretation layer: json_codec "write_enum layer_value" "read_enum layer_value LAYERS"
  by standard (case_tac x; simp add: write_enum_def read_enum_def LAYERS_def)

interpretation complexity: json_codec "write_enum complexity_value" "read_enum complexity_value COMPLEXITIES"
  by standard (case_tac x; simp add: write_enum_def read_enum_def COMPLEXITIES_def)

interpretation boundary: json_codec "write_enum boundary_value" "read_enum boundary_value BOUNDARIES"
  by standard (case_tac x; simp add: write_enum_def read_enum_def BOUNDARIES_def)

lemmas record_fields = required_def with_default_def read_object_def only_fields_def read_time_def

section \<open>Models\<close>

definition LOCATION_FIELDS :: "string list" where
  "LOCATION_FIELDS = [''file_path'', ''line_start'', ''line_end'', ''column_start'', ''column_end'']"

definition write_location :: "SourceLocation \<Rightarrow> json" where
  "write_location x = JObj
    [(''file_path'', JStr (loc_file_path x)),
     (''line_start'', JInt (line_start x)),
     (''line_end'', JInt (line_end x)),
     (''column_start'', JInt (column_start x)),
     (''column_end'', JInt (column_end x))]"

definition read_location :: "lax \<Rightarrow> SourceLocation reader" where
  "read_location lx j = do {
     kvs \<leftarrow> read_object LOCATION_FIELDS j;
     file_path \<leftarrow> required kvs ''file_path'' read_str;
     line_start \<leftarrow> required kvs ''line_start'' (read_int lx);
     line_end \<leftarrow> required kvs ''line_end'' (read_int lx);
     column_start \<leftarrow> with_default 0 kvs ''column_start'' (read_int lx);
     column_end \<leftarrow> with_default 0 kvs ''column_end'' (read_int lx);
     Some \<lparr>loc_file_path = file_path, line_start = line_start, line_end = line_end, column_start =
       column_start, column_end = column_end\<rparr> }"

interpretation location: json_codec write_location "read_location lx" for lx
proof
  fix x
  show "read_location lx (write_location x) = Some x"
    by (cases x) (simp add: read_location_def write_location_def LOCATION_FIELDS_def record_fields codec_simps)
qed

interpretation opt_location: json_codec "write_opt write_location" "read_opt (read_location lx)" for lx
  by (rule location.opt_codec) (simp add: write_location_def)

lemmas enum_simps = node_type.dec_enc edge_type.dec_enc layer.dec_enc complexity.dec_enc boundary.dec_enc
       opt_location.dec_enc

definition NODE_FIELDS :: "string list" where
  "NODE_FIELDS = [''id'', ''name'', ''purpose'', ''node_type'', ''language'', ''source_location'', ''inputs'',
       ''outputs'', ''preconditions'', ''postconditions'', ''side_effects'', ''external_dependencies'',
       ''resource_usage'', ''complexity'', ''failure_modes'', ''security_boundary'', ''ownership'', ''test_coverage'',
       ''documentation'', ''performance_metrics'', ''is_dead'', ''is_duplicate'', ''optimization_notes'',
       ''created_at'']"

definition write_node :: "SGIRNode \<Rightarrow> json" where
  "write_node x = JObj
    [(''id'', JStr (node_id x)),
     (''name'', JStr (node_name x)),
     (''purpose'', JStr (purpose x)),
     (''node_type'', write_enum node_type_value (node_type x)),
     (''language'', JStr (language x)),
     (''source_location'', write_opt write_location (source_location x)),
     (''inputs'', JArr (map JStr (inputs x))),
     (''outputs'', JArr (map JStr (outputs x))),
     (''preconditions'', JArr (map JStr (preconditions x))),
     (''postconditions'', JArr (map JStr (postconditions x))),
     (''side_effects'', JArr (map JStr (side_effects x))),
     (''external_dependencies'', JArr (map JStr (external_dependencies x))),
     (''resource_usage'', JObj (resource_usage x)),
     (''complexity'', write_enum complexity_value (complexity x)),
     (''failure_modes'', JArr (map JStr (failure_modes x))),
     (''security_boundary'', write_enum boundary_value (security_boundary x)),
     (''ownership'', write_opt JStr (ownership x)),
     (''test_coverage'', JFloat (test_coverage x)),
     (''documentation'', JStr (documentation x)),
     (''performance_metrics'', JObj (performance_metrics x)),
     (''is_dead'', JBool (is_dead x)),
     (''is_duplicate'', JBool (is_duplicate x)),
     (''optimization_notes'', JArr (map JStr (optimization_notes x)))]"

definition read_node :: "lax \<Rightarrow> SGIRNode reader" where
  "read_node lx j = do {
     kvs \<leftarrow> read_object NODE_FIELDS j;
     id \<leftarrow> required kvs ''id'' read_str;
     name \<leftarrow> required kvs ''name'' read_str;
     purpose \<leftarrow> with_default [] kvs ''purpose'' read_str;
     node_type \<leftarrow> with_default NUnknown kvs ''node_type'' (read_enum node_type_value NODE_TYPES);
     language \<leftarrow> with_default ''unknown'' kvs ''language'' read_str;
     source_location \<leftarrow> with_default None kvs ''source_location'' (read_opt (read_location lx));
     inputs \<leftarrow> with_default [] kvs ''inputs'' (read_list read_str);
     outputs \<leftarrow> with_default [] kvs ''outputs'' (read_list read_str);
     preconditions \<leftarrow> with_default [] kvs ''preconditions'' (read_list read_str);
     postconditions \<leftarrow> with_default [] kvs ''postconditions'' (read_list read_str);
     side_effects \<leftarrow> with_default [] kvs ''side_effects'' (read_list read_str);
     external_dependencies \<leftarrow> with_default [] kvs ''external_dependencies'' (read_list read_str);
     resource_usage \<leftarrow> with_default [] kvs ''resource_usage'' read_dict;
     complexity \<leftarrow> with_default UnknownComplexity kvs ''complexity'' (read_enum complexity_value
       COMPLEXITIES);
     failure_modes \<leftarrow> with_default [] kvs ''failure_modes'' (read_list read_str);
     security_boundary \<leftarrow> with_default SbNone kvs ''security_boundary'' (read_enum boundary_value BOUNDARIES);
     ownership \<leftarrow> with_default None kvs ''ownership'' (read_opt read_str);
     test_coverage \<leftarrow> with_default 0 kvs ''test_coverage'' (read_float lx);
     documentation \<leftarrow> with_default [] kvs ''documentation'' read_str;
     performance_metrics \<leftarrow> with_default [] kvs ''performance_metrics'' read_dict;
     is_dead \<leftarrow> with_default False kvs ''is_dead'' (read_bool lx);
     is_duplicate \<leftarrow> with_default False kvs ''is_duplicate'' (read_bool lx);
     optimization_notes \<leftarrow> with_default [] kvs ''optimization_notes'' (read_list read_str);
     _ \<leftarrow> read_time lx kvs ''created_at'';
     Some \<lparr>node_id = id, node_name = name, purpose = purpose, node_type = node_type, language = language,
       source_location = source_location, inputs = inputs, outputs = outputs, preconditions = preconditions,
       postconditions = postconditions, side_effects = side_effects, external_dependencies = external_dependencies,
       resource_usage = resource_usage, complexity = complexity, failure_modes = failure_modes, security_boundary =
       security_boundary, ownership = ownership, test_coverage = test_coverage, documentation = documentation,
       performance_metrics = performance_metrics, is_dead = is_dead, is_duplicate = is_duplicate, optimization_notes =
       optimization_notes\<rparr> }"

interpretation sgir_node: json_codec write_node "read_node lx" for lx
proof
  fix x
  show "read_node lx (write_node x) = Some x"
    by (cases x) (simp add: read_node_def write_node_def NODE_FIELDS_def record_fields codec_simps enum_simps)
qed

definition EDGE_FIELDS :: "string list" where
  "EDGE_FIELDS = [''source'', ''target'', ''edge_type'', ''weight'', ''metadata'', ''label'']"

definition write_edge :: "SGIREdge \<Rightarrow> json" where
  "write_edge x = JObj
    [(''source'', JStr (source x)),
     (''target'', JStr (target x)),
     (''edge_type'', write_enum edge_type_value (edge_type x)),
     (''weight'', JFloat (edge_weight x)),
     (''metadata'', JObj (edge_metadata x)),
     (''label'', JStr (label x))]"

definition read_edge :: "lax \<Rightarrow> SGIREdge reader" where
  "read_edge lx j = do {
     kvs \<leftarrow> read_object EDGE_FIELDS j;
     source \<leftarrow> required kvs ''source'' read_str;
     target \<leftarrow> required kvs ''target'' read_str;
     edge_type \<leftarrow> required kvs ''edge_type'' (read_enum edge_type_value EDGE_TYPES);
     weight \<leftarrow> with_default 1 kvs ''weight'' (read_float lx);
     metadata \<leftarrow> with_default [] kvs ''metadata'' read_dict;
     label \<leftarrow> with_default [] kvs ''label'' read_str;
     Some \<lparr>source = source, target = target, edge_type = edge_type, edge_weight = weight, edge_metadata =
       metadata, label = label\<rparr> }"

interpretation sgir_edge: json_codec write_edge "read_edge lx" for lx
proof
  fix x
  show "read_edge lx (write_edge x) = Some x"
    by (cases x) (simp add: read_edge_def write_edge_def EDGE_FIELDS_def record_fields codec_simps enum_simps)
qed

definition GRAPH_FIELDS :: "string list" where
  "GRAPH_FIELDS = [''layer'', ''nodes'', ''edges'', ''metadata'']"

definition write_graph :: "SGIRGraph \<Rightarrow> json" where
  "write_graph x = JObj
    [(''layer'', write_enum layer_value (layer x)),
     (''nodes'', JArr (map write_node (nodes x))),
     (''edges'', JArr (map write_edge (edges x))),
     (''metadata'', JObj (graph_metadata x))]"

definition read_graph :: "lax \<Rightarrow> SGIRGraph reader" where
  "read_graph lx j = do {
     kvs \<leftarrow> read_object GRAPH_FIELDS j;
     layer \<leftarrow> required kvs ''layer'' (read_enum layer_value LAYERS);
     nodes \<leftarrow> with_default [] kvs ''nodes'' (read_list (read_node lx));
     edges \<leftarrow> with_default [] kvs ''edges'' (read_list (read_edge lx));
     metadata \<leftarrow> with_default [] kvs ''metadata'' read_dict;
     Some \<lparr>layer = layer, nodes = nodes, edges = edges, graph_metadata = metadata\<rparr> }"

interpretation sgir_graph: json_codec write_graph "read_graph lx" for lx
proof
  fix x
  show "read_graph lx (write_graph x) = Some x"
    by (cases x) (simp add: read_graph_def write_graph_def GRAPH_FIELDS_def record_fields codec_simps enum_simps
       sgir_node.read_all_enc sgir_edge.read_all_enc)
qed

definition REPOSITORY_FIELDS :: "string list" where
  "REPOSITORY_FIELDS = [''name'', ''root_path'', ''languages'', ''frameworks'', ''build_systems'',
       ''architecture_style'', ''total_files'', ''total_lines'', ''extra'', ''analyzed_at'']"

definition write_repository :: "RepositoryMetadata \<Rightarrow> json" where
  "write_repository x = JObj
    [(''name'', JStr (repo_name x)),
     (''root_path'', JStr (root_path x)),
     (''languages'', JArr (map JStr (languages x))),
     (''frameworks'', JArr (map JStr (frameworks x))),
     (''build_systems'', JArr (map JStr (build_systems x))),
     (''architecture_style'', JStr (architecture_style x)),
     (''total_files'', JInt (total_files x)),
     (''total_lines'', JInt (total_lines x)),
     (''extra'', JObj (extra x))]"

definition read_repository :: "lax \<Rightarrow> RepositoryMetadata reader" where
  "read_repository lx j = do {
     kvs \<leftarrow> read_object REPOSITORY_FIELDS j;
     name \<leftarrow> required kvs ''name'' read_str;
     root_path \<leftarrow> required kvs ''root_path'' read_str;
     languages \<leftarrow> with_default [] kvs ''languages'' (read_list read_str);
     frameworks \<leftarrow> with_default [] kvs ''frameworks'' (read_list read_str);
     build_systems \<leftarrow> with_default [] kvs ''build_systems'' (read_list read_str);
     architecture_style \<leftarrow> with_default ''unknown'' kvs ''architecture_style'' read_str;
     total_files \<leftarrow> with_default 0 kvs ''total_files'' (read_int lx);
     total_lines \<leftarrow> with_default 0 kvs ''total_lines'' (read_int lx);
     extra \<leftarrow> with_default [] kvs ''extra'' read_dict;
     _ \<leftarrow> read_time lx kvs ''analyzed_at'';
     Some \<lparr>repo_name = name, root_path = root_path, languages = languages, frameworks = frameworks,
       build_systems = build_systems, architecture_style = architecture_style, total_files = total_files, total_lines
       = total_lines, extra = extra\<rparr> }"

interpretation sgir_repository: json_codec write_repository "read_repository lx" for lx
proof
  fix x
  show "read_repository lx (write_repository x) = Some x"
    by (cases x) (simp add: read_repository_def write_repository_def REPOSITORY_FIELDS_def record_fields codec_simps)
qed

section \<open>The whole graph\<close>

definition write_layer :: "GraphLayer \<times> SGIRGraph \<Rightarrow> string \<times> json" where
  "write_layer lg = (layer_value (fst lg), write_graph (snd lg))"

text \<open>An entry of \<open>dict[GraphLayer, SGIRGraph]\<close>: nothing compares the key with the layer inside.\<close>

definition read_layer :: "lax \<Rightarrow> string \<times> json \<Rightarrow> (GraphLayer \<times> SGIRGraph) option" where
  "read_layer lx kj = do {
     l \<leftarrow> read_enum layer_value LAYERS (JStr (fst kj));
     g \<leftarrow> read_graph lx (snd kj);
     Some (l, g) }"

definition GRAPHS_FIELDS :: "string list" where
  "GRAPHS_FIELDS = [''repository'', ''layers'', ''created_at'']"

definition graph_to_dict :: "SoftwareGraph \<Rightarrow> json" where
  "graph_to_dict x = JObj
    [(''repository'', write_repository (repository x)),
     (''layers'', JObj (map write_layer (layers x)))]"

definition graph_from_dict :: "lax \<Rightarrow> SoftwareGraph reader" where
  "graph_from_dict lx j = do {
     kvs \<leftarrow> read_object GRAPHS_FIELDS j;
     repo \<leftarrow> required kvs ''repository'' (read_repository lx);
     ls \<leftarrow> with_default [] kvs ''layers'' (\<lambda>v. Option.bind (read_dict v) (read_all (read_layer lx)));
     _ \<leftarrow> read_time lx kvs ''created_at'';
     Some \<lparr>repository = repo, layers = ls\<rparr> }"

lemma read_layers: "read_all (read_layer lx) (map write_layer ls) = Some ls"
  using layer.dec_enc
  by (induction ls) (auto simp: read_layer_def write_layer_def sgir_graph.dec_enc write_enum_def)

interpretation software_graph: json_codec graph_to_dict "graph_from_dict lx" for lx
proof
  fix x
  show "graph_from_dict lx (graph_to_dict x) = Some x"
    by (cases x)
      (simp add: graph_from_dict_def graph_to_dict_def GRAPHS_FIELDS_def record_fields sgir_repository.dec_enc read_layers)
qed

text \<open>The text of a JSON value is the parameter \<open>render\<close>, its reading \<open>parse\<close>.\<close>

definition graph_to_json :: "(json \<Rightarrow> string) \<Rightarrow> SoftwareGraph \<Rightarrow> string" where
  "graph_to_json render sg = render (graph_to_dict sg)"

definition graph_from_json :: "(string \<Rightarrow> json option) \<Rightarrow> lax \<Rightarrow> string \<Rightarrow> SoftwareGraph option" where
  "graph_from_json parse lx raw = Option.bind (parse raw) (graph_from_dict lx)"

definition graph_to_file :: "(json \<Rightarrow> string) \<Rightarrow> SoftwareGraph \<Rightarrow> fs_path \<Rightarrow> file_system \<Rightarrow> store_error + file_system" where
  "graph_to_file render sg p fs =
     (case make_parent p fs of Inl e \<Rightarrow> Inl e | Inr fs1 \<Rightarrow> write_text p (graph_to_json render sg) fs1)"

definition graph_from_file ::
    "(string \<Rightarrow> json option) \<Rightarrow> lax \<Rightarrow> fs_path \<Rightarrow> file_system \<Rightarrow> store_error + SoftwareGraph option" where
  "graph_from_file parse lx p fs = (case read_text p fs of Inl e \<Rightarrow> Inl e | Inr s \<Rightarrow> Inr (graph_from_json parse lx s))"

section \<open>Round trips\<close>

text \<open>
  Every software graph, well formed or not, is read back from its dict as it was, whatever the conversions
  of other values are.
\<close>

theorem graph_dict_roundtrip: "graph_from_dict lx (graph_to_dict sg) = Some sg"
  by (rule software_graph.dec_enc)

lemma graph_json_roundtrip:
  assumes "parse (render (graph_to_dict sg)) = Some (graph_to_dict sg)"
  shows "graph_from_json parse lx (graph_to_json render sg) = Some sg"
  using assms software_graph.dec_enc by (simp add: graph_from_json_def graph_to_json_def)

text \<open>JSON text escapes carriage returns, so a file in text mode keeps it.\<close>

lemma graph_file_roundtrip:
  assumes "parse (render (graph_to_dict sg)) = Some (graph_to_dict sg)" "graph_to_file render sg p fs = Inr fs'"
    and "CHR 0x0D \<notin> set (render (graph_to_dict sg))"
  shows "graph_from_file parse lx p fs' = Inr (Some sg)"
proof -
  have "universal_newlines (graph_to_json render sg) = graph_to_json render sg"
    using assms(3) by (simp add: graph_to_json_def)
  with assms(1,2) show ?thesis
    by (auto simp: graph_to_file_def graph_from_file_def read_after_write graph_json_roundtrip split: sum.splits)
qed

lemma graph_to_file_succeeds:
  assumes "fs_wf fs" "p \<noteq> []" "''..'' \<notin> set p" "p \<notin> set (dirs fs)"
    and "list_all (\<lambda>q. q \<notin> set (dict_keys (files fs))) (parents p)"
  shows "\<exists>fs'. graph_to_file render sg p fs = Inr fs'"
  using write_after_make_parent [OF assms, of "graph_to_json render sg"] by (auto simp: graph_to_file_def)

lemma field_missing: "graph_from_dict lx (JObj [(''layers'', JObj [])]) = None"
  "graph_from_dict lx (JObj [(''repository'', j), (''version'', JInt 1)]) = None"
  by (simp_all add: graph_from_dict_def GRAPHS_FIELDS_def record_fields)

section \<open>Layers under a wrong name\<close>

text \<open>
  A dict whose only layer is filed under another name than its own validates, and the pass that removes
  dead nodes then fails on it with the \<open>RuntimeError\<close> of a dict that grows under its iterator, if there is a dead
  node.
\<close>

theorem misfiled_layer_crashes:
  assumes "layer g \<noteq> l" "fst (find_dead_nodes nx eps None gi) \<inter> node_ids g \<noteq> {}"
  shows "\<exists>sg. graph_from_dict lx (graph_to_dict \<lparr>repository = repo, layers = [(l, g)]\<rparr>) = Some sg
    \<and> fst (remove_dead_nodes nx eps sg gi) = Inl DictChangedSize"
proof (intro exI conjI)
  show "graph_from_dict lx (graph_to_dict \<lparr>repository = repo, layers = [(l, g)]\<rparr>) = Some \<lparr>repository = repo, layers = [(l, g)]\<rparr>"
    by (rule software_graph.dec_enc)
  show "fst (remove_dead_nodes nx eps \<lparr>repository = repo, layers = [(l, g)]\<rparr> gi) = Inl DictChangedSize"
    using assms
    by (cases "find_dead_nodes nx eps None gi")
      (auto simp: remove_dead_nodes_def for_layers_def dict_keys_def remove_dead_body_def Let_def)
qed

definition misfiled :: SoftwareGraph where
  "misfiled = \<lparr>repository = \<lparr>repo_name = ''r'', root_path = ''/r'', languages = [], frameworks = [], build_systems = [],
       architecture_style = ''unknown'', total_files = 0, total_lines = 0, extra = []\<rparr>,
     layers = [(LCall, \<lparr>layer = LDataFlow, nodes = [new_node ''x'' ''x''], edges = [], graph_metadata = []\<rparr>)]\<rparr>"

lemma misfiled_dead: "''x'' \<in> fst (find_dead_nodes list_nx [''main''] None (mk_index list_nx misfiled))"
  by code_simp

theorem misfiled_layer_crashes_witness:
  "\<exists>sg. graph_from_dict strict (graph_to_dict misfiled) = Some sg
    \<and> fst (remove_dead_nodes list_nx [''main''] sg (mk_index list_nx misfiled)) = Inl DictChangedSize"
  unfolding misfiled_def
proof (rule misfiled_layer_crashes)
  show "fst (find_dead_nodes list_nx [''main''] None (mk_index list_nx \<lparr>repository = \<lparr>repo_name = ''r'', root_path = ''/r'',
       languages = [], frameworks = [], build_systems = [], architecture_style = ''unknown'', total_files = 0, total_lines = 0,
       extra = []\<rparr>, layers = [(LCall, \<lparr>layer = LDataFlow, nodes = [new_node ''x'' ''x''], edges = [], graph_metadata = []\<rparr>)]\<rparr>))
     \<inter> node_ids \<lparr>layer = LDataFlow, nodes = [new_node ''x'' ''x''], edges = [], graph_metadata = []\<rparr> \<noteq> {}"
    using misfiled_dead by (auto simp: misfiled_def node_ids_def new_node_def)
qed simp

end
