(* ===== verification/JsonOps.thy ===== *)
theory JsonOps
  imports SgirJson SgirRun
begin

text \<open>
  The operations of \<open>intelliqx_graph/operations.py\<close> with their JSON inputs and outputs: metadata and entities are passed on as
  dicts, graphs as JSON text.  The other theories compose the operations on values; \<open>json_operations_equiv\<close> shows that the
  JSON in between makes no difference.
\<close>

section \<open>Entities\<close>

definition ENTITY_FIELDS :: "string list" where
  "ENTITY_FIELDS = [''name'', ''entity_type'', ''file_path'', ''line_start'', ''line_end'', ''language'', ''parent'',
       ''parameters'', ''return_type'', ''is_async'', ''is_generator'', ''is_static'', ''is_abstract'',
       ''import_source'', ''import_names'', ''is_from_import'', ''import_aliases'', ''import_level'', ''bases'',
       ''decorators'', ''calls'', ''references'', ''docstring'', ''complexity'']"

definition write_entity :: "ParsedEntity \<Rightarrow> json" where
  "write_entity x = JObj
    [(''name'', JStr (pe_name x)),
     (''entity_type'', JStr (entity_type x)),
     (''file_path'', JStr (pe_file_path x)),
     (''line_start'', JInt (pe_line_start x)),
     (''line_end'', JInt (pe_line_end x)),
     (''language'', JStr (pe_language x)),
     (''parent'', write_opt JStr (parent x)),
     (''parameters'', JArr (map JStr (pe_parameters x))),
     (''return_type'', write_opt JStr (return_type x)),
     (''is_async'', JBool (is_async x)),
     (''is_generator'', JBool (is_generator x)),
     (''is_static'', JBool (is_static x)),
     (''is_abstract'', JBool (is_abstract x)),
     (''import_source'', write_opt JStr (import_source x)),
     (''import_names'', JArr (map JStr (import_names x))),
     (''is_from_import'', JBool (is_from_import x)),
     (''import_aliases'', JArr (map JStr (import_aliases x))),
     (''import_level'', JInt (import_level x)),
     (''bases'', JArr (map JStr (bases x))),
     (''decorators'', JArr (map JStr (decorators x))),
     (''calls'', JArr (map JStr (calls x))),
     (''references'', JArr (map JStr (references x))),
     (''docstring'', write_opt JStr (docstring x)),
     (''complexity'', JStr (pe_complexity x))]"

definition read_entity :: "lax \<Rightarrow> ParsedEntity reader" where
  "read_entity lx j = do {
     kvs \<leftarrow> read_object ENTITY_FIELDS j;
     name \<leftarrow> required kvs ''name'' read_str;
     entity_type \<leftarrow> required kvs ''entity_type'' read_str;
     file_path \<leftarrow> required kvs ''file_path'' read_str;
     line_start \<leftarrow> required kvs ''line_start'' (read_int lx);
     line_end \<leftarrow> required kvs ''line_end'' (read_int lx);
     language \<leftarrow> required kvs ''language'' read_str;
     parent \<leftarrow> with_default None kvs ''parent'' (read_opt read_str);
     parameters \<leftarrow> with_default [] kvs ''parameters'' (read_list read_str);
     return_type \<leftarrow> with_default None kvs ''return_type'' (read_opt read_str);
     is_async \<leftarrow> with_default False kvs ''is_async'' (read_bool lx);
     is_generator \<leftarrow> with_default False kvs ''is_generator'' (read_bool lx);
     is_static \<leftarrow> with_default False kvs ''is_static'' (read_bool lx);
     is_abstract \<leftarrow> with_default False kvs ''is_abstract'' (read_bool lx);
     import_source \<leftarrow> with_default None kvs ''import_source'' (read_opt read_str);
     import_names \<leftarrow> with_default [] kvs ''import_names'' (read_list read_str);
     is_from_import \<leftarrow> with_default False kvs ''is_from_import'' (read_bool lx);
     import_aliases \<leftarrow> with_default [] kvs ''import_aliases'' (read_list read_str);
     import_level \<leftarrow> with_default 0 kvs ''import_level'' (read_int lx);
     bases \<leftarrow> with_default [] kvs ''bases'' (read_list read_str);
     decorators \<leftarrow> with_default [] kvs ''decorators'' (read_list read_str);
     calls \<leftarrow> with_default [] kvs ''calls'' (read_list read_str);
     references \<leftarrow> with_default [] kvs ''references'' (read_list read_str);
     docstring \<leftarrow> with_default None kvs ''docstring'' (read_opt read_str);
     complexity \<leftarrow> with_default ''unknown'' kvs ''complexity'' read_str;
     Some \<lparr>pe_name = name, entity_type = entity_type, pe_file_path = file_path, pe_line_start = line_start,
       pe_line_end = line_end, pe_language = language, parent = parent, pe_parameters = parameters, return_type =
       return_type, is_async = is_async, is_generator = is_generator, is_static = is_static, is_abstract =
       is_abstract, import_source = import_source, import_names = import_names, is_from_import = is_from_import,
       import_aliases = import_aliases, import_level = import_level, bases = bases, decorators = decorators, calls =
       calls, references = references, docstring = docstring, pe_complexity = complexity\<rparr> }"

interpretation parsed_entity: json_codec write_entity "read_entity lx" for lx
proof
  fix x
  show "read_entity lx (write_entity x) = Some x"
    by (cases x) (simp add: read_entity_def write_entity_def ENTITY_FIELDS_def record_fields codec_simps)
qed

interpretation parsed_entities: json_codec "\<lambda>es. JArr (map write_entity es)" "read_list (read_entity lx)" for lx
  by (rule parsed_entity.list_codec)

section \<open>Operations\<close>

datatype operation_error = InvalidInput | BuildFailed build_error | OptimizeFailed py_error | BackendFailed string

definition scan_repository :: "string \<Rightarrow> string \<Rightarrow> fs_dir option \<Rightarrow> string + json" where
  "scan_repository rootdir rootname dir = map_sum id write_repository (collect_repository_metadata rootdir rootname dir)"

definition parse_repository_dicts ::
    "(string \<Rightarrow> string + ast list) \<Rightarrow> (ast \<Rightarrow> string option) \<Rightarrow> (ast \<Rightarrow> string option) \<Rightarrow> string \<Rightarrow> fs_dir option
       \<Rightarrow> json list \<times> (string \<times> string) list" where
  "parse_repository_dicts ast_parse unparse get_docstring rootdir dir =
     (let (es, errors) = parse_repository ast_parse unparse get_docstring rootdir dir in (map write_entity es, errors))"

definition build_software_graph_json ::
    "(json \<Rightarrow> string) \<Rightarrow> lax \<Rightarrow> string list \<Rightarrow> json \<Rightarrow> json list \<Rightarrow> operation_error + string" where
  "build_software_graph_json render lx order metadata raws =
     (case read_repository lx metadata of
        None \<Rightarrow> Inl InvalidInput
      | Some repo \<Rightarrow>
          (case read_all (read_entity lx) raws of
             None \<Rightarrow> Inl InvalidInput
           | Some es \<Rightarrow> map_sum BuildFailed (graph_to_json render) (build_software_graph order repo es)))"

definition optimize_graph_json ::
    "(string \<Rightarrow> json option) \<Rightarrow> lax \<Rightarrow> 'g networkx \<Rightarrow> (string list \<Rightarrow> string list) \<Rightarrow> string \<Rightarrow> string list option \<Rightarrow> string
      \<Rightarrow> (operation_error + OptimizationResult) option" where
  "optimize_graph_json parse lx nx iter text eps target_language =
     (case graph_from_json parse lx text of
        None \<Rightarrow> Some (Inl InvalidInput)
      | Some sg \<Rightarrow> map_option (map_sum OptimizeFailed id) (optimize_graph nx iter sg eps target_language))"

definition generate_code_json ::
    "(string \<Rightarrow> json option) \<Rightarrow> lax \<Rightarrow> string \<Rightarrow> string \<Rightarrow> operation_error + (string, string) dict" where
  "generate_code_json parse lx text target_language =
     (case graph_from_json parse lx text of
        None \<Rightarrow> Inl InvalidInput
      | Some sg \<Rightarrow> map_sum BackendFailed id (generate_code sg target_language))"

section \<open>The JSON in between\<close>

lemma parse_complexity_unknown: "parse_complexity ''unknown'' = Inr UnknownComplexity"
  by (simp add: parse_complexity_def)

lemma build_json_equiv:
  "build_software_graph_json render lx order (write_repository repo) (map write_entity es) =
     map_sum BuildFailed (graph_to_json render) (build_software_graph order repo es)"
  by (simp add: build_software_graph_json_def sgir_repository.dec_enc parsed_entity.read_all_enc)

text \<open>
  C22: what one operation puts out is what the next one reads: a scanned and parsed repository goes through its
  dicts into the graph built from its metadata and entities, and this graph through its text into the optimizer and
  the code generator, as if the values had been passed on themselves.
\<close>

theorem json_operations_equiv:
  assumes "collect_repository_metadata rootdir rootname dir = Inr repo"
    and "parse_repository ast_parse unparse get_docstring rootdir dir = (es, errors)"
    and "build_software_graph order repo es = Inr sg"
    and "parse (render (graph_to_dict sg)) = Some (graph_to_dict sg)"
  shows "\<exists>metadata raws text. scan_repository rootdir rootname dir = Inr metadata
    \<and> parse_repository_dicts ast_parse unparse get_docstring rootdir dir = (raws, errors)
    \<and> build_software_graph_json render lx order metadata raws = Inr text
    \<and> optimize_graph_json parse lx nx iter text eps lang = map_option (map_sum OptimizeFailed id) (optimize_graph nx iter sg eps lang)
    \<and> generate_code_json parse lx text lang = map_sum BackendFailed id (generate_code sg lang)"
  using assms
  by (simp add: scan_repository_def parse_repository_dicts_def build_json_equiv optimize_graph_json_def generate_code_json_def
      graph_json_roundtrip)

definition one_file :: "fs_dir option" where
  "one_file = Some (FsDir [\<lparr>fs_name = ''a.py'', fs_size = None, fs_lines = None, fs_text = Inr []\<rparr>] [])"

definition parse_run :: "string \<Rightarrow> string + ast list" where
  "parse_run s = Inr [FunctionDef False ''run'' 1 None (Arguments [] [] None [] [] None []) None [] []]"

theorem json_operations_equiv_witness:
  "\<exists>metadata raws text sg. scan_repository ''/r'' ''r'' one_file = Inr metadata
    \<and> parse_repository_dicts parse_run (\<lambda>_. None) (\<lambda>_. None) ''/r'' one_file = (raws, [])
    \<and> build_software_graph_json (\<lambda>j. ''{}'') strict AUTH_PATTERNS metadata raws = Inr text
    \<and> generate_code_json (\<lambda>s. Some (graph_to_dict sg)) strict text ''python'' = map_sum BackendFailed id (generate_code sg ''python'')"
proof -
  obtain repo where repo: "collect_repository_metadata ''/r'' ''r'' one_file = Inr repo"
    by (cases "fold (\<lambda>(p, fs). fold count_file fs) (walk_dir scan_skips ''/r'' (the one_file)) (0, 0)")
      (simp add: collect_repository_metadata_def one_file_def)
  obtain es errors where es: "parse_repository parse_run (\<lambda>_. None) (\<lambda>_. None) ''/r'' one_file = (es, errors)" by (metis surj_pair)
  have "errors = []"
  proof -
    have "snd (parse_repository parse_run (\<lambda>_. None) (\<lambda>_. None) ''/r'' one_file) = []" by code_simp
    then show ?thesis using es by simp
  qed
  have "\<forall>e\<in>set es. callable_type e \<longrightarrow> (\<exists>c. parse_complexity (pe_complexity e) = Inr c)"
    using repository_complexity es by (metis fst_conv parse_complexity_unknown)
  then obtain sg where sg: "build_software_graph AUTH_PATTERNS repo es = Inr sg"
    using build_software_graph_ok [of es AUTH_PATTERNS repo] by blast
  show ?thesis
    using json_operations_equiv [OF repo es sg, of "\<lambda>s. Some (graph_to_dict sg)" "\<lambda>j. ''{}''"] \<open>errors = []\<close> by blast
qed

end
