(* ===== verification/RoleOutputs.thy ===== *)
theory RoleOutputs
  imports Agents JsonCodec
begin

text \<open>
  The output models of the roles (\<open>agents/ai/roles.py\<close>, the functions before the role table) and the type of what
  a role answers.  A model is data here: its fields in order, each with its type and its default.  These models have
  no \<open>extra="forbid"\<close>, so validation drops unknown fields.
\<close>

section \<open>Models as data\<close>

datatype out_type =
  OStr | OInt | OFloat | OBool
| OList out_type
| OModel string "(string \<times> out_type \<times> json option) list"

lemma read_all_cong [fundef_cong]:
  "xs = ys \<Longrightarrow> (\<And>y. y \<in> set ys \<Longrightarrow> f y = g y) \<Longrightarrow> read_all f xs = read_all g ys"
  by (induction ys arbitrary: xs) auto

lemma read_all_Some: "read_all f xs = Some ys \<longleftrightarrow> list_all2 (\<lambda>x y. f x = Some y) xs ys"
  by (induction xs arbitrary: ys) (auto simp: Option.bind_eq_Some_conv list_all2_Cons1)

text \<open>Validation followed by \<open>model_dump(mode="json")\<close>; \<open>None\<close> is a \<open>ValidationError\<close>.\<close>

fun conform :: "lax \<Rightarrow> out_type \<Rightarrow> json \<Rightarrow> json option" where
  "conform lx OStr j = map_option JStr (read_str j)"
| "conform lx OInt j = map_option JInt (read_int lx j)"
| "conform lx OFloat j = map_option JFloat (read_float lx j)"
| "conform lx OBool j = map_option JBool (read_bool lx j)"
| "conform lx (OList t) j = (case j of JArr js \<Rightarrow> map_option JArr (read_all (conform lx t) js) | _ \<Rightarrow> None)"
| "conform lx (OModel m fs) j =
     (case j of
        JObj kvs \<Rightarrow> map_option JObj (read_all (\<lambda>(k, t, d).
           map_option (Pair k) (case dict_get kvs k of None \<Rightarrow> d | Some v \<Rightarrow> conform lx t v)) fs)
      | _ \<Rightarrow> None)"

text \<open>The field names differ, and a default is a value of its field.\<close>

fun sane :: "lax \<Rightarrow> out_type \<Rightarrow> bool" where
  "sane lx (OList t) = sane lx t"
| "sane lx (OModel m fs) =
     (distinct (map fst fs) \<and> list_all (\<lambda>(k, t, d). sane lx t \<and> (case d of None \<Rightarrow> True | Some v \<Rightarrow> conform lx t v = Some v)) fs)"
| "sane lx t = True"

section \<open>The models\<close>

definition hit :: out_type where
  "hit = OModel ''Hit'' [(''id'', OStr, None), (''text'', OStr, None)]"

definition retrieval_result :: out_type where
  "retrieval_result = OModel ''RetrievalResult'' [(''hits'', OList hit, None)]"

definition items_result :: "out_type \<Rightarrow> out_type" where
  "items_result m = OModel ''ItemsResult'' [(''items'', OList m, None)]"

definition execution_result :: out_type where
  "execution_result = OModel ''ExecutionResult''
     [(''passed'', OInt, Some (JInt 0)), (''failed'', OInt, Some (JInt 0)), (''outcome'', OStr, Some (JStr ''passed''))]"

definition self_healing_plan :: out_type where
  "self_healing_plan = OModel ''SelfHealingPlan'' [(''selector'', OStr, None), (''confidence'', OFloat, Some (JFloat 0))]"

definition decision :: out_type where
  "decision = OModel ''ReleaseDecision'' [(''recommendation'', OStr, None), (''confidence'', OFloat, None), (''outcome'', OStr, None)]"

definition plan :: out_type where
  "plan = OModel ''PlanResult'' [(''goal_id'', OStr, None), (''steps'', OList OStr, Some (JArr []))]"

definition done_model :: out_type where
  "done_model = OModel ''Done'' [(''ok'', OBool, Some (JBool True))]"

definition impact :: out_type where
  "impact = OModel ''Impact'' [(''files'', OList OStr, Some (JArr []))]"

definition risk :: out_type where
  "risk = OModel ''Risk'' [(''score'', OFloat, None), (''rationale'', OStr, None)]"

definition test_case :: out_type where
  "test_case = OModel ''TestCase'' [(''name'', OStr, None), (''steps'', OList OStr, Some (JArr []))]"

definition coverage :: out_type where
  "coverage = OModel ''Coverage'' [(''percent'', OFloat, None), (''gaps'', OList OStr, Some (JArr []))]"

definition critique :: out_type where
  "critique = OModel ''Critique'' [(''issues'', OList OStr, Some (JArr []))]"

definition requirement :: out_type where
  "requirement = OModel ''Requirement'' [(''id'', OStr, None), (''text'', OStr, None)]"

definition requirement_list :: out_type where
  "requirement_list = OModel ''RequirementList'' [(''items'', OList requirement, None)]"

definition test_case_list :: out_type where
  "test_case_list = OModel ''TestCaseList'' [(''cases'', OList test_case, None)]"

lemmas model_defs = hit_def retrieval_result_def items_result_def execution_result_def self_healing_plan_def decision_def
  plan_def done_model_def impact_def risk_def test_case_def coverage_def critique_def requirement_def requirement_list_def
  test_case_list_def

fun model_name :: "out_type \<Rightarrow> string" where
  "model_name (OModel m fs) = m"
| "model_name t = []"

fun model_fields :: "out_type \<Rightarrow> string list" where
  "model_fields (OModel m fs) = map fst fs"
| "model_fields t = []"

text \<open>The models that the role table names.\<close>

definition OUTPUT_MODELS :: "(string, out_type) dict" where
  "OUTPUT_MODELS = map (\<lambda>m. (model_name m, m))
     [plan, done_model, retrieval_result, requirement_list, impact, risk, test_case_list, coverage, critique,
      execution_result, self_healing_plan, decision]"

lemma output_models_complete:
  "list_all (\<lambda>s. case output_model s of None \<Rightarrow> True | Some m \<Rightarrow> dict_get OUTPUT_MODELS m \<noteq> None) ROLE_TABLE"
  by code_simp

lemma output_models_sane: "\<forall>m\<in>snd ` set OUTPUT_MODELS. sane lx m"
  by (simp add: OUTPUT_MODELS_def model_defs)

lemma output_models_objects: "\<forall>m\<in>snd ` set OUTPUT_MODELS. \<exists>n fs. m = OModel n fs"
  by (simp add: OUTPUT_MODELS_def model_defs)

section \<open>Validation\<close>

lemma dict_get_all2:
  assumes "list_all2 (\<lambda>(k, t, d) (k', v). k' = k \<and> P k t d v) fs kvs" "distinct (map fst fs)" "(k, t, d) \<in> set fs"
  shows "\<exists>v. dict_get kvs k = Some v \<and> P k t d v"
  using assms
proof (induction fs arbitrary: kvs)
  case (Cons f fs)
  obtain k0 t0 d0 where f: "f = (k0, t0, d0)" by (cases f)
  from Cons.prems(1) f obtain v0 kvs' where kvs: "kvs = (k0, v0) # kvs'" "P k0 t0 d0 v0"
    "list_all2 (\<lambda>(k, t, d) (k', v). k' = k \<and> P k t d v) fs kvs'"
    by (auto simp: list_all2_Cons1)
  show ?case
  proof (cases "(k, t, d) = f")
    case False
    then have "(k, t, d) \<in> set fs" using Cons.prems(3) by simp
    moreover from this have "k \<noteq> k0" using Cons.prems(2) f by force
    ultimately show ?thesis using Cons.IH [OF kvs(3)] Cons.prems(2) kvs(1) by simp
  qed (use f kvs in simp)
qed simp

lemma conform_fields:
  assumes "conform lx (OModel m fs) j = Some v"
  obtains kvs kvs' where "j = JObj kvs" "v = JObj kvs'"
    "list_all2 (\<lambda>(k, t, d) (k', v). k' = k \<and> (case dict_get kvs k of None \<Rightarrow> d | Some w \<Rightarrow> conform lx t w) = Some v) fs kvs'"
proof -
  obtain kvs where j: "j = JObj kvs" using assms by (cases j) auto
  from assms j obtain kvs' where v: "v = JObj kvs'" "read_all (\<lambda>(k, t, d).
       map_option (Pair k) (case dict_get kvs k of None \<Rightarrow> d | Some w \<Rightarrow> conform lx t w)) fs = Some kvs'" by auto
  have "list_all2 (\<lambda>(k, t, d) (k', v). k' = k \<and> (case dict_get kvs k of None \<Rightarrow> d | Some w \<Rightarrow> conform lx t w) = Some v) fs kvs'"
    using v(2) unfolding read_all_Some by (rule list_all2_mono) (auto split: prod.splits)
  with j v(1) that show ?thesis by blast
qed

lemma all2_keys: "list_all2 (\<lambda>(k, t, d) (k', v). k' = k \<and> P k t d v) fs kvs \<Longrightarrow> map fst kvs = map fst fs"
  by (induction rule: list_all2_induct) auto

lemma conform_keys: "conform lx (OModel m fs) j = Some (JObj kvs) \<Longrightarrow> map fst kvs = map fst fs"
  by (erule conform_fields) (auto dest: all2_keys)

text \<open>What validation gives is a value of the model: validating it again gives it back.\<close>

lemma conform_idem: "sane lx t \<Longrightarrow> conform lx t j = Some v \<Longrightarrow> conform lx t v = Some v"
proof (induction t arbitrary: j v)
  case (OList t)
  then obtain js vs where js: "j = JArr js" "v = JArr vs" "list_all2 (\<lambda>x y. conform lx t x = Some y) js vs"
    by (cases j) (auto simp: read_all_Some)
  have "list_all2 (\<lambda>x y. conform lx t x = Some y) vs vs"
    using js(3) OList by (auto simp: list_all2_conv_all_nth)
  then show ?case by (simp add: js(2) read_all_Some)
next
  case (OModel m fs)
  from conform_fields [OF OModel.prems(2)] obtain kvs kvs' where k: "j = JObj kvs" "v = JObj kvs'"
    "list_all2 (\<lambda>(k, t, d) (k', v). k' = k \<and> (case dict_get kvs k of None \<Rightarrow> d | Some w \<Rightarrow> conform lx t w) = Some v) fs kvs'"
    by blast
  have sane: "distinct (map fst fs)"
    "\<And>k t d. (k, t, d) \<in> set fs \<Longrightarrow> sane lx t \<and> (case d of None \<Rightarrow> True | Some v \<Rightarrow> conform lx t v = Some v)"
    using OModel.prems(1) by (auto simp: list_all_iff)
  have step: "conform lx t w = Some w"
    if "(k, t, d) \<in> set fs" "(case dict_get kvs k of None \<Rightarrow> d | Some w \<Rightarrow> conform lx t w) = Some w" for k t d w
  proof (cases "dict_get kvs k")
    case (Some u)
    have "t \<in> Basic_BNFs.fsts (t, d)" "(t, d) \<in> Basic_BNFs.snds (k, t, d)" by (simp_all add: fsts.intros snds.intros)
    with OModel.IH [OF that(1)] sane(2) [OF that(1)] that(2) Some show ?thesis by auto
  qed (use that sane(2) [OF that(1)] in auto)
  have "list_all2 (\<lambda>x y. (case x of (k, t, d) \<Rightarrow>
       map_option (Pair k) (case dict_get kvs' k of None \<Rightarrow> d | Some w \<Rightarrow> conform lx t w)) = Some y) fs kvs'"
  proof (rule list_all2_all_nthI)
    show "length fs = length kvs'" using k(3) by (rule list_all2_lengthD)
    fix i assume i: "i < length fs"
    obtain k0 t d where f: "fs ! i = (k0, t, d)" by (cases "fs ! i")
    obtain w where w: "kvs' ! i = (k0, w)" "(case dict_get kvs k0 of None \<Rightarrow> d | Some w \<Rightarrow> conform lx t w) = Some w"
      using list_all2_nthD [OF k(3) i] f by (cases "kvs' ! i") auto
    have mem: "(k0, t, d) \<in> set fs" using f i by (metis nth_mem)
    from dict_get_all2 [OF k(3) sane(1) mem] w(2) have "dict_get kvs' k0 = Some w" by auto
    then show "(case fs ! i of (k, t, d) \<Rightarrow>
       map_option (Pair k) (case dict_get kvs' k of None \<Rightarrow> d | Some w \<Rightarrow> conform lx t w)) = Some (kvs' ! i)"
      using step [OF mem w(2)] f w(1) by simp
  qed
  then show ?case by (simp add: k(2) read_all_Some)
qed auto

section \<open>What a role answers\<close>

text \<open>
  The contract of Pydantic AI: an agent whose output type is \<open>str\<close> returns a text, one with a model returns an
  instance of it, which comes from validating some value.
\<close>

fun typed_output :: "lax \<Rightarrow> string \<Rightarrow> agent_output \<Rightarrow> bool" where
  "typed_output lx ty (TextOutput s) = (ty = ''str'')"
| "typed_output lx ty (ModelOutput kvs) =
     (case dict_get OUTPUT_MODELS ty of None \<Rightarrow> False | Some m \<Rightarrow> \<exists>j. conform lx m j = Some (JObj kvs))"
| "typed_output lx ty (OtherOutput j) = False"

definition role_answer :: "lax \<Rightarrow> RoleSpec \<Rightarrow> json \<Rightarrow> bool" where
  "role_answer lx s out =
     (case output_model s of
        None \<Rightarrow> (case out of JObj [(k, JStr t)] \<Rightarrow> k = ''result'' | _ \<Rightarrow> False)
      | Some n \<Rightarrow> (case dict_get OUTPUT_MODELS n of
            None \<Rightarrow> False
          | Some m \<Rightarrow> (case out of JObj kvs \<Rightarrow> map fst kvs = model_fields m | _ \<Rightarrow> False) \<and> conform lx m out = Some out))"

lemma serialised_answer:
  assumes "s \<in> set ROLE_TABLE" "typed_output lx (output_type_of s) out"
  shows "role_answer lx s (serialise_agent_output out)"
proof (cases "output_model s")
  case None
  have no_str: "dict_get OUTPUT_MODELS ''str'' = None" by code_simp
  from None have "output_type_of s = ''str''" by (simp add: output_type_of_def)
  with assms(2) None no_str show ?thesis by (cases out) (simp_all add: role_answer_def)
next
  case (Some n)
  then obtain m where m: "dict_get OUTPUT_MODELS n = Some m"
    using output_models_complete [unfolded list_all_iff, rule_format, OF assms(1)] by auto
  have ty: "output_type_of s = n" using Some by (simp add: output_type_of_def)
  have "n \<noteq> ''str''" using m by (auto simp: OUTPUT_MODELS_def model_defs split: if_splits)
  with assms(2) ty m obtain kvs j where out: "out = ModelOutput kvs" "conform lx m j = Some (JObj kvs)" by (cases out) auto
  have mem: "m \<in> snd ` set OUTPUT_MODELS" using m by (force dest: map_of_SomeD)
  then obtain k fs where mod: "m = OModel k fs" using output_models_objects by blast
  have "sane lx m" using output_models_sane mem by blast
  from conform_idem [OF this out(2)] conform_keys [OF out(2) [unfolded mod]] m Some show ?thesis
    by (simp add: role_answer_def out(1) mod)
qed

lemma handle_role_output:
  assumes "ends_with (fst (handle_role env show_float agent_run s req cur)) = Inr out"
  obtains ag t x c c' where "build_agent_for_role env s = Inr ag"
    "agent_run ag (dumps_sorted show_float (req_input req)) c = ((t, Inr x), c')" "out = serialise_agent_output x"
  using assms by (auto simp: handle_role_def bind_run_def split: sum.splits prod.splits)

lemma built_output_type: "build_agent_for_role env s = Inr ag \<Longrightarrow> ba_output_type ag = output_type_of s"
  by (auto simp: build_agent_for_role_def build_agent_def Let_def split: sum.splits)

lemma role_outputs_typed:
  assumes "s \<in> set ROLE_TABLE" "req_agent_name req = role_name s"
    and "\<And>ag p c t x c'. agent_run ag p c = ((t, Inr x), c') \<Longrightarrow> typed_output lx (ba_output_type ag) x"
    and "fst (invoke (register_compute_handlers env show_float agent_run (catalog_from n) []) elapsed req cur) = Inr r"
    and "resp_status r = ''ok''"
  shows "role_answer lx s (resp_output r)"
proof -
  let ?rt = "register_compute_handlers env show_float agent_run (catalog_from n) []"
  let ?o = "fst (handle_role env show_float agent_run s req (Some (run_context_of req)))"
  from invoke_response(5) [OF assms(4,5)] have "wait_for ?o (req_timeout_seconds req) = Inr (resp_output r)"
    using catalog_handler [OF assms(1)] by (simp add: handler_result_def assms(2))
  then have "ends_with ?o = Inr (resp_output r)" by (auto simp: wait_for_def split: option.splits sum.splits if_splits)
  then obtain ag t x c c' where x: "build_agent_for_role env s = Inr ag"
    "agent_run ag (dumps_sorted show_float (req_input req)) c = ((t, Inr x), c')" "resp_output r = serialise_agent_output x"
    by (rule handle_role_output)
  from assms(3) [OF x(2)] have "typed_output lx (output_type_of s) x" by (simp add: built_output_type [OF x(1)])
  from serialised_answer [OF assms(1) this] show ?thesis by (simp add: x(3))
qed

definition done_agent :: agent_runner where
  "done_agent ag p c =
     (if ba_output_type ag = ''Done'' then ((Some 1, Inr (ModelOutput [(''ok'', JBool True)])), c)
      else ((Some 1, Inl (OtherException ''UnexpectedModelBehavior'' ''no answer'')), c))"

lemma done_agent_typed: "done_agent ag p c = ((t, Inr x), c') \<Longrightarrow> typed_output strict (ba_output_type ag) x"
proof -
  have "conform strict done_model (JObj []) = Some (JObj [(''ok'', JBool True)])" by code_simp
  moreover have "dict_get OUTPUT_MODELS ''Done'' = Some done_model" by code_simp
  ultimately show "done_agent ag p c = ((t, Inr x), c') \<Longrightarrow> typed_output strict (ba_output_type ag) x"
    by (auto simp: done_agent_def split: if_splits)
qed

lemma orchestrator_answers:
  assumes "req_agent_name req = ''orchestrator''" "1 < req_timeout_seconds req"
  shows "fst (invoke (register_compute_handlers (\<lambda>k. Some ''key'') (\<lambda>q. []) done_agent (catalog_from 0) []) elapsed req cur)
    = Inr \<lparr>resp_agent_name = ''orchestrator'', resp_output = JObj [(''ok'', JBool True)],
           resp_duration_ms = duration_of elapsed, resp_status = ''ok'', resp_error = None\<rparr>"
proof -
  let ?s = "ROLE_TABLE ! 1"
  let ?rt = "register_compute_handlers (\<lambda>k. Some ''key'') (\<lambda>q. []) done_agent (catalog_from 0) []"
  have s: "?s \<in> set ROLE_TABLE" "role_name ?s = ''orchestrator''" "output_model ?s = Some ''Done''"
    by (simp_all add: ROLE_TABLE_def mk_role_def)
  have "handler_result ?rt req = Some (Inr (JObj [(''ok'', JBool True)]))"
    using catalog_handler [OF s(1), of "\<lambda>k. Some ''key''" "\<lambda>q. []" done_agent 0] s(2,3) assms
    by (simp add: handler_result_def handle_role_def build_agent_for_role_def build_agent_def read_api_key_def
        output_type_of_def done_agent_def bind_run_def wait_for_def Let_def)
  then show ?thesis by (simp add: invoke_result Let_def make_response_obj is_object_def assms(1))
qed

end
