(* ===== verification/Platform.thy ===== *)
theory Platform
  imports Service RoleOutputs Backends
begin

text \<open>
  The whole service with its own agents: requests, the queue and the workers of \<open>Service\<close>, whose calls go to the
  compute runtime with the catalog of roles registered (\<open>_register_agents\<close> of \<open>intelliqx_service/app.py\<close>).
\<close>

section \<open>Start and stop\<close>

text \<open>
  \<open>_register_agents\<close>: \<open>present\<close> says whether the package \<open>agents\<close> can be imported; without it the service
  starts with the handlers it has.
\<close>

definition register_agents ::
    "bool \<Rightarrow> (string \<Rightarrow> string option) \<Rightarrow> (rat \<Rightarrow> string) \<Rightarrow> agent_runner \<Rightarrow> AgentRole list \<Rightarrow> runtime \<Rightarrow> runtime" where
  "register_agents present env show_float agent_run cat rt =
     (if present then register_compute_handlers env show_float agent_run cat rt else rt)"

text \<open>
  The \<open>finally\<close> branch of \<open>lifespan\<close>: the workers are cancelled, which records nothing about the claims they hold
  (\<open>CancelledError\<close> is no \<open>Exception\<close>), the runtime is dropped and the store closed.
\<close>

definition shutdown :: "svc \<Rightarrow> runtime option \<Rightarrow> svc \<times> runtime option" where
  "shutdown s single = (s\<lparr>db := close (db s), in_flight := []\<rparr>, reset_compute_runtime single)"

section \<open>Steps\<close>

text \<open>
  As \<open>svc_step\<close>, but a claim ends with what the runtime \<open>rt\<close> answers to the request built from it, after any time
  and in any context.
\<close>

inductive platform_step :: "(run_row list \<Rightarrow> run_row) \<Rightarrow> Settings \<Rightarrow> runtime \<Rightarrow> svc \<Rightarrow> svc \<Rightarrow> bool"
  for pick cfg rt where
  Submit: "enqueue uuid a t p 1 now (db s) = Inr d \<Longrightarrow> platform_step pick cfg rt s (s\<lparr>db := d\<rparr>)"
| Poll_claim: "claim_next pick now (db s) = Inr (Some c, d) \<Longrightarrow>
    platform_step pick cfg rt s (s\<lparr>db := d, in_flight := c # in_flight s, history := fst c # history s\<rparr>)"
| Poll_idle: "claim_next pick now (db s) = Inr (None, d) \<Longrightarrow> platform_step pick cfg rt s (s\<lparr>db := d\<rparr>)"
| Finish: "c \<in> set (in_flight s) \<Longrightarrow>
    finish_claim cfg c (fst (invoke rt elapsed (build_invocation_request c) cur)) now (db s) = Inr d \<Longrightarrow>
    platform_step pick cfg rt s (s\<lparr>db := d, in_flight := remove1 c (in_flight s)\<rparr>)"
| Cancel: "cancel rid now (db s) = Inr (b, d) \<Longrightarrow> platform_step pick cfg rt s (s\<lparr>db := d\<rparr>)"

inductive platform_reachable :: "(run_row list \<Rightarrow> run_row) \<Rightarrow> Settings \<Rightarrow> runtime \<Rightarrow> svc \<Rightarrow> bool"
  for pick cfg rt where
  start: "platform_reachable pick cfg rt
    \<lparr>db = \<lparr>rows = [], run_ttl_seconds = ttl, closed = False\<rparr>, in_flight = [], history = []\<rparr>"
| step: "platform_reachable pick cfg rt s \<Longrightarrow> platform_step pick cfg rt s s' \<Longrightarrow> platform_reachable pick cfg rt s'"

inductive_cases platform_stepE: "platform_step pick cfg rt s s'"

text \<open>Every step of the platform is one of the service, so whatever holds of the service holds here.\<close>

lemma platform_step_svc: "platform_step pick cfg rt s s' \<Longrightarrow> svc_step pick cfg s s'"
  by (auto elim!: platform_stepE intro: svc_step.intros)

lemma platform_reachable_svc: "platform_reachable pick cfg rt s \<Longrightarrow> svc_reachable pick cfg s"
  by (induction rule: platform_reachable.induct) (auto intro: svc_reachable.intros platform_step_svc)

section \<open>The invariant\<close>

text \<open>What a succeeded run holds: the answer of the role it names.\<close>

definition typed_row :: "lax \<Rightarrow> run_row \<Rightarrow> bool" where
  "typed_row lx r \<longleftrightarrow> (\<exists>s\<in>set ROLE_TABLE. role_name s = agent_name r \<and>
     (\<exists>out. output_json r = Some out \<and> role_answer lx s out))"

text \<open>A claim names the agent of its run.\<close>

definition claim_ok :: "queue_db \<Rightarrow> claim \<Rightarrow> bool" where
  "claim_ok d c \<longleftrightarrow> fst c \<in> run_id ` set (rows d) \<and> (\<forall>r\<in>set (rows d). run_id r = fst c \<longrightarrow> agent_name r = fst (snd c))"

definition platform_inv :: "lax \<Rightarrow> svc \<Rightarrow> bool" where
  "platform_inv lx s \<longleftrightarrow> wf_db (db s) \<and> (\<forall>r\<in>set (rows (db s)). status r = SUCCEEDED \<longrightarrow> typed_row lx r)
     \<and> (\<forall>c\<in>set (in_flight s). claim_ok (db s) c)"

text \<open>An update that keeps names and ids keeps the claims.\<close>

definition keeps_names :: "(run_row \<Rightarrow> run_row) \<Rightarrow> bool" where
  "keeps_names f \<longleftrightarrow> (\<forall>r. run_id (f r) = run_id r \<and> agent_name (f r) = agent_name r)"

lemma claim_ok_update: "keeps_names f \<Longrightarrow> claim_ok d c \<Longrightarrow> claim_ok (update_where P f d) c"
proof -
  assume f: "keeps_names f" and ok: "claim_ok d c"
  have "map run_id (rows (update_where P f d)) = map run_id (rows d)"
    using f by (simp add: update_where_def keeps_names_def)
  from arg_cong [OF this, of set] have ids: "run_id ` set (rows (update_where P f d)) = run_id ` set (rows d)"
    by simp
  have "agent_name r = fst (snd c)" if r: "r \<in> set (rows (update_where P f d))" "run_id r = fst c" for r
  proof -
    obtain r0 where r0: "r0 \<in> set (rows d)" "r = (if P r0 then f r0 else r0)"
      using r(1) by (auto simp: update_where_def)
    then have "run_id r0 = run_id r" "agent_name r0 = agent_name r" using f by (simp_all add: keeps_names_def)
    then show ?thesis using ok r0(1) r(2) by (simp add: claim_ok_def)
  qed
  then show ?thesis using ids ok by (simp add: claim_ok_def)
qed

lemma platform_inv_update:
  assumes inv: "platform_inv lx s" and d: "db s' = update_where P f (db s)" and "keeps_keys f" "keeps_names f"
    and "\<And>r. r \<in> set (rows (db s)) \<Longrightarrow> P r \<Longrightarrow> status (f r) = SUCCEEDED \<Longrightarrow> typed_row lx (f r)"
    and "\<And>c. c \<in> set (in_flight s') \<Longrightarrow> claim_ok (db s) c"
  shows "platform_inv lx s'"
proof -
  have "wf_db (update_where P f (db s))" using inv assms(3) by (simp add: platform_inv_def wf_update_where)
  moreover have "typed_row lx r" if r: "r \<in> set (rows (update_where P f (db s)))" "status r = SUCCEEDED" for r
  proof -
    obtain r0 where r0: "r0 \<in> set (rows (db s))" "r = (if P r0 then f r0 else r0)"
      using r(1) by (auto simp: update_where_def)
    show ?thesis
    proof (cases "P r0")
      case True
      then show ?thesis using assms(5) [OF r0(1)] r0(2) r(2) by simp
    next
      case False
      then show ?thesis using inv r0 r(2) by (simp add: platform_inv_def)
    qed
  qed
  moreover have "claim_ok (update_where P f (db s)) c" if "c \<in> set (in_flight s')" for c
    by (rule claim_ok_update [OF assms(4) assms(6) [OF that]])
  ultimately show ?thesis by (simp add: platform_inv_def d)
qed

text \<open>Without the package no agent is registered and no run succeeds.\<close>

lemma no_handler_not_ok: "fst (invoke [] elapsed req cur) = Inr resp \<Longrightarrow> resp_status resp \<noteq> ''ok''"
  by (auto simp: invoke_result handler_result_def make_response_def Let_def split: json.splits)

lemma typed_answer:
  assumes "\<And>ag p c t x c'. agent_run ag p c = ((t, Inr x), c') \<Longrightarrow> typed_output lx (ba_output_type ag) x"
    and rt: "rt = register_agents present env show_float agent_run (catalog_from n) []"
    and "fst (invoke rt elapsed req cur) = Inr resp" "resp_status resp = ''ok''"
  shows "\<exists>s\<in>set ROLE_TABLE. role_name s = req_agent_name req \<and> role_answer lx s (resp_output resp)"
proof -
  have present
    using no_handler_not_ok assms(3,4) by (cases present) (auto simp: rt register_agents_def)
  then have rt: "rt = register_compute_handlers env show_float agent_run (catalog_from n) []"
    by (simp add: rt register_agents_def)
  have found: "dict_get rt (req_agent_name req) \<noteq> None"
    using invoke_response(4) [OF assms(3)] assms(4) by auto
  have "req_agent_name req \<in> rl_name ` set (catalog_from n)"
  proof (rule ccontr)
    assume "\<not> ?thesis"
    from fold_register_other [OF this, where h = "\<lambda>role. handle_role env show_float agent_run (snd (rl_factory role))" and rt = "[]"]
    show False using found by (simp add: rt register_compute_handlers_def)
  qed
  also have "rl_name ` set (catalog_from n) = role_name ` set ROLE_TABLE"
    using arg_cong [OF catalog_names, of set n] by simp
  finally obtain s where s: "s \<in> set ROLE_TABLE" "req_agent_name req = role_name s" by auto
  have "role_answer lx s (resp_output resp)"
    by (rule role_outputs_typed [OF s assms(1) assms(3) [unfolded rt] assms(4)])
  then show ?thesis using s by (intro bexI [of _ s]) simp_all
qed

text \<open>Every step keeps the invariant.\<close>

lemma keeps_names_status [simp]:
  "keeps_names (\<lambda>r. r\<lparr>status := st, updated_at := now\<rparr>)"
  "keeps_names (\<lambda>r. r\<lparr>status := st, attempts := n, updated_at := now\<rparr>)"
  "keeps_names (\<lambda>r. r\<lparr>status := st, output_json := out, error := err, duration_ms := d,
                     updated_at := now\<rparr>)"
  by (simp_all add: keeps_names_def)

lemma platform_inv_submit:
  assumes inv: "platform_inv lx s" and "enqueue uuid a t p m now (db s) = Inr d"
  shows "platform_inv lx (s\<lparr>db := d\<rparr>)"
proof -
  have w: "wf_db d" using enqueue_ok(1) [OF _ assms(2)] inv by (simp add: platform_inv_def)
  obtain r0 where new: "uuid \<notin> run_id ` set (rows (db s))"
    and d: "rows d = rows (db s) @ [r0]" "run_id r0 = uuid" "status r0 = PENDING"
    using assms(2) by (auto simp: enqueue_def split: if_splits)
  have "claim_ok d c" if "claim_ok (db s) c" for c
    using that new d unfolding claim_ok_def by auto
  with w inv d show ?thesis by (auto simp: platform_inv_def)
qed

lemma platform_inv_claim:
  assumes inv: "platform_inv lx s" and pick: "pick_ok pick" and cl: "claim_next pick now (db s) = Inr (Some c, d)"
  shows "platform_inv lx (s\<lparr>db := d, in_flight := c # in_flight s, history := h\<rparr>)"
proof -
  obtain rid a p t n where c: "c = (rid, a, p, t, n)" by (cases c)
  have w: "wf_db (db s)" using inv by (simp add: platform_inv_def)
  obtain r where r: "row_of (db s) rid = Some r" "a = agent_name r"
    using claim_next_some [OF pick w cl [unfolded c]] by blast
  obtain P where d: "d = update_where P (\<lambda>r. r\<lparr>status := RUNNING, attempts := n, updated_at := now\<rparr>) (db s)"
    using cl by (auto simp: claim_next_def Let_def c split: if_splits list.splits)
  have "claim_ok (db s) c"
    unfolding claim_ok_def c
  proof (intro conjI ballI impI)
    show "fst (rid, a, p, t, n) \<in> run_id ` set (rows (db s))" using row_of_Some [OF r(1)] by auto
    fix r' assume "r' \<in> set (rows (db s))" "run_id r' = fst (rid, a, p, t, n)"
    then show "agent_name r' = fst (snd (rid, a, p, t, n))" using row_of_in [OF w, of r'] r by simp
  qed
  then show ?thesis
    by (intro platform_inv_update [OF inv, where P = P]) (use d inv in \<open>auto simp: platform_inv_def\<close>)
qed

lemma finish_claim_outcome:
  assumes "finish_claim cfg (rid, a, p, t, n) res now d = Inr d'"
  obtains (answered) resp where "res = Inr resp" "resp_status resp = ''ok''"
      "complete rid SUCCEEDED (Some (resp_output resp)) None (resp_duration_ms resp) now d = Inr d'"
  | (failed) err dur where "complete rid FAILED None err dur now d = Inr d'"
  | (requeued) "requeue rid (n + 1) now d = Inr d'"
  | (dropped) "d' = d"
proof (cases res)
  case (Inl e)
  with assms show thesis by (cases e) (auto simp: finish_claim_def intro: failed dropped)
next
  case (Inr resp)
  with assms show thesis
    by (auto simp: finish_claim_def record_outcome_def split: if_splits intro: answered failed requeued)
qed

lemma platform_inv_finish:
  assumes inv: "platform_inv lx s" and c: "c \<in> set (in_flight s)" "c = (rid, a, p, t, n)"
    and fin: "finish_claim cfg c res now (db s) = Inr d"
    and answer: "\<And>resp. res = Inr resp \<Longrightarrow> resp_status resp = ''ok'' \<Longrightarrow>
      \<exists>s\<in>set ROLE_TABLE. role_name s = a \<and> role_answer lx s (resp_output resp)"
  shows "platform_inv lx (s\<lparr>db := d, in_flight := remove1 c (in_flight s)\<rparr>)" (is "platform_inv lx ?s")
proof -
  have ok: "claim_ok (db s) c'" if "c' \<in> set (in_flight ?s)" for c'
    using inv that notin_set_remove1 [of c' "in_flight s" c] by (auto simp: platform_inv_def)
  have named: "agent_name r = a" if "r \<in> set (rows (db s))" "run_id r = rid" for r
    using inv c that by (auto simp: platform_inv_def claim_ok_def)
  note upd = platform_inv_update [OF inv, where s' = ?s and P = "\<lambda>r. run_id r = rid", OF _ _ _ _ ok]
  from fin [unfolded c(2)] show ?thesis
  proof (cases rule: finish_claim_outcome)
    case (answered resp)
    then obtain sp where sp: "sp \<in> set ROLE_TABLE" "role_name sp = a" "role_answer lx sp (resp_output resp)"
      using answer by blast
    show ?thesis
    proof (rule upd [OF _ keeps_keys_status(3) keeps_names_status(3)])
      show "db ?s = update_where (\<lambda>r. run_id r = rid) (\<lambda>r. r\<lparr>status := SUCCEEDED,
          output_json := Some (resp_output resp), error := None, duration_ms := resp_duration_ms resp,
          updated_at := now\<rparr>) (db s)"
        using answered(3) by (simp add: complete_def split: if_splits)
    qed (use sp named in \<open>auto simp: typed_row_def\<close>)
  next
    case (failed err dur)
    then have "db ?s = update_where (\<lambda>r. run_id r = rid) (\<lambda>r. r\<lparr>status := FAILED, output_json := None,
        error := err, duration_ms := dur, updated_at := now\<rparr>) (db s)"
      by (simp add: complete_def split: if_splits)
    from upd [OF this keeps_keys_status(3) keeps_names_status(3)] show ?thesis by simp
  next
    case requeued
    then have "db ?s = update_where (\<lambda>r. run_id r = rid) (\<lambda>r. r\<lparr>status := PENDING, attempts := n + 1,
        updated_at := now\<rparr>) (db s)"
      by (simp add: requeue_def split: if_splits)
    from upd [OF this keeps_keys_status(2) keeps_names_status(2)] show ?thesis by simp
  next
    case dropped
    then show ?thesis using inv ok by (simp add: platform_inv_def)
  qed
qed

lemma platform_inv_step:
  assumes "platform_step pick cfg rt s s'" and inv: "platform_inv lx s" and pick: "pick_ok pick"
    and rt: "rt = register_agents present env show_float agent_run (catalog_from n) []"
    and typed: "\<And>ag p c t x c'. agent_run ag p c = ((t, Inr x), c') \<Longrightarrow> typed_output lx (ba_output_type ag) x"
  shows "platform_inv lx s'"
  using assms(1)
proof cases
  case (Submit uuid a t p now d)
  then show ?thesis using platform_inv_submit [OF inv] by simp
next
  case (Poll_claim now c d)
  then show ?thesis using platform_inv_claim [OF inv pick] by simp
next
  case (Poll_idle now d)
  have ok: "claim_ok (db s) c" if "c \<in> set (in_flight s')" for c
    using inv that Poll_idle(1) by (simp add: platform_inv_def)
  have w: "wf_db (db s)" using inv by (simp add: platform_inv_def)
  from claim_next_none [OF pick w Poll_idle(2)] show ?thesis
  proof
    assume "d = db s \<and> (\<forall>r\<in>set (rows (db s)). status r \<noteq> PENDING)"
    then show ?thesis using inv Poll_idle(1) by simp
  next
    assume "\<exists>r. r \<in> set (oldest_pending (rows (db s))) \<and> row_of (db s) (run_id r) = Some r \<and>
      max_retries r \<le> run_row.attempts r \<and>
      d = update_where (\<lambda>r'. rowid r' = rowid r) (\<lambda>r. r\<lparr>status := FAILED, updated_at := now\<rparr>) (db s) \<and>
      view d = (view (db s))(run_id r \<mapsto> (FAILED, run_row.attempts r, max_retries r)) \<and> wf_db d"
    then obtain P where d: "db s' = update_where P (\<lambda>r. r\<lparr>status := FAILED, updated_at := now\<rparr>) (db s)"
      using Poll_idle(1) by auto
    show ?thesis by (rule platform_inv_update [OF inv d _ _ _ ok]) simp_all
  qed
next
  case (Finish c elapsed cur now d)
  obtain rid a p t n where c: "c = (rid, a, p, t, n)" by (cases c)
  have "req_agent_name (build_invocation_request c) = a" by (simp add: build_invocation_request_def c)
  then show ?thesis
    using platform_inv_finish [OF inv Finish(2) c Finish(3)] typed_answer [OF typed rt] Finish(1) by auto
next
  case (Cancel rid now b d)
  have ok: "claim_ok (db s) c" if "c \<in> set (in_flight s')" for c
    using inv that Cancel(1) by (simp add: platform_inv_def)
  show ?thesis
  proof (cases "d = db s")
    case True
    then show ?thesis using inv Cancel(1) by simp
  next
    case False
    then have d: "db s' = update_where (\<lambda>r. run_id r = rid) (\<lambda>r. r\<lparr>status := CANCELLED, updated_at := now\<rparr>) (db s)"
      using Cancel by (auto simp: cancel_def split: if_splits option.splits)
    show ?thesis by (rule platform_inv_update [OF inv d _ _ _ ok]) simp_all
  qed
qed

lemma platform_reachable_inv:
  assumes "platform_reachable pick cfg rt s" "pick_ok pick"
    and "rt = register_agents present env show_float agent_run (catalog_from n) []"
    and "\<And>ag p c t x c'. agent_run ag p c = ((t, Inr x), c') \<Longrightarrow> typed_output lx (ba_output_type ag) x"
  shows "platform_inv lx s"
  using assms(1)
proof (induction rule: platform_reachable.induct)
  case (start ttl)
  show ?case by (simp add: platform_inv_def wf_db_def)
next
  case (step s s')
  show ?case by (rule platform_inv_step [OF step.hyps(2) step.IH assms(2-4)])
qed

section \<open>Properties\<close>

text \<open>
  C17: in every state the service can reach with the roles it registers, in any interleaving of requests and workers,
  a run read as SUCCEEDED names a role of the catalog and holds an output of that role's type: a text under
  \<open>result\<close> for a role without a model, else an object that validates against the model unchanged.
\<close>

theorem succeeded_runs_typed:
  assumes "platform_reachable pick cfg (register_agents present env show_float agent_run (catalog_from n) []) s"
    and "pick_ok pick"
    and "\<And>ag p c t x c'. agent_run ag p c = ((t, Inr x), c') \<Longrightarrow> typed_output lx (ba_output_type ag) x"
    and "get rid (db s) = Inr (Some r)" "rec_status r = SUCCEEDED"
  shows "\<exists>sp\<in>set ROLE_TABLE. role_name sp = rec_agent_name r \<and>
    (\<exists>out. rec_output r = Some out \<and> role_answer lx sp out)"
proof -
  obtain row where row: "row \<in> set (rows (db s))" "r = row_to_record row"
    using assms(4) by (auto simp: get_def select_run_row_of split: if_splits dest: row_of_Some)
  have "platform_inv lx s" by (rule platform_reachable_inv [OF assms(1,2) refl assms(3)])
  then have "typed_row lx row" using row assms(5) by (simp add: platform_inv_def row_to_record_def)
  then show ?thesis by (simp add: typed_row_def row(2) row_to_record_def)
qed

definition demo_runtime :: runtime where
  "demo_runtime = register_agents True (\<lambda>k. Some ''key'') (\<lambda>q. []) done_agent (catalog_from 0) []"

definition orchestrator_row :: run_row where
  "orchestrator_row = demo_row\<lparr>agent_name := ''orchestrator''\<rparr>"

definition orchestrator_claim :: claim where
  "orchestrator_claim = (''r1'', ''orchestrator'', JObj [], ''t1'', 1)"

definition orchestrator_done :: svc where
  "orchestrator_done = \<lparr>db = demo_db [orchestrator_row\<lparr>status := SUCCEEDED, attempts := 1, updated_at := 8,
       output_json := Some (JObj [(''ok'', JBool True)]), duration_ms := duration_of 1\<rparr>],
     in_flight = [], history = [''r1'']\<rparr>"

lemma orchestrator_done_reachable: "platform_reachable hd demo_cfg demo_runtime orchestrator_done"
proof -
  let ?s0 = "\<lparr>db = demo_db [], in_flight = [], history = []\<rparr>"
  let ?s1 = "\<lparr>db = demo_db [orchestrator_row], in_flight = [], history = []\<rparr>"
  let ?s2 = "\<lparr>db = demo_db [orchestrator_row\<lparr>status := RUNNING, attempts := 1, updated_at := 6\<rparr>],
     in_flight = [orchestrator_claim], history = [''r1'']\<rparr>"
  note defs = demo_db_def demo_row_def orchestrator_row_def orchestrator_claim_def orchestrator_done_def
  have "platform_reachable hd demo_cfg demo_runtime ?s0"
    using platform_reachable.start [of hd demo_cfg demo_runtime 3600] by (simp add: defs)
  moreover have "platform_step hd demo_cfg demo_runtime ?s0 ?s1"
    using platform_step.Submit [where s = ?s0 and uuid = "''r1''" and a = "''orchestrator''" and t = "''t1''"
        and p = "JObj []" and now = 5 and d = "db ?s1" and pick = hd and cfg = demo_cfg and rt = demo_runtime]
    by (simp add: defs enqueue_def next_rowid_def)
  ultimately have "platform_reachable hd demo_cfg demo_runtime ?s1" by (rule platform_reachable.step)
  moreover have "platform_step hd demo_cfg demo_runtime ?s1 ?s2"
    using platform_step.Poll_claim [where s = ?s1 and now = 6 and c = orchestrator_claim
        and d = "db ?s2" and pick = hd and cfg = demo_cfg and rt = demo_runtime]
    by (simp add: defs claim_next_def oldest_pending_def update_where_def)
  ultimately have "platform_reachable hd demo_cfg demo_runtime ?s2" by (rule platform_reachable.step)
  moreover have "platform_step hd demo_cfg demo_runtime ?s2 orchestrator_done"
    using platform_step.Finish [where s = ?s2 and c = orchestrator_claim and elapsed = 1 and cur = None and now = 8
        and d = "db orchestrator_done" and pick = hd and cfg = demo_cfg and rt = demo_runtime]
      orchestrator_answers [of "build_invocation_request orchestrator_claim" 1 None]
    by (simp add: defs demo_runtime_def register_agents_def finish_claim_def record_outcome_def complete_def
        update_where_def build_invocation_request_def)
  ultimately show ?thesis by (rule platform_reachable.step)
qed

lemma succeeded_runs_typed_witness:
  "\<exists>sp\<in>set ROLE_TABLE. role_name sp = ''orchestrator'' \<and> role_answer strict sp (JObj [(''ok'', JBool True)])"
proof -
  have "get ''r1'' (db orchestrator_done) = Inr (Some (row_to_record (hd (rows (db orchestrator_done)))))"
    by (simp add: orchestrator_done_def demo_db_def get_def select_run_def orchestrator_row_def demo_row_def)
  from succeeded_runs_typed [OF orchestrator_done_reachable [unfolded demo_runtime_def] pick_ok_hd done_agent_typed this]
  show ?thesis
    by (simp add: orchestrator_done_def demo_db_def orchestrator_row_def demo_row_def row_to_record_def)
qed

text \<open>
  A run for an agent that is in no catalog is accepted with 202 all the same; its only trace is the FAILED row with the
  runtime's message.
\<close>

lemma unregistered_agent:
  assumes "rt = register_agents present env show_float agent_run (catalog_from n) []"
    and "req_agent_name req \<notin> role_name ` set ROLE_TABLE"
  shows "fst (invoke rt elapsed req cur) = Inr \<lparr>resp_agent_name = req_agent_name req, resp_output = JObj [],
    resp_duration_ms = 0, resp_status = ''not_found'',
    resp_error = Some (''No handler registered for agent '' @ py_repr (req_agent_name req))\<rparr>"
proof -
  have "rl_name ` set (catalog_from n) = role_name ` set ROLE_TABLE"
    using arg_cong [OF catalog_names, of set n] by simp
  then have new: "req_agent_name req \<notin> rl_name ` set (catalog_from n)" using assms(2) by simp
  have "dict_get rt (req_agent_name req) = None"
    using fold_register_other [OF new, where h = "\<lambda>role. handle_role env show_float agent_run (snd (rl_factory role))" and rt = "[]"]
    by (simp add: assms(1) register_agents_def register_compute_handlers_def)
  then show ?thesis by (simp add: invoke_result handler_result_def Let_def make_response_obj)
qed

lemma unknown_agent_fails:
  assumes "\<not> closed s" "wf_db s" "nothing_pending (view s)" "row_of s uuid = None" "pick_ok pick"
    and "require_token cfg req = Inr ()" "require_token cfg req' = Inr ()"
    and "read_json_object json_loads req = Inr kvs" "validate_submission kvs = Some sub"
    and rt: "rt = register_agents present env show_float agent_run (catalog_from n) []"
    and unknown: "RunSubmission.agent sub \<notin> role_name ` set ROLE_TABLE" and once: "set_max_retries cfg \<le> 1"
  shows "\<exists>s1 s2 r.
    handle json_loads isoformat show_metric reg cfg uuid now SubmitRun req s =
      (Response 202 (JObj [(''run_id'', JStr uuid), (''status'', JStr ''PENDING'')]), s1) \<and>
    worker_iter pick (\<lambda>q. fst (invoke rt elapsed q cur)) cfg t1 t2 s1 = Inr s2 \<and>
    handle json_loads isoformat show_metric reg' cfg u' now' (GetRun uuid) req' s2 = (Response 200 (as_dict isoformat r), s2) \<and>
    rec_status r = FAILED \<and> rec_output r = None \<and>
    rec_error r = Some (''No handler registered for agent '' @ py_repr (RunSubmission.agent sub))"
proof -
  let ?call = "\<lambda>q. fst (invoke rt elapsed q cur)"
  have name: "req_agent_name (submitted_request uuid sub) = RunSubmission.agent sub"
    by (simp add: submitted_request_def)
  have failed: "run_outcome cfg (?call (submitted_request uuid sub)) =
      (FAILED, None, Some (''No handler registered for agent '' @ py_repr (RunSubmission.agent sub)), 1)"
    using unregistered_agent [OF rt, of "submitted_request uuid sub"] unknown once by (simp add: run_outcome_def name)
  show ?thesis
    using run_served [OF assms(1-9), where call = ?call, unfolded failed prod.inject] by blast
qed

text \<open>
  What a shutdown leaves: the store answers nothing any more, and the rows are as they were, so a run that a worker
  held stays RUNNING.
\<close>

lemma shutdown_keeps_rows:
  assumes "shutdown s single = (s', single')"
  shows "rows (db s') = rows (db s)" "in_flight s' = []" "single' = None"
    "get rid (db s') = Inl ProgrammingError" "claim_next pick now (db s') = Inl ProgrammingError"
  using assms by (auto simp: shutdown_def reset_compute_runtime_def close_def get_def claim_next_def)

text \<open>The next start does not pick such a run up: only PENDING rows are claimed.\<close>

lemma running_run_not_resumed:
  assumes "pick_ok pick" "wf_db d" "claim_next pick now d = Inr (Some c, d')" "row_of d rid = Some r" "status r = RUNNING"
  shows "fst c \<noteq> rid"
proof -
  obtain rid' a p t n where c: "c = (rid', a, p, t, n)" by (cases c)
  obtain r' where "r' \<in> set (oldest_pending (rows d))" "row_of d rid' = Some r'"
    using claim_next_some [OF assms(1,2) assms(3) [unfolded c]] by blast
  then show ?thesis using assms(4,5) by (auto simp: c oldest_pending_iff)
qed

end
