(* ===== verification/SdkManifest.thy ===== *)
theory SdkManifest
  imports Sdk SgirJson
begin

text \<open>
  Reading and writing agent manifests (\<open>intelliqx_sdk/manifest.py\<close>).  The text of a JSON value is the parameter
  \<open>render\<close>, its reading \<open>parse\<close>.
\<close>

definition AGENT_CATEGORIES :: "AgentCategory list" where
  "AGENT_CATEGORIES = [Coordination, Intelligence, Execution, Governance]"

interpretation category: json_codec "write_enum category_value" "read_enum category_value AGENT_CATEGORIES"
  by standard (case_tac x; simp add: write_enum_def read_enum_def AGENT_CATEGORIES_def)

definition MANIFEST_FIELDS :: "string list" where
  "MANIFEST_FIELDS = [''name'', ''version'', ''category'', ''description'', ''author'', ''input_schema'',
       ''output_schema'', ''capabilities'', ''permissions'', ''signature'', ''entrypoint'']"

definition write_manifest :: "AgentManifest \<Rightarrow> json" where
  "write_manifest x = JObj
    [(''name'', JStr (mf_name x)),
     (''version'', JStr (mf_version x)),
     (''category'', write_enum category_value (mf_category x)),
     (''description'', JStr (mf_description x)),
     (''author'', JStr (mf_author x)),
     (''input_schema'', JObj (mf_input_schema x)),
     (''output_schema'', JObj (mf_output_schema x)),
     (''capabilities'', JArr (map JStr (mf_capabilities x))),
     (''permissions'', JArr (map JStr (permissions x))),
     (''signature'', write_opt JStr (signature x)),
     (''entrypoint'', JStr (entrypoint x))]"

definition read_manifest :: "lax \<Rightarrow> AgentManifest reader" where
  "read_manifest lx j = do {
     kvs \<leftarrow> read_object MANIFEST_FIELDS j;
     name \<leftarrow> required kvs ''name'' read_str;
     version \<leftarrow> required kvs ''version'' read_str;
     category \<leftarrow> required kvs ''category'' (read_enum category_value AGENT_CATEGORIES);
     description \<leftarrow> with_default [] kvs ''description'' read_str;
     author \<leftarrow> with_default [] kvs ''author'' read_str;
     input_schema \<leftarrow> with_default [] kvs ''input_schema'' read_dict;
     output_schema \<leftarrow> with_default [] kvs ''output_schema'' read_dict;
     capabilities \<leftarrow> with_default [] kvs ''capabilities'' (read_list read_str);
     permissions \<leftarrow> with_default [] kvs ''permissions'' (read_list read_str);
     signature \<leftarrow> with_default None kvs ''signature'' (read_opt read_str);
     entrypoint \<leftarrow> with_default ''agent:Agent'' kvs ''entrypoint'' read_str;
     Some \<lparr>mf_name = name, mf_version = version, mf_category = category, mf_description = description,
       mf_author = author, mf_input_schema = input_schema, mf_output_schema = output_schema, mf_capabilities =
       capabilities, permissions = permissions, signature = signature, entrypoint = entrypoint\<rparr> }"

interpretation manifest: json_codec write_manifest "read_manifest lx" for lx
proof
  fix x
  show "read_manifest lx (write_manifest x) = Some x"
    by (cases x) (simp add: read_manifest_def write_manifest_def MANIFEST_FIELDS_def record_fields codec_simps
       category.dec_enc)
qed

datatype manifest_error = ManifestFile store_error | ManifestInvalid

definition load_manifest :: "(string \<Rightarrow> json option) \<Rightarrow> lax \<Rightarrow> fs_path \<Rightarrow> file_system \<Rightarrow> manifest_error + AgentManifest" where
  "load_manifest parse lx p fs =
     (case read_text p fs of
        Inl e \<Rightarrow> Inl (ManifestFile e)
      | Inr s \<Rightarrow> (case Option.bind (parse s) (read_manifest lx) of None \<Rightarrow> Inl ManifestInvalid | Some m \<Rightarrow> Inr m))"

definition dump_manifest :: "(json \<Rightarrow> string) \<Rightarrow> AgentManifest \<Rightarrow> fs_path \<Rightarrow> file_system \<Rightarrow> store_error + file_system" where
  "dump_manifest render m p fs = write_text p (render (write_manifest m)) fs"

lemma manifest_file_roundtrip:
  assumes "parse (render (write_manifest m)) = Some (write_manifest m)" "dump_manifest render m p fs = Inr fs'"
    and "CHR 0x0D \<notin> set (render (write_manifest m))"
  shows "load_manifest parse lx p fs' = Inr m"
  using assms by (simp add: dump_manifest_def load_manifest_def read_after_write manifest.dec_enc)

text \<open>A manifest without a version, or with a field that the model does not have, is refused.\<close>

lemma manifest_refused:
  "read_manifest lx (JObj [(''name'', JStr n), (''category'', JStr ''execution'')]) = None"
  "read_manifest lx (JObj [(''name'', JStr n), (''version'', JStr v), (''category'', JStr ''execution''), (''homepage'', j)]) = None"
  by (simp_all add: read_manifest_def MANIFEST_FIELDS_def record_fields)

end
