(* ===== verification/Spec2Isabelle.thy ===== *)
theory Spec2Isabelle
  imports Service OptPipeline KvStore ObjectStore CoreModels Tools GraphBuild KnowledgeGraph Events Tenant Sdk Metrics OkfBundle OkfIndex PyParser
    SecurityAgent ArchPerfAgents Logging Operations Agents ParsedGraphs KgQuery Backends AgentBase AiEmbed JsonOps Platform SdkManifest
begin

text \<open>
  A verification of intelliqx: a service that runs agents over a queue of runs, and the library of
  packages below it.  Names are those of the source where Isabelle allows them; paths are under \<open>src/\<close>,
  and \<open>intelliqx_x/f.py\<close> is the file \<open>libs/intelliqx-x/src/intelliqx_x/f.py\<close>.

  \<^bold>\<open>The program.\<close>  An HTTP request is authenticated and becomes a row of the run queue; embedded
  workers claim rows, call the agent through the compute runtime and complete, requeue or fail them.
  The agents come from a role table and a registry.  Apart from the service, the graph package parses
  a Python repository into entities, builds one graph per layer, optimises the graphs under a behaviour
  check, analyses them and generates Python again; a script runs all of this on a repository, audits its files and
  repairs some of what it finds; the OKF packages load, validate and index documents.
  Smaller packages hold stores, tools, events, tenants, metrics and logging.

  \<^bold>\<open>Theories, in the order of their imports.\<close>

  \<^item> \<open>Prelude\<close>: Python values as HOL values: JSON, dicts as association lists in insertion order, string
    methods, \<open>repr\<close>, error sums, and the hints that the proofs share.
  \<^item> \<open>Compute\<close> (\<open>intelliqx_compute/runtime.py\<close>, \<open>intelliqx_agents/base.py\<close>): the in-process runtime; an
    agent is a function from its request and run context to an outcome, and a time limit is compared with the time the
    outcome takes.  The locale \<open>compute_runtime\<close> is the contract the worker uses: for sound handlers a call answers with a response whose status is one of the known ones, and an error text is there exactly if it is not \<open>ok\<close>.
  \<^item> \<open>RunQueue\<close> (\<open>intelliqx_service/state.py\<close>): the table as a list of rows, one function per method.
    The locale \<open>run_queue\<close> is the contract of the six operations on rows seen as a map; \<open>sqlite\<close> interprets it.
  \<^item> \<open>Service\<close> (\<open>intelliqx_service/app.py\<close>, \<open>auth.py\<close>): settings, routes, one worker's turn, and the
    interleaving of requests, several workers and time as the step relation \<open>svc_step\<close>; \<open>spec_step\<close> is the
    abstract service, a set of runs with their lives, which \<open>service_refines_spec\<close> shows it to implement;
    \<open>budget_reachable\<close> adds runs queued with any retry budget, for \<open>run_budget_kept\<close>;
    \<open>submitted_run_outcome\<close> follows one run from its submission through a worker's turn to the answer of a query.
  \<^item> \<open>SgirModels\<close> (\<open>intelliqx_graph/models.py\<close>), \<open>GraphIndex\<close> (\<open>query.py\<close>), \<open>NxList\<close>: the data of software
    graphs, and the queries over the graph library.  The library is a record of functions (\<open>networkx\<close>,
    \<open>nx_data\<close>) with its documented behaviour as the hypotheses \<open>nx_documented\<close> and \<open>nx_data_documented\<close>;
    \<open>NxList\<close> and \<open>FlowAgent.list_nd\<close> are instances that satisfy them, on which the witnesses compute.
  \<^item> \<open>OptPasses\<close>, \<open>PassFacts\<close>, \<open>OptVerify\<close>, \<open>OptPipeline\<close> (\<open>optimization/passes.py\<close>, \<open>verification.py\<close>,
    \<open>pipeline.py\<close>): the six passes, what each does, the behaviour check, and the pipeline with its rollback.
    \<open>RiskLevel\<close> is an instance of \<open>linorder\<close>.
  \<^item> \<open>Layers\<close>, \<open>LayerBuilders\<close>, \<open>GraphBuild\<close> (\<open>parsers/__init__.py\<close>, \<open>layers.py\<close>, \<open>optimization/layers/*.py\<close>): the
    eight builders.  The locale \<open>layer_builder\<close> is what the registry needs of a builder, and every builder interprets it.
  \<^item> \<open>PyParser\<close> (\<open>parsers/python_parser.py\<close>): the visitor over syntax trees; Python's \<open>ast.parse\<close> is a parameter.
  \<^item> \<open>PyBackend\<close>, \<open>Operations\<close> (\<open>backends/python_backend.py\<close>, \<open>operations.py\<close>, \<open>repository.py\<close>): code
    generation, and the entry points that scan, parse, build, optimise, generate and ingest.
  \<^item> \<open>JsonCodec\<close>, \<open>SgirJson\<close>, \<open>JsonOps\<close>, \<open>SdkManifest\<close> (\<open>serialization.py\<close>, the boundaries of \<open>operations.py\<close>,
    \<open>intelliqx_sdk/manifest.py\<close>): models as JSON values.  The locale \<open>json_codec\<close>, that what is dumped validates to the same
    value, is interpreted on every model of the software graph, on entities and on manifests; the conversions from other
    types (\<open>lax\<close>) and the text of JSON are parameters.
  \<^item> \<open>FlowAgent\<close>, \<open>SecurityAgent\<close>, \<open>ArchPerfAgents\<close> (\<open>analysis/*.py\<close>): the analyses and their reports.
  \<^item> \<open>OkfConcept\<close>, \<open>OkfBundle\<close>, \<open>OkfIndex\<close> (\<open>intelliqx_okf\<close>): documents, bundles and their validators, the
    search index.  YAML, the embedder, full-text and nearest-neighbour search are parameters.
  \<^item> \<open>KvStore\<close> (\<open>intelliqx_state/store.py\<close>) and \<open>ObjectStore\<close> (\<open>intelliqx_storage\<close>): the stores, with the
    locales \<open>ttl_map\<close> and \<open>object_map\<close>; the latter is interpreted on the in-memory and on the file-system store.
    The file system resolves paths step by step, \<open>..\<close> included; its contract is for keys without \<open>..\<close>, and what such keys
    reach is shown apart.
  \<^item> \<open>KnowledgeGraph\<close>, \<open>KgQuery\<close> (\<open>intelliqx_kg/graph.py\<close>): the tables, buffers and partitions on the object store; the views,
    the SQL of the queries with its bound parameters, and the singleton.  What DuckDB answers is the parameter \<open>exec\<close>.
  \<^item> \<open>Backends\<close>: the registries of backends and the singletons of the stores, the event bus, the compute runtime and the
    metrics.  The locale \<open>singleton_access\<close>, that a first success is final, is interpreted on the three that are chosen by name.
  \<^item> \<open>CoreModels\<close>, \<open>Events\<close>, \<open>Tenant\<close>, \<open>Tools\<close>, \<open>Sdk\<close>, \<open>Metrics\<close> (the packages of these names): shared data,
    the event bus with its dead-letter queues, tenants, the tool manager with its token bucket, the sandbox's limits, and metrics.
  \<^item> \<open>PyRegex\<close>, \<open>Logging\<close> (\<open>intelliqx_observability/logging.py\<close>): a matcher for the regular expressions the code uses, and the logging stack with its redaction.
  \<^item> \<open>Agents\<close> (\<open>agents/ai/roles.py\<close>, \<open>agents/__init__.py\<close>, \<open>intelliqx_agents/registry.py\<close>, \<open>intelliqx_ai/runtime.py\<close>):
    the role table, the factories and the compute handlers; the run of a language model is the parameter \<open>agent_run\<close>.
  \<^item> \<open>RoleOutputs\<close> (\<open>agents/ai/roles.py\<close>): the output models of the roles as data, their validation, and the type of an answer.
  \<^item> \<open>Platform\<close> (\<open>intelliqx_service/app.py\<close>): the service together with the roles it registers, as the step relation
    \<open>platform_step\<close>; its states keep \<open>platform_inv\<close>, that a succeeded run holds an answer of its role's type.
  \<^item> \<open>Tracing\<close> (\<open>intelliqx_observability/tracing.py\<close>): spans as the list of the calls made on them, and \<open>invoke\<close> with its span.
  \<^item> \<open>AgentBase\<close> (\<open>intelliqx_agents/base.py\<close>, \<open>decorators.py\<close>): an agent class with its input and output models as parameters,
    its \<open>invoke\<close>, the tracing decorator, and the way of a queued run to the agent.
  \<^item> \<open>AiEmbed\<close> (\<open>intelliqx_ai/runtime.py\<close>, \<open>intelliqx_okf/llm_embed.py\<close>): the embedding model over the exchange \<open>http\<close>, and its
    adapter, for a thread with a running event loop as the step relation \<open>loop_step\<close>.
  \<^item> \<open>SelfImprove\<close>, \<open>SgirRun\<close>, \<open>ParsedGraphs\<close> (\<open>scripts/self_improve.py\<close>): the auditors and the fixers over files and syntax
    trees; the whole pipeline in one call, composed of the models above, and the script; and what follows for the graphs of
    parsed repositories.

  \<^bold>\<open>What the lemmas show.\<close>  Of the queue and the service: no run is ever held by two workers or handed out
  more often than its budget says, a finished run stays as it is, fair workers drain the queue, and a failed run is never tried again.
  Of the optimizer: each pass is characterised by what it removes and keeps, a pass that loses a live node is rolled
  back, the pipeline is total, and a graph without entry points loses everything.  Of the builders and
  the parser: the graphs are well formed, the call edges are those between known functions, and the visitor
  equals a scope-passing reference without its stack.  Of the indexes and stores: written data is read
  back, searches stay within bounds, and the cases in which neither holds.  Of logging: keys and values
  that are sensitive do not reach a sink, and what the patterns miss.  Of the script: the pipeline ends on every directory,
  a dry run changes nothing, the fixer of imports changes lines of unused imports only, and what it takes with them.  Of
  agents and tracing: a queued run reaches its agent, an answer has the type of its role, spans do not change answers, and
  the default embedder does not fit the index.  Of the JSON boundaries: graphs, entities and manifests survive them.

  \<^bold>\<open>State, errors and loops.\<close>  State is a record that every operation takes and returns; an exception is
  the left side of a sum, so each raise and early return is a branch.  Time, random choices and the order in
  which Python visits a set are arguments.  Floats are rationals.  Strings are lists of eight-bit characters; where a text
  file is read and what comes back is at issue, its line ends are translated (\<open>universal_newlines\<close>).
  Recursion is structural or has a termination proof; the breadth-first search of \<open>OptPasses\<close> ends because
  each turn marks a node or shortens the queue.  Fuel occurs in three places.  The levels of parallel branches
  take one turn per node and one more (\<open>parallel_levels_complete\<close>).  A repetition in a regular expression
  goes round at most once per remaining character (\<open>iterate_enough\<close>).  \<open>Tools.acquire\<close> and
  \<open>Service.worker_loop\<close> are the code's unbounded loops, cut after a number of turns that is an
  argument: what holds for every number holds for the loop, and \<open>None\<close> means that it is still waiting.

  \<^bold>\<open>Not modelled.\<close>  Pydantic's conversions between types, SQLite's and DuckDB's evaluation of SQL, YAML, the text of JSON,
  the OpenTelemetry SDK, language models and Loguru's own dispatch are parameters or left out.  Of the HTTP service the
  framework and JSON decoding are left out, and time stamps of graphs are dropped; of the script, its log
  lines, its arguments and the JSON text of its report.  Package exports and the abstract bases have no code of their own.
\<close>

end
